(* ===== verification/Prelude.thy ===== *)
theory Prelude
  imports "HOL-Library.Word" "HOL-Library.List_Lexorder" "HOL-Library.Char_ord"
begin

text \<open>
  Vocabulary shared by every component of the gateway: the Go value types the
  sources use (byte, UUID, time, duration, error), the sentinel errors of the
  domain packages with \<open>errors.Is\<close> and \<open>Error()\<close>, lemmas on searches and
  in-place updates of lists of rows, and the contract of a status machine
  that the grant and the review life cycles both satisfy.

  \<^item> A Go \<open>string\<close> is a \<^typ>\<open>string\<close>, one character per byte.
  \<^item> A \<open>time.Time\<close> and a \<open>time.Duration\<close> are integers (nanoseconds). The
    clock is an argument of every operation that reads \<open>time.Now()\<close>.
  \<^item> A Go \<open>int\<close> (64 bits) is an \<^typ>\<open>int\<close>; a conversion to a narrower type is
    written out where the code makes one.
  \<^item> A call that returns \<open>(T, error)\<close> returns a sum: \<open>Inl\<close> the error.
\<close>

named_theorems row_simps \<open>rewriting of searches and updates on lists of rows\<close>
named_theorems machine_simps \<open>transition tables of the status machines\<close>

type_synonym byte = "8 word"
type_synonym time = int
type_synonym duration = int

subsection \<open>Errors\<close>

text \<open>The sentinel errors of packages domain, delegation, model, tool and
  guardrail, the standard library's \<open>sql.ErrNoRows\<close>, the two context errors,
  and the errors built at run time: \<open>Errorf\<close> for \<open>errors.New\<close> and
  \<open>fmt.Errorf\<close> without \<open>%w\<close>, \<open>Wrapf\<close> for \<open>fmt.Errorf("<text>: %w", err)\<close>,
  \<open>PgError\<close> for a Postgres error with its SQLSTATE code.\<close>

datatype go_error =
    ErrNotFound | ErrConflict | ErrUnauthorized | ErrForbidden | ErrValidation
  | ErrRateLimited | ErrGuardrailViolation | ErrTenantMismatch | ErrRLSViolation
  | ErrReplayDetected | ErrExpired | ErrInvalidToken | ErrInvalidCredentials
  | ErrReviewNotPending | ErrNotImplemented
  | ErrScopeIntersectionEmpty | ErrCrossTenantDelegationProhibited
  | ErrDepthLimitExceeded | ErrFanOutLimitExceeded | ErrBudgetExhausted
  | ErrCycleDetected | ErrGrantRevokedOrConsumed | ErrInvalidGrantTransition
  | ErrProviderUnavailable | ErrProviderTimeout | ErrProviderRateLimited
  | ErrProviderAuthFailed | ErrProviderInvalidRequest | ErrNoHealthyProvider
  | ErrToolNotFound | ErrToolDefinitionMismatch | ErrToolTimeout
  | ErrToolResourceExhausted | ErrToolExecutionFailed | ErrToolNotAllowed
  | ErrMaxIterationsExceeded | ErrToolRepository
  | SqlErrNoRows | CtxCanceled | CtxDeadlineExceeded
  | Errorf string | Wrapf string go_error | PgError string string

type_synonym 'a result = "go_error + 'a"

text \<open>\<open>err.Error()\<close>.\<close>

primrec error_text :: "go_error \<Rightarrow> string" where
  "error_text ErrNotFound = ''resource not found''"
| "error_text ErrConflict = ''resource conflict''"
| "error_text ErrUnauthorized = ''unauthorized''"
| "error_text ErrForbidden = ''forbidden''"
| "error_text ErrValidation = ''validation failed''"
| "error_text ErrRateLimited = ''rate limited''"
| "error_text ErrGuardrailViolation = ''guardrail violation''"
| "error_text ErrTenantMismatch = ''tenant mismatch''"
| "error_text ErrRLSViolation = ''RLS violation''"
| "error_text ErrReplayDetected = ''replay detected''"
| "error_text ErrExpired = ''expired''"
| "error_text ErrInvalidToken = ''invalid token''"
| "error_text ErrInvalidCredentials = ''invalid credentials''"
| "error_text ErrReviewNotPending = ''review not pending''"
| "error_text ErrNotImplemented = ''not implemented''"
| "error_text ErrScopeIntersectionEmpty = ''scope intersection is empty''"
| "error_text ErrCrossTenantDelegationProhibited = ''cross-tenant delegation is prohibited''"
| "error_text ErrDepthLimitExceeded = ''delegation depth limit exceeded''"
| "error_text ErrFanOutLimitExceeded = ''delegation fan-out limit exceeded''"
| "error_text ErrBudgetExhausted = ''delegation budget exhausted''"
| "error_text ErrCycleDetected = ''delegation cycle detected''"
| "error_text ErrGrantRevokedOrConsumed = ''grant is revoked or consumed''"
| "error_text ErrInvalidGrantTransition = ''invalid grant status transition''"
| "error_text ErrProviderUnavailable = ''provider unavailable''"
| "error_text ErrProviderTimeout = ''provider timeout''"
| "error_text ErrProviderRateLimited = ''provider rate limited''"
| "error_text ErrProviderAuthFailed = ''provider authentication failed''"
| "error_text ErrProviderInvalidRequest = ''provider invalid request''"
| "error_text ErrNoHealthyProvider = ''no healthy provider available''"
| "error_text ErrToolNotFound = ''tool not found''"
| "error_text ErrToolDefinitionMismatch = ''tool definition mismatch''"
| "error_text ErrToolTimeout = ''tool execution timeout''"
| "error_text ErrToolResourceExhausted = ''tool resource exhausted (fuel/memory)''"
| "error_text ErrToolExecutionFailed = ''tool execution failed''"
| "error_text ErrToolNotAllowed = ''tool not allowed (HITL rejected)''"
| "error_text ErrMaxIterationsExceeded = ''max iterations exceeded''"
| "error_text ErrToolRepository = ''tool repository unavailable''"
| "error_text SqlErrNoRows = ''sql: no rows in result set''"
| "error_text CtxCanceled = ''context canceled''"
| "error_text CtxDeadlineExceeded = ''context deadline exceeded''"
| "error_text (Errorf s) = s"
| "error_text (Wrapf s e) = s @ '': '' @ error_text e"
| "error_text (PgError c m) = m @ '' (SQLSTATE '' @ c @ '')''"

text \<open>\<open>errors.Is(err, target)\<close> for a sentinel target: err itself or anything
  it wraps. Two errors built at run time are different pointers, so such an
  error never matches.\<close>

definition is_sentinel :: "go_error \<Rightarrow> bool" where
  "is_sentinel e = (case e of Errorf _ \<Rightarrow> False | Wrapf _ _ \<Rightarrow> False | PgError _ _ \<Rightarrow> False | _ \<Rightarrow> True)"

fun errors_is :: "go_error \<Rightarrow> go_error \<Rightarrow> bool" where
  "errors_is (Wrapf s e) t = errors_is e t"
| "errors_is e t = (is_sentinel e \<and> e = t)"

lemma errors_is_refl: "is_sentinel e \<Longrightarrow> errors_is e e"
  by (cases e) (simp_all add: is_sentinel_def)

text \<open>What happens to one Redis command on its way: it is served, it never reaches
  Redis, or it runs and the reply is lost.\<close>

datatype redis_link = Link_up | Link_down go_error | Reply_lost go_error

subsection \<open>Tables\<close>

text \<open>A table is the list of its rows in insertion order. \<open>List.find\<close> is a
  \<open>SELECT ... WHERE\<close> that expects one row; \<open>update_rows\<close> is
  \<open>UPDATE ... SET ... WHERE\<close>, \<open>count_rows\<close> is \<open>COUNT(*)\<close> (and the number of
  rows an update affects).\<close>

definition update_rows :: "('r \<Rightarrow> bool) \<Rightarrow> ('r \<Rightarrow> 'r) \<Rightarrow> 'r list \<Rightarrow> 'r list" where
  "update_rows P f rs = map (\<lambda>r. if P r then f r else r) rs"

definition count_rows :: "('r \<Rightarrow> bool) \<Rightarrow> 'r list \<Rightarrow> nat" where
  "count_rows P rs = length (filter P rs)"

lemma update_rows_simps [simp, row_simps]:
  "update_rows P f [] = []"
  "update_rows P f (r # rs) = (if P r then f r else r) # update_rows P f rs"
  "update_rows P f (rs @ ss) = update_rows P f rs @ update_rows P f ss"
  "length (update_rows P f rs) = length rs"
  by (simp_all add: update_rows_def)

lemma count_rows_simps [simp, row_simps]:
  "count_rows P [] = 0"
  "count_rows P (r # rs) = (if P r then Suc (count_rows P rs) else count_rows P rs)"
  "count_rows P (rs @ ss) = count_rows P rs + count_rows P ss"
  by (simp_all add: count_rows_def)

lemma in_update_rows:
  "x \<in> set (update_rows P f rs) \<longleftrightarrow>
     (\<exists>r\<in>set rs. x = (if P r then f r else r))"
  by (auto simp: update_rows_def)

lemma count_rows_0: "count_rows P rs = 0 \<longleftrightarrow> (\<forall>r\<in>set rs. \<not> P r)"
  by (auto simp: count_rows_def filter_empty_conv)

lemma count_rows_cong:
  "(\<And>r. r \<in> set rs \<Longrightarrow> P r = Q r) \<Longrightarrow> count_rows P rs = count_rows Q rs"
  unfolding count_rows_def by (metis filter_cong)

lemma update_rows_id: "(\<And>r. r \<in> set rs \<Longrightarrow> \<not> P r) \<Longrightarrow> update_rows P f rs = rs"
  by (induction rs) auto

lemma filter_update_rows_frame:
  assumes "\<And>r. r \<in> set rs \<Longrightarrow> P r \<Longrightarrow> \<not> Q r \<and> \<not> Q (f r)"
  shows "filter Q (update_rows P f rs) = filter Q rs"
  using assms by (induction rs) auto

lemma map_update_rows:
  "(\<And>r. k (f r) = k r) \<Longrightarrow> map k (update_rows P f rs) = map k rs"
  by (induction rs) auto

lemma find_update_rows:
  assumes "\<And>r. Q (f r) = Q r"
  shows "List.find Q (update_rows P f rs) =
    map_option (\<lambda>r. if P r then f r else r) (List.find Q rs)"
  using assms by (induction rs) auto

lemma find_SomeD: "List.find P xs = Some x \<Longrightarrow> x \<in> set xs \<and> P x"
  by (induction xs) (auto split: if_splits)

lemma find_append [simp, row_simps]:
  "List.find P (xs @ ys) = (case List.find P xs of None \<Rightarrow> List.find P ys | Some x \<Rightarrow> Some x)"
  by (induction xs) auto

subsection \<open>Status machines\<close>

text \<open>The contract of a life cycle: a transition table in which a terminal
  status allows nothing, and a rank that every allowed transition raises.\<close>

locale status_machine =
  fixes can_go :: "'s \<Rightarrow> 's \<Rightarrow> bool"
    and terminal :: "'s \<Rightarrow> bool"
    and rank :: "'s \<Rightarrow> nat"
    and top :: nat
  assumes terminal_stuck: "terminal s \<Longrightarrow> \<not> can_go s t"
    and rank_up: "can_go s t \<Longrightarrow> rank s < rank t"
    and rank_top: "can_go s t \<Longrightarrow> rank t \<le> top"
begin

text \<open>\<open>follow s ts\<close> requests the statuses \<open>ts\<close> one after the other; a refused
  request leaves the status alone. The second component counts the requests
  that were granted.\<close>

fun follow :: "'s \<Rightarrow> 's list \<Rightarrow> 's \<times> nat" where
  "follow s [] = (s, 0)"
| "follow s (t # ts) =
     (if can_go s t then (let (s', n) = follow t ts in (s', Suc n)) else follow s ts)"

lemma follow_terminal: "terminal s \<Longrightarrow> follow s ts = (s, 0)"
  by (induction ts) (auto simp: terminal_stuck)

lemma follow_rank: "follow s ts = (s', n) \<Longrightarrow> rank s + n \<le> rank s'"
proof (induction ts arbitrary: s s' n)
  case (Cons t ts)
  show ?case
  proof (cases "can_go s t")
    case True
    then obtain m where "follow t ts = (s', m)" "n = Suc m"
      using Cons.prems by (auto split: prod.splits)
    then show ?thesis using Cons.IH[of t s' m] rank_up[OF True] by simp
  qed (use Cons in auto)
qed simp

lemma follow_top: "rank s \<le> top \<Longrightarrow> follow s ts = (s', n) \<Longrightarrow> rank s' \<le> top"
proof (induction ts arbitrary: s s' n)
  case (Cons t ts)
  show ?case
  proof (cases "can_go s t")
    case True
    then obtain m where "follow t ts = (s', m)"
      using Cons.prems by (auto split: prod.splits)
    then show ?thesis using Cons.IH rank_top[OF True] by blast
  qed (use Cons in auto)
qed simp

lemma follow_bounded: "rank s \<le> top \<Longrightarrow> follow s ts = (s', n) \<Longrightarrow> n \<le> top - rank s"
  using follow_rank[of s ts s' n] follow_top[of s ts s' n] by simp

lemma no_way_back: "can_go s t \<Longrightarrow> \<not> can_go t s"
  using rank_up by (meson less_asym)

end

subsection \<open>Metered services\<close>

text \<open>The contract of a service that spends from per-key pools: admitting a
  charged request takes at least one unit from its pool, and no request ever
  fills a pool up.\<close>

locale metered =
  fixes level :: "'k \<Rightarrow> 's \<Rightarrow> nat"
    and serve :: "'req \<Rightarrow> 's \<Rightarrow> 's \<times> bool"
    and meter :: "'req \<Rightarrow> 'k"
    and charged :: "'req \<Rightarrow> bool"
  assumes admit: "charged r \<Longrightarrow> snd (serve r s) \<Longrightarrow>
      level (meter r) (fst (serve r s)) < level (meter r) s"
    and antitone: "level k (fst (serve r s)) \<le> level k s"
begin

primrec run :: "'req list \<Rightarrow> 's \<Rightarrow> 's" where
  "run [] s = s"
| "run (r # rs) s = run rs (fst (serve r s))"

text \<open>The charged requests on pool \<open>k\<close> that a run admits.\<close>

primrec admitted :: "'k \<Rightarrow> 'req list \<Rightarrow> 's \<Rightarrow> nat" where
  "admitted k [] s = 0"
| "admitted k (r # rs) s =
     (if charged r \<and> meter r = k \<and> snd (serve r s) then 1 else 0) + admitted k rs (fst (serve r s))"

lemma admitted_within_level: "admitted k rs s + level k (run rs s) \<le> level k s"
proof (induction rs arbitrary: s)
  case (Cons r rs)
  show ?case
  proof (cases "charged r \<and> meter r = k \<and> snd (serve r s)")
    case True
    then show ?thesis using Cons[of "fst (serve r s)"] admit[of r s] by auto
  next
    case False
    then show ?thesis using Cons[of "fst (serve r s)"] antitone[of k r s] by auto
  qed
qed simp

lemma exhausted_stays: "level k s = 0 \<Longrightarrow> admitted k rs s = 0"
  using admitted_within_level[of k rs s] by simp

end

end
