(* ===== verification/Uuid.thy ===== *)
theory Uuid
  imports Prelude
begin

unbundle bit_operations_syntax

text \<open>
  \<open>src/internal/domain/uuid.go\<close>: the 128-bit identifiers every other component
  keys its data with, their canonical text and the parser. A UUID is the list
  of its sixteen bytes; \<open>wf_uuid\<close> is the array length of the Go type. The
  part of the standard library the file uses (\<open>encoding/hex\<close>, \<open>%x\<close>,
  \<open>strings.ReplaceAll\<close> with a one-byte pattern) is modelled here as well.
\<close>

type_synonym uuid = "byte list"

definition wf_uuid :: "uuid \<Rightarrow> bool" where
  "wf_uuid u = (length u = 16)"

definition zero_uuid :: uuid where
  "zero_uuid = replicate 16 0"

definition IsZero :: "uuid \<Rightarrow> bool" where
  "IsZero u = (u = zero_uuid)"

definition Equal :: "uuid \<Rightarrow> uuid \<Rightarrow> bool" where
  "Equal u v = (u = v)"

subsection \<open>Hexadecimal text\<close>

definition hex_digits :: string where
  "hex_digits = ''0123456789abcdef''"

definition hex_char :: "nat \<Rightarrow> char" where
  "hex_char n = hex_digits ! n"

text \<open>\<open>fromHexChar\<close> of \<open>encoding/hex\<close>: both cases are digits.\<close>

definition from_hex_char :: "char \<Rightarrow> nat option" where
  "from_hex_char c = (let n = of_char c :: nat in
     if 48 \<le> n \<and> n \<le> 57 then Some (n - 48)
     else if 97 \<le> n \<and> n \<le> 102 then Some (n - 87)
     else if 65 \<le> n \<and> n \<le> 70 then Some (n - 55)
     else None)"

definition hex_byte :: "byte \<Rightarrow> string" where
  "hex_byte b = [hex_char (unat b div 16), hex_char (unat b mod 16)]"

text \<open>\<open>%x\<close> of a byte slice, and \<open>hex.EncodeToString\<close>.\<close>

definition hex_encode :: "byte list \<Rightarrow> string" where
  "hex_encode bs = concat (map hex_byte bs)"

text \<open>\<open>hex.DecodeString\<close>: an invalid digit is reported before an odd length.\<close>

fun hex_decode :: "string \<Rightarrow> byte list result" where
  "hex_decode [] = Inr []"
| "hex_decode [c] = (case from_hex_char c of
     None \<Rightarrow> Inl (Errorf ''encoding/hex: invalid byte'')
   | Some _ \<Rightarrow> Inl (Errorf ''encoding/hex: odd length hex string''))"
| "hex_decode (c # d # cs) = (case from_hex_char c of
     None \<Rightarrow> Inl (Errorf ''encoding/hex: invalid byte'')
   | Some a \<Rightarrow> (case from_hex_char d of
       None \<Rightarrow> Inl (Errorf ''encoding/hex: invalid byte'')
     | Some b \<Rightarrow> (case hex_decode cs of
         Inl e \<Rightarrow> Inl e
       | Inr bs \<Rightarrow> Inr (word_of_nat (16 * a + b) # bs))))"

definition hyphen :: char where
  "hyphen = CHR ''-''"

text \<open>\<open>strings.ReplaceAll(s, "-", "")\<close>.\<close>

definition strip_hyphens :: "string \<Rightarrow> string" where
  "strip_hyphens s = filter (\<lambda>c. c \<noteq> hyphen) s"

subsection \<open>The operations\<close>

text \<open>\<open>NewUUID\<close>, the sixteen bytes \<open>rand.Read\<close> delivers being its argument.\<close>

definition NewUUID :: "byte list \<Rightarrow> uuid" where
  "NewUUID rnd =
     (let u = rnd[6 := ((rnd ! 6) AND 0x0f) OR 0x40]
      in u[8 := ((u ! 8) AND 0x3f) OR 0x80])"

definition UUID_String :: "uuid \<Rightarrow> string" where
  "UUID_String u =
     hex_encode (take 4 u) @ [hyphen]
     @ hex_encode (take 2 (drop 4 u)) @ [hyphen]
     @ hex_encode (take 2 (drop 6 u)) @ [hyphen]
     @ hex_encode (take 2 (drop 8 u)) @ [hyphen]
     @ hex_encode (take 6 (drop 10 u))"

definition ParseUUID :: "string \<Rightarrow> uuid result" where
  "ParseUUID s = (case hex_decode (strip_hyphens s) of
     Inl e \<Rightarrow> Inl e
   | Inr b \<Rightarrow> if length b \<noteq> 16 then Inl (Errorf ''invalid UUID length'') else Inr b)"

text \<open>\<open>MustParseUUID\<close>: None is the panic.\<close>

definition MustParseUUID :: "string \<Rightarrow> uuid option" where
  "MustParseUUID s = (case ParseUUID s of Inl e \<Rightarrow> None | Inr u \<Rightarrow> Some u)"

subsection \<open>Hexadecimal text is faithful\<close>

lemma hex_char_less16:
  assumes "n < 16"
  shows "from_hex_char (hex_char n) = Some n" and "hex_char n \<noteq> hyphen"
proof -
  have "\<forall>n \<in> set [0..<16]. from_hex_char (hex_char n) = Some n \<and> hex_char n \<noteq> hyphen"
    by code_simp
  then show "from_hex_char (hex_char n) = Some n" and "hex_char n \<noteq> hyphen"
    using assms by auto
qed

lemma unat_byte: "unat (b :: byte) < 256"
proof -
  have "unat b < 2 ^ LENGTH(8)" by (rule unsigned_less)
  then show ?thesis by simp
qed

lemma hex_decode_byte:
  "hex_decode (hex_byte b @ cs) =
     (case hex_decode cs of Inl e \<Rightarrow> Inl e | Inr bs \<Rightarrow> Inr (b # bs))"
  using unat_byte[of b]
  by (simp add: hex_byte_def hex_char_less16 split: sum.splits)

lemma hex_decode_encode [simp]: "hex_decode (hex_encode bs) = Inr bs"
  by (induction bs) (simp_all add: hex_encode_def hex_decode_byte)

lemma hex_decode_length: "hex_decode s = Inr bs \<Longrightarrow> length s = 2 * length bs"
  by (induction s arbitrary: bs rule: hex_decode.induct)
    (auto split: option.splits sum.splits)

lemma length_hex_encode [simp]: "length (hex_encode bs) = 2 * length bs"
  by (induction bs) (simp_all add: hex_encode_def hex_byte_def)

lemma hex_encode_append: "hex_encode (xs @ ys) = hex_encode xs @ hex_encode ys"
  by (simp add: hex_encode_def)

lemma strip_hyphens_simps [simp]:
  "strip_hyphens [] = []"
  "strip_hyphens (xs @ ys) = strip_hyphens xs @ strip_hyphens ys"
  "strip_hyphens [hyphen] = []"
  "strip_hyphens (hyphen # xs) = strip_hyphens xs"
  by (simp_all add: strip_hyphens_def)

lemma hyphen_free_hex: "hyphen \<notin> set (hex_encode bs)"
proof (induction bs)
  case (Cons b bs)
  have "unat b div 16 < 16" "unat b mod 16 < 16" using unat_byte[of b] by simp_all
  then show ?case
    using Cons hex_char_less16(2)[of "unat b div 16"] hex_char_less16(2)[of "unat b mod 16"]
    by (simp add: hex_encode_def hex_byte_def eq_commute[of hyphen])
qed (simp add: hex_encode_def)

lemma strip_hex [simp]: "strip_hyphens (hex_encode bs) = hex_encode bs"
  using hyphen_free_hex[of bs] unfolding strip_hyphens_def
  by (metis (mono_tags, lifting) filter_True)

lemma take_drop_chunks:
  assumes "length u = 16"
  shows "take 4 u @ take 2 (drop 4 u) @ take 2 (drop 6 u) @ take 2 (drop 8 u) @ take 6 (drop 10 u) = u"
proof -
  have "take 6 (drop 10 u) = drop 10 u" using assms by simp
  moreover have "take 2 (drop 8 u) @ drop 10 u = drop 8 u"
    using append_take_drop_id[of 2 "drop 8 u"] by simp
  moreover have "take 2 (drop 6 u) @ drop 8 u = drop 6 u"
    using append_take_drop_id[of 2 "drop 6 u"] by simp
  moreover have "take 2 (drop 4 u) @ drop 6 u = drop 4 u"
    using append_take_drop_id[of 2 "drop 4 u"] by simp
  ultimately show ?thesis by simp
qed

lemma strip_UUID_String: "wf_uuid u \<Longrightarrow> strip_hyphens (UUID_String u) = hex_encode u"
  using take_drop_chunks[of u]
  by (simp add: UUID_String_def wf_uuid_def flip: hex_encode_append)

lemma parse_string: "wf_uuid u \<Longrightarrow> ParseUUID (UUID_String u) = Inr u"
  by (simp add: ParseUUID_def strip_UUID_String wf_uuid_def)

lemma UUID_String_inj: "wf_uuid u \<Longrightarrow> wf_uuid v \<Longrightarrow> UUID_String u = UUID_String v \<Longrightarrow> u = v"
  by (metis parse_string sum.inject(2))

lemma ParseUUID_wf: "ParseUUID s = Inr u \<Longrightarrow> wf_uuid u"
  by (auto simp: ParseUUID_def wf_uuid_def split: sum.splits if_splits)

lemma NewUUID_wf: "wf_uuid rnd \<Longrightarrow> wf_uuid (NewUUID rnd)"
  by (simp add: NewUUID_def wf_uuid_def Let_def)

subsection \<open>Properties\<close>

text \<open>Printing and parsing are inverse: the canonical text of a UUID has 36
  characters and parses back to it, and whatever \<open>ParseUUID\<close> accepts has
  sixteen bytes whose own text parses to the same UUID.\<close>

theorem uuid_print_parse:
  assumes "ParseUUID s = Inr u"
  shows "wf_uuid u \<and> ParseUUID (UUID_String u) = Inr u \<and> length (UUID_String u) = 36"
  using ParseUUID_wf[OF assms] parse_string[of u] by (simp add: UUID_String_def wf_uuid_def)

theorem uuid_print_parse_witness:
  "wf_uuid (replicate 15 0 @ [171]) \<and> ParseUUID (UUID_String (replicate 15 0 @ [171])) = Inr (replicate 15 0 @ [171])"
proof -
  have "ParseUUID ''00000000-0000-0000-0000-0000000000AB'' = Inr (replicate 15 0 @ [171])" by code_simp
  from uuid_print_parse[OF this] show ?thesis by blast
qed

end
