(* ===== verification/Delegation.thy ===== *)
theory Delegation
  imports Uuid
begin

text \<open>
  \<open>src/internal/domain/delegation\<close>: scope sets, the grant envelope, its life
  cycle and the validators of a delegation hop. A \<open>ScopeSet\<close> is the list of
  its strings; the nil slice that \<open>NewScopeSet\<close> returns and an empty slice are
  told apart only in a grant, whose \<open>grGrantedScope\<close> is an option. A
  \<open>GrantStatus\<close> is a string type in the code, so any text may come in; the
  five named constants are definitions.
\<close>

subsection \<open>Scope sets (grant.go)\<close>

type_synonym scope_set = "string list"

text \<open>The loop of \<open>NewScopeSet\<close>, with its \<open>seen\<close> map and its \<open>unique\<close> slice.\<close>

fun dedup_loop :: "string list \<Rightarrow> string set \<Rightarrow> string list \<Rightarrow> string list" where
  "dedup_loop [] seen unique = unique"
| "dedup_loop (s # ss) seen unique =
     (if s \<in> seen then dedup_loop ss seen unique
      else dedup_loop ss (insert s seen) (unique @ [s]))"

definition NewScopeSet :: "string list \<Rightarrow> scope_set" where
  "NewScopeSet scopes = (if scopes = [] then [] else sort (dedup_loop scopes {} []))"

definition Intersection :: "scope_set \<Rightarrow> scope_set \<Rightarrow> scope_set result" where
  "Intersection a b =
     (if a = [] \<or> b = [] then Inl ErrScopeIntersectionEmpty
      else let setB = set b; r = filter (\<lambda>s. s \<in> setB) a
           in if r = [] then Inl ErrScopeIntersectionEmpty else Inr (sort r))"

subsection \<open>The grant envelope\<close>

type_synonym grant_status = string

definition GrantStatusIssued :: grant_status where "GrantStatusIssued = ''issued''"
definition GrantStatusActive :: grant_status where "GrantStatusActive = ''active''"
definition GrantStatusRevoked :: grant_status where "GrantStatusRevoked = ''revoked''"
definition GrantStatusExpired :: grant_status where "GrantStatusExpired = ''expired''"
definition GrantStatusConsumed :: grant_status where "GrantStatusConsumed = ''consumed''"

lemmas grant_status_defs = GrantStatusIssued_def GrantStatusActive_def
  GrantStatusRevoked_def GrantStatusExpired_def GrantStatusConsumed_def

record grant =
  grGrantID :: uuid
  grParentGrantID :: "uuid option"
  grChainID :: uuid
  grTenantID :: uuid
  grDelegateIdentity :: string
  grGrantedScope :: "scope_set option"
  grRootIntent :: string
  grHITLClassification :: string
  grDepth :: int
  grGeneration :: int
  grExpiresAt :: time
  grBudgetRemaining :: int
  grStatus :: grant_status

definition HasParent :: "grant \<Rightarrow> bool" where
  "HasParent g = (grParentGrantID g \<noteq> None)"

definition IsExpired :: "time \<Rightarrow> grant \<Rightarrow> bool" where
  "IsExpired now g = (now > grExpiresAt g)"

text \<open>Ranging over a nil slice visits nothing.\<close>

definition EffectiveScope :: "grant \<Rightarrow> scope_set" where
  "EffectiveScope g = (case grGrantedScope g of None \<Rightarrow> [] | Some s \<Rightarrow> s)"

subsection \<open>Life cycle (lifecycle.go)\<close>

definition IsTerminal :: "grant_status \<Rightarrow> bool" where
  "IsTerminal s =
     (s = GrantStatusRevoked \<or> s = GrantStatusExpired \<or> s = GrantStatusConsumed)"

definition CanTransitionTo :: "grant_status \<Rightarrow> grant_status \<Rightarrow> bool" where
  "CanTransitionTo s target =
     (if IsTerminal s then False
      else if s = target then False
      else if s = GrantStatusIssued
        then target = GrantStatusActive \<or> target = GrantStatusRevoked \<or> target = GrantStatusExpired
      else if s = GrantStatusActive
        then target = GrantStatusRevoked \<or> target = GrantStatusExpired \<or> target = GrantStatusConsumed
      else False)"

definition ApplyTransition :: "grant_status \<Rightarrow> grant \<Rightarrow> grant \<times> go_error option" where
  "ApplyTransition target g =
     (if \<not> CanTransitionTo (grStatus g) target then (g, Some ErrInvalidGrantTransition)
      else (g\<lparr>grStatus := target\<rparr>, None))"

subsection \<open>Validators (validators.go)\<close>

definition defaultMaxDepth :: int where "defaultMaxDepth = 5"
definition defaultMaxFanOut :: int where "defaultMaxFanOut = 10"

definition ValidateScopeIntersection :: "scope_set \<Rightarrow> scope_set \<Rightarrow> scope_set result" where
  "ValidateScopeIntersection parentScope grantedScope = Intersection parentScope grantedScope"

definition ValidateDepth :: "int \<Rightarrow> int \<Rightarrow> go_error option" where
  "ValidateDepth depth maxDepth =
     (let maxDepth' = (if maxDepth \<le> 0 then defaultMaxDepth else maxDepth)
      in if depth \<ge> maxDepth' then Some ErrDepthLimitExceeded else None)"

definition ValidateFanOut :: "int \<Rightarrow> int \<Rightarrow> go_error option" where
  "ValidateFanOut activeChildren maxFanOut =
     (let maxFanOut' = (if maxFanOut \<le> 0 then defaultMaxFanOut else maxFanOut)
      in if activeChildren \<ge> maxFanOut' then Some ErrFanOutLimitExceeded else None)"

definition ValidateBudget :: "int \<Rightarrow> go_error option" where
  "ValidateBudget budgetRemaining =
     (if budgetRemaining \<le> 0 then Some ErrBudgetExhausted else None)"

definition ValidateTTL :: "time \<Rightarrow> grant option \<Rightarrow> go_error option" where
  "ValidateTTL now grant = (case grant of
     None \<Rightarrow> Some ErrGrantRevokedOrConsumed
   | Some g \<Rightarrow>
       if IsTerminal (grStatus g) then Some ErrGrantRevokedOrConsumed
       else if now > grExpiresAt g then Some ErrGrantRevokedOrConsumed
       else None)"

fun ValidateCycle :: "uuid \<Rightarrow> uuid list \<Rightarrow> go_error option" where
  "ValidateCycle delegateID [] = None"
| "ValidateCycle delegateID (ancestor # ancestors) =
     (if ancestor = delegateID then Some ErrCycleDetected
      else ValidateCycle delegateID ancestors)"

definition ValidateCrossTenant :: "uuid \<Rightarrow> uuid \<Rightarrow> go_error option" where
  "ValidateCrossTenant parentTenantID childTenantID =
     (if parentTenantID \<noteq> childTenantID then Some ErrCrossTenantDelegationProhibited else None)"

definition classificationRank :: "string \<Rightarrow> int" where
  "classificationRank c =
     (if c = ''required'' then 3 else if c = ''advisory'' then 2
      else if c = ''none'' then 1 else 0)"

definition classificationAtLeastAsStrict :: "string \<Rightarrow> string \<Rightarrow> bool" where
  "classificationAtLeastAsStrict parent child =
     (classificationRank child \<ge> classificationRank parent)"

definition ValidateHITLPropagation :: "grant option \<Rightarrow> grant \<Rightarrow> go_error option" where
  "ValidateHITLPropagation root child = (case root of
     None \<Rightarrow> None
   | Some r \<Rightarrow>
       if grRootIntent r \<noteq> grRootIntent child
         then Some (Errorf ''root intent mismatch: HITL propagation violated'')
       else if \<not> classificationAtLeastAsStrict (grHITLClassification r) (grHITLClassification child)
         then Some (Errorf ''hitl classification relaxed: HITL propagation violated'')
       else None)"

definition ValidateChainRevocation :: "int \<Rightarrow> int \<Rightarrow> go_error option" where
  "ValidateChainRevocation grantGeneration currentChainGeneration =
     (if grantGeneration < currentChainGeneration then Some ErrGrantRevokedOrConsumed else None)"

subsection \<open>Scope sets are sorted, free of duplicates, and only shrink\<close>

lemma dedup_loop_set: "set (dedup_loop ss seen un) = set un \<union> (set ss - seen)"
  by (induction ss seen un rule: dedup_loop.induct) auto

lemma dedup_loop_distinct:
  "distinct un \<Longrightarrow> set un \<subseteq> seen \<Longrightarrow> distinct (dedup_loop ss seen un)"
  by (induction ss seen un rule: dedup_loop.induct) auto

lemma dedup_loop_id:
  "distinct ss \<Longrightarrow> set ss \<inter> seen = {} \<Longrightarrow> dedup_loop ss seen un = un @ ss"
  by (induction ss seen un rule: dedup_loop.induct) auto

lemma NewScopeSet_props [simp]:
  "set (NewScopeSet ss) = set ss"
  "distinct (NewScopeSet ss)"
  "sorted (NewScopeSet ss)"
  by (auto simp: NewScopeSet_def dedup_loop_set dedup_loop_distinct)

lemma NewScopeSet_eq_iff: "NewScopeSet xs = NewScopeSet ys \<longleftrightarrow> set xs = set ys"
  by (metis NewScopeSet_props sorted_distinct_set_unique)

lemma NewScopeSet_idem: "NewScopeSet (NewScopeSet ss) = NewScopeSet ss"
  by (simp add: NewScopeSet_eq_iff)

lemma NewScopeSet_Nil [simp]: "NewScopeSet ss = [] \<longleftrightarrow> ss = []"
  by (metis NewScopeSet_props(1) set_empty)

lemma Intersection_Inr_iff:
  "Intersection a b = Inr r \<longleftrightarrow> set a \<inter> set b \<noteq> {} \<and> r = sort (filter (\<lambda>s. s \<in> set b) a)"
  by (auto simp: Intersection_def Let_def filter_empty_conv)

lemma Intersection_Inl_iff:
  "Intersection a b = Inl e \<longleftrightarrow> set a \<inter> set b = {} \<and> e = ErrScopeIntersectionEmpty"
  by (auto simp: Intersection_def Let_def filter_empty_conv)

lemma Intersection_NewScopeSet:
  assumes "set a \<inter> set b \<noteq> {}"
  shows "Intersection (NewScopeSet a) (NewScopeSet b) = Inr (NewScopeSet (filter (\<lambda>s. s \<in> set b) a))"
proof -
  let ?r = "sort (filter (\<lambda>s. s \<in> set b) (NewScopeSet a))"
  have "?r = NewScopeSet (filter (\<lambda>s. s \<in> set b) a)"
    by (intro sorted_distinct_set_unique) auto
  then show ?thesis using assms by (simp add: Intersection_Inr_iff)
qed

subsection \<open>The life cycle is a status machine\<close>

definition grant_rank :: "grant_status \<Rightarrow> nat" where
  "grant_rank s = (if IsTerminal s then 2 else if s = GrantStatusActive then 1 else 0)"

interpretation lifecycle: status_machine CanTransitionTo IsTerminal grant_rank 2
  by unfold_locales
    (auto simp: CanTransitionTo_def IsTerminal_def grant_rank_def grant_status_defs split: if_splits)

lemma ValidateCycle_iff [simp]:
  "ValidateCycle d as = None \<longleftrightarrow> d \<notin> set as"
  by (induction as) auto

text \<open>Requesting a list of statuses through \<open>ApplyTransition\<close>.\<close>

definition apply_transitions :: "grant_status list \<Rightarrow> grant \<Rightarrow> grant" where
  "apply_transitions ts g = fold (\<lambda>t h. fst (ApplyTransition t h)) ts g"

lemma apply_transitions_follow:
  "apply_transitions ts g = g\<lparr>grStatus := fst (lifecycle.follow (grStatus g) ts)\<rparr>"
proof (induction ts arbitrary: g)
  case (Cons t ts)
  then show ?case
    by (simp add: apply_transitions_def ApplyTransition_def split: prod.splits)
qed (simp add: apply_transitions_def)

primrec transitions_granted :: "grant_status list \<Rightarrow> grant \<Rightarrow> nat" where
  "transitions_granted [] g = 0"
| "transitions_granted (t # ts) g = (case ApplyTransition t g of
     (g', None) \<Rightarrow> Suc (transitions_granted ts g')
   | (g', Some e) \<Rightarrow> transitions_granted ts g')"

lemma transitions_granted_follow:
  "transitions_granted ts g = snd (lifecycle.follow (grStatus g) ts)"
  by (induction ts arbitrary: g) (simp_all add: ApplyTransition_def split: prod.splits)

lemma grant_rank_le2: "grant_rank s \<le> 2"
  by (simp add: grant_rank_def)

subsection \<open>Properties\<close>

text \<open>The intersection of two scope sets never widens either of them: on sets
  built by \<open>NewScopeSet\<close> it is the error exactly when they are disjoint, and
  otherwise the sorted, duplicate-free set of the scopes they share.\<close>

theorem scope_intersection_exact:
  "case Intersection (NewScopeSet a) (NewScopeSet b) of
     Inl e \<Rightarrow> e = ErrScopeIntersectionEmpty \<and> set a \<inter> set b = {}
   | Inr r \<Rightarrow> set r = set a \<inter> set b \<and> r \<noteq> [] \<and> sorted r \<and> distinct r"
proof (cases "set a \<inter> set b = {}")
  case True
  then have "Intersection (NewScopeSet a) (NewScopeSet b) = Inl ErrScopeIntersectionEmpty"
    by (simp add: Intersection_Inl_iff)
  with True show ?thesis by simp
next
  case False
  let ?r = "NewScopeSet (filter (\<lambda>s. s \<in> set b) a)"
  have "set ?r = set a \<inter> set b" by auto
  moreover have "?r \<noteq> []" using False by (auto simp: filter_empty_conv)
  ultimately show ?thesis using Intersection_NewScopeSet[OF False] by simp
qed

text \<open>However many transitions are requested of a grant, at most two are
  granted from \<open>issued\<close>, one from \<open>active\<close> and none from a terminal status, and
  the grant is unchanged exactly when none was granted; nothing but its status
  ever changes.\<close>

theorem grant_lifecycle_bounded:
  "transitions_granted ts g \<le> 2 - grant_rank (grStatus g)
   \<and> (transitions_granted ts g = 0) = (apply_transitions ts g = g)
   \<and> (\<exists>s. apply_transitions ts g = g\<lparr>grStatus := s\<rparr>)"
proof -
  obtain s n where f: "lifecycle.follow (grStatus g) ts = (s, n)" by (cases "lifecycle.follow (grStatus g) ts")
  have "n \<le> 2 - grant_rank (grStatus g)" using lifecycle.follow_bounded[OF grant_rank_le2 f] .
  moreover have "n = 0 \<longleftrightarrow> s = grStatus g"
  proof
    show "n = 0" if "s = grStatus g" using lifecycle.follow_rank[OF f] that by simp
    show "s = grStatus g" if "n = 0" using f that
      by (induction ts) (auto split: if_splits prod.splits)
  qed
  moreover have "g\<lparr>grStatus := s\<rparr> = g \<longleftrightarrow> s = grStatus g" by (cases g) auto
  ultimately show ?thesis
    using f by (auto simp: transitions_granted_follow apply_transitions_follow)
qed

end
