(* ===== verification/TenantTx.thy ===== *)
theory TenantTx
  imports Uuid "HOL-Library.Sublist"
begin

text \<open>
  \<open>src/internal/adapter/postgres/db.go\<close>: the three tenant-scoped transaction
  wrappers, over an abstract database state \<open>'db\<close>. A wrapped function on the
  pool runs on a connection of its own, so the wrapper's rollback does not
  undo it and the wrapper's \<open>app.current_tenant\<close> setting is not the one its
  row-level-security policy reads; a function that is handed the transaction
  has both. The substring test \<open>contains\<close> by which the repositories classify
  errors is here as well, and so is the noninterference contract of a table
  shared by tenants.
\<close>

text \<open>What the database and the driver do around one call: the failures of
  \<open>Begin\<close>, of \<open>set_config\<close>, of the statement and of \<open>Commit\<close>; whether the
  role is subject to row-level security; the tenant setting of the pool
  connection that serves the statement (None: not set); the driver's error
  for an empty result; the clock behind \<open>now()\<close>.\<close>

record pg_env =
  pgCtxErr :: "go_error option"
  pgBeginErr :: "go_error option"
  pgGucErr :: "go_error option"
  pgStmtErr :: "go_error option"
  pgCommitErr :: "go_error option"
  pgRls :: bool
  pgPoolGuc :: "uuid option"
  pgNoRows :: go_error
  pgNow :: time

type_synonym ('db, 'a) db_call = "'db \<Rightarrow> 'db \<times> 'a result"

text \<open>The \<open>USING\<close> and \<open>WITH CHECK\<close> policy of every tenanted table:
  \<open>tenant_id = current_setting('app.current_tenant', true)::uuid\<close>.\<close>

definition rls_ok :: "pg_env \<Rightarrow> uuid option \<Rightarrow> uuid \<Rightarrow> bool" where
  "rls_ok env guc rowTenant = (\<not> pgRls env \<or> guc = Some rowTenant)"

definition first_err :: "go_error option list \<Rightarrow> go_error option" where
  "first_err es = (case List.find (\<lambda>e. e \<noteq> None) es of None \<Rightarrow> None | Some e \<Rightarrow> e)"

definition WithTenant :: "pg_env \<Rightarrow> uuid \<Rightarrow> ('db, 'a) db_call \<Rightarrow> ('db, 'a) db_call" where
  "WithTenant env tenantID fn db =
     (case first_err [pgCtxErr env, pgBeginErr env] of
        Some e \<Rightarrow> (db, Inl e)
      | None \<Rightarrow> (case pgGucErr env of
          Some e \<Rightarrow> (db, Inl e)
        | None \<Rightarrow> (case fn db of
            (db', Inl e) \<Rightarrow> (db', Inl e)
          | (db', Inr x) \<Rightarrow> (case pgCommitErr env of
              Some e \<Rightarrow> (db', Inl e)
            | None \<Rightarrow> (db', Inr x)))))"

definition WithTenantTx ::
  "pg_env \<Rightarrow> uuid \<Rightarrow> (uuid option \<Rightarrow> ('db, 'a) db_call) \<Rightarrow> ('db, 'a) db_call" where
  "WithTenantTx env tenantID fn db =
     (case first_err [pgCtxErr env, pgBeginErr env] of
        Some e \<Rightarrow> (db, Inl e)
      | None \<Rightarrow> (case pgGucErr env of
          Some e \<Rightarrow> (db, Inl e)
        | None \<Rightarrow> (case fn (Some tenantID) db of
            (_, Inl e) \<Rightarrow> (db, Inl e)
          | (db', Inr x) \<Rightarrow> (case pgCommitErr env of
              Some e \<Rightarrow> (db, Inl e)
            | None \<Rightarrow> (db', Inr x)))))"

text \<open>\<open>WithTenantBackground\<close> replaces the request context by the background
  context, for its own calls and for the wrapped function.\<close>

definition WithTenantBackground ::
  "pg_env \<Rightarrow> uuid \<Rightarrow> (pg_env \<Rightarrow> ('db, 'a) db_call) \<Rightarrow> ('db, 'a) db_call" where
  "WithTenantBackground env tenantID fn db =
     (let bg = env\<lparr>pgCtxErr := None\<rparr> in
      case pgBeginErr bg of
        Some e \<Rightarrow> (db, Inl e)
      | None \<Rightarrow> (case pgGucErr bg of
          Some e \<Rightarrow> (db, Inl e)
        | None \<Rightarrow> (case fn bg db of
            (db', Inl e) \<Rightarrow> (db', Inl e)
          | (db', Inr x) \<Rightarrow> (case pgCommitErr bg of
              Some e \<Rightarrow> (db', Inl e)
            | None \<Rightarrow> (db', Inr x)))))"

text \<open>A statement fails with the context's error or an error of its own.\<close>

definition stmt :: "pg_env \<Rightarrow> ('db, 'a) db_call \<Rightarrow> ('db, 'a) db_call" where
  "stmt env run db = (case first_err [pgCtxErr env, pgStmtErr env] of
     Some e \<Rightarrow> (db, Inl e) | None \<Rightarrow> run db)"

definition calm :: "pg_env \<Rightarrow> bool" where
  "calm env = (pgCtxErr env = None \<and> pgBeginErr env = None \<and> pgGucErr env = None
     \<and> pgStmtErr env = None \<and> pgCommitErr env = None)"

lemma first_err_simps [simp]:
  "first_err [] = None"
  "first_err (None # es) = first_err es"
  "first_err (Some e # es) = Some e"
  by (simp_all add: first_err_def)

text \<open>A concrete server on which nothing fails, for the witnesses.\<close>

definition quiet_env :: pg_env where
  "quiet_env = \<lparr> pgCtxErr = None, pgBeginErr = None, pgGucErr = None, pgStmtErr = None,
     pgCommitErr = None, pgRls = True, pgPoolGuc = None,
     pgNoRows = Wrapf ''no rows in result set'' SqlErrNoRows, pgNow = 50 \<rparr>"

lemma quiet_env_calm [simp]: "calm quiet_env"
  by (simp add: calm_def quiet_env_def)

lemma WithTenant_calm: "calm env \<Longrightarrow> WithTenant env t fn db = fn db"
  by (auto simp: WithTenant_def calm_def split: prod.splits sum.splits)

lemma stmt_calm: "calm env \<Longrightarrow> stmt env run db = run db"
  by (simp add: stmt_def calm_def)

lemma WithTenantTx_calm:
  "calm env \<Longrightarrow> WithTenantTx env t fn db =
     (case fn (Some t) db of (db', Inl e) \<Rightarrow> (db, Inl e) | (db', Inr x) \<Rightarrow> (db', Inr x))"
  by (simp add: WithTenantTx_def calm_def split: prod.splits sum.splits)

lemma fst_WithTenant:
  "fst (WithTenant env t fn db) =
     (if pgCtxErr env = None \<and> pgBeginErr env = None \<and> pgGucErr env = None then fst (fn db) else db)"
  by (cases "pgCtxErr env"; cases "pgBeginErr env"; cases "pgGucErr env"; cases "pgCommitErr env")
    (auto simp: WithTenant_def split: prod.splits sum.splits)

lemma fst_case_result:
  "fst (case x of (tbl', Inl e) \<Rightarrow> (tbl', f e) | (tbl', Inr y) \<Rightarrow> (tbl', g y)) = fst x"
  by (cases x; cases "snd x") auto

lemma fst_stmt:
  "fst (stmt env run db) =
     (if pgCtxErr env = None \<and> pgStmtErr env = None then fst (run db) else db)"
  by (cases "pgCtxErr env"; cases "pgStmtErr env") (simp_all add: stmt_def)

lemma WithTenant_db_cases:
  "fst (WithTenant env t fn db) = db \<or> fst (WithTenant env t fn db) = fst (fn db)"
  by (auto simp: WithTenant_def split: prod.splits sum.splits option.splits)

lemma WithTenant_answered:
  "snd (WithTenant env t fn db) = Inr x \<Longrightarrow>
    pgCtxErr env = None \<and> pgBeginErr env = None \<and> pgGucErr env = None \<and> snd (fn db) = Inr x"
  by (cases "pgCtxErr env"; cases "pgBeginErr env"; cases "pgGucErr env")
    (auto simp: WithTenant_def split: prod.splits sum.splits option.splits)

lemma stmt_answered:
  "snd (stmt env run db) = Inr x \<Longrightarrow> pgCtxErr env = None \<and> pgStmtErr env = None \<and> snd (run db) = Inr x"
  by (cases "pgCtxErr env"; cases "pgStmtErr env") (auto simp: stmt_def)

lemma WithTenant_InrD:
  "snd (WithTenant env t fn db) = Inr x \<Longrightarrow> snd (fn db) = Inr x"
  by (auto simp: WithTenant_def split: prod.splits sum.splits option.splits)

lemma stmt_db_cases: "fst (stmt env run db) = db \<or> fst (stmt env run db) = fst (run db)"
  by (auto simp: stmt_def split: option.splits)

lemma stmt_InrD: "snd (stmt env run db) = Inr x \<Longrightarrow> snd (run db) = Inr x"
  by (auto simp: stmt_def split: option.splits)

lemma WithTenantTx_atomic:
  "snd (WithTenantTx env t fn db) = Inl e \<Longrightarrow> fst (WithTenantTx env t fn db) = db"
  by (auto simp: WithTenantTx_def split: prod.splits sum.splits option.splits)

subsection \<open>Substring test (audit_repository.go)\<close>

definition findSubstring :: "string \<Rightarrow> string \<Rightarrow> bool" where
  "findSubstring s substr = list_ex (\<lambda>i. take (length substr) (drop i s) = substr)
     [0..<(if length substr \<le> length s then Suc (length s - length substr) else 0)]"

definition contains :: "string \<Rightarrow> string \<Rightarrow> bool" where
  "contains s substr = (length s \<ge> length substr \<and>
     (s = substr \<or> length s > 0 \<and> findSubstring s substr))"

lemma findSubstring_alt:
  "findSubstring s sub \<longleftrightarrow>
     (\<exists>i. i + length sub \<le> length s \<and> take (length sub) (drop i s) = sub)"
proof -
  let ?n = "if length sub \<le> length s then Suc (length s - length sub) else 0"
  have "i < ?n \<longleftrightarrow> i + length sub \<le> length s" for i by auto
  then show ?thesis by (simp add: findSubstring_def list_ex_iff Bex_def)
qed

lemma findSubstring_iff: "findSubstring s sub \<longleftrightarrow> sublist sub s"
proof
  assume "findSubstring s sub"
  then obtain i where i: "take (length sub) (drop i s) = sub"
    unfolding findSubstring_alt by blast
  have "s = take i s @ take (length sub) (drop i s) @ drop (length sub) (drop i s)"
    by (simp only: append_take_drop_id)
  then show "sublist sub s" unfolding i sublist_def by blast
next
  assume "sublist sub s"
  then obtain p q where s: "s = p @ sub @ q" by (auto simp: sublist_def)
  then have "length p + length sub \<le> length s \<and> take (length sub) (drop (length p) s) = sub"
    by simp
  then show "findSubstring s sub" unfolding findSubstring_alt by blast
qed

lemma contains_iff: "contains s sub \<longleftrightarrow> sublist sub s"
  by (auto simp: contains_def findSubstring_iff sublist_length_le)

subsection \<open>Tables shared by tenants\<close>

text \<open>The contract of a shared table: every operation belongs to one tenant,
  leaves the rows of the others as they are, and what it does to its own
  tenant's rows depends on those rows alone.\<close>

locale tenant_table =
  fixes tenant_of :: "'r \<Rightarrow> uuid"
    and op_tenant :: "'op \<Rightarrow> uuid"
    and exec :: "'op \<Rightarrow> 'r list \<Rightarrow> 'r list"
  assumes frame: "t \<noteq> op_tenant op \<Longrightarrow>
      filter (\<lambda>r. tenant_of r = t) (exec op rs) = filter (\<lambda>r. tenant_of r = t) rs"
    and local: "filter (\<lambda>r. tenant_of r = op_tenant op) rs =
        filter (\<lambda>r. tenant_of r = op_tenant op) rs' \<Longrightarrow>
      filter (\<lambda>r. tenant_of r = op_tenant op) (exec op rs) =
        filter (\<lambda>r. tenant_of r = op_tenant op) (exec op rs')"
begin

definition view :: "uuid \<Rightarrow> 'r list \<Rightarrow> 'r list" where
  "view t rs = filter (\<lambda>r. tenant_of r = t) rs"

definition run :: "'op list \<Rightarrow> 'r list \<Rightarrow> 'r list" where
  "run ops rs = fold exec ops rs"

lemma view_run_cong:
  assumes "view t rs = view t rs'" and "\<And>op. op \<in> set ops \<Longrightarrow> op_tenant op = t"
  shows "view t (run ops rs) = view t (run ops rs')"
  using assms
proof (induction ops arbitrary: rs rs')
  case (Cons op ops)
  from Cons.prems have "view t (exec op rs) = view t (exec op rs')"
    using local[of op rs rs'] by (simp add: view_def)
  from Cons.IH[OF this] Cons.prems(2) show ?case by (simp add: run_def)
qed (simp add: run_def)

text \<open>Noninterference: what a tenant sees after any interleaving is what its
  own operations alone would have produced.\<close>

lemma noninterference:
  "view t (run ops rs) = view t (run (filter (\<lambda>op. op_tenant op = t) ops) rs)"
proof (induction ops arbitrary: rs)
  case (Cons op ops)
  show ?case
  proof (cases "op_tenant op = t")
    case True
    then show ?thesis using Cons[of "exec op rs"] by (simp add: run_def)
  next
    case False
    let ?own = "filter (\<lambda>op. op_tenant op = t) ops"
    have "view t (exec op rs) = view t rs" using frame[of t op rs] False by (auto simp: view_def)
    then have "view t (run ?own (exec op rs)) = view t (run ?own rs)"
      by (rule view_run_cong) simp
    then show ?thesis using Cons[of "exec op rs"] False by (simp add: run_def)
  qed
qed (simp add: run_def)

end

end
