(* ===== verification/DelegationStore.thy ===== *)
theory DelegationStore
  imports Delegation TenantTx
begin

text \<open>
  Where delegation keeps its state: the table \<open>delegation_grants\<close> behind
  \<open>src/internal/adapter/postgres/delegation_repository.go\<close> (with the
  constraints of migrations 0015 and 0017) and the per-chain budget pool that
  the Lua script of \<open>src/internal/adapter/redis/delegation_budget.go\<close>
  decrements. The \<open>jsonb\<close> column \<open>granted_scope\<close> is represented by the array
  it stores (None: SQL NULL).
\<close>

subsection \<open>Rows\<close>

type_synonym int32 = "32 word"

record delegationGrantRow =
  rwID :: uuid
  rwParentGrantID :: "uuid option"
  rwChainID :: uuid
  rwTenantID :: uuid
  rwDelegateIdentity :: string
  rwGrantedScope :: "string list option"
  rwRootIntent :: string
  rwHITLClassification :: string
  rwDepth :: int32
  rwGeneration :: int32
  rwExpiresAt :: time
  rwBudgetRemaining :: int32
  rwStatus :: string
  rwCreatedAt :: time

text \<open>\<open>int32(x)\<close> keeps the low 32 bits; \<open>int(x)\<close> reads them back signed.
  The created-at column is filled by the database.\<close>

definition grantToInsertParams :: "grant \<Rightarrow> delegationGrantRow" where
  "grantToInsertParams g = \<lparr>
     rwID = grGrantID g,
     rwParentGrantID = grParentGrantID g,
     rwChainID = grChainID g,
     rwTenantID = grTenantID g,
     rwDelegateIdentity = grDelegateIdentity g,
     rwGrantedScope = grGrantedScope g,
     rwRootIntent = grRootIntent g,
     rwHITLClassification = grHITLClassification g,
     rwDepth = word_of_int (grDepth g),
     rwGeneration = word_of_int (grGeneration g),
     rwExpiresAt = grExpiresAt g,
     rwBudgetRemaining = word_of_int (grBudgetRemaining g),
     rwStatus = grStatus g,
     rwCreatedAt = 0 \<rparr>"

definition rowToGrant :: "delegationGrantRow \<Rightarrow> grant" where
  "rowToGrant r = \<lparr>
     grGrantID = rwID r,
     grParentGrantID = rwParentGrantID r,
     grChainID = rwChainID r,
     grTenantID = rwTenantID r,
     grDelegateIdentity = rwDelegateIdentity r,
     grGrantedScope = rwGrantedScope r,
     grRootIntent = rwRootIntent r,
     grHITLClassification = rwHITLClassification r,
     grDepth = sint (rwDepth r),
     grGeneration = sint (rwGeneration r),
     grExpiresAt = rwExpiresAt r,
     grBudgetRemaining = sint (rwBudgetRemaining r),
     grStatus = rwStatus r \<rparr>"

type_synonym grant_table = "delegationGrantRow list"

text \<open>The constraints of the table. The reference to \<open>tenants\<close> is not part of
  the model: the tenant of the request exists.\<close>

definition row_check :: "delegationGrantRow \<Rightarrow> go_error option" where
  "row_check r =
     (if rwGrantedScope r = None
        then Some (PgError ''23502'' ''null value in column granted_scope violates not-null constraint'')
      else if rwHITLClassification r \<notin> {''none'', ''optional'', ''required''}
          \<or> sint (rwDepth r) < 0 \<or> sint (rwBudgetRemaining r) < 0
          \<or> rwStatus r \<notin> {''issued'', ''active'', ''revoked'', ''expired'', ''consumed''}
        then Some (PgError ''23514'' ''new row violates check constraint'')
      else None)"

definition same_key :: "delegationGrantRow \<Rightarrow> delegationGrantRow \<Rightarrow> bool" where
  "same_key r s = (rwID r = rwID s \<and> rwTenantID r = rwTenantID s)"

definition rls_error :: go_error where
  "rls_error = PgError ''42501'' ''new row violates row-level security policy''"

definition insert_grant :: "pg_env \<Rightarrow> uuid option \<Rightarrow> delegationGrantRow \<Rightarrow> (grant_table, unit) db_call" where
  "insert_grant env guc r tbl =
     (if \<not> rls_ok env guc (rwTenantID r) then (tbl, Inl rls_error)
      else case row_check r of
        Some e \<Rightarrow> (tbl, Inl e)
      | None \<Rightarrow>
          if list_ex (same_key r) tbl
            then (tbl, Inl (PgError ''23505'' ''duplicate key value violates unique constraint''))
          else (tbl @ [r\<lparr>rwCreatedAt := pgNow env\<rparr>], Inr ()))"

subsection \<open>The repository\<close>

definition mapDelegationError :: "go_error \<Rightarrow> go_error" where
  "mapDelegationError err =
     (if contains (error_text err) ''unique_violation'' \<or> contains (error_text err) ''duplicate key''
      then ErrConflict else err)"

definition map_err :: "(go_error \<Rightarrow> go_error) \<Rightarrow> 'db \<times> 'a result \<Rightarrow> 'db \<times> 'a result" where
  "map_err f r = (case r of (db, Inl e) \<Rightarrow> (db, Inl (f e)) | (db, Inr x) \<Rightarrow> (db, Inr x))"

definition Create :: "pg_env \<Rightarrow> grant \<Rightarrow> (grant_table, unit) db_call" where
  "Create env g = WithTenant env (grTenantID g) (\<lambda>tbl.
     map_err mapDelegationError
       (stmt env (insert_grant env (pgPoolGuc env) (grantToInsertParams g)) tbl))"

definition GetByID :: "pg_env \<Rightarrow> uuid \<Rightarrow> uuid \<Rightarrow> (grant_table, grant) db_call" where
  "GetByID env tenantID grantID = WithTenant env tenantID (\<lambda>tbl.
     case stmt env (\<lambda>tbl. (tbl, case List.find (\<lambda>r. rls_ok env (pgPoolGuc env) (rwTenantID r)
              \<and> rwTenantID r = tenantID \<and> rwID r = grantID) tbl of
            None \<Rightarrow> Inl (pgNoRows env) | Some r \<Rightarrow> Inr r)) tbl of
       (tbl', Inl e) \<Rightarrow> (tbl', Inl (if e = SqlErrNoRows then ErrNotFound else mapDelegationError e))
     | (tbl', Inr r) \<Rightarrow> (tbl', Inr (rowToGrant r)))"

text \<open>An update whose new row breaks a constraint changes nothing.\<close>

definition update_grants ::
  "pg_env \<Rightarrow> (delegationGrantRow \<Rightarrow> bool) \<Rightarrow> string \<Rightarrow> (grant_table, nat) db_call" where
  "update_grants env P status tbl =
     (let Q = (\<lambda>r. rls_ok env (pgPoolGuc env) (rwTenantID r) \<and> P r)
      in case first_err (map (\<lambda>r. row_check (r\<lparr>rwStatus := status\<rparr>)) (filter Q tbl)) of
           Some e \<Rightarrow> (tbl, Inl e)
         | None \<Rightarrow> (update_rows Q (\<lambda>r. r\<lparr>rwStatus := status\<rparr>) tbl, Inr (count_rows Q tbl)))"

definition UpdateStatus :: "pg_env \<Rightarrow> uuid \<Rightarrow> uuid \<Rightarrow> grant_status \<Rightarrow> (grant_table, unit) db_call" where
  "UpdateStatus env tenantID grantID status = WithTenant env tenantID (\<lambda>tbl.
     case stmt env (update_grants env (\<lambda>r. rwTenantID r = tenantID \<and> rwID r = grantID) status) tbl of
       (tbl', Inl e) \<Rightarrow> (tbl', Inl (mapDelegationError e))
     | (tbl', Inr n) \<Rightarrow> if n = 0 then (tbl', Inl ErrNotFound) else (tbl', Inr ()))"

definition count_grants ::
  "pg_env \<Rightarrow> uuid \<Rightarrow> (delegationGrantRow \<Rightarrow> bool) \<Rightarrow> (grant_table, int) db_call" where
  "count_grants env tenantID P = WithTenant env tenantID (stmt env (\<lambda>tbl. (tbl,
     Inr (int (count_rows (\<lambda>r. rls_ok env (pgPoolGuc env) (rwTenantID r)
       \<and> rwTenantID r = tenantID \<and> P r) tbl)))))"

definition CountActiveChildren :: "pg_env \<Rightarrow> uuid \<Rightarrow> uuid \<Rightarrow> (grant_table, int) db_call" where
  "CountActiveChildren env tenantID parentGrantID =
     count_grants env tenantID (\<lambda>r. rwParentGrantID r = Some parentGrantID \<and> rwStatus r = ''active'')"

definition GetChainGeneration :: "pg_env \<Rightarrow> uuid \<Rightarrow> uuid \<Rightarrow> (grant_table, int) db_call" where
  "GetChainGeneration env tenantID chainID =
     count_grants env tenantID (\<lambda>r. rwChainID r = chainID \<and> rwStatus r = ''revoked'')"

definition ListByChain :: "pg_env \<Rightarrow> uuid \<Rightarrow> uuid \<Rightarrow> (grant_table, grant list) db_call" where
  "ListByChain env tenantID chainID = WithTenant env tenantID (stmt env (\<lambda>tbl. (tbl,
     Inr (map rowToGrant (sort_key (\<lambda>r. sint (rwDepth r))
       (filter (\<lambda>r. rls_ok env (pgPoolGuc env) (rwTenantID r)
          \<and> rwTenantID r = tenantID \<and> rwChainID r = chainID) tbl))))))"

definition RevokeByChain :: "pg_env \<Rightarrow> uuid \<Rightarrow> uuid \<Rightarrow> (grant_table, unit) db_call" where
  "RevokeByChain env tenantID chainID = WithTenant env tenantID (\<lambda>tbl.
     case stmt env (update_grants env (\<lambda>r. rwTenantID r = tenantID \<and> rwChainID r = chainID
              \<and> rwStatus r = ''active'') ''revoked'') tbl of
       (tbl', Inl e) \<Rightarrow> (tbl', Inl (mapDelegationError e))
     | (tbl', Inr n) \<Rightarrow> (tbl', Inr ()))"

subsection \<open>The budget pool\<close>

text \<open>The integer values of the Redis keys the script and \<open>InitBudget\<close> write.\<close>

type_synonym budget_store = "string \<rightharpoonup> int"

definition budgetKey :: "uuid \<Rightarrow> string" where
  "budgetKey chainID = ''delegation:budget:'' @ UUID_String chainID"

definition budgetDecrementLuaScript :: "string \<Rightarrow> int \<Rightarrow> budget_store \<Rightarrow> budget_store \<times> int" where
  "budgetDecrementLuaScript key amount kv =
     (let amount' = (if amount \<le> 0 then 1 else amount) in
      case kv key of
        None \<Rightarrow> (kv, -1)
      | Some current \<Rightarrow>
          if current < amount' then (kv, -1)
          else let remaining = current - amount' in (kv(key \<mapsto> remaining), remaining))"

definition InitBudget :: "redis_link \<Rightarrow> uuid \<Rightarrow> int \<Rightarrow> (budget_store, unit) db_call" where
  "InitBudget link chainID budget kv =
     (let kv' = kv(budgetKey chainID \<mapsto> budget) in
      case link of
        Link_down e \<Rightarrow> (kv, Inl (Wrapf ''init budget'' e))
      | Reply_lost e \<Rightarrow> (kv', Inl (Wrapf ''init budget'' e))
      | Link_up \<Rightarrow> (kv', Inr ()))"

definition DecrementBudget :: "redis_link \<Rightarrow> uuid \<Rightarrow> int \<Rightarrow> (budget_store, int) db_call" where
  "DecrementBudget link chainID amount kv =
     (let amount' = (if amount \<le> 0 then 1 else amount);
          (kv', result) = budgetDecrementLuaScript (budgetKey chainID) amount' kv
      in case link of
        Link_down e \<Rightarrow> (kv, Inl (Wrapf ''decrement budget'' e))
      | Reply_lost e \<Rightarrow> (kv', Inl (Wrapf ''decrement budget'' e))
      | Link_up \<Rightarrow> if result < 0 then (kv', Inl ErrBudgetExhausted) else (kv', Inr result))"

subsection \<open>Rows keep what fits in 32 bits\<close>

definition int32_range :: "int \<Rightarrow> bool" where
  "int32_range x = (- 2147483648 \<le> x \<and> x \<le> 2147483647)"

lemma sint_word_of_int32: "int32_range x \<Longrightarrow> sint (word_of_int x :: int32) = x"
proof -
  assume "int32_range x"
  then have "signed_take_bit 31 x = x"
    by (intro signed_take_bit_int_eq_self) (simp_all add: int32_range_def)
  then show ?thesis by (simp add: sint_sbintrunc')
qed

definition storable :: "grant \<Rightarrow> bool" where
  "storable g = (int32_range (grDepth g) \<and> int32_range (grGeneration g)
     \<and> int32_range (grBudgetRemaining g))"

lemma rowToGrant_insertParams:
  "storable g \<Longrightarrow> rowToGrant ((grantToInsertParams g)\<lparr>rwCreatedAt := c\<rparr>) = g"
  by (simp add: storable_def rowToGrant_def grantToInsertParams_def sint_word_of_int32)

lemma grantToInsertParams_sel [simp]:
  "rwID (grantToInsertParams g) = grGrantID g"
  "rwTenantID (grantToInsertParams g) = grTenantID g"
  "rwChainID (grantToInsertParams g) = grChainID g"
  "rwStatus (grantToInsertParams g) = grStatus g"
  by (simp_all add: grantToInsertParams_def)

lemma Create_ok_iff:
  assumes "calm env"
  shows "snd (Create env g tbl) = Inr () \<longleftrightarrow>
     rls_ok env (pgPoolGuc env) (grTenantID g) \<and> row_check (grantToInsertParams g) = None
     \<and> \<not> list_ex (same_key (grantToInsertParams g)) tbl"
  using assms
  by (auto simp: Create_def WithTenant_calm stmt_calm insert_grant_def map_err_def split: option.splits)

lemma Create_ok_table:
  assumes "calm env" and "snd (Create env g tbl) = Inr ()"
  shows "fst (Create env g tbl) = tbl @ [(grantToInsertParams g)\<lparr>rwCreatedAt := pgNow env\<rparr>]"
  using assms
  by (auto simp: Create_def WithTenant_calm stmt_calm insert_grant_def map_err_def
      split: option.splits if_splits)

lemma GetByID_fresh:
  assumes "calm env" and "rls_ok env (pgPoolGuc env) (rwTenantID r)"
    and "\<not> list_ex (same_key r) tbl"
  shows "GetByID env (rwTenantID r) (rwID r) (tbl @ [r]) = (tbl @ [r], Inr (rowToGrant r))"
proof -
  have "List.find (\<lambda>s. rls_ok env (pgPoolGuc env) (rwTenantID s)
      \<and> rwTenantID s = rwTenantID r \<and> rwID s = rwID r) tbl = None"
    using assms(3) by (auto simp: find_None_iff list_ex_iff same_key_def)
  then show ?thesis
    using assms by (simp add: GetByID_def WithTenant_calm stmt_calm)
qed

lemma same_key_created [simp]: "same_key (r\<lparr>rwCreatedAt := c\<rparr>) = same_key r"
  by (simp add: same_key_def fun_eq_iff)

lemma GetByID_after_Create:
  assumes calm: "calm env" and ok: "snd (Create env g tbl) = Inr ()" and st: "storable g"
  shows "snd (GetByID env (grTenantID g) (grGrantID g) (fst (Create env g tbl))) = Inr g"
proof -
  let ?r = "(grantToInsertParams g)\<lparr>rwCreatedAt := pgNow env\<rparr>"
  have "\<not> list_ex (same_key ?r) tbl" "rls_ok env (pgPoolGuc env) (rwTenantID ?r)"
    using Create_ok_iff[OF calm, of g tbl] ok by simp_all
  then show ?thesis
    using GetByID_fresh[OF calm, of ?r tbl] Create_ok_table[OF calm ok] rowToGrant_insertParams[OF st]
    by simp
qed

subsection \<open>Grants of different tenants do not interfere\<close>

datatype grant_op =
    GCreate pg_env grant
  | GUpdateStatus pg_env uuid uuid grant_status
  | GRevokeByChain pg_env uuid uuid

primrec grant_op_tenant :: "grant_op \<Rightarrow> uuid" where
  "grant_op_tenant (GCreate env g) = grTenantID g"
| "grant_op_tenant (GUpdateStatus env t i s) = t"
| "grant_op_tenant (GRevokeByChain env t c) = t"

primrec grant_exec :: "grant_op \<Rightarrow> grant_table \<Rightarrow> grant_table" where
  "grant_exec (GCreate env g) tbl = fst (Create env g tbl)"
| "grant_exec (GUpdateStatus env t i s) tbl = fst (UpdateStatus env t i s tbl)"
| "grant_exec (GRevokeByChain env t c) tbl = fst (RevokeByChain env t c tbl)"

abbreviation own_rows :: "uuid \<Rightarrow> grant_table \<Rightarrow> grant_table" where
  "own_rows t \<equiv> filter (\<lambda>r. rwTenantID r = t)"

lemma fst_map_err [simp]: "fst (map_err f x) = fst x"
  by (auto simp: map_err_def split: prod.splits sum.splits)

text \<open>The statement inside a wrapper is executed.\<close>

definition reaches_stmt :: "pg_env \<Rightarrow> bool" where
  "reaches_stmt env = (pgCtxErr env = None \<and> pgBeginErr env = None \<and> pgGucErr env = None
     \<and> pgStmtErr env = None)"

lemma fst_Create:
  "fst (Create env g tbl) =
     (if reaches_stmt env
      then fst (insert_grant env (pgPoolGuc env) (grantToInsertParams g) tbl) else tbl)"
  by (simp add: Create_def fst_WithTenant fst_stmt reaches_stmt_def)

lemma fst_update_call:
  "fst (case u of (t, Inl e) \<Rightarrow> (t, Inl (h e)) | (t, Inr n) \<Rightarrow> (if Z n then (t, Inl z) else (t, Inr ()))) = fst u"
  "fst (case u of (t, Inl e) \<Rightarrow> (t, Inl (h e)) | (t, Inr n) \<Rightarrow> (t, Inr ())) = fst u"
  by (auto split: prod.splits sum.splits)

lemma fst_UpdateStatus:
  "fst (UpdateStatus env t i s tbl) =
     (if reaches_stmt env
      then fst (update_grants env (\<lambda>r. rwTenantID r = t \<and> rwID r = i) s tbl) else tbl)"
  by (simp add: UpdateStatus_def fst_WithTenant fst_stmt fst_update_call reaches_stmt_def)

lemma fst_RevokeByChain:
  "fst (RevokeByChain env t c tbl) =
     (if reaches_stmt env
      then fst (update_grants env (\<lambda>r. rwTenantID r = t \<and> rwChainID r = c \<and> rwStatus r = ''active'')
             ''revoked'' tbl) else tbl)"
  by (simp add: RevokeByChain_def fst_WithTenant fst_stmt fst_update_call reaches_stmt_def)

lemma insert_grant_own:
  "own_rows (rwTenantID r) (fst (insert_grant env guc r tbl)) =
     fst (insert_grant env guc r (own_rows (rwTenantID r) tbl))"
proof -
  have "list_ex (same_key r) tbl = list_ex (same_key r) (own_rows (rwTenantID r) tbl)"
    by (auto simp: list_ex_iff same_key_def)
  then show ?thesis by (simp add: insert_grant_def split: option.splits)
qed

lemma insert_grant_frame:
  "t \<noteq> rwTenantID r \<Longrightarrow> own_rows t (fst (insert_grant env guc r tbl)) = own_rows t tbl"
  by (simp add: insert_grant_def split: option.splits)

lemma filter_update_rows_own:
  assumes "\<And>r. k (f r) = k r"
  shows "filter (\<lambda>r. k r = t) (update_rows P f rs) = update_rows P f (filter (\<lambda>r. k r = t) rs)"
  using assms by (induction rs) auto

lemma update_grants_own:
  assumes "\<And>r. P r \<Longrightarrow> rwTenantID r = t"
  shows "own_rows t (fst (update_grants env P s tbl)) = fst (update_grants env P s (own_rows t tbl))"
proof -
  let ?Q = "\<lambda>r. rls_ok env (pgPoolGuc env) (rwTenantID r) \<and> P r"
  have "filter ?Q (own_rows t tbl) = filter ?Q tbl"
    unfolding filter_filter by (rule filter_cong) (use assms in auto)
  moreover have "own_rows t (update_rows ?Q (\<lambda>r. r\<lparr>rwStatus := s\<rparr>) tbl)
      = update_rows ?Q (\<lambda>r. r\<lparr>rwStatus := s\<rparr>) (own_rows t tbl)"
    by (rule filter_update_rows_own) simp
  ultimately show ?thesis by (simp add: update_grants_def Let_def split: option.splits)
qed

lemma update_grants_frame:
  assumes "\<And>r. P r \<Longrightarrow> rwTenantID r \<noteq> t"
  shows "own_rows t (fst (update_grants env P s tbl)) = own_rows t tbl"
proof -
  let ?Q = "\<lambda>r. rls_ok env (pgPoolGuc env) (rwTenantID r) \<and> P r"
  have "own_rows t (update_rows ?Q (\<lambda>r. r\<lparr>rwStatus := s\<rparr>) tbl) = own_rows t tbl"
    by (rule filter_update_rows_frame) (use assms in auto)
  then show ?thesis by (simp add: update_grants_def Let_def split: option.splits)
qed

lemma grant_exec_own:
  "own_rows (grant_op_tenant op) (grant_exec op tbl) = grant_exec op (own_rows (grant_op_tenant op) tbl)"
proof (cases op)
  case (GCreate env g)
  then show ?thesis using insert_grant_own[of "grantToInsertParams g"] by (simp add: fst_Create)
next
  case (GUpdateStatus env t i s)
  then show ?thesis by (auto simp: fst_UpdateStatus intro!: update_grants_own)
next
  case (GRevokeByChain env t c)
  then show ?thesis by (auto simp: fst_RevokeByChain intro!: update_grants_own)
qed

lemma grant_exec_frame:
  "t \<noteq> grant_op_tenant op \<Longrightarrow> own_rows t (grant_exec op tbl) = own_rows t tbl"
  by (cases op) (auto simp: fst_Create fst_UpdateStatus fst_RevokeByChain
      intro!: insert_grant_frame update_grants_frame)

interpretation grants: tenant_table rwTenantID grant_op_tenant grant_exec
  by unfold_locales (simp_all add: grant_exec_frame grant_exec_own)

subsection \<open>Every reachable table meets the constraints\<close>

definition table_ok :: "grant_table \<Rightarrow> bool" where
  "table_ok tbl = (list_all (\<lambda>r. row_check r = None) tbl
     \<and> distinct (map (\<lambda>r. (rwID r, rwTenantID r)) tbl))"

lemma row_check_created [simp]: "row_check (r\<lparr>rwCreatedAt := c\<rparr>) = row_check r"
  by (simp add: row_check_def)

lemma first_err_None_iff: "first_err es = None \<longleftrightarrow> (\<forall>e\<in>set es. e = None)"
  by (induction es) (auto simp: first_err_def)

lemma table_ok_insert:
  assumes "table_ok tbl"
  shows "table_ok (fst (insert_grant env guc r tbl))"
proof -
  have "\<not> list_ex (same_key r) tbl \<Longrightarrow>
      (rwID r, rwTenantID r) \<notin> (\<lambda>r. (rwID r, rwTenantID r)) ` set tbl"
    by (auto simp: list_ex_iff same_key_def)
  then show ?thesis
    using assms by (auto simp: insert_grant_def table_ok_def split: option.splits)
qed

lemma table_ok_update:
  assumes "table_ok tbl"
  shows "table_ok (fst (update_grants env P s tbl))"
proof -
  let ?Q = "\<lambda>r. rls_ok env (pgPoolGuc env) (rwTenantID r) \<and> P r"
  have keys: "map (\<lambda>r. (rwID r, rwTenantID r)) (update_rows ?Q (\<lambda>r. r\<lparr>rwStatus := s\<rparr>) tbl)
      = map (\<lambda>r. (rwID r, rwTenantID r)) tbl"
    by (rule map_update_rows) simp
  show ?thesis
  proof (cases "first_err (map (\<lambda>r. row_check (r\<lparr>rwStatus := s\<rparr>)) (filter ?Q tbl))")
    case None
    then have "\<forall>r\<in>set (update_rows ?Q (\<lambda>r. r\<lparr>rwStatus := s\<rparr>) tbl). row_check r = None"
      using assms by (auto simp: first_err_None_iff in_update_rows table_ok_def list_all_iff)
    with None keys assms show ?thesis
      by (simp add: update_grants_def Let_def table_ok_def list_all_iff)
  next
    case (Some e)
    with assms show ?thesis by (simp add: update_grants_def Let_def)
  qed
qed

lemma grant_exec_table_ok: "table_ok tbl \<Longrightarrow> table_ok (grant_exec op tbl)"
  by (cases op) (simp_all add: fst_Create fst_UpdateStatus fst_RevokeByChain
      table_ok_insert table_ok_update)

lemma grants_run_table_ok: "table_ok tbl \<Longrightarrow> table_ok (grants.run ops tbl)"
  by (induction ops arbitrary: tbl) (simp_all add: grants.run_def grant_exec_table_ok)

subsection \<open>Revoking a chain raises its generation\<close>

definition chain_count :: "uuid \<Rightarrow> uuid \<Rightarrow> grant_status \<Rightarrow> grant_table \<Rightarrow> nat" where
  "chain_count t c st tbl =
     count_rows (\<lambda>r. rwTenantID r = t \<and> rwChainID r = c \<and> rwStatus r = st) tbl"

lemma row_check_revoked: "row_check r = None \<Longrightarrow> row_check (r\<lparr>rwStatus := ''revoked''\<rparr>) = None"
  by (auto simp: row_check_def split: if_splits)

lemma RevokeByChain_effect:
  assumes "calm env" and "table_ok tbl" and "rls_ok env (pgPoolGuc env) t"
  shows "RevokeByChain env t c tbl =
    (update_rows (\<lambda>r. rwTenantID r = t \<and> rwChainID r = c \<and> rwStatus r = ''active'')
       (\<lambda>r. r\<lparr>rwStatus := ''revoked''\<rparr>) tbl, Inr ())"
proof -
  let ?P = "\<lambda>r. rwTenantID r = t \<and> rwChainID r = c \<and> rwStatus r = ''active''"
  let ?Q = "\<lambda>r. rls_ok env (pgPoolGuc env) (rwTenantID r) \<and> ?P r"
  have Q: "?Q = ?P" using assms(3) by auto
  have "first_err (map (\<lambda>r. row_check (r\<lparr>rwStatus := ''revoked''\<rparr>)) (filter ?P tbl)) = None"
    using assms(2) row_check_revoked
    by (auto simp: first_err_None_iff table_ok_def list_all_iff)
  then have "update_grants env ?P ''revoked'' tbl =
      (update_rows ?P (\<lambda>r. r\<lparr>rwStatus := ''revoked''\<rparr>) tbl, Inr (count_rows ?P tbl))"
    unfolding update_grants_def Let_def Q by simp
  then show ?thesis
    using assms(1) by (simp add: RevokeByChain_def WithTenant_calm stmt_calm)
qed

lemma chain_count_revoked:
  "chain_count t c ''revoked''
     (update_rows (\<lambda>r. rwTenantID r = t \<and> rwChainID r = c \<and> rwStatus r = ''active'')
       (\<lambda>r. r\<lparr>rwStatus := ''revoked''\<rparr>) tbl)
   = chain_count t c ''revoked'' tbl + chain_count t c ''active'' tbl"
  by (induction tbl) (auto simp: chain_count_def)

lemma GetChainGeneration_calm:
  assumes "calm env" and "rls_ok env (pgPoolGuc env) t"
  shows "GetChainGeneration env t c tbl = (tbl, Inr (int (chain_count t c ''revoked'' tbl)))"
proof -
  have "count_rows (\<lambda>r. rls_ok env (pgPoolGuc env) (rwTenantID r) \<and> rwTenantID r = t \<and> rwChainID r = c
      \<and> rwStatus r = ''revoked'') tbl = chain_count t c ''revoked'' tbl"
    unfolding chain_count_def by (rule count_rows_cong) (use assms(2) in auto)
  then show ?thesis
    using assms(1)
    by (simp add: GetChainGeneration_def count_grants_def WithTenant_calm stmt_calm)
qed

subsection \<open>The pool is a meter\<close>

definition budget_level :: "string \<Rightarrow> budget_store \<Rightarrow> nat" where
  "budget_level k kv = (case kv k of None \<Rightarrow> 0 | Some n \<Rightarrow> nat n)"

lemma script_cases:
  assumes "0 < amount"
  obtains (spent) cur where "kv k = Some cur" "amount \<le> cur"
      "budgetDecrementLuaScript k amount kv = (kv(k \<mapsto> cur - amount), cur - amount)"
  | (refused) "budgetDecrementLuaScript k amount kv = (kv, -1)"
    "\<And>cur. kv k = Some cur \<Longrightarrow> cur < amount"
  using assms by (cases "kv k") (force simp: budgetDecrementLuaScript_def Let_def)+

lemma script_antitone:
  "0 < amount \<Longrightarrow> budget_level k' (fst (budgetDecrementLuaScript k amount kv)) \<le> budget_level k' kv"
  by (rule script_cases[of amount kv k]) (auto simp: budget_level_def)

lemma DecrementBudget_antitone:
  "budget_level k (fst (DecrementBudget link c amount kv)) \<le> budget_level k kv"
  using script_antitone[of "if amount \<le> 0 then 1 else amount" k "budgetKey c" kv]
  by (auto simp: DecrementBudget_def Let_def split: redis_link.splits prod.splits)

lemma DecrementBudget_InrD:
  assumes "snd (DecrementBudget link c amount kv) = Inr left"
  defines "a \<equiv> if amount \<le> 0 then 1 else amount"
  shows "kv (budgetKey c) = Some (left + a) \<and> 0 \<le> left
    \<and> fst (DecrementBudget link c amount kv) = kv(budgetKey c \<mapsto> left)"
proof -
  have a: "0 < a" by (simp add: a_def)
  have up: "link = Link_up"
    using assms(1) by (auto simp: DecrementBudget_def Let_def split: redis_link.splits prod.splits)
  then have eq: "DecrementBudget link c amount kv = (case budgetDecrementLuaScript (budgetKey c) a kv of
      (kv', result) \<Rightarrow> if result < 0 then (kv', Inl ErrBudgetExhausted) else (kv', Inr result))"
    by (simp add: DecrementBudget_def Let_def a_def)
  show ?thesis
    by (rule script_cases[OF a, of kv "budgetKey c"]) (use assms(1) eq in auto)
qed

text \<open>A decrement request: how the link behaves, the chain and the amount.\<close>

type_synonym decrement_req = "redis_link \<times> uuid \<times> int"

definition serve_decrement :: "decrement_req \<Rightarrow> budget_store \<Rightarrow> budget_store \<times> bool" where
  "serve_decrement = (\<lambda>(link, c, amount) kv.
     (let (kv', res) = DecrementBudget link c amount kv in (kv', \<exists>left. res = Inr left)))"

lemma serve_decrement_simps [simp]:
  "fst (serve_decrement (link, c, amount) kv) = fst (DecrementBudget link c amount kv)"
  "snd (serve_decrement (link, c, amount) kv) \<longleftrightarrow> (\<exists>left. snd (DecrementBudget link c amount kv) = Inr left)"
  by (simp_all add: serve_decrement_def split: prod.splits)

definition decrement_key :: "decrement_req \<Rightarrow> string" where
  "decrement_key = (\<lambda>(link, c, amount). budgetKey c)"

lemma decrement_key_simp [simp]: "decrement_key (link, c, amount) = budgetKey c"
  by (simp add: decrement_key_def)

interpretation pool: metered budget_level serve_decrement decrement_key "\<lambda>_. True"
proof unfold_locales
  fix r :: decrement_req and s
  obtain link c amount where r: "r = (link, c, amount)" by (cases r)
  assume "snd (serve_decrement r s)"
  then obtain left where d: "snd (DecrementBudget link c amount s) = Inr left" by (auto simp: r)
  show "budget_level (decrement_key r) (fst (serve_decrement r s)) < budget_level (decrement_key r) s"
    using DecrementBudget_InrD[OF d] by (auto simp: r budget_level_def split: if_splits)
next
  fix k and r :: decrement_req and s
  show "budget_level k (fst (serve_decrement r s)) \<le> budget_level k s"
    by (cases r) (simp add: DecrementBudget_antitone)
qed

lemma decrements_exact:
  assumes "kv (budgetKey c) = Some b" and "0 \<le> b"
  shows "pool.admitted (budgetKey c) (replicate n (Link_up, c, 1)) kv = min n (nat b)"
  using assms
proof (induction n arbitrary: kv b)
  case (Suc n)
  show ?case
  proof (cases "b = 0")
    case True
    have "pool.admitted (budgetKey c) (replicate (Suc n) (Link_up, c, 1)) kv = 0"
      by (rule pool.exhausted_stays) (use True Suc.prems in \<open>simp add: budget_level_def\<close>)
    then show ?thesis unfolding True by simp
  next
    case False
    then have step: "DecrementBudget Link_up c 1 kv = (kv(budgetKey c \<mapsto> b - 1), Inr (b - 1))"
      using Suc.prems by (simp add: DecrementBudget_def budgetDecrementLuaScript_def Let_def)
    have "pool.admitted (budgetKey c) (replicate n (Link_up, c, 1)) (kv(budgetKey c \<mapsto> b - 1))
        = min n (nat (b - 1))"
      by (rule Suc.IH) (use False Suc.prems in auto)
    then show ?thesis using False Suc.prems(2) by (simp add: step)
  qed
qed simp

text \<open>The successes of a list of decrements.\<close>

primrec decrements_ok :: "decrement_req list \<Rightarrow> budget_store \<Rightarrow> nat" where
  "decrements_ok [] kv = 0"
| "decrements_ok (r # rs) kv =
     (let (kv', ok) = serve_decrement r kv in (if ok then 1 else 0) + decrements_ok rs kv')"

lemma decrements_ok_admitted:
  "(\<And>r. r \<in> set rs \<Longrightarrow> decrement_key r = k) \<Longrightarrow> decrements_ok rs kv = pool.admitted k rs kv"
  by (induction rs arbitrary: kv) (auto split: prod.splits)

subsection \<open>Properties\<close>

text \<open>A root grant of tenant 1 on chain 7, and a database that answers on a
  connection bound to tenant 1.\<close>

definition demo_id :: "nat \<Rightarrow> uuid" where
  "demo_id n = replicate 15 0 @ [word_of_nat n]"

definition demo_grant :: grant where
  "demo_grant = \<lparr> grGrantID = demo_id 9, grParentGrantID = None, grChainID = demo_id 7,
     grTenantID = demo_id 1, grDelegateIdentity = ''agent'', grGrantedScope = Some [''read:data''],
     grRootIntent = ''report'', grHITLClassification = ''none'', grDepth = 0, grGeneration = 0,
     grExpiresAt = 100, grBudgetRemaining = 3, grStatus = ''active'' \<rparr>"

definition demo_env :: pg_env where
  "demo_env = \<lparr> pgCtxErr = None, pgBeginErr = None, pgGucErr = None, pgStmtErr = None,
     pgCommitErr = None, pgRls = True, pgPoolGuc = Some (demo_id 1),
     pgNoRows = Wrapf ''no rows in result set'' SqlErrNoRows, pgNow = 50 \<rparr>"

text \<open>A grant that \<open>Create\<close> accepted is read back unchanged by \<open>GetByID\<close>,
  provided its three counters fit in 32 bits.\<close>

theorem grant_create_get:
  assumes "calm env" and "snd (Create env g tbl) = Inr ()" and "storable g"
  shows "snd (GetByID env (grTenantID g) (grGrantID g) (fst (Create env g tbl))) = Inr g"
  using assms by (rule GetByID_after_Create)

theorem grant_create_get_witness:
  "snd (GetByID demo_env (demo_id 1) (demo_id 9) (fst (Create demo_env demo_grant []))) = Inr demo_grant"
proof -
  have "calm demo_env" "snd (Create demo_env demo_grant []) = Inr ()" "storable demo_grant"
    by code_simp+
  from grant_create_get[OF this] show ?thesis by (simp add: demo_grant_def)
qed

text \<open>C26: Any interleaving of creations, status updates and chain revocations by
  many tenants leaves each tenant with exactly the rows that its own operations
  alone would have left, and every table so reached meets the constraints of
  the migrations.\<close>

theorem grants_tenant_isolation:
  "own_rows t (fold grant_exec ops []) =
     own_rows t (fold grant_exec (filter (\<lambda>op. grant_op_tenant op = t) ops) [])
   \<and> table_ok (fold grant_exec ops [])"
proof
  show "own_rows t (fold grant_exec ops []) =
     own_rows t (fold grant_exec (filter (\<lambda>op. grant_op_tenant op = t) ops) [])"
    using grants.noninterference[of t ops "[]"] by (simp add: grants.view_def grants.run_def)
  show "table_ok (fold grant_exec ops [])"
    using grants_run_table_ok[of "[]" ops] by (simp add: grants.run_def table_ok_def)
qed

text \<open>Of \<open>n\<close> unit decrements that reach Redis after \<open>InitBudget\<close> with \<open>b\<close>,
  exactly the first \<open>min n b\<close> succeed (all are refused when \<open>b\<close> is negative).\<close>

theorem budget_spent_exactly:
  "decrements_ok (replicate n (Link_up, c, 1)) (fst (InitBudget Link_up c b kv)) = min n (nat b)"
proof -
  let ?kv = "kv(budgetKey c \<mapsto> b)"
  have *: "decrements_ok (replicate n (Link_up, c, 1)) ?kv
      = pool.admitted (budgetKey c) (replicate n (Link_up, c, 1)) ?kv"
    by (rule decrements_ok_admitted) auto
  show ?thesis
  proof (cases "0 \<le> b")
    case True
    then show ?thesis using decrements_exact[of ?kv c b n] * by (simp add: InitBudget_def)
  next
    case False
    then show ?thesis
      using pool.exhausted_stays[of "budgetKey c" ?kv] * by (simp add: InitBudget_def budget_level_def)
  qed
qed

text \<open>When row-level security applies and the pool connection that serves a
  query carries no tenant setting, the generation of every chain reads as zero and
  no grant is found, whatever the table holds: the transaction opened around
  the query does not lend it its tenant.\<close>

theorem pool_query_sees_nothing:
  assumes "calm env" and "pgRls env" and "pgPoolGuc env = None" and "pgNoRows env \<noteq> SqlErrNoRows"
  shows "GetChainGeneration env t c tbl = (tbl, Inr 0)
    \<and> GetByID env t i tbl = (tbl, Inl (mapDelegationError (pgNoRows env)))"
proof -
  have hidden: "rls_ok env (pgPoolGuc env) x = False" for x
    using assms by (simp add: rls_ok_def)
  show ?thesis
    using assms(1,4)
    by (simp add: GetChainGeneration_def count_grants_def GetByID_def WithTenant_calm stmt_calm
        hidden count_rows_def find_None_iff[THEN iffD2])
qed

theorem pool_query_sees_nothing_witness:
  "GetChainGeneration (demo_env\<lparr>pgPoolGuc := None\<rparr>) (demo_id 1) (demo_id 7)
      [(grantToInsertParams demo_grant)\<lparr>rwStatus := ''revoked''\<rparr>]
    = ([(grantToInsertParams demo_grant)\<lparr>rwStatus := ''revoked''\<rparr>], Inr 0)"
proof -
  let ?env = "demo_env\<lparr>pgPoolGuc := None\<rparr>"
  have "calm ?env" "pgRls ?env" "pgPoolGuc ?env = None" "pgNoRows ?env \<noteq> SqlErrNoRows"
    by (simp_all add: demo_env_def calm_def)
  from pool_query_sees_nothing[OF this] show ?thesis by blast
qed

end
