(* ===== verification/DelegationMiddleware.thy ===== *)
theory DelegationMiddleware
  imports DelegationStore
begin

text \<open>
  \<open>src/internal/middleware/delegation.go\<close>: the guard every delegated request
  passes between tenant resolution and rate limiting, over the two ports it
  declares (grant repository, budget decrementor), and its production wiring
  of \<open>src/cmd/gateway/main.go\<close> on the Postgres table and the Redis pool. The
  state \<open>'w\<close> is whatever the ports act on. Logging is left out.
\<close>

subsection \<open>Request context\<close>

record req_ctx =
  cxTenantID :: "uuid option"
  cxUserID :: "uuid option"
  cxScopes :: "string list option"
  cxGrant :: "grant option"
  cxRootGrant :: "grant option"
  cxAncestors :: "uuid list option"

definition GetAncestorsFromContext :: "req_ctx \<Rightarrow> uuid list" where
  "GetAncestorsFromContext ctx = (case cxAncestors ctx of None \<Rightarrow> [] | Some as \<Rightarrow> as)"

definition GetParentScopeFromContext :: "req_ctx \<Rightarrow> scope_set" where
  "GetParentScopeFromContext ctx = (case cxScopes ctx of None \<Rightarrow> [] | Some ss \<Rightarrow> NewScopeSet ss)"

text \<open>\<open>GetUserID\<close> yields the zero UUID when no user is set.\<close>

definition delegateID :: "req_ctx \<Rightarrow> uuid" where
  "delegateID ctx = (case cxUserID ctx of None \<Rightarrow> zero_uuid | Some u \<Rightarrow> u)"

definition SetGrantInContext :: "req_ctx \<Rightarrow> grant option \<Rightarrow> req_ctx" where
  "SetGrantInContext ctx grant =
     (let ctx' = ctx\<lparr>cxGrant := grant\<rparr> in
      case grant of
        None \<Rightarrow> ctx'
      | Some g \<Rightarrow> if \<not> HasParent g then ctx'\<lparr>cxRootGrant := Some g\<rparr> else ctx')"

definition SetAncestorsInContext :: "req_ctx \<Rightarrow> uuid list \<Rightarrow> req_ctx" where
  "SetAncestorsInContext ctx ancestors = ctx\<lparr>cxAncestors := Some ancestors\<rparr>"

subsection \<open>Ports and configuration\<close>

record 'w delegation_repository =
  rpGetByID :: "uuid \<Rightarrow> uuid \<Rightarrow> 'w \<Rightarrow> grant result"
  rpCountActiveChildren :: "uuid \<Rightarrow> uuid \<Rightarrow> 'w \<Rightarrow> int result"
  rpGetChainGeneration :: "uuid \<Rightarrow> uuid \<Rightarrow> 'w \<Rightarrow> int result"

type_synonym 'w budget_decrementor = "uuid \<Rightarrow> int \<Rightarrow> ('w, int) db_call"

record 'w delegation_config =
  dcRepository :: "'w delegation_repository option"
  dcBudgetDec :: "'w budget_decrementor option"
  dcMaxDepth :: int
  dcMaxFanOut :: int
  dcFailOpen :: bool

text \<open>\<open>WriteError\<close> ends the request; otherwise the next handler is called with
  a context.\<close>

datatype mw_outcome = Next req_ctx | Error nat go_error

subsection \<open>The handler\<close>

text \<open>The checks before the budget, in their order; the error is the one the
  handler writes.\<close>

definition delegation_checks ::
  "'w delegation_repository \<Rightarrow> int \<Rightarrow> int \<Rightarrow> time \<Rightarrow> uuid \<Rightarrow> grant \<Rightarrow> req_ctx \<Rightarrow> 'w \<Rightarrow> go_error option"
where
  "delegation_checks repo maxDepth maxFanOut now tenantID g ctx w =
     (let parentScope = GetParentScopeFromContext ctx;
          ancestors = GetAncestorsFromContext ctx;
          currentGen = rpGetChainGeneration repo tenantID (grChainID g) w;
          activeChildren = rpCountActiveChildren repo tenantID (grGrantID g) w
      in
      if grTenantID g \<noteq> tenantID then Some ErrCrossTenantDelegationProhibited
      else if ValidateTTL now (Some g) \<noteq> None then Some ErrGrantRevokedOrConsumed
      else if length parentScope > 0
          \<and> isl (ValidateScopeIntersection parentScope (EffectiveScope g))
        then Some ErrScopeIntersectionEmpty
      else if ValidateDepth (grDepth g) maxDepth \<noteq> None then Some ErrDepthLimitExceeded
      else if ValidateCrossTenant tenantID (grTenantID g) \<noteq> None
        then Some ErrCrossTenantDelegationProhibited
      else if ValidateCycle (delegateID ctx) ancestors \<noteq> None then Some ErrCycleDetected
      else if (case currentGen of
                 Inl _ \<Rightarrow> False
               | Inr cur \<Rightarrow> ValidateChainRevocation (grGeneration g) cur \<noteq> None)
        then Some ErrGrantRevokedOrConsumed
      else case ValidateHITLPropagation (cxRootGrant ctx) g of
        Some e \<Rightarrow> Some e
      | None \<Rightarrow>
          if HasParent g \<and> (case activeChildren of
               Inl _ \<Rightarrow> False
             | Inr n \<Rightarrow> ValidateFanOut n maxFanOut \<noteq> None)
          then Some ErrFanOutLimitExceeded
          else None)"

text \<open>The context of the next handler. A root grant that is present is put
  back unchanged.\<close>

definition pass_ctx :: "req_ctx \<Rightarrow> grant \<Rightarrow> req_ctx" where
  "pass_ctx ctx g =
     (let ctx1 = ctx\<lparr>cxGrant := Some g\<rparr>;
          ctx2 = (case cxRootGrant ctx of None \<Rightarrow> ctx1 | Some rg \<Rightarrow> ctx1\<lparr>cxRootGrant := Some rg\<rparr>)
      in SetAncestorsInContext ctx2 (GetAncestorsFromContext ctx @ [delegateID ctx]))"

definition delegation_handler ::
  "'w delegation_config \<Rightarrow> 'w delegation_repository \<Rightarrow> 'w budget_decrementor
    \<Rightarrow> time \<Rightarrow> req_ctx \<Rightarrow> 'w \<Rightarrow> 'w \<times> mw_outcome"
where
  "delegation_handler cfg repo dec now ctx w = (case cxTenantID ctx of
     None \<Rightarrow> (w, Next ctx)
   | Some tenantID \<Rightarrow> (case cxGrant ctx of
       None \<Rightarrow> (w, Next ctx)
     | Some g \<Rightarrow> (case delegation_checks repo (dcMaxDepth cfg) (dcMaxFanOut cfg) now tenantID g ctx w of
         Some e \<Rightarrow> (w, Error 403 e)
       | None \<Rightarrow>
           if grBudgetRemaining g > 0 then
             (case dec (grChainID g) 1 w of
                (w', Inl e) \<Rightarrow>
                  if \<not> dcFailOpen cfg then (w', Error 403 ErrBudgetExhausted)
                  else (w', Next (pass_ctx ctx g))
              | (w', Inr remaining) \<Rightarrow>
                  if remaining < 0 then (w', Error 403 ErrBudgetExhausted)
                  else (w', Next (pass_ctx ctx g)))
           else (w, Next (pass_ctx ctx g)))))"

text \<open>\<open>NewDelegation\<close>: None is the panic on a missing dependency.\<close>

definition NewDelegation ::
  "'w delegation_config \<Rightarrow> (time \<Rightarrow> req_ctx \<Rightarrow> 'w \<Rightarrow> 'w \<times> mw_outcome) option"
where
  "NewDelegation cfg = (case dcBudgetDec cfg of
     None \<Rightarrow> None
   | Some dec \<Rightarrow> (case dcRepository cfg of
       None \<Rightarrow> None
     | Some repo \<Rightarrow> Some (delegation_handler cfg repo dec)))"

subsection \<open>Production wiring\<close>

record world =
  wdGrants :: grant_table
  wdBudgets :: budget_store

definition pg_repository :: "pg_env \<Rightarrow> world delegation_repository" where
  "pg_repository env = \<lparr>
     rpGetByID = (\<lambda>t i w. snd (GetByID env t i (wdGrants w))),
     rpCountActiveChildren = (\<lambda>t p w. snd (CountActiveChildren env t p (wdGrants w))),
     rpGetChainGeneration = (\<lambda>t c w. snd (GetChainGeneration env t c (wdGrants w))) \<rparr>"

definition redis_decrementor :: "redis_link \<Rightarrow> world budget_decrementor" where
  "redis_decrementor link chainID amount w =
     (let (kv, r) = DecrementBudget link chainID amount (wdBudgets w)
      in (w\<lparr>wdBudgets := kv\<rparr>, r))"

definition gateway_config :: "pg_env \<Rightarrow> redis_link \<Rightarrow> world delegation_config" where
  "gateway_config env link = \<lparr>
     dcRepository = Some (pg_repository env),
     dcBudgetDec = Some (redis_decrementor link),
     dcMaxDepth = 5,
     dcMaxFanOut = 10,
     dcFailOpen = False \<rparr>"

text \<open>A request as it meets the guard: how the stores answer, the time and the
  context.\<close>

record gw_request =
  rqEnv :: pg_env
  rqLink :: redis_link
  rqNow :: time
  rqCtx :: req_ctx

definition gateway_delegation :: "gw_request \<Rightarrow> world \<Rightarrow> world \<times> mw_outcome" where
  "gateway_delegation rq =
     delegation_handler (gateway_config (rqEnv rq) (rqLink rq)) (pg_repository (rqEnv rq))
       (redis_decrementor (rqLink rq)) (rqNow rq) (rqCtx rq)"

lemma gateway_delegation_built:
  "NewDelegation (gateway_config env link) =
     Some (\<lambda>now ctx. gateway_delegation \<lparr>rqEnv = env, rqLink = link, rqNow = now, rqCtx = ctx\<rparr>)"
  by (simp add: NewDelegation_def gateway_config_def gateway_delegation_def fun_eq_iff)

subsection \<open>What the checks establish\<close>

text \<open>The limit in force: a configured value that is not positive means the
  default.\<close>

definition effective_limit :: "int \<Rightarrow> int \<Rightarrow> int" where
  "effective_limit configured dflt = (if configured \<le> 0 then dflt else configured)"

definition hitl_preserved :: "grant option \<Rightarrow> grant \<Rightarrow> bool" where
  "hitl_preserved root g = (case root of
     None \<Rightarrow> True
   | Some r \<Rightarrow> grRootIntent g = grRootIntent r
       \<and> classificationRank (grHITLClassification r) \<le> classificationRank (grHITLClassification g))"

definition within :: "int result \<Rightarrow> (int \<Rightarrow> bool) \<Rightarrow> bool" where
  "within res P = (case res of Inl _ \<Rightarrow> True | Inr n \<Rightarrow> P n)"

definition delegation_policy ::
  "'w delegation_repository \<Rightarrow> int \<Rightarrow> int \<Rightarrow> time \<Rightarrow> uuid \<Rightarrow> grant \<Rightarrow> req_ctx \<Rightarrow> 'w \<Rightarrow> bool"
where
  "delegation_policy repo maxDepth maxFanOut now tenantID g ctx w =
     (grTenantID g = tenantID
      \<and> \<not> IsTerminal (grStatus g) \<and> now \<le> grExpiresAt g
      \<and> (GetParentScopeFromContext ctx = []
          \<or> set (GetParentScopeFromContext ctx) \<inter> set (EffectiveScope g) \<noteq> {})
      \<and> grDepth g < effective_limit maxDepth defaultMaxDepth
      \<and> delegateID ctx \<notin> set (GetAncestorsFromContext ctx)
      \<and> within (rpGetChainGeneration repo tenantID (grChainID g) w) (\<lambda>cur. cur \<le> grGeneration g)
      \<and> hitl_preserved (cxRootGrant ctx) g
      \<and> (grParentGrantID g = None
          \<or> within (rpCountActiveChildren repo tenantID (grGrantID g) w)
               (\<lambda>n. n < effective_limit maxFanOut defaultMaxFanOut)))"

lemma validators_None [simp]:
  "ValidateTTL now (Some g) = None \<longleftrightarrow> \<not> IsTerminal (grStatus g) \<and> now \<le> grExpiresAt g"
  "ValidateDepth d m = None \<longleftrightarrow> d < effective_limit m defaultMaxDepth"
  "ValidateFanOut n m = None \<longleftrightarrow> n < effective_limit m defaultMaxFanOut"
  "ValidateCrossTenant t t' = None \<longleftrightarrow> t = t'"
  "ValidateChainRevocation gen cur = None \<longleftrightarrow> cur \<le> gen"
  "ValidateHITLPropagation root g = None \<longleftrightarrow> hitl_preserved root g"
  "ValidateBudget n = None \<longleftrightarrow> 0 < n"
  by (auto simp: ValidateTTL_def ValidateDepth_def ValidateFanOut_def ValidateCrossTenant_def
      ValidateChainRevocation_def ValidateHITLPropagation_def hitl_preserved_def ValidateBudget_def
      effective_limit_def classificationAtLeastAsStrict_def Let_def split: option.splits)

lemma isl_Intersection [simp]: "isl (Intersection a b) \<longleftrightarrow> set a \<inter> set b = {}"
  using Intersection_Inl_iff[of a b] Intersection_Inr_iff[of a b]
  by (cases "Intersection a b") auto

lemma not_within: "(case res of Inl _ \<Rightarrow> False | Inr n \<Rightarrow> V n \<noteq> None) \<longleftrightarrow> \<not> within res (\<lambda>n. V n = None)"
  by (simp add: within_def split: sum.splits)

lemma case_error_None: "(case v of None \<Rightarrow> x | Some e \<Rightarrow> Some e) = None \<longleftrightarrow> v = None \<and> x = None"
  by (cases v) auto

lemma if_error_None: "(if c then Some e else x) = None \<longleftrightarrow> \<not> c \<and> x = None"
  by simp

lemma delegation_checks_iff:
  "delegation_checks repo md mf now t g ctx w = None \<longleftrightarrow> delegation_policy repo md mf now t g ctx w"
  unfolding delegation_checks_def delegation_policy_def Let_def not_within case_error_None if_error_None
  by (auto simp: ValidateScopeIntersection_def HasParent_def)

text \<open>The budget decision of the handler on a grant that passed the checks.\<close>

definition budget_step ::
  "bool \<Rightarrow> 'w budget_decrementor \<Rightarrow> grant \<Rightarrow> 'w \<Rightarrow> 'w \<times> bool" where
  "budget_step failOpen dec g w =
     (if grBudgetRemaining g > 0 then
        (case dec (grChainID g) 1 w of
           (w', Inl e) \<Rightarrow> (w', failOpen)
         | (w', Inr remaining) \<Rightarrow> (w', remaining \<ge> 0))
      else (w, True))"

lemma delegation_handler_alt:
  assumes "cxTenantID ctx = Some t" and "cxGrant ctx = Some g"
  shows "delegation_handler cfg repo dec now ctx w =
    (case delegation_checks repo (dcMaxDepth cfg) (dcMaxFanOut cfg) now t g ctx w of
       Some e \<Rightarrow> (w, Error 403 e)
     | None \<Rightarrow> (let (w', ok) = budget_step (dcFailOpen cfg) dec g w
               in (w', if ok then Next (pass_ctx ctx g) else Error 403 ErrBudgetExhausted)))"
  using assms
  by (auto simp: delegation_handler_def budget_step_def Let_def split: option.splits prod.splits sum.splits)

lemma handler_Next_iff:
  assumes "cxTenantID ctx = Some t" and "cxGrant ctx = Some g"
  shows "snd (delegation_handler cfg repo dec now ctx w) = Next ctx' \<longleftrightarrow>
    delegation_policy repo (dcMaxDepth cfg) (dcMaxFanOut cfg) now t g ctx w
    \<and> snd (budget_step (dcFailOpen cfg) dec g w) \<and> ctx' = pass_ctx ctx g"
  by (auto simp: delegation_handler_alt[OF assms] delegation_checks_iff[symmetric]
      split: option.splits prod.splits)

lemma handler_state:
  assumes "cxTenantID ctx = Some t" and "cxGrant ctx = Some g"
  shows "fst (delegation_handler cfg repo dec now ctx w) =
    (if delegation_policy repo (dcMaxDepth cfg) (dcMaxFanOut cfg) now t g ctx w
     then fst (budget_step (dcFailOpen cfg) dec g w) else w)"
  by (auto simp: delegation_handler_alt[OF assms] delegation_checks_iff[symmetric]
      split: option.splits prod.splits)

lemma pass_ctx_sel [simp]:
  "cxAncestors (pass_ctx ctx g) = Some (GetAncestorsFromContext ctx @ [delegateID ctx])"
  "cxGrant (pass_ctx ctx g) = Some g"
  "cxRootGrant (pass_ctx ctx g) = cxRootGrant ctx"
  "cxTenantID (pass_ctx ctx g) = cxTenantID ctx"
  "cxUserID (pass_ctx ctx g) = cxUserID ctx"
  "cxScopes (pass_ctx ctx g) = cxScopes ctx"
  by (simp_all add: pass_ctx_def SetAncestorsInContext_def Let_def split: option.splits)

subsection \<open>Runs of the gateway\<close>

definition is_next :: "mw_outcome \<Rightarrow> bool" where
  "is_next out = (case out of Next _ \<Rightarrow> True | Error _ _ \<Rightarrow> False)"

text \<open>The request presents a grant of chain \<open>c\<close> that claims a budget.\<close>

definition claims_budget :: "gw_request \<Rightarrow> bool" where
  "claims_budget rq = (case (cxTenantID (rqCtx rq), cxGrant (rqCtx rq)) of
     (Some t, Some g) \<Rightarrow> grBudgetRemaining g > 0 | _ \<Rightarrow> False)"

definition request_chain :: "gw_request \<Rightarrow> uuid" where
  "request_chain rq = (case cxGrant (rqCtx rq) of Some g \<Rightarrow> grChainID g | None \<Rightarrow> zero_uuid)"

primrec gateway_admitted :: "uuid \<Rightarrow> gw_request list \<Rightarrow> world \<Rightarrow> nat" where
  "gateway_admitted c [] w = 0"
| "gateway_admitted c (rq # rqs) w =
     (let (w', out) = gateway_delegation rq w
      in (if claims_budget rq \<and> request_chain rq = c \<and> is_next out then 1 else 0)
         + gateway_admitted c rqs w')"

definition gw_serve :: "gw_request \<Rightarrow> world \<Rightarrow> world \<times> bool" where
  "gw_serve rq w = (let (w', out) = gateway_delegation rq w in (w', is_next out))"

lemma gw_serve_sel [simp]:
  "fst (gw_serve rq w) = fst (gateway_delegation rq w)"
  "snd (gw_serve rq w) = is_next (snd (gateway_delegation rq w))"
  by (simp_all add: gw_serve_def split: prod.splits)

lemma budget_step_redis:
  shows "budget_level k (wdBudgets (fst (budget_step fo (redis_decrementor link) g w)))
      \<le> budget_level k (wdBudgets w)"
    and "grBudgetRemaining g > 0 \<Longrightarrow> snd (budget_step False (redis_decrementor link) g w) \<Longrightarrow>
      budget_level (budgetKey (grChainID g)) (wdBudgets (fst (budget_step False (redis_decrementor link) g w)))
        < budget_level (budgetKey (grChainID g)) (wdBudgets w)"
proof -
  let ?d = "DecrementBudget link (grChainID g) 1 (wdBudgets w)"
  have fst: "wdBudgets (fst (budget_step fo (redis_decrementor link) g w)) =
      (if grBudgetRemaining g > 0 then fst ?d else wdBudgets w)" for fo
    by (auto simp: budget_step_def redis_decrementor_def split: prod.splits sum.splits)
  show "budget_level k (wdBudgets (fst (budget_step fo (redis_decrementor link) g w)))
      \<le> budget_level k (wdBudgets w)"
    using DecrementBudget_antitone by (simp add: fst)
  assume pos: "grBudgetRemaining g > 0"
    and ok: "snd (budget_step False (redis_decrementor link) g w)"
  then obtain left where "snd ?d = Inr left"
    by (auto simp: budget_step_def redis_decrementor_def split: prod.splits sum.splits)
  from DecrementBudget_InrD[OF this] pos
  show "budget_level (budgetKey (grChainID g)) (wdBudgets (fst (budget_step False (redis_decrementor link) g w)))
        < budget_level (budgetKey (grChainID g)) (wdBudgets w)"
    by (simp add: fst budget_level_def)
qed

lemma gateway_unguarded:
  "cxTenantID (rqCtx rq) = None \<or> cxGrant (rqCtx rq) = None \<Longrightarrow>
     gateway_delegation rq w = (w, Next (rqCtx rq))"
  by (auto simp: gateway_delegation_def delegation_handler_def split: option.splits)

lemma gateway_cfg_sel [simp]:
  "dcFailOpen (gateway_config env link) = False"
  "dcMaxDepth (gateway_config env link) = 5"
  "dcMaxFanOut (gateway_config env link) = 10"
  by (simp_all add: gateway_config_def)

lemma is_nextD: "is_next out \<Longrightarrow> \<exists>ctx. out = Next ctx"
  by (cases out) (auto simp: is_next_def)

interpretation gw: metered "\<lambda>k w. budget_level k (wdBudgets w)" gw_serve
    "\<lambda>rq. budgetKey (request_chain rq)" claims_budget
proof unfold_locales
  fix rq w assume c: "claims_budget rq" and ok: "snd (gw_serve rq w)"
  obtain t g where tg: "cxTenantID (rqCtx rq) = Some t" "cxGrant (rqCtx rq) = Some g"
    and pos: "grBudgetRemaining g > 0"
    using c by (auto simp: claims_budget_def split: option.splits)
  from ok obtain ctx' where "snd (gateway_delegation rq w) = Next ctx'" by (auto dest: is_nextD)
  then have *: "delegation_policy (pg_repository (rqEnv rq)) 5 10 (rqNow rq) t g (rqCtx rq) w"
      "snd (budget_step False (redis_decrementor (rqLink rq)) g w)"
    by (simp_all add: gateway_delegation_def handler_Next_iff[OF tg])
  then show "budget_level (budgetKey (request_chain rq)) (wdBudgets (fst (gw_serve rq w)))
      < budget_level (budgetKey (request_chain rq)) (wdBudgets w)"
    using budget_step_redis(2)[OF pos *(2)]
    by (simp add: gateway_delegation_def handler_state[OF tg] request_chain_def tg(2))
next
  fix k rq w
  show "budget_level k (wdBudgets (fst (gw_serve rq w))) \<le> budget_level k (wdBudgets w)"
  proof (cases "\<exists>t g. cxTenantID (rqCtx rq) = Some t \<and> cxGrant (rqCtx rq) = Some g")
    case True
    then obtain t g where tg: "cxTenantID (rqCtx rq) = Some t" "cxGrant (rqCtx rq) = Some g" by blast
    show ?thesis
      using budget_step_redis(1)[of k False] by (simp add: gateway_delegation_def handler_state[OF tg])
  next
    case False
    then show ?thesis by (simp add: gateway_unguarded)
  qed
qed

lemma gateway_admitted_le: "gateway_admitted c rqs w \<le> gw.admitted (budgetKey c) rqs w"
proof (induction rqs arbitrary: w)
  case (Cons rq rqs)
  show ?case using Cons[of "fst (gateway_delegation rq w)"]
    by (auto split: prod.splits)
qed simp

text \<open>A delegated request that is handed from user to user: each hop passes the
  guard as the user it is delegated to. None: some hop was refused.\<close>

fun delegate_hops ::
  "'w delegation_config \<Rightarrow> 'w delegation_repository \<Rightarrow> 'w budget_decrementor \<Rightarrow> time
     \<Rightarrow> uuid list \<Rightarrow> req_ctx \<Rightarrow> 'w \<Rightarrow> req_ctx option"
where
  "delegate_hops cfg repo dec now [] ctx w = Some ctx"
| "delegate_hops cfg repo dec now (u # us) ctx w =
     (case delegation_handler cfg repo dec now (ctx\<lparr>cxUserID := Some u\<rparr>) w of
        (w', Next ctx') \<Rightarrow> delegate_hops cfg repo dec now us ctx' w'
      | (w', Error _ _) \<Rightarrow> None)"

lemma delegate_hops_ancestors:
  assumes "delegate_hops cfg repo dec now us ctx w = Some ctx'"
    and "cxTenantID ctx = Some t" and "cxGrant ctx = Some g"
    and "distinct (GetAncestorsFromContext ctx)"
  shows "GetAncestorsFromContext ctx' = GetAncestorsFromContext ctx @ us
    \<and> distinct (GetAncestorsFromContext ctx')"
  using assms
proof (induction us arbitrary: ctx w)
  case (Cons u us)
  let ?c = "ctx\<lparr>cxUserID := Some u\<rparr>"
  have c: "cxTenantID ?c = Some t" "cxGrant ?c = Some g" using Cons.prems by simp_all
  from Cons.prems(1) obtain w' ctx1
    where h: "delegation_handler cfg repo dec now ?c w = (w', Next ctx1)"
      and r: "delegate_hops cfg repo dec now us ctx1 w' = Some ctx'"
    by (auto split: prod.splits mw_outcome.splits)
  have pol: "delegation_policy repo (dcMaxDepth cfg) (dcMaxFanOut cfg) now t g ?c w"
    and ctx1: "ctx1 = pass_ctx ?c g"
    using handler_Next_iff[OF c, of cfg repo dec now w ctx1] h by simp_all
  have anc: "GetAncestorsFromContext ctx1 = GetAncestorsFromContext ctx @ [u]"
    by (simp add: ctx1 GetAncestorsFromContext_def delegateID_def)
  have "distinct (GetAncestorsFromContext ctx1)"
    using pol Cons.prems(4) anc
    by (simp add: delegation_policy_def delegateID_def GetAncestorsFromContext_def)
  moreover have "cxTenantID ctx1 = Some t" "cxGrant ctx1 = Some g" using c by (simp_all add: ctx1)
  ultimately have "GetAncestorsFromContext ctx' = GetAncestorsFromContext ctx1 @ us
      \<and> distinct (GetAncestorsFromContext ctx')"
    using Cons.IH[OF r] by blast
  then show ?case unfolding anc by auto
qed simp

subsection \<open>Properties\<close>


text \<open>A request that presents the sample grant.\<close>

definition demo_ctx :: req_ctx where
  "demo_ctx = \<lparr> cxTenantID = Some (demo_id 1), cxUserID = Some (demo_id 2),
     cxScopes = Some [''write:data'', ''read:data''], cxGrant = Some demo_grant,
     cxRootGrant = Some demo_grant, cxAncestors = None \<rparr>"

definition demo_world :: world where
  "demo_world = \<lparr> wdGrants = [grantToInsertParams demo_grant],
     wdBudgets = [budgetKey (demo_id 7) \<mapsto> 1] \<rparr>"

definition demo_request :: gw_request where
  "demo_request = \<lparr> rqEnv = demo_env, rqLink = Link_up, rqNow = 60, rqCtx = demo_ctx \<rparr>"

lemma demo_admitted:
  "delegation_policy (pg_repository demo_env) 5 10 60 (demo_id 1) demo_grant demo_ctx demo_world"
  "snd (budget_step False (redis_decrementor Link_up) demo_grant demo_world)"
  by code_simp+


text \<open>C2: However delegated requests are interleaved, and however Postgres and
  Redis answer each of them, the gateway admits at most as many requests that
  claim a budget on a chain as the chain's pool holds at the start.\<close>

theorem gateway_never_overspends:
  "gateway_admitted c rqs w \<le> budget_level (budgetKey c) (wdBudgets w)"
  using gateway_admitted_le[of c rqs w] gw.admitted_within_level[of "budgetKey c" rqs w] by simp



text \<open>C27: A delegated request that passes the guard hop after hop never returns to
  a user: the ancestors grow by exactly the users visited, and they are all
  different.\<close>

theorem delegation_hops_acyclic:
  assumes "delegate_hops cfg repo dec now us ctx w = Some ctx'"
    and "cxTenantID ctx = Some t" and "cxGrant ctx = Some g" and "cxAncestors ctx = None"
  shows "GetAncestorsFromContext ctx' = us \<and> distinct us"
  using delegate_hops_ancestors[OF assms(1-3)] assms(4) by (auto simp: GetAncestorsFromContext_def)

theorem delegation_hops_acyclic_witness:
  "\<exists>ctx'. delegate_hops (gateway_config demo_env Link_up) (pg_repository demo_env)
      (redis_decrementor Link_up) 60 [demo_id 2] demo_ctx demo_world = Some ctx'
    \<and> GetAncestorsFromContext ctx' = [demo_id 2]"
proof -
  have ctx: "demo_ctx\<lparr>cxUserID := Some (demo_id 2)\<rparr> = demo_ctx" by (simp add: demo_ctx_def)
  have tg: "cxTenantID demo_ctx = Some (demo_id 1)" "cxGrant demo_ctx = Some demo_grant"
    "cxAncestors demo_ctx = None"
    by (simp_all add: demo_ctx_def)
  obtain w' out where h: "delegation_handler (gateway_config demo_env Link_up) (pg_repository demo_env)
      (redis_decrementor Link_up) 60 demo_ctx demo_world = (w', out)"
    by (rule prod.exhaust)
  moreover have "out = Next (pass_ctx demo_ctx demo_grant)"
    using handler_Next_iff[OF tg(1,2), of "gateway_config demo_env Link_up" "pg_repository demo_env"
        "redis_decrementor Link_up" 60 demo_world "pass_ctx demo_ctx demo_grant"] demo_admitted
    unfolding h gateway_cfg_sel by simp
  ultimately have hop: "delegate_hops (gateway_config demo_env Link_up) (pg_repository demo_env)
      (redis_decrementor Link_up) 60 [demo_id 2] demo_ctx demo_world
      = Some (pass_ctx demo_ctx demo_grant)"
    by (simp add: ctx)
  show ?thesis using hop delegation_hops_acyclic[OF hop tg] by blast
qed

text \<open>A grant whose own claim of a remaining budget is zero or negative is
  never charged: if it passes the other checks it is admitted and the pool is
  left as it is, even when the pool is empty.\<close>

theorem zero_claim_skips_budget:
  assumes "cxTenantID ctx = Some t" and "cxGrant ctx = Some g" and "grBudgetRemaining g \<le> 0"
    and "delegation_policy (pg_repository env) 5 10 now t g ctx w"
  shows "delegation_handler (gateway_config env link) (pg_repository env) (redis_decrementor link) now ctx w
    = (w, Next (pass_ctx ctx g))"
proof -
  have "delegation_checks (pg_repository env) 5 10 now t g ctx w = None"
    using assms(4) by (simp add: delegation_checks_iff)
  then show ?thesis
    using assms(3) by (simp add: delegation_handler_alt[OF assms(1,2)] budget_step_def)
qed

theorem zero_claim_skips_budget_witness:
  "delegation_handler (gateway_config demo_env Link_up) (pg_repository demo_env) (redis_decrementor Link_up) 60
     (demo_ctx\<lparr>cxGrant := Some (demo_grant\<lparr>grBudgetRemaining := 0\<rparr>)\<rparr>) (demo_world\<lparr>wdBudgets := Map.empty\<rparr>)
   = (demo_world\<lparr>wdBudgets := Map.empty\<rparr>,
      Next (pass_ctx (demo_ctx\<lparr>cxGrant := Some (demo_grant\<lparr>grBudgetRemaining := 0\<rparr>)\<rparr>)
        (demo_grant\<lparr>grBudgetRemaining := 0\<rparr>)))"
proof (rule zero_claim_skips_budget[of _ "demo_id 1"])
  show "delegation_policy (pg_repository demo_env) 5 10 60 (demo_id 1) (demo_grant\<lparr>grBudgetRemaining := 0\<rparr>)
      (demo_ctx\<lparr>cxGrant := Some (demo_grant\<lparr>grBudgetRemaining := 0\<rparr>)\<rparr>) (demo_world\<lparr>wdBudgets := Map.empty\<rparr>)"
    by code_simp
qed (simp_all add: demo_ctx_def)

end
