(* ===== verification/CircuitBreaker.thy ===== *)
theory CircuitBreaker
  imports Prelude
begin

text \<open>
  \<open>src/internal/domain/model/circuitbreaker.go\<close>: the breaker in front of every
  model provider. The mutex makes each method atomic, so a breaker in use is a
  sequence of method calls; \<open>time.Now()\<close> is an argument. Times count from Go's
  zero time.
\<close>

datatype CircuitBreakerState = StateClosed | StateOpen | StateHalfOpen

primrec state_String :: "CircuitBreakerState \<Rightarrow> string" where
  "state_String StateClosed = ''closed''"
| "state_String StateOpen = ''open''"
| "state_String StateHalfOpen = ''half-open''"

record CircuitBreakerConfig =
  ccEnabled :: bool
  ccFailureThreshold :: int
  ccSuccessThreshold :: int
  ccTimeout :: duration
  ccHalfOpenMaxRequests :: int

record CircuitBreaker =
  cbFailureThreshold :: int
  cbSuccessThreshold :: int
  cbTimeout :: duration
  cbHalfOpenMaxRequests :: int
  cbEnabled :: bool
  cbState :: CircuitBreakerState
  cbFailureCount :: int
  cbSuccessCount :: int
  cbLastFailureTime :: time
  cbHalfOpenRequests :: int

definition second :: duration where
  "second = 1000000000"

definition NewCircuitBreaker :: "CircuitBreakerConfig \<Rightarrow> CircuitBreaker" where
  "NewCircuitBreaker config = \<lparr>
     cbFailureThreshold = (if ccFailureThreshold config \<le> 0 then 5 else ccFailureThreshold config),
     cbSuccessThreshold = (if ccSuccessThreshold config \<le> 0 then 2 else ccSuccessThreshold config),
     cbTimeout = (if ccTimeout config \<le> 0 then 30 * second else ccTimeout config),
     cbHalfOpenMaxRequests =
       (if ccHalfOpenMaxRequests config \<le> 0 then 3 else ccHalfOpenMaxRequests config),
     cbEnabled = ccEnabled config,
     cbState = StateClosed,
     cbFailureCount = 0,
     cbSuccessCount = 0,
     cbLastFailureTime = 0,
     cbHalfOpenRequests = 0 \<rparr>"

definition DefaultCircuitBreakerConfig :: CircuitBreakerConfig where
  "DefaultCircuitBreakerConfig = \<lparr> ccEnabled = True, ccFailureThreshold = 5,
     ccSuccessThreshold = 2, ccTimeout = 30 * second, ccHalfOpenMaxRequests = 3 \<rparr>"

definition TryTransitionToHalfOpen :: "time \<Rightarrow> CircuitBreaker \<Rightarrow> CircuitBreaker \<times> bool" where
  "TryTransitionToHalfOpen now cb =
     (if cbState cb = StateOpen \<and> now - cbLastFailureTime cb \<ge> cbTimeout cb
      then (cb\<lparr>cbState := StateHalfOpen, cbSuccessCount := 0, cbHalfOpenRequests := 0\<rparr>, True)
      else (cb, False))"

definition AllowRequest :: "time \<Rightarrow> CircuitBreaker \<Rightarrow> CircuitBreaker \<times> go_error option" where
  "AllowRequest now cb =
     (if \<not> cbEnabled cb then (cb, None)
      else case cbState cb of
        StateClosed \<Rightarrow> (cb, None)
      | StateOpen \<Rightarrow>
          if now - cbLastFailureTime cb \<ge> cbTimeout cb
          then (cb\<lparr>cbState := StateHalfOpen, cbSuccessCount := 0, cbHalfOpenRequests := 0\<rparr>, None)
          else (cb, Some ErrProviderUnavailable)
      | StateHalfOpen \<Rightarrow>
          if cbHalfOpenRequests cb \<ge> cbHalfOpenMaxRequests cb then (cb, Some ErrProviderUnavailable)
          else (cb\<lparr>cbHalfOpenRequests := cbHalfOpenRequests cb + 1\<rparr>, None))"

definition RecordSuccess :: "CircuitBreaker \<Rightarrow> CircuitBreaker" where
  "RecordSuccess cb =
     (if \<not> cbEnabled cb then cb
      else case cbState cb of
        StateClosed \<Rightarrow> cb\<lparr>cbFailureCount := 0\<rparr>
      | StateOpen \<Rightarrow> cb
      | StateHalfOpen \<Rightarrow>
          let cb' = cb\<lparr>cbSuccessCount := cbSuccessCount cb + 1\<rparr>
          in if cbSuccessCount cb' \<ge> cbSuccessThreshold cb'
             then cb'\<lparr>cbState := StateClosed, cbFailureCount := 0, cbSuccessCount := 0\<rparr>
             else cb')"

definition RecordFailure :: "time \<Rightarrow> CircuitBreaker \<Rightarrow> CircuitBreaker" where
  "RecordFailure now cb =
     (if \<not> cbEnabled cb then cb
      else let cb1 = cb\<lparr>cbLastFailureTime := now\<rparr> in
        case cbState cb1 of
          StateClosed \<Rightarrow>
            let cb2 = cb1\<lparr>cbFailureCount := cbFailureCount cb1 + 1\<rparr>
            in if cbFailureCount cb2 \<ge> cbFailureThreshold cb2
               then cb2\<lparr>cbState := StateOpen\<rparr> else cb2
        | StateHalfOpen \<Rightarrow> cb1\<lparr>cbState := StateOpen, cbSuccessCount := 0\<rparr>
        | StateOpen \<Rightarrow> cb1)"

definition Reset :: "CircuitBreaker \<Rightarrow> CircuitBreaker" where
  "Reset cb = cb\<lparr>cbState := StateClosed, cbFailureCount := 0, cbSuccessCount := 0,
     cbHalfOpenRequests := 0\<rparr>"

subsection \<open>Executions\<close>

datatype cb_event = EvAllow time | EvTry time | EvSuccess | EvFailure time | EvReset

primrec cb_exec :: "cb_event \<Rightarrow> CircuitBreaker \<Rightarrow> CircuitBreaker" where
  "cb_exec (EvAllow now) cb = fst (AllowRequest now cb)"
| "cb_exec (EvTry now) cb = fst (TryTransitionToHalfOpen now cb)"
| "cb_exec EvSuccess cb = RecordSuccess cb"
| "cb_exec (EvFailure now) cb = RecordFailure now cb"
| "cb_exec EvReset cb = Reset cb"

inductive cb_reachable :: "CircuitBreakerConfig \<Rightarrow> CircuitBreaker \<Rightarrow> bool" for config where
  cb_new: "cb_reachable config (NewCircuitBreaker config)"
| cb_call: "cb_reachable config cb \<Longrightarrow> cb_reachable config (cb_exec ev cb)"

text \<open>The type invariant: positive limits; below the failure threshold while
  closed, below the success threshold and within the trial limit while
  half-open.\<close>

definition cb_inv :: "CircuitBreaker \<Rightarrow> bool" where
  "cb_inv cb = (0 < cbFailureThreshold cb \<and> 0 < cbSuccessThreshold cb \<and> 0 < cbTimeout cb
     \<and> 0 < cbHalfOpenMaxRequests cb \<and> 0 \<le> cbFailureCount cb \<and> 0 \<le> cbSuccessCount cb
     \<and> 0 \<le> cbHalfOpenRequests cb \<and> cbHalfOpenRequests cb \<le> cbHalfOpenMaxRequests cb
     \<and> (cbState cb = StateClosed \<longrightarrow> cbFailureCount cb < cbFailureThreshold cb)
     \<and> (cbState cb = StateHalfOpen \<longrightarrow> cbSuccessCount cb < cbSuccessThreshold cb))"

lemmas cb_op_defs = AllowRequest_def TryTransitionToHalfOpen_def RecordSuccess_def
  RecordFailure_def Reset_def

lemma cb_inv_new: "cb_inv (NewCircuitBreaker config)"
  by (simp add: cb_inv_def NewCircuitBreaker_def second_def)

lemma cb_inv_exec: "cb_inv cb \<Longrightarrow> cb_inv (cb_exec ev cb)"
  by (cases ev; cases "cbState cb") (auto simp: cb_inv_def cb_op_defs Let_def)

lemma cb_reachable_inv: "cb_reachable config cb \<Longrightarrow> cb_inv cb"
  by (induction rule: cb_reachable.induct) (auto simp: cb_inv_new cb_inv_exec)

text \<open>The configuration never changes.\<close>

lemma cb_exec_config:
  "cbFailureThreshold (cb_exec ev cb) = cbFailureThreshold cb"
  "cbSuccessThreshold (cb_exec ev cb) = cbSuccessThreshold cb"
  "cbTimeout (cb_exec ev cb) = cbTimeout cb"
  "cbHalfOpenMaxRequests (cb_exec ev cb) = cbHalfOpenMaxRequests cb"
  "cbEnabled (cb_exec ev cb) = cbEnabled cb"
  by (cases ev; cases "cbState cb"; simp add: cb_op_defs Let_def)+

subsection \<open>Gates that stay shut\<close>

text \<open>The contract of a gate and a condition under which it refuses and does not
  move: however often it is asked while the condition lasts, it refuses.\<close>

locale shut_gate =
  fixes ask :: "time \<Rightarrow> 'b \<Rightarrow> 'b \<times> go_error option"
    and shut :: "time \<Rightarrow> 'b \<Rightarrow> bool"
  assumes refuses: "shut now b \<Longrightarrow> ask now b = (b, Some ErrProviderUnavailable)"
begin

primrec polls :: "time list \<Rightarrow> 'b \<Rightarrow> 'b \<times> bool list" where
  "polls [] b = (b, [])"
| "polls (t # ts) b = (let (b', e) = ask t b; (b'', os) = polls ts b' in (b'', (e = None) # os))"

lemma polls_refused:
  "(\<And>t. t \<in> set ts \<Longrightarrow> shut t b) \<Longrightarrow> polls ts b = (b, replicate (length ts) False)"
  by (induction ts) (simp_all add: refuses)

end

text \<open>Open and cooling down; half-open with all trial slots taken.\<close>

definition cooling :: "time \<Rightarrow> CircuitBreaker \<Rightarrow> bool" where
  "cooling now cb = (cbEnabled cb \<and> cbState cb = StateOpen \<and> now - cbLastFailureTime cb < cbTimeout cb)"

definition exhausted :: "CircuitBreaker \<Rightarrow> bool" where
  "exhausted cb = (cbEnabled cb \<and> cbState cb = StateHalfOpen
     \<and> cbHalfOpenMaxRequests cb \<le> cbHalfOpenRequests cb)"

interpretation cooldown: shut_gate AllowRequest cooling
  by unfold_locales (simp add: cooling_def AllowRequest_def)

interpretation stuck: shut_gate AllowRequest "\<lambda>_. exhausted"
  by unfold_locales (simp add: exhausted_def AllowRequest_def)

text \<open>\<open>asked ts cb\<close>: the breaker after being asked at the times \<open>ts\<close> with no
  outcome recorded in between, and how many of the requests it let through.\<close>

primrec asked :: "time list \<Rightarrow> CircuitBreaker \<Rightarrow> CircuitBreaker \<times> nat" where
  "asked [] cb = (cb, 0)"
| "asked (t # ts) cb =
     (let (cb', e) = AllowRequest t cb; (cb'', n) = asked ts cb'
      in (cb'', if e = None then Suc n else n))"

lemma asked_half_open:
  assumes "cbEnabled cb" and "cbState cb = StateHalfOpen" and "cbHalfOpenRequests cb \<le> cbHalfOpenMaxRequests cb"
  shows "snd (asked ts cb) = min (length ts) (nat (cbHalfOpenMaxRequests cb - cbHalfOpenRequests cb))
    \<and> fst (asked ts cb) = cb\<lparr>cbHalfOpenRequests := cbHalfOpenRequests cb + int (snd (asked ts cb))\<rparr>"
  using assms
proof (induction ts arbitrary: cb)
  case (Cons t ts)
  show ?case
  proof (cases "cbHalfOpenMaxRequests cb \<le> cbHalfOpenRequests cb")
    case True
    then have a: "AllowRequest t cb = (cb, Some ErrProviderUnavailable)"
      using Cons.prems by (simp add: AllowRequest_def)
    show ?thesis using Cons.IH[OF Cons.prems] True by (simp add: a split: prod.splits)
  next
    case False
    let ?cb = "cb\<lparr>cbHalfOpenRequests := cbHalfOpenRequests cb + 1\<rparr>"
    have a: "AllowRequest t cb = (?cb, None)"
      using Cons.prems False by (simp add: AllowRequest_def)
    have "snd (asked ts ?cb) = min (length ts) (nat (cbHalfOpenMaxRequests cb - (cbHalfOpenRequests cb + 1)))
        \<and> fst (asked ts ?cb) = ?cb\<lparr>cbHalfOpenRequests := cbHalfOpenRequests ?cb + int (snd (asked ts ?cb))\<rparr>"
      using Cons.IH[of ?cb] Cons.prems False by simp
    then show ?thesis using False by (auto simp: a split: prod.splits)
  qed
qed simp

lemma asked_refused:
  "(\<And>t. t \<in> set ts \<Longrightarrow> AllowRequest t cb = (cb, Some e)) \<Longrightarrow> asked ts cb = (cb, 0)"
  by (induction ts) simp_all

lemma half_open_exhausts:
  assumes "cbEnabled cb" and "cbState cb = StateOpen" and "0 < cbHalfOpenMaxRequests cb"
    and "cbTimeout cb \<le> t - cbLastFailureTime cb" and "cbHalfOpenMaxRequests cb \<le> int (length ts)"
  shows "snd (asked (t # ts) cb) = Suc (nat (cbHalfOpenMaxRequests cb))
    \<and> (\<exists>cb'. fst (asked (t # ts) cb) = cb' \<and> (\<forall>later. asked later cb' = (cb', 0)))"
proof -
  let ?h = "cb\<lparr>cbState := StateHalfOpen, cbSuccessCount := 0, cbHalfOpenRequests := 0\<rparr>"
  have first: "AllowRequest t cb = (?h, None)" using assms by (simp add: AllowRequest_def)
  have rest: "snd (asked ts ?h) = nat (cbHalfOpenMaxRequests cb)"
    "fst (asked ts ?h) = ?h\<lparr>cbHalfOpenRequests := cbHalfOpenMaxRequests cb\<rparr>"
    using asked_half_open[of ?h ts] assms by auto
  let ?e = "fst (asked ts ?h)"
  have "exhausted ?e" using assms(1) by (simp add: exhausted_def rest)
  then have "asked later ?e = (?e, 0)" for later
    by (intro asked_refused[OF stuck.refuses])
  then show ?thesis using first rest by (auto split: prod.splits)
qed

subsection \<open>Outcomes\<close>

lemma failures_closed:
  assumes "cbEnabled cb" and "cbState cb = StateClosed" and "cbFailureCount cb < cbFailureThreshold cb"
    and "cbFailureCount cb + int (length ts) < cbFailureThreshold cb"
  shows "cbState (fold RecordFailure ts cb) = StateClosed
    \<and> cbFailureCount (fold RecordFailure ts cb) = cbFailureCount cb + int (length ts)"
  using assms
proof (induction ts arbitrary: cb)
  case (Cons t ts)
  let ?cb = "RecordFailure t cb"
  have eq: "?cb = cb\<lparr>cbLastFailureTime := t, cbFailureCount := cbFailureCount cb + 1\<rparr>"
    using Cons.prems by (simp add: RecordFailure_def Let_def)
  have "cbState (fold RecordFailure ts ?cb) = StateClosed
      \<and> cbFailureCount (fold RecordFailure ts ?cb) = cbFailureCount ?cb + int (length ts)"
    by (rule Cons.IH) (use Cons.prems in \<open>simp_all add: eq\<close>)
  then show ?case by (simp add: eq)
qed simp

lemma failures_open:
  "cbEnabled cb \<Longrightarrow> cbState cb = StateOpen \<Longrightarrow> cbState (fold RecordFailure ts cb) = StateOpen"
proof (induction ts arbitrary: cb)
  case (Cons t ts)
  have "cbEnabled (RecordFailure t cb) \<and> cbState (RecordFailure t cb) = StateOpen"
    using Cons.prems by (simp add: RecordFailure_def Let_def)
  with Cons.IH show ?case by simp
qed simp

lemma failures_trip:
  assumes "cbEnabled cb" and "cbState cb = StateClosed" and "cbFailureCount cb < cbFailureThreshold cb"
    and "cbFailureThreshold cb \<le> cbFailureCount cb + int (length ts)"
  shows "cbState (fold RecordFailure ts cb) = StateOpen"
  using assms
proof (induction ts arbitrary: cb)
  case (Cons t ts)
  let ?cb = "RecordFailure t cb"
  show ?case
  proof (cases "cbFailureCount cb + 1 < cbFailureThreshold cb")
    case True
    then have eq: "?cb = cb\<lparr>cbLastFailureTime := t, cbFailureCount := cbFailureCount cb + 1\<rparr>"
      using Cons.prems by (simp add: RecordFailure_def Let_def)
    have "cbState (fold RecordFailure ts ?cb) = StateOpen"
      by (rule Cons.IH) (use Cons.prems True in \<open>simp_all add: eq\<close>)
    then show ?thesis by simp
  next
    case False
    then have "cbEnabled ?cb \<and> cbState ?cb = StateOpen"
      using Cons.prems by (simp add: RecordFailure_def Let_def)
    then show ?thesis using failures_open by simp
  qed
qed simp

lemma successes_close:
  assumes "cbEnabled cb" and "cbState cb = StateHalfOpen" and "cbSuccessCount cb < cbSuccessThreshold cb"
    and "int n = cbSuccessThreshold cb - cbSuccessCount cb"
  shows "(RecordSuccess ^^ n) cb = cb\<lparr>cbState := StateClosed, cbFailureCount := 0, cbSuccessCount := 0\<rparr>"
  using assms
proof (induction n arbitrary: cb)
  case (Suc n)
  show ?case
  proof (cases "n = 0")
    case True
    then show ?thesis using Suc.prems by (simp add: RecordSuccess_def Let_def)
  next
    case False
    let ?cb = "cb\<lparr>cbSuccessCount := cbSuccessCount cb + 1\<rparr>"
    have "RecordSuccess cb = ?cb" using Suc.prems False by (simp add: RecordSuccess_def Let_def)
    moreover have "(RecordSuccess ^^ n) ?cb
        = ?cb\<lparr>cbState := StateClosed, cbFailureCount := 0, cbSuccessCount := 0\<rparr>"
      by (rule Suc.IH) (use Suc.prems False in auto)
    ultimately show ?thesis by (simp add: funpow_Suc_right del: funpow.simps)
  qed
qed simp

subsection \<open>Properties\<close>

text \<open>In every state a breaker can reach by any sequence of calls at any times
  its limits are positive, its failure count is below the threshold while it is
  closed, and while it is half-open its success count is below its threshold
  and no more trial slots are taken than there are.\<close>

theorem breaker_invariant:
  assumes "cb_reachable config cb"
  shows "cb_inv cb"
  using assms by (rule cb_reachable_inv)

theorem breaker_invariant_witness:
  "cb_inv (cb_exec (EvFailure 7) (NewCircuitBreaker DefaultCircuitBreakerConfig))"
  by (rule breaker_invariant[of DefaultCircuitBreakerConfig]) (intro cb_reachable.intros)

text \<open>A breaker in service that starts closed is open after consecutive
  failures exactly when there were at least as many as its failure threshold.\<close>

theorem breaker_trips_at_threshold:
  assumes "ccEnabled config"
  shows "cbState (fold RecordFailure ts (NewCircuitBreaker config)) =
    (if int (length ts) < cbFailureThreshold (NewCircuitBreaker config) then StateClosed else StateOpen)"
proof -
  let ?cb = "NewCircuitBreaker config"
  have "cbEnabled ?cb" "cbState ?cb = StateClosed" "cbFailureCount ?cb = 0" "0 < cbFailureThreshold ?cb"
    using assms by (simp_all add: NewCircuitBreaker_def)
  then show ?thesis using failures_closed[of ?cb ts] failures_trip[of ?cb ts] by auto
qed

theorem breaker_trips_at_threshold_witness:
  "cbState (fold RecordFailure [1, 2, 3, 4, 5] (NewCircuitBreaker DefaultCircuitBreakerConfig)) = StateOpen"
  using breaker_trips_at_threshold[of DefaultCircuitBreakerConfig "[1, 2, 3, 4, 5]"]
  by (simp add: DefaultCircuitBreakerConfig_def NewCircuitBreaker_def)

text \<open>An open breaker refuses every request made before its timeout has
  elapsed since the last failure, and being asked does not change it.\<close>

theorem breaker_fails_fast:
  assumes "cbEnabled cb" and "cbState cb = StateOpen"
    and "\<forall>t\<in>set ts. t - cbLastFailureTime cb < cbTimeout cb"
  shows "asked ts cb = (cb, 0)"
  by (rule asked_refused[OF cooldown.refuses]) (use assms in \<open>simp add: cooling_def\<close>)

definition demo_open :: CircuitBreaker where
  "demo_open = fold RecordFailure [1, 2, 3, 4, 5] (NewCircuitBreaker DefaultCircuitBreakerConfig)"

theorem breaker_fails_fast_witness:
  "asked [6, 7, 29000000000] demo_open = (demo_open, 0)"
proof (rule breaker_fails_fast)
  show "cbEnabled demo_open" "cbState demo_open = StateOpen" by code_simp+
  show "\<forall>t\<in>set [6, 7, 29000000000]. t - cbLastFailureTime demo_open < cbTimeout demo_open" by code_simp
qed

text \<open>Once the timeout has elapsed, a breaker that is asked without any outcome
  being recorded lets through one request more than its half-open limit, and
  from then on refuses every request at every later time: no amount of waiting
  reopens it.\<close>

theorem half_open_starves:
  assumes "cbEnabled cb" and "cbState cb = StateOpen" and "0 < cbHalfOpenMaxRequests cb"
    and "cbTimeout cb \<le> t - cbLastFailureTime cb" and "cbHalfOpenMaxRequests cb \<le> int (length ts)"
  shows "\<exists>cb'. asked (t # ts) cb = (cb', Suc (nat (cbHalfOpenMaxRequests cb)))
    \<and> (\<forall>later. asked later cb' = (cb', 0))"
  using half_open_exhausts[OF assms] by (metis prod.collapse)

theorem half_open_starves_witness:
  "\<exists>cb'. asked [30000000005, 30000000006, 30000000007, 30000000008] demo_open = (cb', 4)
    \<and> asked [90000000000] cb' = (cb', 0)"
proof -
  have "cbEnabled demo_open" "cbState demo_open = StateOpen" "0 < cbHalfOpenMaxRequests demo_open"
    "cbTimeout demo_open \<le> 30000000005 - cbLastFailureTime demo_open"
    "cbHalfOpenMaxRequests demo_open \<le> int (length [30000000006, 30000000007, 30000000008 :: int])"
    by code_simp+
  from half_open_starves[OF this] obtain cb' where
    "asked [30000000005, 30000000006, 30000000007, 30000000008] demo_open
       = (cb', Suc (nat (cbHalfOpenMaxRequests demo_open)))" "\<forall>later. asked later cb' = (cb', 0)"
    by blast
  moreover have "Suc (nat (cbHalfOpenMaxRequests demo_open)) = 4" by code_simp
  ultimately show ?thesis by metis
qed

text \<open>A half-open breaker closes with the last of the successes that are
  missing to its success threshold, with its counters reset.\<close>

theorem half_open_recovers:
  assumes "cbEnabled cb" and "cbState cb = StateHalfOpen" and "cb_inv cb"
    and "int n = cbSuccessThreshold cb - cbSuccessCount cb"
  shows "(RecordSuccess ^^ n) cb = cb\<lparr>cbState := StateClosed, cbFailureCount := 0, cbSuccessCount := 0\<rparr>"
  using successes_close[OF assms(1,2) _ assms(4)] assms(2,3) by (simp add: cb_inv_def)

theorem half_open_recovers_witness:
  "cbState ((RecordSuccess ^^ 2) (fst (AllowRequest 30000000005 demo_open))) = StateClosed"
proof -
  let ?cb = "fst (AllowRequest 30000000005 demo_open)"
  have "cbEnabled ?cb" "cbState ?cb = StateHalfOpen" "cb_inv ?cb"
    "int 2 = cbSuccessThreshold ?cb - cbSuccessCount ?cb"
    by code_simp+
  from half_open_recovers[OF this] show ?thesis by simp
qed

end
