(* ===== verification/ModelTypes.thy ===== *)
theory ModelTypes
  imports Uuid Complex_Main
begin

text \<open>
  \<open>src/internal/domain/model/chat.go\<close> and \<open>src/internal/domain/tool\<close>: the
  requests, messages, tool calls and completions that travel between the chat
  handler, the orchestrator, the providers and the tool executor. A JSON value
  (\<open>any\<close>, \<open>map[string]any\<close>) is a \<open>json\<close>, an object being the list of its
  fields; a float is a rational.
\<close>

type_synonym float64 = rat

datatype json = JNull | JBool bool | JNum rat | JStr string | JArr "json list" | JObj "(string \<times> json) list"

record FunctionCall =
  fnName :: string
  fnArguments :: string

record ToolCall =
  tcID :: string
  tcType :: string
  tcFunction :: FunctionCall

record Message =
  msRole :: string
  msContent :: string
  msToolCalls :: "ToolCall list"
  msToolCallID :: string
  msName :: string

record FunctionDef =
  fdName :: string
  fdDescription :: string
  fdParameters :: "json option"

record Tool =
  tlType :: string
  tlFunction :: FunctionDef

record ModelRequest =
  mrModel :: string
  mrMessages :: "Message list"
  mrTemperature :: "float64 option"
  mrMaxTokens :: "int option"
  mrTopP :: "float64 option"
  mrTools :: "Tool list"
  mrToolChoice :: "json option"
  mrStream :: bool
  mrStop :: "string list"
  mrPresencePenalty :: "float64 option"
  mrFrequencyPenalty :: "float64 option"
  mrUser :: string

record Usage =
  usPromptTokens :: int
  usCompletionTokens :: int
  usTotalTokens :: int

record Choice =
  chIndex :: int
  chMessage :: Message
  chFinishReason :: string

record ModelResponse =
  rsID :: string
  rsObject :: string
  rsCreated :: int
  rsModel :: string
  rsChoices :: "Choice list"
  rsUsage :: Usage
  rsSystemFingerprint :: string

record Completion =
  cpResponse :: ModelResponse
  cpProvider :: string
  cpModel :: string
  cpLatencyMs :: int

text \<open>\<open>estimatePromptTokens\<close> of \<open>src/internal/usecase/chat/util.go\<close>.\<close>

fun call_chars :: "ToolCall list \<Rightarrow> int" where
  "call_chars [] = 0"
| "call_chars (tc # tcs) =
     int (length (fnName (tcFunction tc))) + int (length (fnArguments (tcFunction tc))) + call_chars tcs"

fun message_chars :: "Message list \<Rightarrow> int" where
  "message_chars [] = 0"
| "message_chars (m # ms) =
     int (length (msContent m)) + call_chars (msToolCalls m) + message_chars ms"

definition estimatePromptTokens :: "Message list \<Rightarrow> int" where
  "estimatePromptTokens messages =
     (let tokens = message_chars messages div 4 in if tokens = 0 then 100 else tokens)"

lemma call_chars_nonneg: "0 \<le> call_chars tcs"
  by (induction tcs) auto

lemma message_chars_nonneg: "0 \<le> message_chars ms"
  by (induction ms) (auto simp: call_chars_nonneg)

lemma message_chars_append: "message_chars (xs @ ys) = message_chars xs + message_chars ys"
  by (induction xs) auto

lemma estimatePromptTokens_pos: "0 < estimatePromptTokens ms"
  using message_chars_nonneg[of ms] pos_imp_zdiv_nonneg_iff[of 4 "message_chars ms"]
  by (auto simp: estimatePromptTokens_def Let_def)

end
