(* ===== verification/Routing.thy ===== *)
theory Routing
  imports CircuitBreaker ModelTypes
begin

text \<open>
  \<open>src/internal/usecase/chat/router.go\<close>: the registry of model providers, kept
  in priority order, and the selection of a provider whose circuit breaker lets
  a request through. A provider is named by its key in the registry; what it
  answers is an argument of the operations that call it. A nil pointer
  dereference (a name in the priority list without an entry) is the value None.
\<close>

record ProviderConfig =
  pcName :: string
  pcType :: string
  pcModels :: "string list"
  pcPriority :: int
  pcEnabled :: bool
  pcAPIKey :: string
  pcBaseURL :: string
  pcTimeout :: duration
  pcMaxRetries :: int
  pcCircuitBreaker :: CircuitBreakerConfig

record FallbackRule =
  flOnErrors :: "string list"
  flNextProvider :: string
  flMaxRetries :: int
  flBackoff :: duration

record RouterConfig =
  rcProviders :: "ProviderConfig list"
  rcFallbackRules :: "FallbackRule list"
  rcDefaultTimeout :: duration
  rcMaxRetries :: int

record RegisteredProvider =
  rgConfig :: ProviderConfig
  rgCircuitBreaker :: CircuitBreaker
  rgHealthStatus :: bool
  rgLastHealthCheck :: time

record ProviderRegistry =
  prProviders :: "string \<rightharpoonup> RegisteredProvider"
  prPriority :: "string list"

definition NewProviderRegistry :: ProviderRegistry where
  "NewProviderRegistry = \<lparr> prProviders = Map.empty, prPriority = [] \<rparr>"

text \<open>The insertion point: the first entry with a larger priority value.\<close>

fun insert_index :: "(string \<rightharpoonup> RegisteredProvider) \<Rightarrow> int \<Rightarrow> string list \<Rightarrow> nat option" where
  "insert_index ps priority [] = Some 0"
| "insert_index ps priority (n # ns) = (case ps n of
     None \<Rightarrow> None
   | Some p \<Rightarrow> if pcPriority (rgConfig p) > priority then Some 0
              else map_option Suc (insert_index ps priority ns))"

definition insertByPriority :: "string \<Rightarrow> int \<Rightarrow> ProviderRegistry \<Rightarrow> ProviderRegistry option" where
  "insertByPriority name priority r =
     (let ns = remove1 name (prPriority r) in
      case insert_index (prProviders r) priority ns of
        None \<Rightarrow> None
      | Some i \<Rightarrow> Some (r\<lparr>prPriority := take i ns @ [name] @ drop i ns\<rparr>))"

definition Register :: "ProviderConfig \<Rightarrow> ProviderRegistry \<Rightarrow> ProviderRegistry option" where
  "Register config r =
     (let registered = \<lparr> rgConfig = config, rgCircuitBreaker = NewCircuitBreaker (pcCircuitBreaker config),
            rgHealthStatus = True, rgLastHealthCheck = 0 \<rparr>
      in insertByPriority (pcName config) (pcPriority config)
           (r\<lparr>prProviders := (prProviders r)(pcName config \<mapsto> registered)\<rparr>))"

definition GetProvider :: "string \<Rightarrow> ProviderRegistry \<Rightarrow> RegisteredProvider option" where
  "GetProvider name r = prProviders r name"

fun healthy_loop :: "time \<Rightarrow> string list \<Rightarrow> (string \<rightharpoonup> RegisteredProvider)
    \<Rightarrow> ((string \<rightharpoonup> RegisteredProvider) \<times> string list) option" where
  "healthy_loop now [] ps = Some (ps, [])"
| "healthy_loop now (n # ns) ps = (case ps n of
     None \<Rightarrow> None
   | Some p \<Rightarrow>
       if \<not> pcEnabled (rgConfig p) then healthy_loop now ns ps
       else let (cb', err) = AllowRequest now (rgCircuitBreaker p)
            in case healthy_loop now ns (ps(n \<mapsto> p\<lparr>rgCircuitBreaker := cb'\<rparr>)) of
                 None \<Rightarrow> None
               | Some (ps', healthy) \<Rightarrow> Some (ps', if err = None then n # healthy else healthy))"

definition GetHealthyProviders ::
  "time \<Rightarrow> ProviderRegistry \<Rightarrow> (ProviderRegistry \<times> string list) option" where
  "GetHealthyProviders now r = (case healthy_loop now (prPriority r) (prProviders r) of
     None \<Rightarrow> None
   | Some (ps, healthy) \<Rightarrow> Some (r\<lparr>prProviders := ps\<rparr>, healthy))"

fun supports_loop :: "string list \<Rightarrow> string \<Rightarrow> bool" where
  "supports_loop [] modelName = False"
| "supports_loop (m # ms) modelName = (if m = modelName then True else supports_loop ms modelName)"

definition supportsModel :: "RegisteredProvider \<Rightarrow> string \<Rightarrow> bool" where
  "supportsModel p modelName = supports_loop (pcModels (rgConfig p)) modelName"

definition registry_supports :: "ProviderRegistry \<Rightarrow> string \<Rightarrow> string \<Rightarrow> bool" where
  "registry_supports r modelName n = (case prProviders r n of
     None \<Rightarrow> False | Some p \<Rightarrow> supportsModel p modelName)"

definition SelectProvider ::
  "time \<Rightarrow> string \<Rightarrow> ProviderRegistry \<Rightarrow> (ProviderRegistry \<times> string result) option" where
  "SelectProvider now modelName r = (case GetHealthyProviders now r of
     None \<Rightarrow> None
   | Some (r', healthy) \<Rightarrow> Some (r', case List.find (registry_supports r' modelName) healthy of
       None \<Rightarrow> Inl ErrNoHealthyProvider | Some n \<Rightarrow> Inr n))"

definition Route ::
  "time \<Rightarrow> string \<Rightarrow> ProviderRegistry \<Rightarrow> (ProviderRegistry \<times> string result) option" where
  "Route now modelName r = SelectProvider now modelName r"

text \<open>\<open>checkProviderHealth\<close> records what the provider answered and when.\<close>

definition checkProviderHealth ::
  "time \<Rightarrow> go_error option \<Rightarrow> RegisteredProvider \<Rightarrow> RegisteredProvider" where
  "checkProviderHealth now err p = p\<lparr>rgLastHealthCheck := now, rgHealthStatus := (err = None)\<rparr>"

text \<open>\<open>RunHealthChecks\<close>: one check per enabled provider. The checks run
  concurrently on different entries, so their order does not matter.\<close>

definition RunHealthChecks ::
  "(string \<Rightarrow> time) \<Rightarrow> (string \<Rightarrow> go_error option) \<Rightarrow> ProviderRegistry \<Rightarrow> ProviderRegistry" where
  "RunHealthChecks clock check r = r\<lparr>prProviders := (\<lambda>n. case prProviders r n of
     None \<Rightarrow> None
   | Some p \<Rightarrow> Some (if pcEnabled (rgConfig p) then checkProviderHealth (clock n) (check n) p else p))\<rparr>"

text \<open>\<open>createProviderFromConfig\<close> (providers.go) fails for an unknown type only.\<close>

definition createProviderFromConfig :: "ProviderConfig \<Rightarrow> unit result" where
  "createProviderFromConfig config =
     (if pcType config \<in> {''openai'', ''anthropic'', ''ollama'', ''mock''} then Inr ()
      else Inl (Errorf (''unknown provider type: '' @ pcType config)))"

fun build_loop :: "ProviderConfig list \<Rightarrow> ProviderRegistry \<Rightarrow> ProviderRegistry result option" where
  "build_loop [] r = Some (Inr r)"
| "build_loop (pc # pcs) r =
     (if \<not> pcEnabled pc then build_loop pcs r
      else case createProviderFromConfig pc of
        Inl e \<Rightarrow> Some (Inl (Wrapf (''create provider '' @ pcName pc) e))
      | Inr _ \<Rightarrow> (case Register pc r of None \<Rightarrow> None | Some r' \<Rightarrow> build_loop pcs r'))"

definition BuildRegistryFromConfig :: "RouterConfig \<Rightarrow> ProviderRegistry result option" where
  "BuildRegistryFromConfig cfg = (case build_loop (rcProviders cfg) NewProviderRegistry of
     None \<Rightarrow> None
   | Some (Inl e) \<Rightarrow> Some (Inl e)
   | Some (Inr r) \<Rightarrow> if prPriority r = [] then Some (Inl (Errorf ''no providers registered''))
                    else Some (Inr r))"

subsection \<open>The registry stays in priority order\<close>

definition prio :: "(string \<rightharpoonup> RegisteredProvider) \<Rightarrow> string \<Rightarrow> int" where
  "prio ps n = (case ps n of None \<Rightarrow> 0 | Some p \<Rightarrow> pcPriority (rgConfig p))"

definition registry_ok :: "ProviderRegistry \<Rightarrow> bool" where
  "registry_ok r = (distinct (prPriority r) \<and> set (prPriority r) = dom (prProviders r)
     \<and> sorted (map (prio (prProviders r)) (prPriority r))
     \<and> list_all (\<lambda>n. map_option (\<lambda>p. pcName (rgConfig p)) (prProviders r n) = Some n) (prPriority r))"

lemma registry_ok_name:
  assumes "registry_ok r" and "prProviders r n = Some p"
  shows "pcName (rgConfig p) = n"
proof -
  have "n \<in> set (prPriority r)" using assms by (auto simp: registry_ok_def)
  then have "map_option (\<lambda>p. pcName (rgConfig p)) (prProviders r n) = Some n"
    using assms(1) by (simp add: registry_ok_def list_all_iff)
  then show ?thesis using assms(2) by simp
qed

lemma registry_ok_new: "registry_ok NewProviderRegistry"
  by (simp add: registry_ok_def NewProviderRegistry_def)

lemma insert_index_total:
  "set ns \<subseteq> dom ps \<Longrightarrow> \<exists>i. insert_index ps p ns = Some i \<and> i \<le> length ns
     \<and> (\<forall>n\<in>set (take i ns). prio ps n \<le> p) \<and> (sorted (map (prio ps) ns) \<longrightarrow> (\<forall>n\<in>set (drop i ns). p \<le> prio ps n))"
proof (induction ns)
  case (Cons n ns)
  then obtain q where q: "ps n = Some q" by auto
  then have pn: "prio ps n = pcPriority (rgConfig q)" by (simp add: prio_def)
  from Cons obtain i where i: "insert_index ps p ns = Some i" "i \<le> length ns"
    "\<forall>n\<in>set (take i ns). prio ps n \<le> p" "sorted (map (prio ps) ns) \<longrightarrow> (\<forall>n\<in>set (drop i ns). p \<le> prio ps n)"
    by auto
  show ?case
  proof (cases "pcPriority (rgConfig q) > p")
    case True
    then show ?thesis using q by (fastforce simp: pn)
  next
    case False
    then show ?thesis using q i by (auto simp: pn)
  qed
qed simp

lemma sorted_insert_at:
  assumes "sorted (map k ns)" and "\<forall>n\<in>set (take i ns). k n \<le> k x" and "\<forall>n\<in>set (drop i ns). k x \<le> k n"
  shows "sorted (map k (take i ns @ [x] @ drop i ns))"
proof -
  have "sorted (map k (take i ns) @ map k (drop i ns))"
    using assms(1) by (simp flip: map_append)
  then show ?thesis using assms(2,3) by (fastforce simp: sorted_append)
qed

lemma Register_ok:
  assumes "registry_ok r"
  shows "\<exists>r'. Register pc r = Some r' \<and> registry_ok r' \<and> dom (prProviders r') = insert (pcName pc) (dom (prProviders r))"
proof -
  let ?n = "pcName pc"
  let ?p = "\<lparr> rgConfig = pc, rgCircuitBreaker = NewCircuitBreaker (pcCircuitBreaker pc),
            rgHealthStatus = True, rgLastHealthCheck = 0 \<rparr>"
  let ?ps = "(prProviders r)(?n \<mapsto> ?p)" and ?ns = "remove1 ?n (prPriority r)"
  have d: "distinct ?ns" and s: "set ?ns = dom (prProviders r) - {?n}"
    using assms by (auto simp: registry_ok_def)
  have same: "map (prio ?ps) ?ns = map (prio (prProviders r)) ?ns"
    using s by (auto simp: prio_def)
  have "sorted (map (prio (prProviders r)) (prPriority r))" using assms by (simp add: registry_ok_def)
  then have srt: "sorted (map (prio ?ps) ?ns)"
    unfolding same by (rule sorted_map_remove1)
  obtain i where i: "insert_index ?ps (pcPriority pc) ?ns = Some i"
    "\<forall>n\<in>set (take i ?ns). prio ?ps n \<le> pcPriority pc" "\<forall>n\<in>set (drop i ?ns). pcPriority pc \<le> prio ?ps n"
    using insert_index_total[of ?ns ?ps "pcPriority pc"] s srt by auto
  have set_td: "set (take i ?ns) \<union> set (drop i ?ns) = set ?ns"
    by (metis append_take_drop_id set_append)
  let ?l = "take i ?ns @ [?n] @ drop i ?ns"
  have "sorted (map (prio ?ps) ?l)"
    by (rule sorted_insert_at[OF srt]) (use i in \<open>simp_all add: prio_def\<close>)
  moreover have "distinct ?l"
    using d s set_td set_take_disj_set_drop_if_distinct[OF d, of i i] by auto
  moreover have "set ?l = dom ?ps" using s set_td by auto
  moreover have "list_all (\<lambda>n. map_option (\<lambda>p. pcName (rgConfig p)) (?ps n) = Some n) ?l"
  proof -
    have "map_option (\<lambda>p. pcName (rgConfig p)) (?ps n) = Some n" if "n \<in> set ?l" for n
      using that assms s set_td unfolding registry_ok_def list_all_iff by (cases "n = ?n") auto
    then show ?thesis by (auto simp: list_all_iff)
  qed
  ultimately show ?thesis
    using i by (simp add: Register_def insertByPriority_def registry_ok_def Let_def)
qed

lemma build_loop_ok:
  assumes "registry_ok r" and "list_all (\<lambda>pc. pcEnabled pc \<longrightarrow> \<not> isl (createProviderFromConfig pc)) pcs"
  shows "\<exists>r'. build_loop pcs r = Some (Inr r') \<and> registry_ok r'
    \<and> dom (prProviders r') = dom (prProviders r) \<union> {pcName pc |pc. pc \<in> set pcs \<and> pcEnabled pc}"
  using assms
proof (induction pcs arbitrary: r)
  case (Cons pc pcs)
  show ?case
  proof (cases "pcEnabled pc")
    case False
    then show ?thesis using Cons.IH[OF Cons.prems(1)] Cons.prems(2) by auto
  next
    case True
    then obtain u where u: "createProviderFromConfig pc = Inr u"
      using Cons.prems(2) by (cases "createProviderFromConfig pc") auto
    obtain r1 where r1: "Register pc r = Some r1" "registry_ok r1"
      "dom (prProviders r1) = insert (pcName pc) (dom (prProviders r))"
      using Register_ok[OF Cons.prems(1)] by blast
    show ?thesis using Cons.IH[OF r1(2)] Cons.prems(2) True by (auto simp: u r1(1,3))
  qed
qed simp

subsection \<open>Selection\<close>

definition ask_entry :: "time \<Rightarrow> RegisteredProvider \<Rightarrow> RegisteredProvider" where
  "ask_entry now p = (if pcEnabled (rgConfig p)
     then p\<lparr>rgCircuitBreaker := fst (AllowRequest now (rgCircuitBreaker p))\<rparr> else p)"

definition passes :: "time \<Rightarrow> (string \<rightharpoonup> RegisteredProvider) \<Rightarrow> string \<Rightarrow> bool" where
  "passes now ps n = (case ps n of None \<Rightarrow> False
     | Some p \<Rightarrow> pcEnabled (rgConfig p) \<and> snd (AllowRequest now (rgCircuitBreaker p)) = None)"

lemma healthy_loop_eq:
  assumes "distinct ns" and "set ns \<subseteq> dom ps"
  shows "healthy_loop now ns ps = Some ((\<lambda>n. if n \<in> set ns then map_option (ask_entry now) (ps n) else ps n),
    filter (passes now ps) ns)"
  using assms
proof (induction ns arbitrary: ps)
  case (Cons n ns)
  then obtain p where p: "ps n = Some p" by auto
  show ?case
  proof (cases "pcEnabled (rgConfig p)")
    case False
    then have "ask_entry now p = p" by (simp add: ask_entry_def)
    then show ?thesis
      using Cons.IH[of ps] Cons.prems False p by (auto simp: passes_def fun_eq_iff)
  next
    case True
    let ?ps = "ps(n \<mapsto> ask_entry now p)"
    have ih: "healthy_loop now ns ?ps =
        Some ((\<lambda>m. if m \<in> set ns then map_option (ask_entry now) (?ps m) else ?ps m), filter (passes now ?ps) ns)"
      by (rule Cons.IH) (use Cons.prems in auto)
    have f: "filter (passes now ?ps) ns = filter (passes now ps) ns"
      by (rule filter_cong) (use Cons.prems in \<open>auto simp: passes_def\<close>)
    have m: "(\<lambda>m. if m \<in> set ns then map_option (ask_entry now) (?ps m) else ?ps m)
        = (\<lambda>m. if m \<in> set (n # ns) then map_option (ask_entry now) (ps m) else ps m)"
      using Cons.prems p by (auto simp: fun_eq_iff)
    have q: "passes now ps n = (snd (AllowRequest now (rgCircuitBreaker p)) = None)"
      using True p by (simp add: passes_def)
    have "healthy_loop now (n # ns) ps = (case healthy_loop now ns ?ps of
        None \<Rightarrow> None
      | Some (ps', healthy) \<Rightarrow> Some (ps', if passes now ps n then n # healthy else healthy))"
      using True p unfolding q by (cases "AllowRequest now (rgCircuitBreaker p)")
        (simp add: ask_entry_def split: option.splits)
    then show ?thesis unfolding ih m f by simp
  qed
qed auto

lemma GetHealthyProviders_eq:
  assumes "registry_ok r"
  shows "GetHealthyProviders now r =
    Some (r\<lparr>prProviders := \<lambda>n. map_option (ask_entry now) (prProviders r n)\<rparr>,
          filter (passes now (prProviders r)) (prPriority r))"
proof -
  have "(\<lambda>n. if n \<in> set (prPriority r) then map_option (ask_entry now) (prProviders r n) else prProviders r n)
      = (\<lambda>n. map_option (ask_entry now) (prProviders r n))"
    using assms by (auto simp: registry_ok_def fun_eq_iff)
  then show ?thesis
    using healthy_loop_eq[of "prPriority r" "prProviders r" now] assms
    by (simp add: GetHealthyProviders_def registry_ok_def)
qed

lemma ask_entry_config [simp]: "rgConfig (ask_entry now p) = rgConfig p"
  by (simp add: ask_entry_def)

lemma registry_ok_asked:
  "registry_ok r \<Longrightarrow> registry_ok (r\<lparr>prProviders := \<lambda>n. map_option (ask_entry now) (prProviders r n)\<rparr>)"
proof -
  have "prio (\<lambda>n. map_option (ask_entry now) (prProviders r n)) = prio (prProviders r)"
    by (auto simp: fun_eq_iff prio_def split: option.splits)
  then show "registry_ok r \<Longrightarrow> ?thesis"
    by (simp add: registry_ok_def dom_map_option_comp[unfolded comp_def] option.map_comp comp_def)
qed

lemma supports_loop_iff [simp]: "supports_loop ms m \<longleftrightarrow> m \<in> set ms"
  by (induction ms) auto

text \<open>The providers a request for a model may be routed to.\<close>

definition eligible :: "time \<Rightarrow> string \<Rightarrow> ProviderRegistry \<Rightarrow> string \<Rightarrow> bool" where
  "eligible now m r n = (case prProviders r n of None \<Rightarrow> False
     | Some p \<Rightarrow> pcEnabled (rgConfig p) \<and> m \<in> set (pcModels (rgConfig p))
         \<and> snd (AllowRequest now (rgCircuitBreaker p)) = None)"

lemma find_filter: "List.find P (filter Q xs) = List.find (\<lambda>x. Q x \<and> P x) xs"
  by (induction xs) auto

lemma SelectProvider_eq:
  assumes "registry_ok r"
  shows "SelectProvider now m r =
    Some (r\<lparr>prProviders := \<lambda>n. map_option (ask_entry now) (prProviders r n)\<rparr>,
      case List.find (eligible now m r) (prPriority r) of None \<Rightarrow> Inl ErrNoHealthyProvider | Some n \<Rightarrow> Inr n)"
proof -
  have "(\<lambda>n. passes now (prProviders r) n \<and> registry_supports
      (r\<lparr>prProviders := \<lambda>n. map_option (ask_entry now) (prProviders r n)\<rparr>) m n) = eligible now m r"
    by (auto simp: fun_eq_iff passes_def registry_supports_def supportsModel_def eligible_def split: option.splits)
  then show ?thesis
    by (simp add: SelectProvider_def GetHealthyProviders_eq[OF assms] find_filter)
qed

text \<open>A sequence of requests, each at its time and for its model; the second
  component is where each was routed.\<close>

fun route_run :: "(time \<times> string) list \<Rightarrow> ProviderRegistry \<Rightarrow> (ProviderRegistry \<times> string result list) option" where
  "route_run [] r = Some (r, [])"
| "route_run ((now, m) # reqs) r = (case Route now m r of
     None \<Rightarrow> None
   | Some (r', out) \<Rightarrow> (case route_run reqs r' of
       None \<Rightarrow> None | Some (r'', outs) \<Rightarrow> Some (r'', out # outs)))"

lemma route_run_ok:
  assumes "registry_ok r"
  shows "\<exists>r' outs. route_run reqs r = Some (r', outs) \<and> registry_ok r'"
  using assms
proof (induction reqs arbitrary: r)
  case (Cons req reqs)
  obtain now m where req: "req = (now, m)" by (cases req)
  let ?r = "r\<lparr>prProviders := \<lambda>n. map_option (ask_entry now) (prProviders r n)\<rparr>"
  obtain r' outs where "route_run reqs ?r = Some (r', outs)" "registry_ok r'"
    using Cons.IH[OF registry_ok_asked[OF Cons.prems]] by blast
  then show ?case by (simp add: req Route_def SelectProvider_eq[OF Cons.prems])
qed simp

text \<open>Every request asks the breaker of every enabled provider once, and a
  provider is chosen only when its breaker let the request through.\<close>

lemma route_run_breaker:
  assumes "registry_ok r" and "route_run reqs r = Some (r', outs)"
    and "prProviders r n = Some p" and "pcEnabled (rgConfig p)"
  shows "prProviders r' n = Some (p\<lparr>rgCircuitBreaker := fst (asked (map fst reqs) (rgCircuitBreaker p))\<rparr>)
    \<and> (Inr n \<in> set outs \<longrightarrow> 0 < snd (asked (map fst reqs) (rgCircuitBreaker p)))"
  using assms
proof (induction reqs arbitrary: r p outs)
  case (Cons req reqs)
  obtain now m where req: "req = (now, m)" by (cases req)
  let ?r = "r\<lparr>prProviders := \<lambda>n. map_option (ask_entry now) (prProviders r n)\<rparr>"
  let ?out = "case List.find (eligible now m r) (prPriority r) of None \<Rightarrow> Inl ErrNoHealthyProvider | Some n \<Rightarrow> Inr n"
  obtain outs' where outs: "route_run reqs ?r = Some (r', outs')" "outs = ?out # outs'"
    using Cons.prems(2) by (auto simp: req Route_def SelectProvider_eq[OF Cons.prems(1)] split: option.splits)
  obtain cb e where a: "AllowRequest now (rgCircuitBreaker p) = (cb, e)" by fastforce
  have p: "ask_entry now p = p\<lparr>rgCircuitBreaker := cb\<rparr>"
    using Cons.prems(4) a by (simp add: ask_entry_def)
  have ih: "prProviders r' n = Some (p\<lparr>rgCircuitBreaker := fst (asked (map fst reqs) cb)\<rparr>)
      \<and> (Inr n \<in> set outs' \<longrightarrow> 0 < snd (asked (map fst reqs) cb))"
    using Cons.IH[OF registry_ok_asked[OF Cons.prems(1)] outs(1), of "p\<lparr>rgCircuitBreaker := cb\<rparr>"]
      Cons.prems(3,4) p by simp
  have "e = None" if "?out = Inr n"
    using that Cons.prems(3) a by (auto simp: eligible_def dest!: find_SomeD split: option.splits)
  with ih show ?case by (auto simp: req a outs(2) split: prod.splits)
qed simp

subsection \<open>Properties\<close>

text \<open>A registry built from a configuration whose enabled providers have known
  types is complete and in priority order: it holds exactly the enabled
  providers, each once, by increasing priority value. With no enabled provider
  the construction fails.\<close>

theorem registry_built_in_order:
  assumes "list_all (\<lambda>pc. pcEnabled pc \<longrightarrow> \<not> isl (createProviderFromConfig pc)) (rcProviders cfg)"
  shows "case BuildRegistryFromConfig cfg of
      None \<Rightarrow> False
    | Some (Inl e) \<Rightarrow> list_all (\<lambda>pc. \<not> pcEnabled pc) (rcProviders cfg)
    | Some (Inr r) \<Rightarrow> registry_ok r \<and> prPriority r \<noteq> []
        \<and> set (prPriority r) = {pcName pc |pc. pc \<in> set (rcProviders cfg) \<and> pcEnabled pc}"
proof -
  obtain r where r: "build_loop (rcProviders cfg) NewProviderRegistry = Some (Inr r)" "registry_ok r"
    "dom (prProviders r) = {pcName pc |pc. pc \<in> set (rcProviders cfg) \<and> pcEnabled pc}"
    using build_loop_ok[OF registry_ok_new assms] by (auto simp: NewProviderRegistry_def)
  then show ?thesis
    by (auto simp: BuildRegistryFromConfig_def registry_ok_def list_all_iff)
qed

definition demo_provider :: "string \<Rightarrow> string list \<Rightarrow> int \<Rightarrow> ProviderConfig" where
  "demo_provider n ms k = \<lparr> pcName = n, pcType = ''mock'', pcModels = ms, pcPriority = k,
     pcEnabled = True, pcAPIKey = [], pcBaseURL = [], pcTimeout = second, pcMaxRetries = 0,
     pcCircuitBreaker = DefaultCircuitBreakerConfig \<rparr>"

definition demo_router :: RouterConfig where
  "demo_router = \<lparr> rcProviders = [demo_provider ''b'' [''m2''] 2, demo_provider ''a'' [''m1''] 1],
     rcFallbackRules = [], rcDefaultTimeout = 0, rcMaxRetries = 0 \<rparr>"

theorem registry_built_in_order_witness:
  "case BuildRegistryFromConfig demo_router of
      None \<Rightarrow> False
    | Some (Inl e) \<Rightarrow> list_all (\<lambda>pc. \<not> pcEnabled pc) (rcProviders demo_router)
    | Some (Inr r) \<Rightarrow> registry_ok r \<and> prPriority r \<noteq> []
        \<and> set (prPriority r) = {pcName pc |pc. pc \<in> set (rcProviders demo_router) \<and> pcEnabled pc}"
  by (rule registry_built_in_order) code_simp

text \<open>In a well-formed registry a request is routed to the first provider in
  priority order that is enabled, serves the model and whose breaker lets the
  request through, and to none only if there is no such provider.\<close>

theorem route_picks_first_eligible:
  assumes "registry_ok r"
  shows "\<exists>r'. registry_ok r' \<and> Route now m r = Some (r',
    case List.find (eligible now m r) (prPriority r) of None \<Rightarrow> Inl ErrNoHealthyProvider | Some n \<Rightarrow> Inr n)"
  unfolding Route_def SelectProvider_eq[OF assms] using registry_ok_asked[OF assms] by blast

definition demo_registry :: ProviderRegistry where
  "demo_registry = (case BuildRegistryFromConfig demo_router of Some (Inr r) \<Rightarrow> r | _ \<Rightarrow> NewProviderRegistry)"

lemma demo_registry_ok: "registry_ok demo_registry"
proof -
  have "prPriority demo_registry = [''a'', ''b'']" by code_simp
  moreover have "dom (prProviders demo_registry) = {''a'', ''b''}"
    by (auto simp: demo_registry_def demo_router_def BuildRegistryFromConfig_def Register_def
        createProviderFromConfig_def demo_provider_def insertByPriority_def NewProviderRegistry_def
        Let_def split: if_splits)
  moreover have "sorted (map (prio (prProviders demo_registry)) [''a'', ''b''])" by code_simp
  moreover have "list_all (\<lambda>n. map_option (\<lambda>p. pcName (rgConfig p)) (prProviders demo_registry n) = Some n) [''a'', ''b'']"
    by code_simp
  ultimately show ?thesis by (simp add: registry_ok_def)
qed

theorem route_picks_first_eligible_witness:
  "\<exists>r'. Route 5 ''m2'' demo_registry = Some (r', Inr ''b'')"
proof -
  have "List.find (eligible 5 ''m2'' demo_registry) (prPriority demo_registry) = Some ''b''" by code_simp
  then show ?thesis using route_picks_first_eligible[OF demo_registry_ok, of 5 "''m2''"] by auto
qed

text \<open>Requests for other models can disable a provider for good. If a
  provider's breaker is open and its timeout has elapsed, then one request more
  than its half-open limit, for whatever models, uses up its trial slots, and
  however long the gateway waits no later request is ever routed to it.\<close>

theorem other_traffic_starves_provider:
  assumes "registry_ok r" and "prProviders r n = Some p" and "pcEnabled (rgConfig p)"
    and "cbEnabled (rgCircuitBreaker p)" and "cbState (rgCircuitBreaker p) = StateOpen"
    and "0 < cbHalfOpenMaxRequests (rgCircuitBreaker p)"
    and "cbTimeout (rgCircuitBreaker p) \<le> t - cbLastFailureTime (rgCircuitBreaker p)"
    and "cbHalfOpenMaxRequests (rgCircuitBreaker p) \<le> int (length reqs)"
    and "route_run ((t, m) # reqs) r = Some (r1, outs1)"
    and "route_run later r1 = Some (r2, outs2)"
  shows "Inr n \<notin> set outs2"
proof -
  let ?cb = "rgCircuitBreaker p"
  have "cbHalfOpenMaxRequests ?cb \<le> int (length (map fst reqs))" using assms(8) by simp
  from half_open_exhausts[OF assms(4-7) this] obtain cb'
    where cb': "fst (asked (t # map fst reqs) ?cb) = cb'" "\<And>ts. asked ts cb' = (cb', 0)" by blast
  have "prProviders r1 n = Some (p\<lparr>rgCircuitBreaker := cb'\<rparr>)"
    using route_run_breaker[OF assms(1,9,2,3)] cb'(1) by simp
  moreover have "registry_ok r1" using route_run_ok[OF assms(1), of "(t, m) # reqs"] assms(9) by auto
  ultimately show ?thesis
    using route_run_breaker[OF _ assms(10), of n "p\<lparr>rgCircuitBreaker := cb'\<rparr>"] assms(3) cb'(2) by auto
qed

definition demo_tripped :: ProviderRegistry where
  "demo_tripped = demo_registry\<lparr>prProviders := (prProviders demo_registry)(''a'' \<mapsto>
     \<lparr> rgConfig = demo_provider ''a'' [''m1''] 1, rgCircuitBreaker = demo_open,
       rgHealthStatus = True, rgLastHealthCheck = 0 \<rparr>)\<rparr>"

theorem other_traffic_starves_provider_witness:
  "\<exists>r1 outs1 r2 outs2.
     route_run [(30000000005, ''m2''), (30000000006, ''m2''), (30000000007, ''m2''), (30000000008, ''m2'')]
       demo_tripped = Some (r1, outs1)
     \<and> route_run [(90000000000, ''m1''), (990000000000, ''m1'')] r1 = Some (r2, outs2)
     \<and> Inr ''a'' \<notin> set outs2"
proof -
  have "map_option (\<lambda>p. pcPriority (rgConfig p)) (prProviders demo_registry ''a'') = Some 1" by code_simp
  then obtain q where q: "prProviders demo_registry ''a'' = Some q" "pcPriority (rgConfig q) = 1" by auto
  then have "prio (prProviders demo_tripped) = prio (prProviders demo_registry)"
    by (auto simp: fun_eq_iff prio_def demo_tripped_def demo_provider_def)
  then have ok: "registry_ok demo_tripped"
    using demo_registry_ok q by (auto simp: registry_ok_def demo_tripped_def list_all_iff demo_provider_def)
  let ?reqs = "[(30000000006, ''m2''), (30000000007, ''m2''), (30000000008, ''m2'')] :: (int \<times> string) list"
  obtain r1 outs1 where 1: "route_run ((30000000005, ''m2'') # ?reqs) demo_tripped = Some (r1, outs1)" "registry_ok r1"
    using route_run_ok[OF ok] by blast
  obtain r2 outs2 where 2: "route_run [(90000000000, ''m1''), (990000000000, ''m1'')] r1 = Some (r2, outs2)"
    using route_run_ok[OF 1(2)] by blast
  have "Inr ''a'' \<notin> set outs2"
    by (rule other_traffic_starves_provider[OF ok _ _ _ _ _ _ _ 1(1) 2]) (simp add: demo_tripped_def, code_simp+)
  with 1(1) 2 show ?thesis by blast
qed

end
