(* ===== verification/Fallback.thy ===== *)
theory Fallback
  imports Routing
begin

text \<open>
  \<open>src/internal/usecase/chat/fallback.go\<close>: trying the providers of a model one
  after the other, with retries, backoff and the circuit breakers. What a
  provider answers to the n-th attempt, the clock and the cancellation of the
  request during a backoff are arguments (\<open>attempt_env\<close>). The cost estimate,
  whose value is only logged, is left out.
\<close>

record FallbackChain =
  fcMaxRetries :: int
  fcDefaultTimeout :: duration
  fcFallbackRules :: "FallbackRule list"

record FallbackResult =
  frCompletion :: "Completion option"
  frProvider :: string
  frModel :: string
  frAttempt :: int
  frTotalLatency :: duration
  frRetried :: bool
  frFallbackReason :: string

definition NewFallbackChain :: "RouterConfig \<Rightarrow> FallbackChain" where
  "NewFallbackChain cfg = \<lparr>
     fcMaxRetries = (if rcMaxRetries cfg \<le> 0 then 2 else rcMaxRetries cfg),
     fcDefaultTimeout = (if rcDefaultTimeout cfg \<le> 0 then 30 * second else rcDefaultTimeout cfg),
     fcFallbackRules = rcFallbackRules cfg \<rparr>"

text \<open>What surrounds the attempts of one request: the time it starts, the times
  of the n-th breaker check and of the end of the n-th attempt, the provider's
  answer to the n-th attempt, and the context's error if the request is
  cancelled while it waits after the n-th attempt.\<close>

record attempt_env =
  aeStart :: time
  aeAskAt :: "int \<Rightarrow> time"
  aeEndAt :: "int \<Rightarrow> time"
  aeComplete :: "int \<Rightarrow> string \<Rightarrow> ModelRequest \<Rightarrow> Completion result"
  aeCancelled :: "int \<Rightarrow> go_error option"

definition getMaxRetriesForProvider :: "FallbackChain \<Rightarrow> RegisteredProvider \<Rightarrow> int" where
  "getMaxRetriesForProvider fc p =
     (if pcMaxRetries (rgConfig p) > 0 then pcMaxRetries (rgConfig p) else fcMaxRetries fc)"

text \<open>An unknown text becomes a fresh error, which no error matches.\<close>

definition modelErrFromString :: "string \<Rightarrow> go_error" where
  "modelErrFromString s =
     (if s = ''provider unavailable'' then ErrProviderUnavailable
      else if s = ''provider timeout'' then ErrProviderTimeout
      else if s = ''provider rate limited'' then ErrProviderRateLimited
      else if s = ''provider authentication failed'' then ErrProviderAuthFailed
      else if s = ''provider invalid request'' then ErrProviderInvalidRequest
      else Errorf s)"

definition isTransientError :: "go_error \<Rightarrow> bool" where
  "isTransientError err = (errors_is err ErrProviderUnavailable
     \<or> errors_is err ErrProviderTimeout \<or> errors_is err ErrProviderRateLimited)"

definition millisecond :: duration where
  "millisecond = 1000000"

text \<open>The first rule that lists the error decides.\<close>

fun rule_loop :: "FallbackRule list \<Rightarrow> go_error \<Rightarrow> int \<Rightarrow> int \<Rightarrow> (bool \<times> duration) option" where
  "rule_loop [] err retry dflt = None"
| "rule_loop (rule # rules) err retry dflt =
     (if list_ex (\<lambda>s. errors_is err (modelErrFromString s)) (flOnErrors rule) then
        (let maxRetries = (if flMaxRetries rule = 0 then dflt else flMaxRetries rule)
         in if retry < maxRetries
            then Some (True, if flBackoff rule = 0 then (retry + 1) * 100 * millisecond else flBackoff rule)
            else Some (False, 0))
      else rule_loop rules err retry dflt)"

definition shouldRetry :: "FallbackChain \<Rightarrow> go_error \<Rightarrow> int \<Rightarrow> RegisteredProvider \<Rightarrow> bool \<times> duration" where
  "shouldRetry fc err retry p =
     (if retry \<ge> getMaxRetriesForProvider fc p then (False, 0)
      else case rule_loop (fcFallbackRules fc) err retry (fcMaxRetries fc) of
        Some d \<Rightarrow> d
      | None \<Rightarrow> if isTransientError err then (True, (retry + 1) * 100 * millisecond) else (False, 0))"

text \<open>How the loop over one provider ends: with a result, with the request
  cancelled, or with an error and the next provider's turn.\<close>

datatype provider_end = Succeeded FallbackResult | Cancelled go_error | NextProvider go_error

text \<open>The retry loop on one provider, over the retry numbers that are left. It
  threads the provider's breaker and the attempt counter.\<close>

fun retry_loop ::
  "FallbackChain \<Rightarrow> attempt_env \<Rightarrow> ModelRequest \<Rightarrow> RegisteredProvider \<Rightarrow> int list \<Rightarrow> CircuitBreaker \<Rightarrow> int
    \<Rightarrow> go_error \<Rightarrow> CircuitBreaker \<times> int \<times> provider_end"
where
  "retry_loop fc env req p [] cb attempt lastErr = (cb, attempt, NextProvider lastErr)"
| "retry_loop fc env req p (retry # retries) cb attempt lastErr =
     (let n = attempt + 1; (cb1, refused) = AllowRequest (aeAskAt env n) cb in
      if refused \<noteq> None then (cb1, n, NextProvider ErrProviderUnavailable)
      else case aeComplete env n (pcName (rgConfig p)) req of
        Inr completion \<Rightarrow>
          (RecordSuccess cb1, n, Succeeded \<lparr>
             frCompletion = Some completion, frProvider = pcName (rgConfig p),
             frModel = cpModel completion, frAttempt = n,
             frTotalLatency = aeEndAt env n - aeStart env, frRetried = (n > 1), frFallbackReason = [] \<rparr>)
      | Inl err \<Rightarrow>
          (let cb2 = RecordFailure (aeEndAt env n) cb1; (again, backoff) = shouldRetry fc err retry p in
           if \<not> again then (cb2, n, NextProvider err)
           else case (if backoff > 0 then aeCancelled env n else None) of
             Some e \<Rightarrow> (cb2, n, Cancelled e)
           | None \<Rightarrow> retry_loop fc env req p retries cb2 n err))"

text \<open>The loop over the candidates.\<close>

fun provider_loop ::
  "FallbackChain \<Rightarrow> attempt_env \<Rightarrow> ModelRequest \<Rightarrow> string list \<Rightarrow> (string \<rightharpoonup> RegisteredProvider) \<Rightarrow> int
    \<Rightarrow> go_error \<Rightarrow> ((string \<rightharpoonup> RegisteredProvider) \<times> int \<times> provider_end) option"
where
  "provider_loop fc env req [] ps attempt lastErr = Some (ps, attempt, NextProvider lastErr)"
| "provider_loop fc env req (name # names) ps attempt lastErr = (case ps name of
     None \<Rightarrow> None
   | Some p \<Rightarrow>
       let (cb, n, res) = retry_loop fc env req p [0..getMaxRetriesForProvider fc p]
                            (rgCircuitBreaker p) attempt lastErr;
           ps' = ps(name \<mapsto> p\<lparr>rgCircuitBreaker := cb\<rparr>)
       in case res of
            NextProvider err \<Rightarrow> provider_loop fc env req names ps' n err
          | _ \<Rightarrow> Some (ps', n, res))"

text \<open>The zero value of the result; the zero completion is None. The error the
  loops start with stands for nil: every candidate is tried at least once, so it
  is never the one that is returned.\<close>

definition empty_result :: FallbackResult where
  "empty_result = \<lparr> frCompletion = None, frProvider = [], frModel = [], frAttempt = 0,
     frTotalLatency = 0, frRetried = False, frFallbackReason = [] \<rparr>"

definition ExecuteWithFallback ::
  "FallbackChain \<Rightarrow> attempt_env \<Rightarrow> ModelRequest \<Rightarrow> ProviderRegistry
    \<Rightarrow> (ProviderRegistry \<times> FallbackResult \<times> go_error option) option"
where
  "ExecuteWithFallback fc env req r = (case GetHealthyProviders (aeStart env) r of
     None \<Rightarrow> None
   | Some (r1, providers) \<Rightarrow>
       if providers = [] then Some (r1, empty_result, Some ErrNoHealthyProvider)
       else let candidates = filter (registry_supports r1 (mrModel req)) providers in
         if candidates = [] then Some (r1, empty_result, Some ErrNoHealthyProvider)
         else (case provider_loop fc env req candidates (prProviders r1) 0 (Errorf []) of
             None \<Rightarrow> None
           | Some (ps, n, Succeeded res) \<Rightarrow> Some (r1\<lparr>prProviders := ps\<rparr>, res, None)
           | Some (ps, n, Cancelled e) \<Rightarrow> Some (r1\<lparr>prProviders := ps\<rparr>, empty_result, Some e)
           | Some (ps, n, NextProvider err) \<Rightarrow>
               Some (r1\<lparr>prProviders := ps\<rparr>,
                 empty_result\<lparr>frAttempt := n, frTotalLatency := aeEndAt env n - aeStart env, frRetried := n > 1\<rparr>,
                 Some (Wrapf ''all providers exhausted'' err))))"

subsection \<open>One provider\<close>

lemma retry_loop_attempts:
  "retry_loop fc env req p retries cb a e = (cb', n, out) \<Longrightarrow> a \<le> n \<and> n \<le> a + int (length retries)"
proof (induction retries arbitrary: cb a e)
  case (Cons retry retries)
  then show ?case
    by (auto simp: Let_def split: prod.splits sum.splits if_splits option.splits) force+
qed simp

lemma retry_loop_success:
  assumes "retry_loop fc env req p retries cb a e = (cb', n, Succeeded res)"
  shows "a < n \<and> frAttempt res = n \<and> frProvider res = pcName (rgConfig p) \<and> frRetried res = (n > 1)
    \<and> (\<exists>c. frCompletion res = Some c \<and> aeComplete env n (pcName (rgConfig p)) req = Inr c)"
  using assms
proof (induction retries arbitrary: cb a e)
  case (Cons retry retries)
  then show ?case
    by (auto simp: Let_def split: prod.splits sum.splits if_splits option.splits) force+
qed simp

lemma retry_loop_cancelled:
  "retry_loop fc env req p retries cb a e = (cb', n, Cancelled x) \<Longrightarrow> aeCancelled env n = Some x"
proof (induction retries arbitrary: cb a e)
  case (Cons retry retries)
  then show ?case
    by (auto simp: Let_def split: prod.splits sum.splits if_splits option.splits)
qed simp

lemma retry_loop_serves:
  assumes "cbState cb = StateClosed" and "\<And>n. \<exists>c. aeComplete env n (pcName (rgConfig p)) req = Inr c"
    and "retries \<noteq> []"
  shows "\<exists>cb' res. retry_loop fc env req p retries cb a e = (cb', a + 1, Succeeded res)"
proof -
  obtain retry rs where r: "retries = retry # rs" using assms(3) by (cases retries) auto
  obtain c where c: "aeComplete env (a + 1) (pcName (rgConfig p)) req = Inr c" using assms(2) by blast
  have "AllowRequest (aeAskAt env (a + 1)) cb = (cb, None)" using assms(1) by (simp add: AllowRequest_def)
  then show ?thesis by (simp add: r c Let_def)
qed

subsection \<open>All candidates\<close>

definition same_configs :: "(string \<rightharpoonup> RegisteredProvider) \<Rightarrow> (string \<rightharpoonup> RegisteredProvider) \<Rightarrow> bool" where
  "same_configs ps ps' = (\<forall>n. map_option rgConfig (ps n) = map_option rgConfig (ps' n))"

lemma same_configs_refl [simp]: "same_configs ps ps"
  by (simp add: same_configs_def)

lemma same_configs_trans: "same_configs a b \<Longrightarrow> same_configs b c \<Longrightarrow> same_configs a c"
  by (simp add: same_configs_def)

lemma same_configs_upd: "ps n = Some p \<Longrightarrow> same_configs ps (ps(n \<mapsto> p\<lparr>rgCircuitBreaker := cb\<rparr>))"
  by (simp add: same_configs_def)

lemma same_configs_dom: "same_configs ps ps' \<Longrightarrow> dom ps = dom ps'"
  unfolding same_configs_def dom_def by (metis map_option_is_None)

lemma registry_ok_same_configs:
  assumes "registry_ok r" and "same_configs (prProviders r) ps"
  shows "registry_ok (r\<lparr>prProviders := ps\<rparr>)"
proof -
  have f: "map_option f (map_option rgConfig (prProviders r n)) = map_option f (map_option rgConfig (ps n))" for f n
    using assms(2) by (simp add: same_configs_def)
  have name: "map_option (\<lambda>p. pcName (rgConfig p)) (prProviders r n) = map_option (\<lambda>p. pcName (rgConfig p)) (ps n)" for n
    using f[of pcName n] by (simp add: option.map_comp comp_def)
  have "prio (prProviders r) = prio ps"
  proof
    fix n show "prio (prProviders r) n = prio ps n"
      using f[of pcPriority n] by (auto simp: prio_def option.map_comp comp_def split: option.splits)
  qed
  then show ?thesis
    using assms(1) same_configs_dom[OF assms(2)] by (simp add: registry_ok_def name)
qed

text \<open>The most attempts a list of candidates allows.\<close>

definition attempt_limit :: "FallbackChain \<Rightarrow> (string \<rightharpoonup> RegisteredProvider) \<Rightarrow> string list \<Rightarrow> nat" where
  "attempt_limit fc ps names = sum_list (map (\<lambda>n. case ps n of
     None \<Rightarrow> 0 | Some p \<Rightarrow> nat (getMaxRetriesForProvider fc p + 1)) names)"

lemma attempt_limit_same_configs:
  assumes "same_configs ps ps'"
  shows "attempt_limit fc ps names = attempt_limit fc ps' names"
proof -
  have "(case ps n of None \<Rightarrow> 0 | Some p \<Rightarrow> nat (getMaxRetriesForProvider fc p + 1))
      = (case ps' n of None \<Rightarrow> 0 | Some p \<Rightarrow> nat (getMaxRetriesForProvider fc p + 1))" for n
  proof -
    have "map_option rgConfig (ps n) = map_option rgConfig (ps' n)" using assms by (simp add: same_configs_def)
    then show ?thesis by (cases "ps n"; cases "ps' n") (auto simp: getMaxRetriesForProvider_def)
  qed
  then show ?thesis by (simp add: attempt_limit_def)
qed

lemma provider_loop_total:
  assumes "set names \<subseteq> dom ps"
  shows "\<exists>ps' n out. provider_loop fc env req names ps a e = Some (ps', n, out) \<and> same_configs ps ps'
    \<and> a \<le> n \<and> n \<le> a + int (attempt_limit fc ps names)"
  using assms
proof (induction names arbitrary: ps a e)
  case (Cons name names)
  then obtain p where p: "ps name = Some p" by auto
  obtain cb n out where r: "retry_loop fc env req p [0..getMaxRetriesForProvider fc p] (rgCircuitBreaker p) a e = (cb, n, out)"
    by (metis prod_cases3)
  let ?ps = "ps(name \<mapsto> p\<lparr>rgCircuitBreaker := cb\<rparr>)"
  have sc: "same_configs ps ?ps" by (rule same_configs_upd[of ps name p, OF p])
  have n: "a \<le> n" "n \<le> a + int (nat (getMaxRetriesForProvider fc p + 1))"
    using retry_loop_attempts[OF r] by simp_all
  have lim: "attempt_limit fc ps (name # names) = nat (getMaxRetriesForProvider fc p + 1) + attempt_limit fc ?ps names"
    using attempt_limit_same_configs[OF sc, of fc names] p by (simp add: attempt_limit_def)
  show ?case
  proof (cases out)
    case (NextProvider err)
    obtain ps' n' out' where "provider_loop fc env req names ?ps n err = Some (ps', n', out')"
      "same_configs ?ps ps'" "n \<le> n'" "n' \<le> n + int (attempt_limit fc ?ps names)"
    proof -
      have "set names \<subseteq> dom ?ps" using Cons.prems by auto
      from Cons.IH[OF this, of n err] that show thesis by blast
    qed
    then show ?thesis using NextProvider p r n lim same_configs_trans[OF sc] by auto
  next
    case (Succeeded res)
    then show ?thesis using p r n lim sc by auto
  next
    case (Cancelled x)
    then show ?thesis using p r n lim sc by auto
  qed
qed (simp add: attempt_limit_def)

lemma provider_loop_success:
  assumes "provider_loop fc env req names ps a e = Some (ps', n, Succeeded res)"
  shows "\<exists>name\<in>set names. \<exists>p. ps name = Some p \<and> a < n \<and> frAttempt res = n \<and> frRetried res = (n > 1)
    \<and> frProvider res = pcName (rgConfig p)
    \<and> (\<exists>c. frCompletion res = Some c \<and> aeComplete env n (pcName (rgConfig p)) req = Inr c)"
  using assms
proof (induction names arbitrary: ps a e)
  case (Cons name names)
  then obtain p where p: "ps name = Some p" by (auto split: option.splits)
  obtain cb m out where r: "retry_loop fc env req p [0..getMaxRetriesForProvider fc p] (rgCircuitBreaker p) a e = (cb, m, out)"
    by (metis prod_cases3)
  let ?ps = "ps(name \<mapsto> p\<lparr>rgCircuitBreaker := cb\<rparr>)"
  show ?case
  proof (cases out)
    case (NextProvider err)
    then have "provider_loop fc env req names ?ps m err = Some (ps', n, Succeeded res)"
      using Cons.prems p r by simp
    from Cons.IH[OF this] obtain name' p' where
      *: "name' \<in> set names" "?ps name' = Some p'" "m < n" "frAttempt res = n" "frRetried res = (n > 1)"
      "frProvider res = pcName (rgConfig p')"
      "\<exists>c. frCompletion res = Some c \<and> aeComplete env n (pcName (rgConfig p')) req = Inr c"
      by blast
    have "\<exists>q. ps name' = Some q \<and> rgConfig q = rgConfig p'" using *(2) p by (auto split: if_splits)
    then show ?thesis using * retry_loop_attempts[OF r] by force
  next
    case (Succeeded res')
    then have "res' = res" "m = n" using Cons.prems p r by simp_all
    then show ?thesis using retry_loop_success[OF r[unfolded Succeeded]] p by auto
  next
    case (Cancelled x)
    then show ?thesis using Cons.prems p r by simp
  qed
qed simp

text \<open>A candidate with a closed breaker that always answers ends the search.\<close>

lemma provider_loop_serves:
  assumes "set names \<subseteq> dom ps" and "distinct names" and "name \<in> set names" and "ps name = Some p"
    and "cbState (rgCircuitBreaker p) = StateClosed" and "0 \<le> getMaxRetriesForProvider fc p"
    and "\<And>n. \<exists>c. aeComplete env n (pcName (rgConfig p)) req = Inr c" and "\<And>n. aeCancelled env n = None"
  shows "\<exists>ps' n res. provider_loop fc env req names ps a e = Some (ps', n, Succeeded res)"
  using assms(1-4)
proof (induction names arbitrary: ps a e)
  case (Cons x xs)
  then obtain q where q: "ps x = Some q" by auto
  obtain cb m out where r: "retry_loop fc env req q [0..getMaxRetriesForProvider fc q] (rgCircuitBreaker q) a e = (cb, m, out)"
    by (metis prod_cases3)
  show ?case
  proof (cases out)
    case (NextProvider err)
    have "x \<noteq> name"
    proof
      assume "x = name"
      then have "q = p" using q Cons.prems(4) by simp
      then show False
        using retry_loop_serves[OF assms(5,7), of "[0..getMaxRetriesForProvider fc p]" fc a e] r NextProvider assms(6)
        by auto
    qed
    then have "\<exists>ps' n res. provider_loop fc env req xs (ps(x \<mapsto> q\<lparr>rgCircuitBreaker := cb\<rparr>)) m err = Some (ps', n, Succeeded res)"
      using Cons.prems by (intro Cons.IH) auto
    then show ?thesis using NextProvider q r by simp
  next
    case (Succeeded res)
    then show ?thesis using q r by simp
  next
    case (Cancelled y)
    then show ?thesis using retry_loop_cancelled[OF r[unfolded Cancelled]] assms(8) by simp
  qed
qed simp

subsection \<open>The whole request\<close>

definition candidates :: "attempt_env \<Rightarrow> ModelRequest \<Rightarrow> ProviderRegistry \<Rightarrow> string list" where
  "candidates env req r = filter (eligible (aeStart env) (mrModel req) r) (prPriority r)"

definition asked_providers :: "time \<Rightarrow> ProviderRegistry \<Rightarrow> (string \<rightharpoonup> RegisteredProvider)" where
  "asked_providers now r = (\<lambda>n. map_option (ask_entry now) (prProviders r n))"

lemma same_configs_asked: "same_configs (prProviders r) (asked_providers now r)"
  by (simp add: same_configs_def asked_providers_def option.map_comp comp_def)

lemma ExecuteWithFallback_alt:
  assumes "registry_ok r"
  shows "ExecuteWithFallback fc env req r =
    (if candidates env req r = [] then
       Some (r\<lparr>prProviders := asked_providers (aeStart env) r\<rparr>, empty_result, Some ErrNoHealthyProvider)
     else case provider_loop fc env req (candidates env req r) (asked_providers (aeStart env) r) 0 (Errorf []) of
         None \<Rightarrow> None
       | Some (ps, n, Succeeded res) \<Rightarrow> Some (r\<lparr>prProviders := ps\<rparr>, res, None)
       | Some (ps, n, Cancelled e) \<Rightarrow> Some (r\<lparr>prProviders := ps\<rparr>, empty_result, Some e)
       | Some (ps, n, NextProvider err) \<Rightarrow>
           Some (r\<lparr>prProviders := ps\<rparr>,
             empty_result\<lparr>frAttempt := n, frTotalLatency := aeEndAt env n - aeStart env, frRetried := n > 1\<rparr>,
             Some (Wrapf ''all providers exhausted'' err)))"
proof -
  let ?r = "r\<lparr>prProviders := asked_providers (aeStart env) r\<rparr>"
  have c: "filter (registry_supports ?r (mrModel req)) (filter (passes (aeStart env) (prProviders r)) (prPriority r))
      = candidates env req r"
    unfolding candidates_def filter_filter
    by (rule filter_cong) (auto simp: passes_def registry_supports_def supportsModel_def eligible_def
        asked_providers_def split: option.splits)
  have empty: "candidates env req r = []" if "filter (passes (aeStart env) (prProviders r)) (prPriority r) = []"
    using c that by auto
  have upd: "?r\<lparr>prProviders := ps\<rparr> = r\<lparr>prProviders := ps\<rparr>" for ps by simp
  show ?thesis
    unfolding ExecuteWithFallback_def GetHealthyProviders_eq[OF assms] asked_providers_def[symmetric]
      option.case prod.case Let_def c upd
    using empty by (simp del: filter_filter)
qed

lemma candidates_in_registry:
  assumes "registry_ok r"
  shows "set (candidates env req r) \<subseteq> dom (asked_providers now r)" and "distinct (candidates env req r)"
  using assms by (auto simp: candidates_def eligible_def asked_providers_def registry_ok_def dom_def)

subsection \<open>Properties\<close>

text \<open>A request always comes to an end: from a well-formed registry the
  fallback chain returns, leaves a well-formed registry with the same
  providers, and makes at most one attempt per allowed try of each candidate.\<close>

theorem fallback_terminates_bounded:
  assumes "registry_ok r"
  shows "\<exists>r' res err. ExecuteWithFallback fc env req r = Some (r', res, err) \<and> registry_ok r'
    \<and> prPriority r' = prPriority r \<and> 0 \<le> frAttempt res
    \<and> frAttempt res \<le> int (attempt_limit fc (prProviders r) (candidates env req r))"
proof -
  let ?ps = "asked_providers (aeStart env) r" and ?c = "candidates env req r"
  obtain ps n out where l: "provider_loop fc env req ?c ?ps 0 (Errorf []) = Some (ps, n, out)"
    and sc: "same_configs ?ps ps" and n: "0 \<le> n" "n \<le> int (attempt_limit fc ?ps ?c)"
    using provider_loop_total[OF candidates_in_registry(1)[OF assms]] by fastforce
  have ok: "registry_ok (r\<lparr>prProviders := ?ps\<rparr>)" "registry_ok (r\<lparr>prProviders := ps\<rparr>)"
    using registry_ok_same_configs[OF assms] same_configs_asked same_configs_trans[OF _ sc] by blast+
  have lim: "attempt_limit fc ?ps ?c = attempt_limit fc (prProviders r) ?c"
    using attempt_limit_same_configs[OF same_configs_asked, symmetric] .
  have "frAttempt res = n" if "out = Succeeded res" for res
    using provider_loop_success[OF l[unfolded that]] by auto
  then show ?thesis
    using ok n lim by (cases out) (auto simp: ExecuteWithFallback_alt[OF assms] l empty_result_def)
qed

definition demo_model_request :: ModelRequest where
  "demo_model_request = \<lparr> mrModel = ''m1'', mrMessages = [], mrTemperature = None, mrMaxTokens = None,
     mrTopP = None, mrTools = [], mrToolChoice = None, mrStream = False, mrStop = [],
     mrPresencePenalty = None, mrFrequencyPenalty = None, mrUser = [] \<rparr>"

definition demo_completion :: Completion where
  "demo_completion = \<lparr> cpResponse = \<lparr> rsID = [], rsObject = [], rsCreated = 0, rsModel = ''m1'', rsChoices = [],
       rsUsage = \<lparr> usPromptTokens = 0, usCompletionTokens = 0, usTotalTokens = 0 \<rparr>, rsSystemFingerprint = [] \<rparr>,
     cpProvider = ''a'', cpModel = ''m1'', cpLatencyMs = 1 \<rparr>"

definition demo_attempts :: attempt_env where
  "demo_attempts = \<lparr> aeStart = 0, aeAskAt = (\<lambda>n. n), aeEndAt = (\<lambda>n. n),
     aeComplete = (\<lambda>n name req. Inr demo_completion), aeCancelled = (\<lambda>n. None) \<rparr>"

theorem fallback_terminates_bounded_witness:
  "\<exists>r' res err. ExecuteWithFallback (NewFallbackChain demo_router) demo_attempts demo_model_request demo_registry
     = Some (r', res, err) \<and> registry_ok r'"
  using fallback_terminates_bounded[OF demo_registry_ok] by blast

lemma success_is_answer:
  assumes "registry_ok r" and "ExecuteWithFallback fc env req r = Some (r', res, None)"
  shows "\<exists>n c. frProvider res = n \<and> eligible (aeStart env) (mrModel req) r n
    \<and> frCompletion res = Some c \<and> aeComplete env (frAttempt res) n req = Inr c
    \<and> 0 < frAttempt res \<and> frRetried res = (1 < frAttempt res)"
proof -
  let ?ps = "asked_providers (aeStart env) r" and ?c = "candidates env req r"
  obtain ps n where l: "provider_loop fc env req ?c ?ps 0 (Errorf []) = Some (ps, n, Succeeded res)"
    using assms(2) by (auto simp: ExecuteWithFallback_alt[OF assms(1)] split: if_splits option.splits provider_end.splits)
  from provider_loop_success[OF l] obtain name p c where
    *: "name \<in> set ?c" "?ps name = Some p" "0 < n" "frAttempt res = n" "frRetried res = (n > 1)"
    "frProvider res = pcName (rgConfig p)" "frCompletion res = Some c"
    "aeComplete env n (pcName (rgConfig p)) req = Inr c" by blast
  have "pcName (rgConfig p) = name"
    using *(2) registry_ok_name[OF assms(1)] by (auto simp: asked_providers_def)
  with * show ?thesis by (auto simp: candidates_def)
qed

text \<open>A result without an error is a provider's own answer: it names an
  enabled provider that serves the model and whose breaker let the request
  through, and its completion is what that provider returned to that attempt.\<close>

theorem fallback_result_sound:
  assumes "registry_ok r" and "ExecuteWithFallback fc env req r = Some (r', res, None)"
  shows "\<exists>n c. frProvider res = n \<and> eligible (aeStart env) (mrModel req) r n
    \<and> frCompletion res = Some c \<and> aeComplete env (frAttempt res) n req = Inr c
    \<and> 0 < frAttempt res \<and> frRetried res = (1 < frAttempt res)"
  using assms by (rule success_is_answer)

theorem fallback_result_sound_witness:
  "\<exists>r' res n. ExecuteWithFallback (NewFallbackChain demo_router) demo_attempts demo_model_request demo_registry
     = Some (r', res, None) \<and> frProvider res = n \<and> eligible 0 ''m1'' demo_registry n"
proof -
  have "map_option (\<lambda>x. snd (snd x)) (ExecuteWithFallback (NewFallbackChain demo_router) demo_attempts
      demo_model_request demo_registry) = Some None" by code_simp
  then obtain r' res where e: "ExecuteWithFallback (NewFallbackChain demo_router) demo_attempts
      demo_model_request demo_registry = Some (r', res, None)" by auto
  from fallback_result_sound[OF demo_registry_ok e] show ?thesis
    using e by (auto simp: demo_attempts_def demo_model_request_def)
qed

lemma working_provider_serves:
  assumes "registry_ok r" and "prProviders r name = Some p" and "pcEnabled (rgConfig p)"
    and "mrModel req \<in> set (pcModels (rgConfig p))" and "cbState (rgCircuitBreaker p) = StateClosed"
    and "\<forall>n. \<exists>c. aeComplete env n name req = Inr c" and "\<forall>n. aeCancelled env n = None"
    and "fc = NewFallbackChain cfg"
  shows "\<exists>r' res. ExecuteWithFallback fc env req r = Some (r', res, None)"
proof -
  let ?c = "candidates env req r" and ?ps = "asked_providers (aeStart env) r"
  have a: "AllowRequest (aeStart env) (rgCircuitBreaker p) = (rgCircuitBreaker p, None)"
    using assms(5) by (simp add: AllowRequest_def)
  then have ps: "?ps name = Some p" using assms(2) by (simp add: asked_providers_def ask_entry_def)
  have in_c: "name \<in> set ?c"
    using assms(1-4) a by (auto simp: candidates_def eligible_def registry_ok_def)
  have name: "pcName (rgConfig p) = name" by (rule registry_ok_name[OF assms(1,2)])
  have retries: "0 \<le> getMaxRetriesForProvider fc p"
    using assms(8) by (auto simp: getMaxRetriesForProvider_def NewFallbackChain_def)
  have "\<exists>ps' n res. provider_loop fc env req ?c ?ps 0 (Errorf []) = Some (ps', n, Succeeded res)"
    by (rule provider_loop_serves[OF candidates_in_registry[OF assms(1)] in_c ps assms(5) retries])
      (use assms(6,7) name in auto)
  then show ?thesis using in_c by (auto simp: ExecuteWithFallback_alt[OF assms(1)])
qed

text \<open>One provider that works is enough. If an enabled provider serves the
  model, its breaker is closed, it answers every call, and the request is not
  cancelled, then the request succeeds, however the other providers behave.\<close>

theorem fallback_one_provider_suffices:
  assumes "registry_ok r" and "prProviders r name = Some p" and "pcEnabled (rgConfig p)"
    and "mrModel req \<in> set (pcModels (rgConfig p))" and "cbState (rgCircuitBreaker p) = StateClosed"
    and "\<forall>n. \<exists>c. aeComplete env n name req = Inr c" and "\<forall>n. aeCancelled env n = None"
    and "fc = NewFallbackChain cfg"
  shows "\<exists>r' res. ExecuteWithFallback fc env req r = Some (r', res, None)"
  using assms by (rule working_provider_serves)

theorem fallback_one_provider_suffices_witness:
  "\<exists>r' res. ExecuteWithFallback (NewFallbackChain demo_router) demo_attempts demo_model_request demo_registry
     = Some (r', res, None)"
proof -
  have "map_option (\<lambda>p. (pcEnabled (rgConfig p), pcModels (rgConfig p), cbState (rgCircuitBreaker p)))
      (prProviders demo_registry ''a'') = Some (True, [''m1''], StateClosed)" by code_simp
  then obtain p where "prProviders demo_registry ''a'' = Some p" "pcEnabled (rgConfig p)"
    "mrModel demo_model_request \<in> set (pcModels (rgConfig p))" "cbState (rgCircuitBreaker p) = StateClosed"
    by (auto simp: demo_model_request_def)
  from fallback_one_provider_suffices[OF demo_registry_ok this] show ?thesis
    by (simp add: demo_attempts_def)
qed

end

