(* ===== verification/Pricing.thy ===== *)
theory Pricing
  imports ModelTypes
begin

text \<open>
  \<open>src/internal/adapter/pricing/tables.go\<close> and \<open>service.go\<close>: versioned price
  tables and the cost of a completion. Prices and costs are exact rationals
  where the code has \<open>float64\<close>; the parsing of a table from JSON is not
  modelled (\<open>LoadTableFromJSON\<close> stores the table as \<open>WithTable\<close> does).
\<close>

record ModelPrice =
  prModel :: string
  prInputPricePer1k :: rat
  prOutputPricePer1k :: rat

record PriceTable =
  ptVersion :: string
  ptProvider :: string
  ptPrices :: "ModelPrice list"
  ptEffectiveDate :: string
  ptDescription :: string

record PricingConfig =
  pgDefaultVersion :: string
  pgTables :: "PriceTable list"

record PricingService =
  psTables :: "(string \<times> string) \<rightharpoonup> PriceTable"
  psVersions :: "string list"
  psCurrentVer :: string
  psDefaultVer :: string

definition loadTable :: "PriceTable \<Rightarrow> PricingService \<Rightarrow> PricingService" where
  "loadTable table s =
     (let s1 = s\<lparr>psTables := (psTables s)((ptVersion table, ptProvider table) \<mapsto> table)\<rparr>
      in if ptVersion table \<in> set (psVersions s1) then s1
         else s1\<lparr>psVersions := psVersions s1 @ [ptVersion table]\<rparr>)"

definition NewService :: "PricingConfig \<Rightarrow> PricingService result" where
  "NewService cfg =
     (let s0 = \<lparr> psTables = Map.empty, psVersions = [], psCurrentVer = pgDefaultVersion cfg,
                 psDefaultVer = pgDefaultVersion cfg \<rparr>;
          s = fold loadTable (pgTables cfg) s0;
          v = pgDefaultVersion cfg
      in if psTables s (v, ''openai'') = None \<and> psTables s (v, ''anthropic'') = None
            \<and> psTables s (v, ''ollama'') = None
         then Inl (Errorf ''default pricing version not found in tables'') else Inr s)"

fun find_price :: "ModelPrice list \<Rightarrow> string \<Rightarrow> (rat \<times> rat) option" where
  "find_price [] m = None"
| "find_price (p # ps) m =
     (if prModel p = m then Some (prInputPricePer1k p, prOutputPricePer1k p) else find_price ps m)"

fun find_in_providers :: "PricingService \<Rightarrow> string \<Rightarrow> string list \<Rightarrow> string \<Rightarrow> (rat \<times> rat) option" where
  "find_in_providers s version [] m = None"
| "find_in_providers s version (prov # provs) m = (case psTables s (version, prov) of
     None \<Rightarrow> find_in_providers s version provs m
   | Some table \<Rightarrow> (case find_price (ptPrices table) m of
       Some p \<Rightarrow> Some p
     | None \<Rightarrow> find_in_providers s version provs m))"

definition findModelPriceUnlocked :: "PricingService \<Rightarrow> string \<Rightarrow> string \<Rightarrow> (rat \<times> rat) option" where
  "findModelPriceUnlocked s version m =
     find_in_providers s version [''openai'', ''anthropic'', ''ollama''] m"

text \<open>Both calls also return the current version, with and without an error.\<close>

definition GetModelPrice :: "PricingService \<Rightarrow> string \<Rightarrow> (rat \<times> rat) result \<times> string" where
  "GetModelPrice s m = (case findModelPriceUnlocked s (psCurrentVer s) m of
     None \<Rightarrow> (Inl (Errorf (''model not found in pricing table: '' @ m)), psCurrentVer s)
   | Some p \<Rightarrow> (Inr p, psCurrentVer s))"

definition GetCost :: "PricingService \<Rightarrow> string \<Rightarrow> int \<Rightarrow> int \<Rightarrow> rat result \<times> string" where
  "GetCost s m promptTokens completionTokens = (case findModelPriceUnlocked s (psCurrentVer s) m of
     None \<Rightarrow> (Inl (Errorf (''model not found in pricing table: '' @ m)), psCurrentVer s)
   | Some (inputPrice, outputPrice) \<Rightarrow>
       (Inr ((of_int promptTokens / 1000) * inputPrice + (of_int completionTokens / 1000) * outputPrice),
        psCurrentVer s))"

definition ListVersions :: "PricingService \<Rightarrow> string list" where
  "ListVersions s = psVersions s"

definition SetVersion :: "string \<Rightarrow> PricingService \<Rightarrow> PricingService \<times> go_error option" where
  "SetVersion version s =
     (if version \<notin> set (psVersions s)
      then (s, Some (Errorf (''pricing version not found: '' @ version)))
      else (s\<lparr>psCurrentVer := version\<rparr>, None))"

definition GetTable :: "PricingService \<Rightarrow> string \<Rightarrow> string \<Rightarrow> PriceTable result" where
  "GetTable s version provider = (case psTables s (version, provider) of
     None \<Rightarrow> Inl (Errorf ''price table not found'') | Some t \<Rightarrow> Inr t)"

definition DefaultPricingConfig :: PricingConfig where
  "DefaultPricingConfig = \<lparr> pgDefaultVersion = ''2024-01'', pgTables = [
     \<lparr> ptVersion = ''2024-01'', ptProvider = ''openai'', ptPrices = [
         \<lparr> prModel = ''gpt-4'', prInputPricePer1k = 3 / 100, prOutputPricePer1k = 6 / 100 \<rparr>,
         \<lparr> prModel = ''gpt-4-turbo'', prInputPricePer1k = 1 / 100, prOutputPricePer1k = 3 / 100 \<rparr>,
         \<lparr> prModel = ''gpt-3.5-turbo'', prInputPricePer1k = 5 / 10000, prOutputPricePer1k = 15 / 10000 \<rparr>],
       ptEffectiveDate = ''2024-01-01'', ptDescription = ''OpenAI pricing as of January 2024'' \<rparr>,
     \<lparr> ptVersion = ''2024-01'', ptProvider = ''anthropic'', ptPrices = [
         \<lparr> prModel = ''claude-3-opus-20240229'', prInputPricePer1k = 15 / 1000, prOutputPricePer1k = 75 / 1000 \<rparr>,
         \<lparr> prModel = ''claude-3-sonnet-20240229'', prInputPricePer1k = 3 / 1000, prOutputPricePer1k = 15 / 1000 \<rparr>,
         \<lparr> prModel = ''claude-3-haiku-20240307'', prInputPricePer1k = 25 / 100000, prOutputPricePer1k = 125 / 100000 \<rparr>],
       ptEffectiveDate = ''2024-01-01'', ptDescription = ''Anthropic pricing as of January 2024'' \<rparr>,
     \<lparr> ptVersion = ''2024-01'', ptProvider = ''ollama'', ptPrices = [
         \<lparr> prModel = ''llama3'', prInputPricePer1k = 0, prOutputPricePer1k = 0 \<rparr>,
         \<lparr> prModel = ''mistral'', prInputPricePer1k = 0, prOutputPricePer1k = 0 \<rparr>,
         \<lparr> prModel = ''codellama'', prInputPricePer1k = 0, prOutputPricePer1k = 0 \<rparr>],
       ptEffectiveDate = ''2024-01-01'', ptDescription = ''Ollama local models (zero cost)'' \<rparr>] \<rparr>"

subsection \<open>Every known version has a table\<close>

definition service_ok :: "PricingService \<Rightarrow> bool" where
  "service_ok s = (distinct (psVersions s) \<and> set (psVersions s) = fst ` dom (psTables s)
     \<and> psCurrentVer s \<in> set (psVersions s))"

lemma loadTable_versions:
  assumes "distinct (psVersions s)" and "set (psVersions s) = fst ` dom (psTables s)"
  shows "distinct (psVersions (loadTable t s)) \<and> set (psVersions (loadTable t s)) = fst ` dom (psTables (loadTable t s))
    \<and> psCurrentVer (loadTable t s) = psCurrentVer s"
proof -
  have "fst ` insert (ptVersion t, ptProvider t) (dom (psTables s)) = insert (ptVersion t) (fst ` dom (psTables s))"
    by auto
  then show ?thesis using assms by (auto simp: loadTable_def Let_def)
qed

lemma fold_loadTable_versions:
  assumes "distinct (psVersions s)" and "set (psVersions s) = fst ` dom (psTables s)"
  shows "distinct (psVersions (fold loadTable ts s)) \<and> set (psVersions (fold loadTable ts s)) = fst ` dom (psTables (fold loadTable ts s))
    \<and> psCurrentVer (fold loadTable ts s) = psCurrentVer s"
  using assms
proof (induction ts arbitrary: s)
  case (Cons t ts)
  then show ?case using loadTable_versions[OF Cons.prems, of t] by simp
qed simp

lemma NewService_ok: "NewService cfg = Inr s \<Longrightarrow> service_ok s"
proof -
  let ?s0 = "\<lparr> psTables = Map.empty, psVersions = [], psCurrentVer = pgDefaultVersion cfg,
                 psDefaultVer = pgDefaultVersion cfg \<rparr> :: PricingService"
  assume new: "NewService cfg = Inr s"
  then have s: "s = fold loadTable (pgTables cfg) ?s0"
    by (auto simp: NewService_def Let_def split: if_splits)
  have v: "distinct (psVersions s)" "set (psVersions s) = fst ` dom (psTables s)" "psCurrentVer s = pgDefaultVersion cfg"
    using fold_loadTable_versions[of ?s0 "pgTables cfg"] by (simp_all add: s)
  have "\<exists>p. psTables s (pgDefaultVersion cfg, p) \<noteq> None"
    using new s by (auto simp: NewService_def Let_def split: if_splits)
  then have "pgDefaultVersion cfg \<in> fst ` dom (psTables s)" by (metis domIff fst_conv imageI)
  with v show ?thesis by (simp add: service_ok_def)
qed

lemma SetVersion_ok: "service_ok s \<Longrightarrow> service_ok (fst (SetVersion v s))"
  by (auto simp: SetVersion_def service_ok_def)

lemma find_price_mem:
  "find_price ps m = Some (i, out) \<Longrightarrow> \<exists>p\<in>set ps. prModel p = m \<and> prInputPricePer1k p = i \<and> prOutputPricePer1k p = out"
  by (induction ps) (auto split: if_splits)

lemma find_in_providers_mem:
  assumes "find_in_providers s v provs m = Some (i, out)"
  shows "\<exists>prov\<in>set provs. \<exists>t p. psTables s (v, prov) = Some t \<and> p \<in> set (ptPrices t) \<and> prModel p = m
    \<and> prInputPricePer1k p = i \<and> prOutputPricePer1k p = out"
  using assms
proof (induction provs)
  case (Cons prov provs)
  then show ?case
    by (fastforce split: option.splits dest: find_price_mem)
qed simp

end
