(* ===== verification/ToolTypes.thy ===== *)
theory ToolTypes
  imports ModelTypes
begin

text \<open>
  \<open>src/internal/domain/tool\<close>: tool definitions, execution results and the
  configuration of the tool executor, and the validated tool of
  \<open>src/internal/adapter/tool/wazero/executor.go\<close>. A \<open>json.RawMessage\<close> is the
  text it holds (None: nil).
\<close>

type_synonym uint32 = "32 word"
type_synonym uint64 = "64 word"

record ToolDefinition =
  tdID :: int
  tdTenantID :: uuid
  tdName :: string
  tdDescription :: string
  tdInputSchema :: "string option"
  tdGrants :: "string option"
  tdExecutionTimeoutMs :: uint64
  tdMemoryPages :: uint32
  tdHash :: string
  tdIsActive :: bool

record ValidatedTool =
  vtName :: string
  vtDescription :: string
  vtInputSchema :: "string option"
  vtGrants :: "string option"
  vtExecutionTimeoutMs :: uint64
  vtMemoryPages :: uint32
  vtHash :: string

record ExecCall =
  xcID :: string
  xcName :: string
  xcArguments :: "json option"

record ToolResult =
  trCallID :: string
  trOutput :: "json option"
  trError :: string
  trDuration :: duration

record FSMount =
  fsGuestPath :: string
  fsHostPath :: string

record ToolGrants =
  tgFSReadOnlyMounts :: "FSMount list"
  tgAllowNetwork :: bool

record ToolLimits =
  liTimeoutMs :: int
  liMemoryPages :: uint32

record ToolModuleConfig =
  tmName :: string
  tmModulePath :: string
  tmGrants :: ToolGrants
  tmLimits :: ToolLimits
  tmRequiresApproval :: bool

record ToolConfig =
  tcfMaxIterations :: int
  tcfDefaultTimeoutMs :: int
  tcfDefaultMemoryPages :: uint32
  tcfCacheTTL :: duration
  tcfCacheMaxEntries :: int
  tcfTools :: "ToolModuleConfig list"

definition EffectiveTimeoutMs :: "ToolConfig \<Rightarrow> ToolModuleConfig \<Rightarrow> int" where
  "EffectiveTimeoutMs tc tool =
     (if liTimeoutMs (tmLimits tool) > 0 then liTimeoutMs (tmLimits tool)
      else if tcfDefaultTimeoutMs tc > 0 then tcfDefaultTimeoutMs tc
      else 30000)"

definition EffectiveMemoryPages :: "ToolConfig \<Rightarrow> ToolModuleConfig \<Rightarrow> uint32" where
  "EffectiveMemoryPages tc tool =
     (if liMemoryPages (tmLimits tool) > 0 then liMemoryPages (tmLimits tool)
      else if tcfDefaultMemoryPages tc > 0 then tcfDefaultMemoryPages tc
      else 512)"

lemma effective_limits_positive:
  "0 < EffectiveTimeoutMs tc tool" "0 < EffectiveMemoryPages tc tool"
  by (auto simp: EffectiveTimeoutMs_def EffectiveMemoryPages_def)

end
