(* ===== verification/Orchestrator.thy ===== *)
theory Orchestrator
  imports Fallback Pricing ToolTypes
begin

text \<open>
  \<open>src/internal/usecase/chat/orchestrator.go\<close>: the chat use case and its bounded
  tool loop. The tool executor, the tool registry, the JSON decoder of the
  arguments and Go's \<open>%v\<close> of a tool's output are arguments (\<open>chat_env\<close>); each
  call to the executor and to the registry is numbered, so that they may answer
  differently every time. The calls handed to the executor are recorded in
  order.
\<close>

record ChatUsecase =
  cuFallbackChain :: FallbackChain
  cuPricing :: PricingService
  cuHasExecutor :: bool
  cuToolConfig :: "ToolConfig option"
  cuHasToolRepo :: bool
  cuMaxIterations :: int

record UsecaseRequest =
  urModel :: string
  urMessages :: "Message list"
  urTemperature :: "float64 option"
  urMaxTokens :: "int option"
  urStream :: bool
  urTools :: "Tool list"
  urValidatedTools :: "ValidatedTool list"
  urToolChoice :: "json option"
  urUser :: string
  urTenantID :: uuid

record UsecaseResponse =
  upCompletion :: "Completion option"
  upCostUSD :: rat
  upCostVersion :: string
  upProvider :: string
  upRetried :: bool

text \<open>What the surroundings of one chat request do: the attempts of the n-th
  model call, the registry's and the executor's answers to the n-th tool call,
  the JSON decoder and the formatter.\<close>

record chat_env =
  ceAttempts :: "nat \<Rightarrow> attempt_env"
  ceGetByName :: "nat \<Rightarrow> uuid \<Rightarrow> string \<Rightarrow> ToolDefinition result"
  ceExecute :: "nat \<Rightarrow> ValidatedTool \<Rightarrow> ExecCall \<Rightarrow> ToolResult result"
  ceUnmarshal :: "string \<Rightarrow> json option"
  ceFormat :: "json option \<Rightarrow> string"

definition NewChatUsecase ::
  "FallbackChain \<Rightarrow> PricingService \<Rightarrow> bool \<Rightarrow> ToolConfig option \<Rightarrow> bool \<Rightarrow> int \<Rightarrow> ChatUsecase" where
  "NewChatUsecase fc pricing hasExecutor toolConfig hasRepo maxIterations = \<lparr>
     cuFallbackChain = fc, cuPricing = pricing, cuHasExecutor = hasExecutor,
     cuToolConfig = toolConfig, cuHasToolRepo = hasRepo,
     cuMaxIterations = (if maxIterations \<le> 0 then 5 else maxIterations) \<rparr>"

definition estimateCost :: "ChatUsecase \<Rightarrow> UsecaseRequest \<Rightarrow> rat result \<times> string" where
  "estimateCost uc req =
     GetCost (cuPricing uc) (urModel req) (estimatePromptTokens (urMessages req))
       (case urMaxTokens req of None \<Rightarrow> 1000 | Some n \<Rightarrow> n)"

definition calculateActualCost :: "ChatUsecase \<Rightarrow> Completion \<Rightarrow> rat result \<times> string" where
  "calculateActualCost uc completion =
     (let usage = rsUsage (cpResponse completion)
      in GetCost (cuPricing uc) (cpModel completion) (usPromptTokens usage) (usCompletionTokens usage))"

text \<open>The first configured tool of that name decides.\<close>

definition toolRequiresApproval :: "ChatUsecase \<Rightarrow> string \<Rightarrow> bool" where
  "toolRequiresApproval uc toolName = (case cuToolConfig uc of
     None \<Rightarrow> False
   | Some cfg \<Rightarrow> (case List.find (\<lambda>tc. tmName tc = toolName) (tcfTools cfg) of
       None \<Rightarrow> False | Some tc \<Rightarrow> tmRequiresApproval tc))"

definition requestHITLApproval :: "ToolCall \<Rightarrow> bool \<times> go_error option" where
  "requestHITLApproval tc =
     (False, Some (Errorf (''HITL approval required for '' @ fnName (tcFunction tc))))"

definition parseArguments :: "chat_env \<Rightarrow> string \<Rightarrow> json option" where
  "parseArguments env s = (if s = [] then None else ceUnmarshal env s)"

text \<open>The map built from the validated tools: a later entry replaces an earlier
  one of the same name.\<close>

definition authorized_tools :: "ValidatedTool list \<Rightarrow> (string \<rightharpoonup> ValidatedTool)" where
  "authorized_tools vts = fold (\<lambda>vt m. m(vtName vt \<mapsto> vt)) vts Map.empty"

definition error_result :: "string \<Rightarrow> string \<Rightarrow> ToolResult" where
  "error_result callID text = \<lparr> trCallID = callID, trOutput = None, trError = text, trDuration = 0 \<rparr>"

text \<open>The re-resolution of a tool against the registry; None: it may go on.\<close>

definition resolve_error ::
  "ChatUsecase \<Rightarrow> chat_env \<Rightarrow> nat \<Rightarrow> UsecaseRequest \<Rightarrow> ValidatedTool \<Rightarrow> string \<Rightarrow> go_error option" where
  "resolve_error uc env k req vt name =
     (if \<not> cuHasToolRepo uc then None
      else case ceGetByName env k (urTenantID req) name of
        Inl _ \<Rightarrow> Some ErrToolNotFound
      | Inr def \<Rightarrow>
          if tdHash def \<noteq> vtHash vt then Some ErrToolDefinitionMismatch
          else if \<not> tdIsActive def then Some ErrToolNotFound
          else None)"

text \<open>One tool call: the result that is fed back, and the call the executor
  received, if it did.\<close>

definition run_tool_call ::
  "ChatUsecase \<Rightarrow> chat_env \<Rightarrow> UsecaseRequest \<Rightarrow> nat \<Rightarrow> ToolCall \<Rightarrow> ToolResult \<times> (ValidatedTool \<times> ExecCall) option"
where
  "run_tool_call uc env req k tc =
     (let name = fnName (tcFunction tc) in
      case authorized_tools (urValidatedTools req) name of
        None \<Rightarrow> (error_result (tcID tc) (error_text ErrToolNotFound), None)
      | Some vt \<Rightarrow> (case resolve_error uc env k req vt name of
          Some e \<Rightarrow> (error_result (tcID tc) (error_text e), None)
        | None \<Rightarrow>
            if toolRequiresApproval uc name
               \<and> (case requestHITLApproval tc of (approved, err) \<Rightarrow> err \<noteq> None \<or> \<not> approved)
            then (error_result (tcID tc) (''HITL approval failed: '' @
                    (case snd (requestHITLApproval tc) of None \<Rightarrow> ''<nil>'' | Some e \<Rightarrow> error_text e)), None)
            else let call = \<lparr> xcID = tcID tc, xcName = name,
                              xcArguments = parseArguments env (fnArguments (tcFunction tc)) \<rparr>
                 in (case ceExecute env k vt call of
                       Inr tr \<Rightarrow> (tr, Some (vt, call))
                     | Inl e \<Rightarrow> (error_result (xcID call) (error_text e), Some (vt, call)))))"

text \<open>All calls of one reply, numbered from \<open>k\<close>.\<close>

fun run_tool_calls ::
  "ChatUsecase \<Rightarrow> chat_env \<Rightarrow> UsecaseRequest \<Rightarrow> nat \<Rightarrow> ToolCall list
    \<Rightarrow> ToolResult list \<times> (nat \<times> ValidatedTool \<times> ExecCall) list"
where
  "run_tool_calls uc env req k [] = ([], [])"
| "run_tool_calls uc env req k (tc # tcs) =
     (let (tr, done) = run_tool_call uc env req k tc;
          (trs, dones) = run_tool_calls uc env req (Suc k) tcs
      in (tr # trs, (case done of None \<Rightarrow> dones | Some (vt, call) \<Rightarrow> (k, vt, call) # dones)))"

definition tool_message :: "chat_env \<Rightarrow> ToolResult \<Rightarrow> Message" where
  "tool_message env tr = \<lparr> msRole = ''tool'', msContent = ceFormat env (trOutput tr), msToolCalls = [],
     msToolCallID = trCallID tr, msName = trCallID tr \<rparr>"

definition recall_request :: "chat_env \<Rightarrow> ModelRequest \<Rightarrow> ToolResult list \<Rightarrow> ModelRequest" where
  "recall_request env originalReq toolResults = \<lparr>
     mrModel = mrModel originalReq,
     mrMessages = mrMessages originalReq @ map (tool_message env) toolResults,
     mrTemperature = mrTemperature originalReq,
     mrMaxTokens = mrMaxTokens originalReq,
     mrTopP = None,
     mrTools = mrTools originalReq,
     mrToolChoice = mrToolChoice originalReq,
     mrStream = mrStream originalReq,
     mrStop = [],
     mrPresencePenalty = None,
     mrFrequencyPenalty = None,
     mrUser = mrUser originalReq \<rparr>"

text \<open>\<open>feedToolResultsAndRecall\<close>; \<open>n\<close> numbers the model call.\<close>

definition feedToolResultsAndRecall ::
  "ChatUsecase \<Rightarrow> chat_env \<Rightarrow> nat \<Rightarrow> ModelRequest \<Rightarrow> ToolResult list \<Rightarrow> ProviderRegistry
    \<Rightarrow> (ProviderRegistry \<times> FallbackResult \<times> go_error option) option"
where
  "feedToolResultsAndRecall uc env n originalReq toolResults r =
     ExecuteWithFallback (cuFallbackChain uc) (ceAttempts env n) (recall_request env originalReq toolResults) r"

definition choices_of :: "FallbackResult \<Rightarrow> Choice list" where
  "choices_of res = (case frCompletion res of None \<Rightarrow> [] | Some c \<Rightarrow> rsChoices (cpResponse c))"

definition set_finish_reason :: "string \<Rightarrow> FallbackResult \<Rightarrow> FallbackResult" where
  "set_finish_reason reason res = (case frCompletion res of
     None \<Rightarrow> res
   | Some c \<Rightarrow> (case rsChoices (cpResponse c) of
       [] \<Rightarrow> res
     | ch # chs \<Rightarrow> res\<lparr>frCompletion := Some (c\<lparr>cpResponse := (cpResponse c)
           \<lparr>rsChoices := ch\<lparr>chFinishReason := reason\<rparr> # chs\<rparr>\<rparr>)\<rparr>))"

record loop_state =
  lsRegistry :: ProviderRegistry
  lsResult :: FallbackResult
  lsIterations :: nat
  lsToolCalls :: nat
  lsExecuted :: "(nat \<times> ValidatedTool \<times> ExecCall) list"

text \<open>The loop with the iterations that are left as its fuel: Inl is the error of
  a recall, None a nil dereference in the registry.\<close>

fun tool_loop ::
  "ChatUsecase \<Rightarrow> chat_env \<Rightarrow> UsecaseRequest \<Rightarrow> ModelRequest \<Rightarrow> nat \<Rightarrow> loop_state
    \<Rightarrow> (loop_state \<times> go_error option) option"
where
  "tool_loop uc env req domainReq 0 s = Some (s, None)"
| "tool_loop uc env req domainReq (Suc left) s = (case choices_of (lsResult s) of
     [] \<Rightarrow> Some (s, None)
   | choice # _ \<Rightarrow>
       let toolCalls = msToolCalls (chMessage choice) in
       if toolCalls = [] then Some (s, None)
       else let n = Suc (lsIterations s);
                (results, dones) = run_tool_calls uc env req (lsToolCalls s) toolCalls
            in case feedToolResultsAndRecall uc env n domainReq results (lsRegistry s) of
                 None \<Rightarrow> None
               | Some (r', res, err) \<Rightarrow>
                   let s' = \<lparr> lsRegistry = r', lsResult = res, lsIterations = n,
                              lsToolCalls = lsToolCalls s + length toolCalls,
                              lsExecuted = lsExecuted s @ dones \<rparr>
                   in case err of
                        Some e \<Rightarrow> Some (s'\<lparr>lsResult := empty_result\<rparr>, Some (Wrapf ''feed tool results'' e))
                      | None \<Rightarrow> tool_loop uc env req domainReq left s')"

definition executeToolLoop ::
  "ChatUsecase \<Rightarrow> chat_env \<Rightarrow> UsecaseRequest \<Rightarrow> ModelRequest \<Rightarrow> FallbackResult \<Rightarrow> ProviderRegistry
    \<Rightarrow> (loop_state \<times> go_error option) option"
where
  "executeToolLoop uc env req domainReq result r =
     (let s0 = \<lparr> lsRegistry = r, lsResult = result, lsIterations = 0, lsToolCalls = 0, lsExecuted = [] \<rparr> in
      if \<not> cuHasExecutor uc \<or> cuToolConfig uc = None then Some (s0, None)
      else let maxIterations = (if cuMaxIterations uc \<le> 0 then 5 else cuMaxIterations uc) in
        case tool_loop uc env req domainReq (nat maxIterations) s0 of
          None \<Rightarrow> None
        | Some (s, Some e) \<Rightarrow> Some (s, Some e)
        | Some (s, None) \<Rightarrow>
            Some (if lsIterations s \<ge> nat maxIterations
                  then s\<lparr>lsResult := set_finish_reason ''max_iterations'' (lsResult s)\<rparr> else s, None))"

definition domain_request :: "UsecaseRequest \<Rightarrow> ModelRequest" where
  "domain_request req = \<lparr>
     mrModel = urModel req, mrMessages = urMessages req, mrTemperature = urTemperature req,
     mrMaxTokens = urMaxTokens req, mrTopP = None, mrTools = urTools req, mrToolChoice = urToolChoice req,
     mrStream = urStream req, mrStop = [], mrPresencePenalty = None, mrFrequencyPenalty = None,
     mrUser = urUser req \<rparr>"

text \<open>\<open>Complete\<close>. A failed cost calculation is logged and leaves a zero cost.\<close>

definition Complete ::
  "ChatUsecase \<Rightarrow> chat_env \<Rightarrow> UsecaseRequest \<Rightarrow> ProviderRegistry
    \<Rightarrow> (ProviderRegistry \<times> UsecaseResponse result) option"
where
  "Complete uc env req r =
     (case ExecuteWithFallback (cuFallbackChain uc) (ceAttempts env 0) (domain_request req) r of
        None \<Rightarrow> None
      | Some (r1, result, Some e) \<Rightarrow> Some (r1, Inl e)
      | Some (r1, result, None) \<Rightarrow>
          (case executeToolLoop uc env req (domain_request req) result r1 of
             None \<Rightarrow> None
           | Some (s, Some e) \<Rightarrow> Some (lsRegistry s, Inl e)
           | Some (s, None) \<Rightarrow>
               (let res = lsResult s;
                    (cost, version) = (case frCompletion res of
                       None \<Rightarrow> GetCost (cuPricing uc) [] 0 0
                     | Some c \<Rightarrow> calculateActualCost uc c)
                in Some (lsRegistry s, Inr \<lparr>
                     upCompletion = frCompletion res,
                     upCostUSD = (case cost of Inl _ \<Rightarrow> 0 | Inr x \<Rightarrow> x),
                     upCostVersion = version,
                     upProvider = frProvider res,
                     upRetried = frRetried res \<rparr>))))"

subsection \<open>What reaches the executor\<close>

text \<open>The k-th tool call was allowed: its tool was validated for the request, the
  registry confirmed it at that moment, and no approval is required.\<close>

definition safe_execution ::
  "ChatUsecase \<Rightarrow> chat_env \<Rightarrow> UsecaseRequest \<Rightarrow> nat \<times> ValidatedTool \<times> ExecCall \<Rightarrow> bool" where
  "safe_execution uc env req = (\<lambda>(k, vt, call).
     vt \<in> set (urValidatedTools req) \<and> vtName vt = xcName call
     \<and> \<not> toolRequiresApproval uc (xcName call)
     \<and> (cuHasToolRepo uc \<longrightarrow> (\<exists>def. ceGetByName env k (urTenantID req) (xcName call) = Inr def
           \<and> tdHash def = vtHash vt \<and> tdIsActive def)))"

lemma authorized_tools_fold:
  "fold (\<lambda>vt m. m(vtName vt \<mapsto> vt)) vts m0 name = Some vt \<Longrightarrow>
     (vt \<in> set vts \<and> vtName vt = name) \<or> m0 name = Some vt"
proof (induction vts arbitrary: m0)
  case (Cons v vts)
  have "(vt \<in> set vts \<and> vtName vt = name) \<or> (m0(vtName v \<mapsto> v)) name = Some vt"
    using Cons.prems by (intro Cons.IH) simp
  then show ?case by (auto split: if_splits)
qed simp

lemma authorized_tools_sound:
  "authorized_tools vts name = Some vt \<Longrightarrow> vt \<in> set vts \<and> vtName vt = name"
  using authorized_tools_fold[of vts Map.empty name vt] by (auto simp: authorized_tools_def)

lemma resolve_error_None:
  "resolve_error uc env k req vt name = None \<Longrightarrow> cuHasToolRepo uc \<Longrightarrow>
     \<exists>def. ceGetByName env k (urTenantID req) name = Inr def \<and> tdHash def = vtHash vt \<and> tdIsActive def"
  by (auto simp: resolve_error_def split: sum.splits if_splits)

lemma run_tool_call_safe:
  assumes "run_tool_call uc env req k tc = (tr, Some (vt, call))"
  shows "safe_execution uc env req (k, vt, call)"
proof -
  let ?name = "fnName (tcFunction tc)"
  have "authorized_tools (urValidatedTools req) ?name = Some vt" "resolve_error uc env k req vt ?name = None"
    "\<not> toolRequiresApproval uc ?name" "xcName call = ?name"
    using assms by (auto simp: run_tool_call_def requestHITLApproval_def Let_def
        split: option.splits if_splits sum.splits)
  then show ?thesis
    using authorized_tools_sound resolve_error_None by (fastforce simp: safe_execution_def)
qed

lemma run_tool_calls_safe:
  "run_tool_calls uc env req k tcs = (trs, dones) \<Longrightarrow> list_all (safe_execution uc env req) dones"
proof (induction tcs arbitrary: k trs dones)
  case (Cons tc tcs)
  obtain tr d where c: "run_tool_call uc env req k tc = (tr, d)" by fastforce
  obtain trs' ds where cs: "run_tool_calls uc env req (Suc k) tcs = (trs', ds)" by fastforce
  show ?case
    using Cons.prems Cons.IH[OF cs] run_tool_call_safe[of uc env req k tc tr] c cs
    by (auto split: option.splits)
qed simp

lemma run_tool_calls_counts:
  "run_tool_calls uc env req k tcs = (trs, dones) \<Longrightarrow> length trs = length tcs \<and> length dones \<le> length tcs"
proof (induction tcs arbitrary: k trs dones)
  case (Cons tc tcs)
  obtain tr d where c: "run_tool_call uc env req k tc = (tr, d)" by fastforce
  obtain trs' ds where cs: "run_tool_calls uc env req (Suc k) tcs = (trs', ds)" by fastforce
  show ?case using Cons.prems Cons.IH[OF cs] c cs by (auto split: option.splits)
qed simp

subsection \<open>The loop\<close>

definition loop_ok :: "ChatUsecase \<Rightarrow> chat_env \<Rightarrow> UsecaseRequest \<Rightarrow> loop_state \<Rightarrow> bool" where
  "loop_ok uc env req s = (registry_ok (lsRegistry s) \<and> list_all (safe_execution uc env req) (lsExecuted s)
     \<and> length (lsExecuted s) \<le> lsToolCalls s)"

lemma ExecuteWithFallback_returns:
  assumes "registry_ok r"
  shows "\<exists>r' res err. ExecuteWithFallback fc env req r = Some (r', res, err) \<and> registry_ok r'"
proof -
  let ?ps = "asked_providers (aeStart env) r" and ?c = "candidates env req r"
  obtain ps n out where l: "provider_loop fc env req ?c ?ps 0 (Errorf []) = Some (ps, n, out)"
    and sc: "same_configs ?ps ps"
    using provider_loop_total[OF candidates_in_registry(1)[OF assms]] by fastforce
  have "registry_ok (r\<lparr>prProviders := ?ps\<rparr>)" "registry_ok (r\<lparr>prProviders := ps\<rparr>)"
    using registry_ok_same_configs[OF assms] same_configs_asked same_configs_trans[OF _ sc] by blast+
  then show ?thesis by (cases out) (auto simp: ExecuteWithFallback_alt[OF assms] l)
qed

lemma tool_loop_returns:
  assumes "loop_ok uc env req s"
  shows "\<exists>s' err. tool_loop uc env req domainReq left s = Some (s', err) \<and> loop_ok uc env req s'
    \<and> lsIterations s' \<le> lsIterations s + left"
  using assms
proof (induction left arbitrary: s)
  case (Suc left)
  show ?case
  proof (cases "choices_of (lsResult s) = [] \<or> msToolCalls (chMessage (hd (choices_of (lsResult s)))) = []")
    case True
    then show ?thesis using Suc.prems by (cases "choices_of (lsResult s)") auto
  next
    case False
    then obtain choice chs where ch: "choices_of (lsResult s) = choice # chs"
      "msToolCalls (chMessage choice) \<noteq> []" by (cases "choices_of (lsResult s)") auto
    let ?tcs = "msToolCalls (chMessage choice)" and ?n = "Suc (lsIterations s)"
    obtain results dones where tc: "run_tool_calls uc env req (lsToolCalls s) ?tcs = (results, dones)" by fastforce
    obtain r' res err where f: "feedToolResultsAndRecall uc env ?n domainReq results (lsRegistry s) = Some (r', res, err)"
      and ok: "registry_ok r'"
      using ExecuteWithFallback_returns Suc.prems unfolding feedToolResultsAndRecall_def loop_ok_def by blast
    let ?s = "\<lparr> lsRegistry = r', lsResult = res, lsIterations = ?n,
                lsToolCalls = lsToolCalls s + length ?tcs, lsExecuted = lsExecuted s @ dones \<rparr>"
    have inv: "loop_ok uc env req ?s" "loop_ok uc env req (?s\<lparr>lsResult := empty_result\<rparr>)"
      using Suc.prems ok run_tool_calls_safe[OF tc] run_tool_calls_counts[OF tc] by (simp_all add: loop_ok_def)
    show ?thesis
    proof (cases err)
      case None
      then show ?thesis using Suc.IH[OF inv(1)] ch tc f by (auto simp: Let_def)
    next
      case (Some e)
      then show ?thesis using inv(2) ch tc f by (auto simp: Let_def)
    qed
  qed
qed simp

lemma executeToolLoop_returns:
  assumes "registry_ok r"
  shows "\<exists>s err. executeToolLoop uc env req domainReq result r = Some (s, err) \<and> loop_ok uc env req s
    \<and> int (lsIterations s) \<le> (if cuMaxIterations uc \<le> 0 then 5 else cuMaxIterations uc)"
proof -
  let ?s = "\<lparr> lsRegistry = r, lsResult = result, lsIterations = 0, lsToolCalls = 0, lsExecuted = [] \<rparr>"
  let ?m = "if cuMaxIterations uc \<le> 0 then 5 else cuMaxIterations uc"
  have "loop_ok uc env req ?s" using assms by (simp add: loop_ok_def)
  from tool_loop_returns[OF this, of domainReq "nat ?m"] obtain s' err where
    "tool_loop uc env req domainReq (nat ?m) ?s = Some (s', err)" "loop_ok uc env req s'" "lsIterations s' \<le> nat ?m"
    by auto
  moreover have "loop_ok uc env req (s'\<lparr>lsResult := x\<rparr>)" for x
    using calculation(2) by (simp add: loop_ok_def)
  ultimately show ?thesis
    using assms by (cases err) (auto simp: executeToolLoop_def Let_def loop_ok_def)
qed

subsection \<open>Properties\<close>

text \<open>C12: Whatever the model asks for and however the registry changes while the
  request runs, every call that reaches the tool executor is for a tool that was
  validated for this request, that needs no human approval, and that the
  registry (when there is one) confirmed immediately before as active and with
  the validated hash. The loop makes at most the configured number of rounds,
  and it always returns.\<close>

theorem tool_loop_executes_only_authorized:
  assumes "registry_ok r"
  shows "\<exists>s err. executeToolLoop uc env req domainReq result r = Some (s, err)
    \<and> list_all (safe_execution uc env req) (lsExecuted s)
    \<and> length (lsExecuted s) \<le> lsToolCalls s
    \<and> int (lsIterations s) \<le> (if cuMaxIterations uc \<le> 0 then 5 else cuMaxIterations uc)
    \<and> registry_ok (lsRegistry s)"
  using executeToolLoop_returns[OF assms, of uc env req domainReq result] by (auto simp: loop_ok_def)

text \<open>A use case whose provider asks for the tool \<open>echo\<close> once, and its request.\<close>

definition demo_vt :: ValidatedTool where
  "demo_vt = \<lparr> vtName = ''echo'', vtDescription = [], vtInputSchema = None, vtGrants = None,
     vtExecutionTimeoutMs = 1000, vtMemoryPages = 256, vtHash = ''h1'' \<rparr>"

definition demo_td :: ToolDefinition where
  "demo_td = \<lparr> tdID = 1, tdTenantID = zero_uuid, tdName = ''echo'', tdDescription = [], tdInputSchema = None,
     tdGrants = None, tdExecutionTimeoutMs = 1000, tdMemoryPages = 256, tdHash = ''h1'', tdIsActive = True \<rparr>"

definition demo_usecase :: ChatUsecase where
  "demo_usecase = NewChatUsecase (NewFallbackChain demo_router)
     \<lparr> psTables = Map.empty, psVersions = [], psCurrentVer = ''v'', psDefaultVer = ''v'' \<rparr> True
     (Some \<lparr> tcfMaxIterations = 2, tcfDefaultTimeoutMs = 0, tcfDefaultMemoryPages = 0, tcfCacheTTL = 0,
        tcfCacheMaxEntries = 0, tcfTools = [] \<rparr>) True 2"

definition demo_tool_reply :: Completion where
  "demo_tool_reply = demo_completion\<lparr>cpResponse := (cpResponse demo_completion)\<lparr>rsChoices := [
     \<lparr> chIndex = 0, chMessage = \<lparr> msRole = ''assistant'', msContent = [],
        msToolCalls = [\<lparr> tcID = ''c1'', tcType = ''function'', tcFunction = \<lparr> fnName = ''echo'', fnArguments = [] \<rparr> \<rparr>],
        msToolCallID = [], msName = [] \<rparr>, chFinishReason = ''tool_calls'' \<rparr>]\<rparr>\<rparr>"

definition demo_chat_env :: chat_env where
  "demo_chat_env = \<lparr> ceAttempts = (\<lambda>n. demo_attempts),
     ceGetByName = (\<lambda>k t n. Inr demo_td),
     ceExecute = (\<lambda>k vt call. Inr \<lparr> trCallID = xcID call, trOutput = Some JNull, trError = [], trDuration = 1 \<rparr>),
     ceUnmarshal = (\<lambda>s. None), ceFormat = (\<lambda>j. ''map[]'') \<rparr>"

definition demo_usecase_request :: UsecaseRequest where
  "demo_usecase_request = \<lparr> urModel = ''m1'', urMessages = [], urTemperature = None, urMaxTokens = None,
     urStream = False, urTools = [], urValidatedTools = [demo_vt], urToolChoice = None, urUser = [],
     urTenantID = zero_uuid \<rparr>"

theorem tool_loop_executes_only_authorized_witness:
  "\<exists>s err. executeToolLoop demo_usecase demo_chat_env demo_usecase_request demo_model_request
      (empty_result\<lparr>frCompletion := Some demo_tool_reply\<rparr>) demo_registry = Some (s, err)
    \<and> list_all (safe_execution demo_usecase demo_chat_env demo_usecase_request) (lsExecuted s)
    \<and> map (\<lambda>(k, vt, call). xcName call) (lsExecuted s) = [''echo'']"
proof -
  let ?run = "executeToolLoop demo_usecase demo_chat_env demo_usecase_request demo_model_request
      (empty_result\<lparr>frCompletion := Some demo_tool_reply\<rparr>) demo_registry"
  have "map_option (\<lambda>(s, err). map (\<lambda>(k, vt, call). xcName call) (lsExecuted s)) ?run = Some [''echo'']"
    by code_simp
  with tool_loop_executes_only_authorized[OF demo_registry_ok, of demo_usecase demo_chat_env
      demo_usecase_request demo_model_request "empty_result\<lparr>frCompletion := Some demo_tool_reply\<rparr>"]
  show ?thesis by auto
qed

lemma Complete_returns:
  assumes "registry_ok r"
  shows "\<exists>r' res. Complete uc env req r = Some (r', res) \<and> registry_ok r'"
proof -
  obtain r1 result err where e: "ExecuteWithFallback (cuFallbackChain uc) (ceAttempts env 0) (domain_request req) r
      = Some (r1, result, err)" "registry_ok r1"
    using ExecuteWithFallback_returns[OF assms] by blast
  obtain s err2 where l: "executeToolLoop uc env req (domain_request req) result r1 = Some (s, err2)"
    "registry_ok (lsRegistry s)"
    using executeToolLoop_returns[OF e(2)] unfolding loop_ok_def by blast
  show ?thesis
  proof (cases err)
    case None
    then show ?thesis using e l by (cases err2) (auto simp: Complete_def Let_def split: prod.splits)
  next
    case (Some x)
    then show ?thesis using e by (auto simp: Complete_def)
  qed
qed

text \<open>A chat request is always answered: from a well-formed registry
  \<open>Complete\<close> returns a response or an error and leaves a well-formed registry
  behind, so that no sequence of chat requests runs into a nil provider.\<close>

theorem chat_request_answered:
  assumes "registry_ok r"
  shows "\<exists>r' res. Complete uc env req r = Some (r', res) \<and> registry_ok r'"
  using assms by (rule Complete_returns)

theorem chat_request_answered_witness:
  "\<exists>r' res. Complete demo_usecase demo_chat_env demo_usecase_request demo_registry = Some (r', res) \<and> registry_ok r'"
  using chat_request_answered[OF demo_registry_ok] by blast

end

