(* ===== verification/GoText.thy ===== *)
theory GoText
  imports Uuid
begin

text \<open>
  Text functions of the standard library: decimal text, used for the input of the audit
  hash chain, for response headers and for password hashes; \<open>strings.Split\<close> with a one-byte
  separator; and \<open>base64.RawStdEncoding\<close>. Printing a number is injective, and what is joined
  splits, and what is encoded decodes, back.
\<close>

subsection \<open>Decimal text\<close>

text \<open>\<open>strconv.FormatInt(n, 10)\<close>.\<close>

fun nat_text :: "nat \<Rightarrow> string" where
  "nat_text n = (if n < 10 then [hex_char n] else nat_text (n div 10) @ [hex_char (n mod 10)])"

declare nat_text.simps [simp del]

definition int_text :: "int \<Rightarrow> string" where
  "int_text n = (if n < 0 then CHR ''-'' # nat_text (nat (- n)) else nat_text (nat n))"

lemma nat_text_digits: "set (nat_text n) \<subseteq> hex_char ` {0..<10}"
proof (induction n rule: nat_text.induct)
  case (1 n)
  show ?case
  proof (cases "n < 10")
    case True
    then show ?thesis by (subst nat_text.simps) auto
  next
    case False
    then have "set (nat_text n) = set (nat_text (n div 10)) \<union> {hex_char (n mod 10)}"
      by (subst nat_text.simps) auto
    then show ?thesis using 1 False by auto
  qed
qed

definition digits_value :: "string \<Rightarrow> nat" where
  "digits_value s = foldl (\<lambda>a c. 10 * a + (case from_hex_char c of None \<Rightarrow> 0 | Some d \<Rightarrow> d)) 0 s"

lemma digits_value_nat_text: "digits_value (nat_text n) = n"
proof (induction n rule: nat_text.induct)
  case (1 n)
  show ?case
  proof (cases "n < 10")
    case True
    then show ?thesis by (subst nat_text.simps) (simp add: digits_value_def hex_char_less16)
  next
    case False
    then have "digits_value (nat_text n) = 10 * digits_value (nat_text (n div 10)) + n mod 10"
      by (subst nat_text.simps) (simp add: digits_value_def hex_char_less16)
    then show ?thesis using 1 False by simp
  qed
qed

lemma nat_text_free: "(\<And>d. d < 16 \<Longrightarrow> hex_char d \<noteq> c) \<Longrightarrow> c \<notin> set (nat_text n)"
proof
  assume *: "\<And>d. d < 16 \<Longrightarrow> hex_char d \<noteq> c" and "c \<in> set (nat_text n)"
  then have "c \<in> hex_char ` {0..<10}" using nat_text_digits[of n] by blast
  then obtain d where "d < 10" "c = hex_char d" by auto
  then show False using *[of d] by simp
qed

lemma int_text_inj: "int_text m = int_text n \<Longrightarrow> m = n"
proof -
  have minus: "CHR ''-'' \<notin> set (nat_text k)" for k
    by (rule nat_text_free) (use hex_char_less16(2) in \<open>simp add: hyphen_def\<close>)
  assume eq: "int_text m = int_text n"
  show ?thesis
  proof (cases "m < 0"; cases "n < 0")
    assume "m < 0" "\<not> n < 0"
    then have "nat_text (nat n) = CHR ''-'' # nat_text (nat (- m))" using eq by (simp add: int_text_def)
    then show ?thesis using minus[of "nat n"] by simp
  next
    assume "\<not> m < 0" "n < 0"
    then have "nat_text (nat m) = CHR ''-'' # nat_text (nat (- n))" using eq by (simp add: int_text_def)
    then show ?thesis using minus[of "nat m"] by simp
  next
    assume *: "m < 0" "n < 0"
    then have "nat_text (nat (- m)) = nat_text (nat (- n))" using eq by (simp add: int_text_def)
    then have "nat (- m) = nat (- n)" by (metis digits_value_nat_text)
    then show ?thesis using * by simp
  next
    assume *: "\<not> m < 0" "\<not> n < 0"
    then have "nat_text (nat m) = nat_text (nat n)" using eq by (simp add: int_text_def)
    then have "nat m = nat n" by (metis digits_value_nat_text)
    then show ?thesis using * by simp
  qed
qed

text \<open>A double quote, for the JSON texts the code builds by hand.\<close>

definition dq :: string where "dq = [CHR 0x22]"

subsection \<open>Splitting\<close>

fun split_on :: "char \<Rightarrow> string \<Rightarrow> string list" where
  "split_on c [] = [ [] ]"
| "split_on c (x # xs) = (if x = c then [] # split_on c xs
     else (case split_on c xs of [] \<Rightarrow> [ [x] ] | h # t \<Rightarrow> (x # h) # t))"

lemma split_on_none [simp]: "c \<notin> set s \<Longrightarrow> split_on c s = [s]"
  by (induction s) auto

lemma split_on_sep [simp]: "c \<notin> set s \<Longrightarrow> split_on c (s @ c # t) = s # split_on c t"
  by (induction s) auto

subsection \<open>Base 64\<close>

definition b64_alphabet :: string where
  "b64_alphabet = ''ABCDEFGHIJKLMNOPQRSTUVWXYZabcdefghijklmnopqrstuvwxyz0123456789+/''"

definition b64_char :: "nat \<Rightarrow> char" where
  "b64_char n = b64_alphabet ! n"

definition b64_val :: "char \<Rightarrow> nat option" where
  "b64_val c = (let n = of_char c :: nat in
     if 65 \<le> n \<and> n \<le> 90 then Some (n - 65)
     else if 97 \<le> n \<and> n \<le> 122 then Some (n - 71)
     else if 48 \<le> n \<and> n \<le> 57 then Some (n + 4)
     else if n = 43 then Some 62
     else if n = 47 then Some 63
     else None)"

fun sextets :: "nat list \<Rightarrow> nat list" where
  "sextets [] = []"
| "sextets [a] = [a div 4, a mod 4 * 16]"
| "sextets [a, b] = [a div 4, a mod 4 * 16 + b div 16, b mod 16 * 4]"
| "sextets (a # b # c # r) = a div 4 # (a mod 4 * 16 + b div 16) # (b mod 16 * 4 + c div 64) # c mod 64 # sextets r"

text \<open>A group of one digit cannot end the text; the bits beyond the last byte are ignored.\<close>

fun octets :: "nat list \<Rightarrow> nat list option" where
  "octets [] = Some []"
| "octets [w] = None"
| "octets [w, x] = Some [w * 4 + x div 16]"
| "octets [w, x, y] = Some [w * 4 + x div 16, x mod 16 * 16 + y div 4]"
| "octets (w # x # y # z # r) = (case octets r of None \<Rightarrow> None
   | Some bs \<Rightarrow> Some ((w * 4 + x div 16) # (x mod 16 * 16 + y div 4) # (y mod 4 * 64 + z) # bs))"

fun all_some :: "'a option list \<Rightarrow> 'a list option" where
  "all_some [] = Some []"
| "all_some (x # xs) = (case x of None \<Rightarrow> None | Some v \<Rightarrow> (case all_some xs of None \<Rightarrow> None | Some vs \<Rightarrow> Some (v # vs)))"

definition b64_encode :: "byte list \<Rightarrow> string" where
  "b64_encode bs = map b64_char (sextets (map unat bs))"

text \<open>\<open>DecodeString\<close> skips carriage returns and newlines.\<close>

definition b64_decode :: "string \<Rightarrow> byte list option" where
  "b64_decode s = (case all_some (map b64_val (filter (\<lambda>c. c \<noteq> CHR 0x0D \<and> c \<noteq> CHR 0x0A) s)) of
     None \<Rightarrow> None
   | Some ds \<Rightarrow> map_option (map word_of_nat) (octets ds))"

lemma b64_alphabet_values: "map b64_val b64_alphabet = map Some [0..<64]"
  by (simp add: b64_alphabet_def b64_val_def upt_rec)

lemma b64_char_less64:
  assumes "n < 64"
  shows "b64_val (b64_char n) = Some n" and "b64_char n \<noteq> CHR 0x0D" and "b64_char n \<noteq> CHR 0x0A" and "b64_char n \<noteq> CHR ''$''"
proof -
  have len: "length b64_alphabet = 64" by (simp add: b64_alphabet_def)
  show "b64_val (b64_char n) = Some n"
    using arg_cong[OF b64_alphabet_values, of "\<lambda>xs. xs ! n"] assms len by (simp add: b64_char_def)
  have "b64_char n \<in> set b64_alphabet" using assms len by (simp add: b64_char_def)
  moreover have "CHR 0x0D \<notin> set b64_alphabet" "CHR 0x0A \<notin> set b64_alphabet" "CHR ''$'' \<notin> set b64_alphabet"
    by (simp_all add: b64_alphabet_def)
  ultimately show "b64_char n \<noteq> CHR 0x0D" "b64_char n \<noteq> CHR 0x0A" "b64_char n \<noteq> CHR ''$''" by metis+
qed

lemma sextet_bounds: "(a::nat) < 256 \<Longrightarrow> b < 256 \<Longrightarrow> a div 4 < 64 \<and> a mod 4 * 16 + b div 16 < 64 \<and> a mod 16 * 4 + b div 64 < 64"
  by linarith

lemma sextets_less64: "\<forall>b \<in> set bs. b < 256 \<Longrightarrow> \<forall>d \<in> set (sextets bs). d < 64"
proof (induction bs rule: sextets.induct)
  case (2 a) then show ?case using sextet_bounds[of a 0] by simp
next
  case (3 a b) then show ?case using sextet_bounds[of a b] sextet_bounds[of b 0] by simp
next
  case (4 a b c r) then show ?case using sextet_bounds[of a b] sextet_bounds[of b c] by simp
qed simp

lemma octet_parts:
  assumes "b < (256::nat)"
  shows "b div 16 div 16 = 0" and "b div 16 mod 16 = b div 16" and "b div 64 div 4 = 0" and "b div 64 mod 4 = b div 64"
proof -
  have "b div 16 < 16" "b div 64 < 4" using assms by linarith+
  then show "b div 16 div 16 = 0" "b div 16 mod 16 = b div 16" "b div 64 div 4 = 0" "b div 64 mod 4 = b div 64"
    by (simp_all only: div_less mod_less)
qed

lemma octets_sextets: "\<forall>b \<in> set bs. b < 256 \<Longrightarrow> octets (sextets bs) = Some bs"
proof (induction bs rule: sextets.induct)
  case (2 a) then show ?case by simp
next
  case (3 a b) then show ?case using octet_parts[of b] by simp
next
  case (4 a b c r) then show ?case using octet_parts[of b] octet_parts[of c] by simp
qed simp

lemma all_some_map_Some: "all_some (map (\<lambda>x. Some (f x)) xs) = Some (map f xs)"
  by (induction xs) auto

lemma b64_decode_encode [simp]: "b64_decode (b64_encode bs) = Some bs"
proof -
  have b: "\<forall>n \<in> set (map unat bs). n < 256" using unat_byte by auto
  have d: "\<forall>d \<in> set (sextets (map unat bs)). d < 64" by (rule sextets_less64[OF b])
  have "filter (\<lambda>c. c \<noteq> CHR 0x0D \<and> c \<noteq> CHR 0x0A) (b64_encode bs) = b64_encode bs"
    using d by (auto simp: b64_encode_def b64_char_less64 intro!: filter_True)
  moreover have "map b64_val (b64_encode bs) = map Some (sextets (map unat bs))"
    using d by (simp add: b64_encode_def b64_char_less64)
  ultimately show ?thesis
    using octets_sextets[OF b] all_some_map_Some[of id "sextets (map unat bs)"]
    by (simp add: b64_decode_def comp_def)
qed

lemma b64_encode_no_dollar [simp]: "CHR ''$'' \<notin> set (b64_encode bs)"
proof -
  have "\<forall>n \<in> set (map unat bs). n < 256" using unat_byte by auto
  from sextets_less64[OF this] show ?thesis using b64_char_less64(4) by (fastforce simp: b64_encode_def)
qed

end
