(* ===== verification/AuditLog.thy ===== *)
theory AuditLog
  imports TenantTx GoText
begin

text \<open>
  \<open>src/internal/domain/audit.go\<close> and
  \<open>src/internal/adapter/postgres/audit_repository.go\<close>: the append-only audit log
  with a hash chain per tenant, over the table of migration 0010. An append
  holds the tenant's row of \<open>audit_chain_locks\<close> until its transaction ends
  (migration 0020), so appends of one tenant happen one after the other and
  each is one step here.

  Arguments of the model (record \<open>audit_lib\<close>): SHA-256, the canonical form
  \<open>json.Marshal(json.Unmarshal(.))\<close> of a JSON text (None: not JSON), the text
  that a \<open>jsonb\<close> column returns for a text stored in it, and the RFC 3339 text
  of an instant. Times are in nanoseconds.
\<close>

record audit_lib =
  alSha256 :: "string \<Rightarrow> byte list"
  alCanon :: "string \<Rightarrow> string option"
  alJsonb :: "string \<Rightarrow> string"
  alFormat :: "time \<Rightarrow> string"

record AuditEvent =
  aeID :: uuid
  aeTenantID :: uuid
  aeSeq :: int
  aePrevHash :: string
  aeChainHash :: string
  aeActorUserID :: "uuid option"
  aeAction :: string
  aeEntityType :: string
  aeEntityID :: "uuid option"
  aePayload :: string
  aeSeverity :: string
  aeCreatedAt :: time

definition AuditSeverityInfo :: string where "AuditSeverityInfo = ''info''"
definition AuditSeverityWarn :: string where "AuditSeverityWarn = ''warn''"
definition AuditSeverityCritical :: string where "AuditSeverityCritical = ''critical''"

subsection \<open>Chain input\<close>

definition bar :: string where
  "bar = ''|''"

definition Truncate_us :: "time \<Rightarrow> time" where
  "Truncate_us t = t - t mod 1000"

definition uuid_text :: "uuid option \<Rightarrow> string" where
  "uuid_text u = (case u of None \<Rightarrow> [] | Some v \<Rightarrow> UUID_String v)"

definition ChainInput :: "audit_lib \<Rightarrow> AuditEvent \<Rightarrow> string" where
  "ChainInput L a =
     (let payload = (if length (aePayload a) > 0
            then (case alCanon L (aePayload a) of None \<Rightarrow> ''{}'' | Some b \<Rightarrow> b) else ''{}'')
      in aePrevHash a @ bar @ int_text (aeSeq a) @ bar @ UUID_String (aeTenantID a) @ bar
         @ uuid_text (aeActorUserID a) @ bar @ aeAction a @ bar @ aeEntityType a @ bar
         @ uuid_text (aeEntityID a) @ bar @ payload @ bar @ alFormat L (Truncate_us (aeCreatedAt a)))"

definition ComputeChainHash :: "audit_lib \<Rightarrow> AuditEvent \<Rightarrow> string" where
  "ComputeChainHash L a = hex_encode (alSha256 L (ChainInput L a))"

definition VerifyChainInput :: "audit_lib \<Rightarrow> AuditEvent \<Rightarrow> bool" where
  "VerifyChainInput L a = (aeChainHash a = ComputeChainHash L a)"

definition canonicalizePayload :: "audit_lib \<Rightarrow> string \<Rightarrow> string result" where
  "canonicalizePayload L payload =
     (if length payload = 0 then Inr ''{}''
      else case alCanon L payload of None \<Rightarrow> Inl (Errorf ''invalid JSON'') | Some c \<Rightarrow> Inr c)"

definition computeChainInput ::
  "audit_lib \<Rightarrow> string \<Rightarrow> int \<Rightarrow> uuid \<Rightarrow> uuid option \<Rightarrow> string \<Rightarrow> string \<Rightarrow> uuid option \<Rightarrow> string \<Rightarrow> time \<Rightarrow> string"
where
  "computeChainInput L prevHash seq tenantID actorID action entityType entityID payload createdAt =
     prevHash @ bar @ int_text seq @ bar @ UUID_String tenantID @ bar @ uuid_text actorID @ bar
     @ action @ bar @ entityType @ bar @ uuid_text entityID @ bar @ payload @ bar
     @ alFormat L (Truncate_us createdAt)"

subsection \<open>The table\<close>

record audit_row =
  auID :: uuid
  auTenantID :: uuid
  auSeq :: int
  auActorType :: string
  auActorID :: "uuid option"
  auAction :: string
  auEntityType :: "string option"
  auEntityID :: "uuid option"
  auPayload :: string
  auSeverity :: string
  auPrevHash :: "byte list"
  auHash :: "byte list"
  auCreatedAt :: time

type_synonym audit_table = "audit_row list"

definition convertSQLCAuditEvent :: "audit_row \<Rightarrow> AuditEvent" where
  "convertSQLCAuditEvent e = \<lparr>
     aeID = auID e, aeTenantID = auTenantID e, aeSeq = auSeq e,
     aePrevHash = hex_encode (auPrevHash e), aeChainHash = hex_encode (auHash e),
     aeActorUserID = auActorID e, aeAction = auAction e,
     aeEntityType = (case auEntityType e of None \<Rightarrow> [] | Some s \<Rightarrow> s),
     aeEntityID = auEntityID e, aePayload = auPayload e, aeSeverity = auSeverity e,
     aeCreatedAt = auCreatedAt e \<rparr>"

text \<open>The rows of a tenant a statement can see, by sequence number.\<close>

definition tenant_rows :: "pg_env \<Rightarrow> uuid option \<Rightarrow> uuid \<Rightarrow> audit_table \<Rightarrow> audit_row list" where
  "tenant_rows env guc t tbl =
     sort_key auSeq (filter (\<lambda>r. rls_ok env guc (auTenantID r) \<and> auTenantID r = t) tbl)"

definition last_row :: "audit_row list \<Rightarrow> audit_row option" where
  "last_row rs = (if rs = [] then None else Some (last rs))"

definition genesis :: "byte list" where
  "genesis = replicate 32 0"

definition getLastEventTx :: "pg_env \<Rightarrow> uuid option \<Rightarrow> uuid \<Rightarrow> audit_table \<Rightarrow> AuditEvent result" where
  "getLastEventTx env guc tenantID tbl = (case last_row (tenant_rows env guc tenantID tbl) of
     None \<Rightarrow> Inl (pgNoRows env) | Some r \<Rightarrow> Inr (convertSQLCAuditEvent r))"

text \<open>The query \<open>CreateAuditEvent\<close>: it numbers the event and links it to the last
  one itself.\<close>

definition CreateAuditEvent ::
  "audit_lib \<Rightarrow> pg_env \<Rightarrow> uuid option \<Rightarrow> uuid \<Rightarrow> audit_row \<Rightarrow> (audit_table, audit_row) db_call"
where
  "CreateAuditEvent L env guc newID params tbl =
     (let rows = tenant_rows env guc (auTenantID params) tbl;
          row = params\<lparr>auID := newID,
            auSeq := (case last_row rows of None \<Rightarrow> 0 | Some r \<Rightarrow> auSeq r) + 1,
            auPrevHash := (case last_row rows of None \<Rightarrow> genesis | Some r \<Rightarrow> auHash r),
            auPayload := alJsonb L (auPayload params)\<rparr>
      in if \<not> rls_ok env guc (auTenantID row) then (tbl, Inl (PgError ''42501'' ''row-level security''))
         else if auActorType row \<notin> {''user'', ''system'', ''super_admin''}
             \<or> auSeverity row \<notin> {''info'', ''warn'', ''critical''}
           then (tbl, Inl (PgError ''23514'' ''check constraint''))
         else (tbl @ [row], Inr row))"

text \<open>\<open>AppendWithTx\<close>. Its statements fail with \<open>pgStmtErr\<close>; \<open>errors.Is(err,
  pgx.ErrNoRows)\<close> holds of the driver's own error.\<close>

definition AppendWithTx ::
  "audit_lib \<Rightarrow> pg_env \<Rightarrow> uuid \<Rightarrow> AuditEvent \<Rightarrow> uuid option \<Rightarrow> (audit_table, AuditEvent) db_call"
where
  "AppendWithTx L env newID event guc tbl =
     (case first_err [pgCtxErr env, pgStmtErr env] of
        Some e \<Rightarrow> (tbl, Inl (Wrapf ''failed to ensure lock row'' e))
      | None \<Rightarrow>
        if \<not> rls_ok env guc (aeTenantID event)
        then (tbl, Inl (Wrapf ''failed to ensure lock row'' (PgError ''42501'' ''row-level security'')))
        else
        let createdAt = Truncate_us (pgNow env);
            lastEvent = getLastEventTx env guc (aeTenantID event) tbl;
            prevHash = (case lastEvent of Inl _ \<Rightarrow> hex_encode genesis | Inr l \<Rightarrow> aeChainHash l);
            seq = (case lastEvent of Inl _ \<Rightarrow> 1 | Inr l \<Rightarrow> aeSeq l + 1)
        in case canonicalizePayload L (aePayload event) of
          Inl e \<Rightarrow> (tbl, Inl (Wrapf ''failed to canonicalize payload'' e))
        | Inr canonicalPayload \<Rightarrow>
          let chainInput = computeChainInput L prevHash seq (aeTenantID event) (aeActorUserID event)
                (aeAction event) (aeEntityType event) (aeEntityID event) canonicalPayload createdAt;
              params = \<lparr> auID = zero_uuid, auTenantID = aeTenantID event, auSeq = 0,
                auActorType = ''user'', auActorID = aeActorUserID event, auAction = aeAction event,
                auEntityType = (if aeEntityType event = [] then None else Some (aeEntityType event)),
                auEntityID = aeEntityID event, auPayload = canonicalPayload,
                auSeverity = aeSeverity event, auPrevHash = [], auHash = alSha256 L chainInput,
                auCreatedAt = createdAt \<rparr>
          in case CreateAuditEvent L env guc newID params tbl of
            (tbl', Inl e) \<Rightarrow> (tbl', Inl (Wrapf ''failed to insert audit event'' e))
          | (tbl', Inr created) \<Rightarrow>
              if auSeq created \<noteq> seq then (tbl', Inl (Errorf ''sequence mismatch''))
              else if hex_encode (auPrevHash created) \<noteq> prevHash then (tbl', Inl (Errorf ''prev_hash mismatch''))
              else if Truncate_us (auCreatedAt created) \<noteq> createdAt then (tbl', Inl (Errorf ''created_at mismatch''))
              else (tbl', Inr (event\<lparr>aeID := auID created, aeSeq := auSeq created,
                     aePrevHash := hex_encode (auPrevHash created), aeChainHash := hex_encode (auHash created),
                     aePayload := canonicalPayload, aeCreatedAt := auCreatedAt created\<rparr>)))"

definition Append :: "audit_lib \<Rightarrow> pg_env \<Rightarrow> uuid \<Rightarrow> AuditEvent \<Rightarrow> (audit_table, AuditEvent) db_call" where
  "Append L env newID event = WithTenantTx env (aeTenantID event) (AppendWithTx L env newID event)"

definition GetLastEvent :: "pg_env \<Rightarrow> uuid \<Rightarrow> (audit_table, AuditEvent) db_call" where
  "GetLastEvent env tenantID = WithTenantTx env tenantID (\<lambda>guc. stmt env (\<lambda>tbl.
     (tbl, case last_row (tenant_rows env guc tenantID tbl) of
        None \<Rightarrow> Inl SqlErrNoRows | Some r \<Rightarrow> Inr (convertSQLCAuditEvent r))))"

record AuditFilter =
  afTenantID :: uuid
  afFrom :: "time option"
  afTo :: "time option"
  afAction :: string
  afEntityType :: string
  afActorID :: "uuid option"
  afEntityID :: "uuid option"
  afSeverity :: string
  afLimit :: int
  afOffset :: int

text \<open>The \<open>WHERE\<close> clause \<open>Query\<close> builds: a condition for each filter that is
  set. A NULL column fails its condition.\<close>

definition filter_matches :: "AuditFilter \<Rightarrow> audit_row \<Rightarrow> bool" where
  "filter_matches f r = (auTenantID r = afTenantID f
     \<and> (case afFrom f of None \<Rightarrow> True | Some t \<Rightarrow> t \<le> auCreatedAt r)
     \<and> (case afTo f of None \<Rightarrow> True | Some t \<Rightarrow> auCreatedAt r \<le> t)
     \<and> (afAction f \<noteq> [] \<longrightarrow> auAction r = afAction f)
     \<and> (afEntityType f \<noteq> [] \<longrightarrow> auEntityType r = Some (afEntityType f))
     \<and> (case afActorID f of None \<Rightarrow> True | Some a \<Rightarrow> auActorID r = Some a)
     \<and> (case afEntityID f of None \<Rightarrow> True | Some i \<Rightarrow> auEntityID r = Some i)
     \<and> (afSeverity f \<noteq> [] \<longrightarrow> auSeverity r = afSeverity f))"

definition page :: "int \<Rightarrow> int \<Rightarrow> 'a list \<Rightarrow> 'a list" where
  "page limit offset xs = (let rest = (if offset > 0 then drop (nat offset) xs else xs)
     in if limit > 0 then take (nat limit) rest else rest)"

definition Query :: "pg_env \<Rightarrow> AuditFilter \<Rightarrow> (audit_table, AuditEvent list) db_call" where
  "Query env f = WithTenantTx env (afTenantID f) (\<lambda>guc. stmt env (\<lambda>tbl.
     (tbl, Inr (map convertSQLCAuditEvent (page (afLimit f) (afOffset f)
        (sort_key (\<lambda>r. - auCreatedAt r)
          (filter (\<lambda>r. rls_ok env guc (auTenantID r) \<and> filter_matches f r) tbl)))))))"

subsection \<open>Verification\<close>

record VerifyResult =
  vrValid :: bool
  vrBrokenSeq :: int
  vrTotalSeen :: int
  vrError :: "go_error option"

text \<open>The loop over the rows; \<open>prev\<close> is None for the first one.\<close>

fun verify_loop :: "audit_lib \<Rightarrow> audit_row list \<Rightarrow> byte list option \<Rightarrow> int \<Rightarrow> VerifyResult" where
  "verify_loop L [] prev seen =
     \<lparr> vrValid = True, vrBrokenSeq = 0, vrTotalSeen = seen, vrError = None \<rparr>"
| "verify_loop L (i # rows) prev seen =
     (let event = convertSQLCAuditEvent i in
      case prev of
        None \<Rightarrow>
          if auPrevHash i \<noteq> replicate 32 0
          then \<lparr> vrValid = False, vrBrokenSeq = aeSeq event, vrTotalSeen = seen + 1,
                 vrError = Some (Errorf ''genesis event has invalid prev_hash'') \<rparr>
          else if \<not> VerifyChainInput L event
          then \<lparr> vrValid = False, vrBrokenSeq = aeSeq event, vrTotalSeen = seen + 1,
                 vrError = Some (Errorf ''broken chain: chain_hash mismatch'') \<rparr>
          else verify_loop L rows (Some (auHash i)) (seen + 1)
      | Some prevHash \<Rightarrow>
          if auPrevHash i \<noteq> prevHash
          then \<lparr> vrValid = False, vrBrokenSeq = aeSeq event, vrTotalSeen = seen + 1,
                 vrError = Some (Errorf ''broken chain: prev_hash mismatch'') \<rparr>
          else if \<not> VerifyChainInput L event
          then \<lparr> vrValid = False, vrBrokenSeq = aeSeq event, vrTotalSeen = seen + 1,
                 vrError = Some (Errorf ''broken chain: chain_hash mismatch'') \<rparr>
          else verify_loop L rows (Some (auHash i)) (seen + 1))"

definition VerifyChain ::
  "audit_lib \<Rightarrow> pg_env \<Rightarrow> uuid \<Rightarrow> int \<Rightarrow> int \<Rightarrow> (audit_table, VerifyResult) db_call" where
  "VerifyChain L env tenantID fromSeq toSeq = WithTenantTx env tenantID (\<lambda>guc. stmt env (\<lambda>tbl.
     (tbl, Inr (verify_loop L
        (sort_key auSeq (filter (\<lambda>r. rls_ok env guc (auTenantID r) \<and> auTenantID r = tenantID
           \<and> fromSeq \<le> auSeq r \<and> auSeq r \<le> toSeq) tbl)) None 0))))"

subsection \<open>Text of the chain input is unambiguous\<close>

lemma bar_not_hex: "n < 16 \<Longrightarrow> hex_char n \<noteq> CHR ''|''"
proof -
  assume "n < 16"
  moreover have "\<forall>n \<in> set [0..<16]. hex_char n \<noteq> CHR ''|''" by code_simp
  ultimately show ?thesis by auto
qed

lemma bar_free_int_text: "CHR ''|'' \<notin> set (int_text n)"
  using nat_text_free[of "CHR ''|''"] bar_not_hex by (simp add: int_text_def)

lemma bar_free_hex: "CHR ''|'' \<notin> set (hex_encode bs)"
proof (induction bs)
  case (Cons b bs)
  have "unat b div 16 < 16" "unat b mod 16 < 16" using unat_byte[of b] by simp_all
  then show ?case
    using Cons bar_not_hex[of "unat b div 16"] bar_not_hex[of "unat b mod 16"]
    by (simp add: hex_encode_def hex_byte_def eq_commute[of "CHR ''|''"])
qed (simp add: hex_encode_def)

lemma bar_free_uuid: "CHR ''|'' \<notin> set (UUID_String u)" "CHR ''|'' \<notin> set (uuid_text v)"
proof -
  show *: "CHR ''|'' \<notin> set (UUID_String u)" for u
    using bar_free_hex by (simp add: UUID_String_def hyphen_def)
  show "CHR ''|'' \<notin> set (uuid_text v)" using * by (simp add: uuid_text_def split: option.splits)
qed

lemma split_at_bar:
  assumes "x @ bar @ u = y @ bar @ v" and "CHR ''|'' \<notin> set x" and "CHR ''|'' \<notin> set y"
  shows "x = y" and "u = v"
proof -
  have "x = takeWhile (\<lambda>c. c \<noteq> CHR ''|'') (x @ bar @ u)"
    using assms(2) by (auto simp: bar_def takeWhile_append)
  moreover have "y = takeWhile (\<lambda>c. c \<noteq> CHR ''|'') (y @ bar @ v)"
    using assms(3) by (auto simp: bar_def takeWhile_append)
  ultimately show "x = y" using assms(1) by simp
  then show "u = v" using assms(1) by simp
qed

lemma split_last_bar:
  assumes "p @ bar @ u = q @ bar @ v" and "CHR ''|'' \<notin> set u" and "CHR ''|'' \<notin> set v"
  shows "p = q" and "u = v"
proof -
  have "rev u @ bar @ rev p = rev v @ bar @ rev q"
    using arg_cong[OF assms(1), of rev] by (simp add: bar_def)
  from split_at_bar[OF this] assms(2,3) show "p = q" and "u = v" by auto
qed

lemma uuid_text_inj:
  "uuid_text u = uuid_text v \<Longrightarrow> pred_option wf_uuid u \<Longrightarrow> pred_option wf_uuid v \<Longrightarrow> u = v"
proof -
  have "UUID_String w \<noteq> []" "[] \<noteq> UUID_String w" for w by (simp_all add: UUID_String_def)
  then show "uuid_text u = uuid_text v \<Longrightarrow> pred_option wf_uuid u \<Longrightarrow> pred_option wf_uuid v \<Longrightarrow> u = v"
    using UUID_String_inj by (cases u; cases v) (auto simp: uuid_text_def)
qed

lemma hex_encode_inj: "hex_encode xs = hex_encode ys \<Longrightarrow> xs = ys"
  by (metis hex_decode_encode sum.inject(2))

subsection \<open>Hash chains\<close>

text \<open>The contract of a hash chain: an element's input determines the digest it
  claims to follow. Two chains that end in the same digest then agree on every
  input, unless the hash function has a collision.\<close>

locale hash_chain =
  fixes input :: "'e \<Rightarrow> string"
    and prev :: "'e \<Rightarrow> byte list"
    and digest :: "'e \<Rightarrow> byte list"
    and hash :: "string \<Rightarrow> byte list"
  assumes input_prev: "input a = input b \<Longrightarrow> prev a = prev b"
begin

fun linked :: "byte list \<Rightarrow> 'e list \<Rightarrow> bool" where
  "linked p [] = True"
| "linked p (e # es) = (prev e = p \<and> digest e = hash (input e) \<and> linked (digest e) es)"

definition tip :: "byte list \<Rightarrow> 'e list \<Rightarrow> byte list" where
  "tip p es = (if es = [] then p else digest (last es))"

lemma linked_append: "linked p (es @ fs) \<longleftrightarrow> linked p es \<and> linked (tip p es) fs"
  by (induction es arbitrary: p) (auto simp: tip_def)

lemma linked_take: "linked p es \<Longrightarrow> linked p (take n es)"
  using linked_append[of p "take n es" "drop n es"] by simp

lemma same_tip_same_inputs:
  assumes "linked p es" and "linked q fs" and "length es = length fs" and "es \<noteq> []"
    and "digest (last es) = digest (last fs)"
  shows "map input es = map input fs \<or> (\<exists>x y. x \<noteq> y \<and> hash x = hash y)"
  using assms
proof (induction es arbitrary: fs rule: rev_induct)
  case (snoc e es)
  obtain gs f where fs: "fs = gs @ [f]" using snoc.prems(3) by (cases fs rule: rev_cases) auto
  have e: "digest e = hash (input e)" "prev e = tip p es" "linked p es"
    and f: "digest f = hash (input f)" "prev f = tip q gs" "linked q gs"
    using snoc.prems(1,2) by (simp_all add: fs linked_append)
  have len: "length es = length gs" using snoc.prems(3) fs by simp
  show ?case
  proof (cases "input e = input f")
    case True
    show ?thesis
    proof (cases "es = []")
      case True
      then show ?thesis using \<open>input e = input f\<close> fs len by simp
    next
      case False
      have "digest (last es) = digest (last gs)"
        using input_prev[OF True] e(2) f(2) False len by (auto simp: tip_def)
      then show ?thesis using snoc.IH[OF e(3) f(3) len False] True fs by auto
    qed
  next
    case False
    then show ?thesis using snoc.prems(5) e(1) f(1) fs by auto
  qed
qed simp

end

definition row_input :: "audit_lib \<Rightarrow> audit_row \<Rightarrow> string" where
  "row_input L r = ChainInput L (convertSQLCAuditEvent r)"

lemma row_input_prev: "row_input L a = row_input L b \<Longrightarrow> auPrevHash a = auPrevHash b"
proof -
  assume "row_input L a = row_input L b"
  then obtain u v where "hex_encode (auPrevHash a) @ bar @ u = hex_encode (auPrevHash b) @ bar @ v"
    by (auto simp: row_input_def ChainInput_def convertSQLCAuditEvent_def Let_def)
  from split_at_bar(1)[OF this bar_free_hex bar_free_hex] show ?thesis by (rule hex_encode_inj)
qed

interpretation audit_chain: hash_chain "row_input L" auPrevHash auHash "alSha256 L" for L
  by unfold_locales (rule row_input_prev)

lemma VerifyChainInput_row:
  "VerifyChainInput L (convertSQLCAuditEvent r) \<longleftrightarrow> auHash r = alSha256 L (row_input L r)"
proof -
  have "aeChainHash (convertSQLCAuditEvent r) = hex_encode (auHash r)"
    by (simp add: convertSQLCAuditEvent_def)
  then show ?thesis using hex_encode_inj by (auto simp: VerifyChainInput_def ComputeChainHash_def row_input_def)
qed

lemma verify_loop_Some:
  "vrValid (verify_loop L rs (Some p) n) \<longleftrightarrow> audit_chain.linked L p rs"
  by (induction rs arbitrary: p n) (auto simp: Let_def VerifyChainInput_row)

lemma verify_loop_None: "vrValid (verify_loop L rs None n) \<longleftrightarrow> audit_chain.linked L genesis rs"
  by (cases rs) (auto simp: Let_def VerifyChainInput_row verify_loop_Some genesis_def)

lemma verify_loop_valid:
  "audit_chain.linked L (case p of None \<Rightarrow> genesis | Some h \<Rightarrow> h) rs \<Longrightarrow> verify_loop L rs p n =
    \<lparr> vrValid = True, vrBrokenSeq = 0, vrTotalSeen = n + int (length rs), vrError = None \<rparr>"
  by (induction rs arbitrary: p n) (auto simp: Let_def VerifyChainInput_row genesis_def split: option.splits)

lemma VerifyChain_calm:
  assumes "calm env"
  shows "VerifyChain L env t a b tbl = (tbl, Inr (verify_loop L
    (sort_key auSeq (filter (\<lambda>r. auTenantID r = t \<and> a \<le> auSeq r \<and> auSeq r \<le> b) tbl)) None 0))"
proof -
  have "filter (\<lambda>r. rls_ok env (Some t) (auTenantID r) \<and> auTenantID r = t \<and> a \<le> auSeq r \<and> auSeq r \<le> b) tbl
      = filter (\<lambda>r. auTenantID r = t \<and> a \<le> auSeq r \<and> auSeq r \<le> b) tbl"
    by (rule filter_cong) (auto simp: rls_ok_def)
  then show ?thesis using assms by (simp add: VerifyChain_def WithTenantTx_calm stmt_calm)
qed

subsection \<open>Appending keeps every chain\<close>

text \<open>The rows of one tenant, in the order of the table.\<close>

abbreviation chain_of :: "uuid \<Rightarrow> audit_table \<Rightarrow> audit_row list" where
  "chain_of t tbl \<equiv> filter (\<lambda>r. auTenantID r = t) tbl"

definition audit_ok :: "audit_lib \<Rightarrow> audit_table \<Rightarrow> bool" where
  "audit_ok L tbl = (\<forall>t. map auSeq (chain_of t tbl) = [1..int (length (chain_of t tbl))]
     \<and> audit_chain.linked L genesis (chain_of t tbl))"

text \<open>What is assumed of JSON and \<open>jsonb\<close>: a canonical text survives the column,
  up to canonicalization.\<close>

definition json_stable :: "audit_lib \<Rightarrow> bool" where
  "json_stable L = ((\<forall>p c. alCanon L p = Some c \<longrightarrow> alCanon L (alJsonb L c) = Some c \<and> alJsonb L c \<noteq> [])
     \<and> alCanon L (alJsonb L ''{}'') = Some ''{}'' \<and> alJsonb L ''{}'' \<noteq> [])"

lemma Truncate_us_idem [simp]: "Truncate_us (Truncate_us t) = Truncate_us t"
  by (simp add: Truncate_us_def mod_diff_left_eq[symmetric])

lemma canonicalizePayload_stable:
  "json_stable L \<Longrightarrow> canonicalizePayload L p = Inr c \<Longrightarrow> alCanon L (alJsonb L c) = Some c \<and> alJsonb L c \<noteq> []"
  by (auto simp: canonicalizePayload_def json_stable_def split: if_splits option.splits)

lemma sorted_chain: "audit_ok L tbl \<Longrightarrow> sort_key auSeq (chain_of t tbl) = chain_of t tbl"
  by (rule sort_key_id_if_sorted) (simp add: audit_ok_def)

lemma last_row_chain:
  assumes "audit_ok L tbl" and "chain_of t tbl \<noteq> []"
  shows "auSeq (last (chain_of t tbl)) = int (length (chain_of t tbl))"
proof -
  have m: "map auSeq (chain_of t tbl) = [1..int (length (chain_of t tbl))]"
    using assms(1) by (simp add: audit_ok_def)
  have "1 \<le> int (length (chain_of t tbl))" using assms(2) by (cases "chain_of t tbl") auto
  then have "last (map auSeq (chain_of t tbl)) = int (length (chain_of t tbl))"
    unfolding m by (simp add: upto_rec2)
  then show ?thesis using assms(2) by (simp add: last_map)
qed

text \<open>The row an append adds to a well-formed table.\<close>

lemma tenant_rows_chain:
  assumes "audit_ok L tbl"
  shows "tenant_rows env (Some t) t tbl = chain_of t tbl"
proof -
  have "filter (\<lambda>r. rls_ok env (Some t) (auTenantID r) \<and> auTenantID r = t) tbl = chain_of t tbl"
    by (rule filter_cong) (auto simp: rls_ok_def)
  then show ?thesis using sorted_chain[OF assms] by (simp add: tenant_rows_def)
qed

text \<open>The row a successful append adds.\<close>

lemma AppendWithTx_row:
  fixes L ev tbl
  defines "t \<equiv> aeTenantID ev" and "rs \<equiv> chain_of (aeTenantID ev) tbl"
  assumes ok: "audit_ok L tbl" and c: "canonicalizePayload L (aePayload ev) = Inr c"
    and ans: "snd (AppendWithTx L env i ev (Some t) tbl) = Inr x"
  shows "fst (AppendWithTx L env i ev (Some t) tbl) = tbl @ [\<lparr> auID = i, auTenantID = t, auSeq = int (length rs) + 1,
      auActorType = ''user'', auActorID = aeActorUserID ev, auAction = aeAction ev,
      auEntityType = (if aeEntityType ev = [] then None else Some (aeEntityType ev)),
      auEntityID = aeEntityID ev, auPayload = alJsonb L c, auSeverity = aeSeverity ev, auPrevHash = audit_chain.tip genesis rs,
      auHash = alSha256 L (computeChainInput L (hex_encode (audit_chain.tip genesis rs)) (int (length rs) + 1) t
        (aeActorUserID ev) (aeAction ev) (aeEntityType ev) (aeEntityID ev) c (Truncate_us (pgNow env))),
      auCreatedAt = Truncate_us (pgNow env) \<rparr>]"
proof -
  have rows: "tenant_rows env (Some t) t tbl = rs" unfolding t_def rs_def by (rule tenant_rows_chain[OF ok])
  have seq: "(case last_row rs of None \<Rightarrow> 0 | Some r \<Rightarrow> auSeq r) = int (length rs)"
    using last_row_chain[OF ok] by (auto simp: last_row_def rs_def)
  have tip: "(case last_row rs of None \<Rightarrow> genesis | Some r \<Rightarrow> auHash r) = audit_chain.tip genesis rs"
    by (simp add: last_row_def audit_chain.tip_def)
  have rls: "rls_ok env (Some t) t" by (simp add: rls_ok_def)
  have last: "getLastEventTx env (Some t) t tbl =
      (case last_row rs of None \<Rightarrow> Inl (pgNoRows env) | Some r \<Rightarrow> Inr (convertSQLCAuditEvent r))"
    by (simp add: getLastEventTx_def rows)
  have ph: "(case getLastEventTx env (Some t) t tbl of Inl _ \<Rightarrow> hex_encode genesis | Inr l \<Rightarrow> aeChainHash l)
      = hex_encode (audit_chain.tip genesis rs)"
    by (simp add: last last_row_def audit_chain.tip_def convertSQLCAuditEvent_def)
  have sq: "(case getLastEventTx env (Some t) t tbl of Inl _ \<Rightarrow> 1 | Inr l \<Rightarrow> aeSeq l + 1) = int (length rs) + 1"
    using seq by (simp add: last last_row_def convertSQLCAuditEvent_def split: if_splits)
  show ?thesis
    using ans unfolding AppendWithTx_def Let_def t_def[symmetric] ph sq c CreateAuditEvent_def rows
    by (simp add: rows seq tip rls t_def[symmetric] split: option.splits if_splits)
qed

lemma Append_cases:
  assumes ok: "audit_ok L tbl" and stable: "json_stable L"
  obtains (none) "fst (Append L env i ev tbl) = tbl"
  | (one) row where "fst (Append L env i ev tbl) = tbl @ [row]" "auTenantID row = aeTenantID ev"
    "auSeq row = int (length (chain_of (aeTenantID ev) tbl)) + 1"
    "auPrevHash row = audit_chain.tip genesis (chain_of (aeTenantID ev) tbl)"
    "auHash row = alSha256 L (row_input L row)"
proof (cases "snd (Append L env i ev tbl)")
  case (Inl e)
  then have "fst (Append L env i ev tbl) = tbl" unfolding Append_def by (rule WithTenantTx_atomic)
  then show thesis by (rule none)
next
  case (Inr x)
  let ?ctx = "AppendWithTx L env i ev (Some (aeTenantID ev)) tbl"
  have app: "fst (Append L env i ev tbl) = fst ?ctx" "snd ?ctx = Inr x"
    using Inr by (auto simp: Append_def WithTenantTx_def split: option.splits prod.splits sum.splits)
  obtain c where c: "canonicalizePayload L (aePayload ev) = Inr c"
    using app(2) by (auto simp: AppendWithTx_def Let_def split: option.splits sum.splits if_splits)
  show thesis
    using canonicalizePayload_stable[OF stable c]
    by (intro one[OF app(1)[unfolded AppendWithTx_row[OF ok c app(2)]]])
      (simp_all add: row_input_def ChainInput_def convertSQLCAuditEvent_def computeChainInput_def Let_def)
qed

lemma audit_ok_Append:
  assumes ok: "audit_ok L tbl" and stable: "json_stable L"
  shows "audit_ok L (fst (Append L env i ev tbl))"
proof (rule Append_cases[OF ok stable, of env i ev])
  assume "fst (Append L env i ev tbl) = tbl"
  then show ?thesis using ok by simp
next
  fix row
  assume one: "fst (Append L env i ev tbl) = tbl @ [row]" "auTenantID row = aeTenantID ev"
    "auSeq row = int (length (chain_of (aeTenantID ev) tbl)) + 1"
    "auPrevHash row = audit_chain.tip genesis (chain_of (aeTenantID ev) tbl)"
    "auHash row = alSha256 L (row_input L row)"
  show ?thesis
    unfolding audit_ok_def
  proof
    fix t
    show "map auSeq (chain_of t (fst (Append L env i ev tbl)))
          = [1..int (length (chain_of t (fst (Append L env i ev tbl))))]
        \<and> audit_chain.linked L genesis (chain_of t (fst (Append L env i ev tbl)))"
    proof (cases "t = aeTenantID ev")
      case True
      have "map auSeq (chain_of t tbl) = [1..int (length (chain_of t tbl))]"
        "audit_chain.linked L genesis (chain_of t tbl)"
        using ok by (simp_all add: audit_ok_def)
      then show ?thesis
        using one True by (simp add: audit_chain.linked_append upto_rec2[of 1 "1 + int _"] add.commute)
    next
      case False
      then show ?thesis using one ok by (simp add: audit_ok_def)
    qed
  qed
qed

lemma audit_ok_empty: "audit_ok L []"
  by (simp add: audit_ok_def)

type_synonym append_req = "pg_env \<times> uuid \<times> AuditEvent"

definition append_all :: "audit_lib \<Rightarrow> append_req list \<Rightarrow> audit_table \<Rightarrow> audit_table" where
  "append_all L reqs tbl = fold (\<lambda>(env, i, ev) tbl. fst (Append L env i ev tbl)) reqs tbl"

lemma audit_ok_append_all: "json_stable L \<Longrightarrow> audit_ok L tbl \<Longrightarrow> audit_ok L (append_all L reqs tbl)"
  by (induction reqs arbitrary: tbl) (auto simp: append_all_def audit_ok_Append)

subsection \<open>Ranges of a chain\<close>

lemma filter_upto_take:
  "map k rs = [1..int (length rs)] \<Longrightarrow> filter (\<lambda>r. k r \<le> b) rs = take (nat b) rs"
proof (induction rs rule: rev_induct)
  case (snoc x rs)
  have "map k rs @ [k x] = [1..int (length rs)] @ [int (length rs) + 1]"
    using snoc.prems by (simp add: upto_rec2[of 1 "1 + int _"] add.commute)
  then have m: "map k rs = [1..int (length rs)]" and x: "k x = int (length rs) + 1" by simp_all
  show ?case using snoc.IH[OF m] x by (auto simp: nat_le_iff le_nat_iff)
qed simp

lemma filter_from_drop:
  "map k rs = [1..int (length rs)] \<Longrightarrow> filter (\<lambda>r. a \<le> k r) rs = drop (nat (a - 1)) rs"
proof (induction rs rule: rev_induct)
  case (snoc x rs)
  have "map k rs @ [k x] = [1..int (length rs)] @ [int (length rs) + 1]"
    using snoc.prems by (simp add: upto_rec2[of 1 "1 + int _"] add.commute)
  then have m: "map k rs = [1..int (length rs)]" and x: "k x = int (length rs) + 1" by simp_all
  show ?case using snoc.IH[OF m] x by (auto simp: nat_le_iff le_nat_iff)
qed simp

lemma take_upto: "take n [1..int m] = [1..int (min n m)]"
proof (rule nth_equalityI)
  fix i assume "i < length (take n [1..int m])"
  then have "i < n" "i < m" by simp_all
  then show "take n [1..int m] ! i = [1..int (min n m)] ! i"
    by (cases "n \<le> m") (simp_all add: min_def nth_upto)
qed simp

lemma range_rows:
  assumes "audit_ok L tbl"
  shows "sort_key auSeq (filter (\<lambda>r. auTenantID r = t \<and> a \<le> auSeq r \<and> auSeq r \<le> b) tbl)
    = take (nat b - nat (a - 1)) (drop (nat (a - 1)) (chain_of t tbl))"
proof -
  let ?rs = "chain_of t tbl"
  have m: "map auSeq ?rs = [1..int (length ?rs)]" using assms by (simp add: audit_ok_def)
  have "filter (\<lambda>r. auTenantID r = t \<and> a \<le> auSeq r \<and> auSeq r \<le> b) tbl
      = filter (\<lambda>r. auSeq r \<le> b) (filter (\<lambda>r. a \<le> auSeq r) ?rs)"
    by (simp add: conj_ac)
  also have "\<dots> = filter (\<lambda>r. a \<le> auSeq r) (filter (\<lambda>r. auSeq r \<le> b) ?rs)"
    by (simp add: conj_ac)
  also have "\<dots> = filter (\<lambda>r. a \<le> auSeq r) (take (nat b) ?rs)"
    using filter_upto_take[OF m] by simp
  also have "\<dots> = drop (nat (a - 1)) (take (nat b) ?rs)"
  proof (rule filter_from_drop)
    have l: "length (take (nat b) ?rs) = min (nat b) (length ?rs)" by simp
    have "map auSeq (take (nat b) ?rs) = take (nat b) [1..int (length ?rs)]"
      by (simp add: m take_map[symmetric])
    also have "\<dots> = [1..int (min (nat b) (length ?rs))]"
      by (rule take_upto)
    finally show "map auSeq (take (nat b) ?rs) = [1..int (length (take (nat b) ?rs))]" by (simp only: l)
  qed
  finally have eq: "filter (\<lambda>r. auTenantID r = t \<and> a \<le> auSeq r \<and> auSeq r \<le> b) tbl
      = take (nat b - nat (a - 1)) (drop (nat (a - 1)) ?rs)"
    by (simp add: drop_take)
  have "sorted (map auSeq (filter (\<lambda>r. auTenantID r = t \<and> a \<le> auSeq r \<and> auSeq r \<le> b) tbl))"
    unfolding eq using m by (simp add: take_map[symmetric] drop_map[symmetric] sorted_wrt_take sorted_wrt_drop)
  then show ?thesis using eq by (simp add: sort_key_id_if_sorted)
qed

lemma linked_nth:
  assumes "audit_chain.linked L genesis rs" and "Suc i < length rs"
  shows "auPrevHash (rs ! Suc i) = auHash (rs ! i)"
proof -
  have rs: "rs = take (Suc i) rs @ rs ! Suc i # drop (Suc (Suc i)) rs"
    by (rule id_take_nth_drop[OF assms(2)])
  have "audit_chain.linked L (audit_chain.tip genesis (take (Suc i) rs)) (rs ! Suc i # drop (Suc (Suc i)) rs)"
    using assms(1) rs audit_chain.linked_append by metis
  then show ?thesis
    using assms(2) by (auto simp: audit_chain.tip_def last_conv_nth min_def)
qed

subsection \<open>What the hash covers\<close>

definition covered :: "audit_lib \<Rightarrow> audit_row \<Rightarrow>
    byte list \<times> int \<times> uuid \<times> uuid option \<times> string \<times> string \<times> uuid option \<times> string \<times> string" where
  "covered L r = (auPrevHash r, auSeq r, auTenantID r, auActorID r, auAction r,
     (case auEntityType r of None \<Rightarrow> [] | Some s \<Rightarrow> s), auEntityID r,
     (if auPayload r = [] then ''{}'' else case alCanon L (auPayload r) of None \<Rightarrow> ''{}'' | Some c \<Rightarrow> c),
     alFormat L (Truncate_us (auCreatedAt r)))"

text \<open>Rows whose text fields cannot be confused: well-formed UUIDs, and no
  vertical bar in action, entity type or time.\<close>

definition plain_row :: "audit_lib \<Rightarrow> audit_row \<Rightarrow> bool" where
  "plain_row L r = (wf_uuid (auTenantID r) \<and> pred_option wf_uuid (auActorID r) \<and> pred_option wf_uuid (auEntityID r)
     \<and> CHR ''|'' \<notin> set (auAction r) \<and> pred_option (\<lambda>s. CHR ''|'' \<notin> set s) (auEntityType r)
     \<and> CHR ''|'' \<notin> set (alFormat L (Truncate_us (auCreatedAt r))))"

lemma row_input_fields:
  assumes "row_input L a = row_input L b" and "plain_row L a" and "plain_row L b"
  shows "covered L a = covered L b"
proof -
  let ?et = "\<lambda>r. case auEntityType r of None \<Rightarrow> [] | Some s \<Rightarrow> s"
  let ?pl = "\<lambda>r. if auPayload r = [] then ''{}'' else case alCanon L (auPayload r) of None \<Rightarrow> ''{}'' | Some c \<Rightarrow> c"
  let ?at = "\<lambda>r. alFormat L (Truncate_us (auCreatedAt r))"
  have inp: "row_input L r = hex_encode (auPrevHash r) @ bar @ int_text (auSeq r) @ bar @ UUID_String (auTenantID r)
      @ bar @ uuid_text (auActorID r) @ bar @ auAction r @ bar @ ?et r @ bar @ uuid_text (auEntityID r)
      @ bar @ ?pl r @ bar @ ?at r" for r
    by (simp add: row_input_def ChainInput_def convertSQLCAuditEvent_def Let_def)
  have et: "CHR ''|'' \<notin> set (?et r)" if "plain_row L r" for r
    using that by (cases "auEntityType r") (auto simp: plain_row_def)
  note eq = assms(1)[unfolded inp]
  note 1 = split_at_bar[OF eq bar_free_hex bar_free_hex]
  note 2 = split_at_bar[OF 1(2) bar_free_int_text bar_free_int_text]
  note 3 = split_at_bar[OF 2(2) bar_free_uuid(1) bar_free_uuid(1)]
  note 4 = split_at_bar[OF 3(2) bar_free_uuid(2) bar_free_uuid(2)]
  have act: "CHR ''|'' \<notin> set (auAction a)" "CHR ''|'' \<notin> set (auAction b)"
    using assms by (simp_all add: plain_row_def)
  note 5 = split_at_bar[OF 4(2) act]
  note 6 = split_at_bar[OF 5(2) et[OF assms(2)] et[OF assms(3)]]
  note 7 = split_at_bar[OF 6(2) bar_free_uuid(2) bar_free_uuid(2)]
  have at: "CHR ''|'' \<notin> set (?at a)" "CHR ''|'' \<notin> set (?at b)"
    using assms by (simp_all add: plain_row_def)
  note 8 = split_last_bar[OF 7(2) at]
  show ?thesis
    using hex_encode_inj[OF 1(1)] int_text_inj[OF 2(1)] 3(1) 4(1) 5(1) 6(1) 7(1) 8 assms(2,3)
    unfolding covered_def plain_row_def by (auto intro: UUID_String_inj uuid_text_inj)
qed

lemma set_page: "set (page l k xs) \<subseteq> set xs"
  by (auto simp: page_def Let_def dest: in_set_takeD in_set_dropD)

text \<open>A query answers only with events of its own tenant that pass its filters,
  newest first, and at most as many as it asked for.\<close>

lemma Query_sound:
  assumes "snd (Query env f tbl) = Inr evs"
  shows "\<forall>e \<in> set evs. \<exists>r \<in> set tbl. e = convertSQLCAuditEvent r \<and> filter_matches f r"
    and "sorted (map (\<lambda>e. - aeCreatedAt e) evs)"
    and "afLimit f > 0 \<longrightarrow> int (length evs) \<le> afLimit f"
    and "fst (Query env f tbl) = tbl"
proof -
  let ?rs = "sort_key (\<lambda>r. - auCreatedAt r)
    (filter (\<lambda>r. rls_ok env (Some (afTenantID f)) (auTenantID r) \<and> filter_matches f r) tbl)"
  have e: "evs = map convertSQLCAuditEvent (page (afLimit f) (afOffset f) ?rs)"
    using assms by (auto simp: Query_def WithTenantTx_def stmt_def split: option.splits)
  show "\<forall>e \<in> set evs. \<exists>r \<in> set tbl. e = convertSQLCAuditEvent r \<and> filter_matches f r"
    unfolding e using set_page[of "afLimit f" "afOffset f" ?rs] by fastforce
  have "map (\<lambda>e. - aeCreatedAt e) evs = page (afLimit f) (afOffset f) (map (\<lambda>r. - auCreatedAt r) ?rs)"
    unfolding e by (simp add: page_def Let_def take_map drop_map convertSQLCAuditEvent_def o_def)
  moreover have "sorted (page (afLimit f) (afOffset f) (map (\<lambda>r. - auCreatedAt r) ?rs))"
    by (simp add: page_def Let_def sorted_wrt_take sorted_wrt_drop)
  ultimately show "sorted (map (\<lambda>e. - aeCreatedAt e) evs)" by simp
  show "afLimit f > 0 \<longrightarrow> int (length evs) \<le> afLimit f"
    unfolding e by (auto simp: page_def Let_def)
  show "fst (Query env f tbl) = tbl"
    by (auto simp: Query_def WithTenantTx_def stmt_def split: option.splits)
qed

lemma sort_key_map: "sort_key f (map g xs) = map g (sort_key (\<lambda>x. f (g x)) xs)"
proof -
  have ins: "insort_key f (g x) (map g ys) = map g (insort_key (\<lambda>x. f (g x)) x ys)" for x ys
    by (induction ys) auto
  show ?thesis by (induction xs) (simp_all add: ins)
qed

text \<open>The fields \<open>VerifyChain\<close> looks at.\<close>

definition relabel :: "(audit_row \<Rightarrow> string) \<Rightarrow> (audit_row \<Rightarrow> string) \<Rightarrow> (audit_row \<Rightarrow> uuid) \<Rightarrow> audit_row \<Rightarrow> audit_row" where
  "relabel sev actor ident r = r\<lparr>auSeverity := sev r, auActorType := actor r, auID := ident r\<rparr>"

lemma relabel_fields [simp]:
  "auTenantID (relabel s a i r) = auTenantID r" "auSeq (relabel s a i r) = auSeq r"
  "auPrevHash (relabel s a i r) = auPrevHash r" "auHash (relabel s a i r) = auHash r"
  "row_input L (relabel s a i r) = row_input L r"
  by (simp_all add: relabel_def row_input_def convertSQLCAuditEvent_def ChainInput_def Let_def)

lemma verify_loop_relabel: "verify_loop L (map (relabel s a i) rs) p n = verify_loop L rs p n"
proof (induction rs arbitrary: p n)
  case (Cons r rs)
  have "aeSeq (convertSQLCAuditEvent (relabel s a i r)) = aeSeq (convertSQLCAuditEvent r)"
    by (simp add: convertSQLCAuditEvent_def)
  then show ?case using Cons.IH by (simp add: Let_def VerifyChainInput_row split: option.split)
qed simp

subsection \<open>Properties\<close>

lemma VerifyChain_ok:
  assumes "audit_ok L tbl" and "calm env" and "fromSeq \<le> 1"
  shows "VerifyChain L env t fromSeq toSeq tbl = (tbl, Inr \<lparr> vrValid = True, vrBrokenSeq = 0,
    vrTotalSeen = int (min (nat toSeq) (length (chain_of t tbl))), vrError = None \<rparr>)"
proof -
  have "audit_chain.linked L genesis (take (nat toSeq) (chain_of t tbl))"
    using assms(1) by (simp add: audit_ok_def audit_chain.linked_take)
  then show ?thesis
    using assms by (simp add: VerifyChain_calm range_rows[OF assms(1)] verify_loop_valid min.commute)
qed

text \<open>A concrete library for the witnesses: texts are canonical already, and the
  digest of a text is its bytes.\<close>

definition demo_lib :: audit_lib where
  "demo_lib = \<lparr> alSha256 = map of_char, alCanon = (\<lambda>p. if p = [] then None else Some p),
     alJsonb = (\<lambda>p. p), alFormat = int_text \<rparr>"

definition demo_event :: AuditEvent where
  "demo_event = \<lparr> aeID = zero_uuid, aeTenantID = zero_uuid, aeSeq = 0, aePrevHash = [], aeChainHash = [],
     aeActorUserID = None, aeAction = ''login'', aeEntityType = [], aeEntityID = None, aePayload = [],
     aeSeverity = ''info'', aeCreatedAt = 0 \<rparr>"

definition short_lib :: audit_lib where
  "short_lib = demo_lib\<lparr>alSha256 := (\<lambda>s. [of_nat (length s)])\<rparr>"

definition demo_reqs :: "append_req list" where
  "demo_reqs = [(quiet_env, zero_uuid, demo_event), (quiet_env, zero_uuid, demo_event\<lparr>aeAction := ''logout''\<rparr>)]"

lemma short_lib_stable: "json_stable short_lib"
  by (auto simp: json_stable_def short_lib_def demo_lib_def split: if_splits)

lemma demo_chain:
  "map auHash (chain_of zero_uuid (append_all short_lib demo_reqs [])) = [ [117], [56] ]"
  by code_simp

text \<open>Whatever events are appended to the audit log, of whatever tenants and with whatever
  database failures in between, \<open>VerifyChain\<close> from the start of a tenant's chain up to any
  sequence number reports it valid and has looked at every row of the range.\<close>

theorem audit_append_verifies:
  assumes "json_stable L" and "calm env" and "fromSeq \<le> 1"
  shows "let tbl = append_all L reqs [] in VerifyChain L env t fromSeq toSeq tbl = (tbl, Inr
    \<lparr> vrValid = True, vrBrokenSeq = 0,
      vrTotalSeen = int (min (nat toSeq) (length (chain_of t tbl))), vrError = None \<rparr>)"
  using audit_ok_append_all[OF assms(1) audit_ok_empty, of reqs] assms(2,3) by (simp add: Let_def VerifyChain_ok)

theorem audit_append_verifies_witness:
  "json_stable short_lib \<and> calm quiet_env \<and>
   snd (VerifyChain short_lib quiet_env zero_uuid 1 5 (append_all short_lib demo_reqs [])) = Inr
     \<lparr> vrValid = True, vrBrokenSeq = 0, vrTotalSeen = 2, vrError = None \<rparr>"
  using audit_append_verifies[of short_lib quiet_env 1 demo_reqs zero_uuid 5] short_lib_stable
    arg_cong[OF demo_chain, of length]
  by (simp add: Let_def)


definition demo_audit_row :: audit_row where
  "demo_audit_row = (let r = \<lparr> auID = zero_uuid, auTenantID = zero_uuid, auSeq = 1, auActorType = ''user'',
       auActorID = None, auAction = ''login'', auEntityType = None, auEntityID = None, auPayload = ''{}'',
       auSeverity = ''info'', auPrevHash = genesis, auHash = [], auCreatedAt = 0 \<rparr>
     in r\<lparr>auHash := alSha256 demo_lib (row_input demo_lib r)\<rparr>)"

lemma demo_audit_row_verifies:
  "snd (VerifyChain demo_lib quiet_env zero_uuid 1 1 [demo_audit_row\<lparr>auSeverity := s\<rparr>]) =
    Inr \<lparr> vrValid = True, vrBrokenSeq = 0, vrTotalSeen = 1, vrError = None \<rparr>"
proof -
  let ?r = "demo_audit_row\<lparr>auSeverity := s\<rparr>"
  have f: "auTenantID ?r = zero_uuid" "auSeq ?r = 1" "auPrevHash ?r = genesis"
    by (simp_all add: demo_audit_row_def Let_def)
  have "VerifyChainInput demo_lib (convertSQLCAuditEvent ?r)"
    by (simp add: VerifyChainInput_row)
      (simp add: demo_audit_row_def row_input_def convertSQLCAuditEvent_def ChainInput_def Let_def)
  then show ?thesis using f by (simp add: VerifyChain_calm genesis_def Let_def)
qed


text \<open>Severity, actor type and event id are outside the hash: rewriting them in any row, in
  any way, never changes what \<open>VerifyChain\<close> reports.\<close>

theorem audit_labels_unprotected:
  "snd (VerifyChain L env t a b (map (relabel sev actor ident) tbl)) = snd (VerifyChain L env t a b tbl)"
  by (simp add: VerifyChain_def WithTenantTx_def stmt_def filter_map o_def sort_key_map verify_loop_relabel
      split: option.split)

text \<open>Verifying a genuine chain from a later sequence number reports it broken at that
  number: the first row of the range is compared with the genesis hash, not with the hash of the row
  before it.\<close>

theorem audit_suffix_reported_broken:
  assumes "json_stable L" and "calm env" and "tbl = append_all L reqs []"
    and "2 \<le> a" and "a \<le> b" and "nat a \<le> length (chain_of t tbl)"
    and "auHash (chain_of t tbl ! nat (a - 2)) \<noteq> genesis"
  shows "snd (VerifyChain L env t a b tbl) = Inr \<lparr> vrValid = False, vrBrokenSeq = a, vrTotalSeen = 1,
    vrError = Some (Errorf ''genesis event has invalid prev_hash'') \<rparr>"
proof -
  let ?rs = "chain_of t tbl" and ?i = "nat (a - 2)"
  have ok: "audit_ok L tbl" unfolding assms(3) by (intro audit_ok_append_all assms audit_ok_empty)
  have i: "Suc ?i = nat (a - 1)" "Suc ?i < length ?rs" using assms(4,6) by linarith+
  have prev: "auPrevHash (?rs ! Suc ?i) = auHash (?rs ! ?i)"
    using ok by (intro linked_nth[of L, OF _ i(2)]) (simp add: audit_ok_def)
  have "auSeq (?rs ! Suc ?i) = [1..int (length ?rs)] ! Suc ?i"
    using ok i(2) by (metis audit_ok_def nth_map)
  then have seq: "auSeq (?rs ! Suc ?i) = a" using i assms(4) by (simp add: nth_upto)
  have "take (nat b - nat (a - 1)) (drop (nat (a - 1)) ?rs)
      = ?rs ! Suc ?i # take (nat b - nat (a - 1) - 1) (drop (Suc (Suc ?i)) ?rs)"
    using i assms(4,5) Cons_nth_drop_Suc[OF i(2), symmetric] by (cases "nat b - nat (a - 1)") auto
  then show ?thesis
    using assms(2,7) prev seq
    by (simp add: VerifyChain_calm range_rows[OF ok] genesis_def Let_def convertSQLCAuditEvent_def)
qed

theorem audit_suffix_reported_broken_witness:
  "snd (VerifyChain short_lib quiet_env zero_uuid 2 2 (append_all short_lib demo_reqs [])) =
    Inr \<lparr> vrValid = False, vrBrokenSeq = 2, vrTotalSeen = 1,
      vrError = Some (Errorf ''genesis event has invalid prev_hash'') \<rparr>"
proof -
  let ?rs = "chain_of zero_uuid (append_all short_lib demo_reqs [])"
  have n: "length ?rs = 2" using arg_cong[OF demo_chain, of length] by simp
  then have "auHash (?rs ! nat (2 - 2)) = [117]" using arg_cong[OF demo_chain, of "\<lambda>h. h ! 0"] by simp
  then show ?thesis
    using audit_suffix_reported_broken[of short_lib quiet_env "append_all short_lib demo_reqs []" demo_reqs 2 2 zero_uuid]
      short_lib_stable n
    by (simp add: genesis_def numeral_eq_Suc)
qed

end
