(* ===== verification/Review.thy ===== *)
theory Review
  imports AuditLog ModelTypes
begin

text \<open>
  Human review of requests: \<open>src/internal/domain/review.go\<close>, the table
  \<open>review_requests\<close> behind \<open>src/internal/adapter/postgres/review_repository.go\<close>
  (queries of \<open>queries/review.sql\<close>, constraints of migration 0011) and the use
  case of \<open>src/internal/usecase/hitl/hitl.go\<close>, with every database call it
  makes and the audit event it appends. SHA-256, the JSON codec, the random
  tokens and ids and the clocks are parameters.
\<close>

subsection \<open>The domain\<close>

type_synonym review_status = string

definition ReviewStatusPending :: review_status where "ReviewStatusPending = ''PENDING''"
definition ReviewStatusApproved :: review_status where "ReviewStatusApproved = ''APPROVED''"
definition ReviewStatusRejected :: review_status where "ReviewStatusRejected = ''REJECTED''"
definition ReviewStatusExpired :: review_status where "ReviewStatusExpired = ''EXPIRED''"
definition ReviewStatusExecuted :: review_status where "ReviewStatusExecuted = ''EXECUTED''"

lemmas review_status_defs = ReviewStatusPending_def ReviewStatusApproved_def ReviewStatusRejected_def
  ReviewStatusExpired_def ReviewStatusExecuted_def

record ReviewRequest =
  rrID :: uuid
  rrTenantID :: uuid
  rrRequesterID :: uuid
  rrReviewerID :: "uuid option"
  rrTokenHash :: string
  rrAction :: string
  rrPayload :: string
  rrStatus :: review_status
  rrExpiresAt :: time
  rrDecidedAt :: "time option"
  rrDecidedBy :: "uuid option"
  rrDecisionReason :: string
  rrCreatedAt :: time
  rrUpdatedAt :: time

definition IsPending :: "ReviewRequest \<Rightarrow> bool" where
  "IsPending r = (rrStatus r = ReviewStatusPending)"

definition Review_IsExpired :: "time \<Rightarrow> ReviewRequest \<Rightarrow> bool" where
  "Review_IsExpired now r = (now > rrExpiresAt r)"

definition Review_CanTransitionTo :: "review_status \<Rightarrow> review_status \<Rightarrow> bool" where
  "Review_CanTransitionTo from status =
     (if from = ReviewStatusPending
      then status = ReviewStatusApproved \<or> status = ReviewStatusRejected \<or> status = ReviewStatusExpired
      else if from = ReviewStatusApproved then status = ReviewStatusExecuted
      else False)"

text \<open>\<open>hex.EncodeToString\<close> of the 32 bytes read from the random source.\<close>

definition GenerateOpaqueToken :: "byte list \<Rightarrow> string" where
  "GenerateOpaqueToken random = hex_encode random"

subsection \<open>The table\<close>

record review_row =
  rvID :: uuid
  rvTenantID :: uuid
  rvRequesterID :: uuid
  rvReviewerID :: "uuid option"
  rvAction :: string
  rvPayload :: string
  rvStatus :: review_status
  rvTokenHash :: "byte list"
  rvExpiresAt :: time
  rvDecidedAt :: "time option"
  rvDecidedBy :: "uuid option"
  rvDecisionReason :: "string option"
  rvCreatedAt :: time
  rvUpdatedAt :: time

type_synonym review_table = "review_row list"

text \<open>The JSON codec: \<open>hlMarshal\<close> is \<open>json.Marshal\<close> of a map, \<open>hlDecode\<close> decodes
  a text into a map (\<open>null\<close> gives the empty one); \<open>jsonb\<close> and SHA-256 are those of the
  audit log.\<close>

record hitl_lib =
  hlAudit :: audit_lib
  hlMarshal :: "(string \<times> json) list \<Rightarrow> string option"
  hlDecode :: "string \<Rightarrow> (string \<times> json) list option"

definition hashToken :: "hitl_lib \<Rightarrow> string \<Rightarrow> byte list" where
  "hashToken L token = alSha256 (hlAudit L) token"

definition extractActionFromPayload :: "hitl_lib \<Rightarrow> string \<Rightarrow> string" where
  "extractActionFromPayload L payload = (case hlDecode L payload of
     None \<Rightarrow> ''unknown''
   | Some m \<Rightarrow> (case map_of m ''action'' of Some (JStr action) \<Rightarrow> action | _ \<Rightarrow> ''unknown''))"

definition convertSQLCReviewRequest :: "hitl_lib \<Rightarrow> review_row \<Rightarrow> ReviewRequest" where
  "convertSQLCReviewRequest L e = \<lparr>
     rrID = rvID e, rrTenantID = rvTenantID e, rrRequesterID = rvRequesterID e,
     rrReviewerID = rvReviewerID e,
     rrTokenHash = map (\<lambda>b. char_of (unat b)) (rvTokenHash e),
     rrAction = extractActionFromPayload L (rvPayload e),
     rrPayload = rvPayload e, rrStatus = rvStatus e, rrExpiresAt = rvExpiresAt e,
     rrDecidedAt = rvDecidedAt e, rrDecidedBy = rvDecidedBy e,
     rrDecisionReason = (case rvDecisionReason e of None \<Rightarrow> [] | Some s \<Rightarrow> s),
     rrCreatedAt = rvCreatedAt e, rrUpdatedAt = 0 \<rparr>"

subsection \<open>The repository\<close>

text \<open>The rows a statement of the pool can see and touch.\<close>

definition pool_sees :: "pg_env \<Rightarrow> review_row \<Rightarrow> bool" where
  "pool_sees env r = rls_ok env (pgPoolGuc env) (rvTenantID r)"

definition CreateReviewRequest ::
  "hitl_lib \<Rightarrow> pg_env \<Rightarrow> uuid \<Rightarrow> review_row \<Rightarrow> (review_table, review_row) db_call" where
  "CreateReviewRequest L env newID params tbl =
     (let row = params\<lparr>rvID := newID, rvStatus := ReviewStatusPending, rvPayload := alJsonb (hlAudit L) (rvPayload params),
            rvDecidedAt := None, rvDecidedBy := None, rvDecisionReason := None,
            rvCreatedAt := pgNow env, rvUpdatedAt := pgNow env\<rparr>
      in if alCanon (hlAudit L) (rvPayload params) = None
           then (tbl, Inl (PgError ''22P02'' ''invalid input syntax for type json''))
         else if \<not> pool_sees env row then (tbl, Inl (PgError ''42501'' ''row-level security''))
         else if list_ex (\<lambda>r. rvID r = newID \<and> rvTenantID r = rvTenantID row) tbl
           then (tbl, Inl (PgError ''23505'' ''duplicate key value violates unique constraint''))
         else (tbl @ [row], Inr row))"

text \<open>\<open>Create\<close>; the assigned reviewer is not among the parameters.\<close>

definition review_params :: "ReviewRequest \<Rightarrow> byte list \<Rightarrow> review_row" where
  "review_params req tokenHash = \<lparr> rvID = zero_uuid, rvTenantID = rrTenantID req, rvRequesterID = rrRequesterID req,
     rvReviewerID = None, rvAction = rrAction req, rvPayload = rrPayload req,
     rvStatus = ReviewStatusPending, rvTokenHash = tokenHash, rvExpiresAt = rrExpiresAt req,
     rvDecidedAt = None, rvDecidedBy = None, rvDecisionReason = None, rvCreatedAt = 0, rvUpdatedAt = 0 \<rparr>"

definition ReviewRepository_Create ::
  "hitl_lib \<Rightarrow> pg_env \<Rightarrow> byte list \<Rightarrow> uuid \<Rightarrow> ReviewRequest \<Rightarrow> (review_table, ReviewRequest \<times> string) db_call" where
  "ReviewRepository_Create L env random newID req =
     (let token = GenerateOpaqueToken random; tokenHash = hashToken L token in
      WithTenant env (rrTenantID req) (\<lambda>tbl.
        case stmt env (CreateReviewRequest L env newID (review_params req tokenHash)) tbl of
             (tbl', Inl e) \<Rightarrow> (tbl', Inl (Wrapf ''failed to create review request'' e))
           | (tbl', Inr row) \<Rightarrow> (tbl', Inr (convertSQLCReviewRequest L row, token))))"

definition ReviewRepository_GetByID ::
  "hitl_lib \<Rightarrow> pg_env \<Rightarrow> uuid \<Rightarrow> uuid \<Rightarrow> (review_table, ReviewRequest) db_call" where
  "ReviewRepository_GetByID L env tenantID reviewID = WithTenant env tenantID (\<lambda>tbl.
     case stmt env (\<lambda>tbl. (tbl, case List.find (\<lambda>r. pool_sees env r \<and> rvTenantID r = tenantID \<and> rvID r = reviewID) tbl of
            None \<Rightarrow> Inl (pgNoRows env) | Some r \<Rightarrow> Inr r)) tbl of
       (tbl', Inl e) \<Rightarrow> (tbl', Inl (if e = SqlErrNoRows then ErrNotFound else Wrapf ''failed to get review request'' e))
     | (tbl', Inr r) \<Rightarrow> (tbl', Inr (convertSQLCReviewRequest L r)))"

text \<open>\<open>GetByTokenHash\<close> runs on the pool, outside every tenant transaction. It fills
  the action from its column, and leaves the three decision fields unset.\<close>

definition scan_review :: "review_row \<Rightarrow> ReviewRequest" where
  "scan_review r = \<lparr>
     rrID = rvID r, rrTenantID = rvTenantID r, rrRequesterID = rvRequesterID r,
     rrReviewerID = rvReviewerID r, rrTokenHash = hex_encode (rvTokenHash r), rrAction = rvAction r,
     rrPayload = rvPayload r, rrStatus = rvStatus r, rrExpiresAt = rvExpiresAt r,
     rrDecidedAt = None, rrDecidedBy = None, rrDecisionReason = [],
     rrCreatedAt = rvCreatedAt r, rrUpdatedAt = rvUpdatedAt r \<rparr>"

definition GetByTokenHash :: "pg_env \<Rightarrow> byte list \<Rightarrow> (review_table, ReviewRequest) db_call" where
  "GetByTokenHash env tokenHash tbl =
     (case stmt env (\<lambda>tbl. (tbl, case List.find (\<lambda>r. pool_sees env r \<and> rvTokenHash r = tokenHash) tbl of
            None \<Rightarrow> Inl (pgNoRows env) | Some r \<Rightarrow> Inr r)) tbl of
        (tbl', Inl e) \<Rightarrow> (tbl', Inl (if e = SqlErrNoRows then ErrNotFound
                           else Wrapf ''failed to get review request by token hash'' e))
      | (tbl', Inr r) \<Rightarrow> (tbl', Inr (scan_review r)))"

text \<open>The queries \<open>ApproveReviewRequest\<close> and \<open>RejectReviewRequest\<close>.\<close>

definition decide_row :: "pg_env \<Rightarrow> review_status \<Rightarrow> uuid \<Rightarrow> review_row \<Rightarrow> review_row" where
  "decide_row env status decidedBy r = r\<lparr>rvStatus := status, rvDecidedAt := Some (pgNow env),
     rvDecidedBy := Some decidedBy, rvDecisionReason := None, rvUpdatedAt := pgNow env\<rparr>"

definition DecideReviewRequest ::
  "pg_env \<Rightarrow> review_status \<Rightarrow> uuid \<Rightarrow> uuid \<Rightarrow> uuid \<Rightarrow> (review_table, unit) db_call" where
  "DecideReviewRequest env status tenantID reviewID decidedBy tbl =
     (let Q = (\<lambda>r. pool_sees env r \<and> rvTenantID r = tenantID \<and> rvID r = reviewID
            \<and> rvStatus r = ReviewStatusPending \<and> rvExpiresAt r > pgNow env)
      in if count_rows Q tbl = 0 then (tbl, Inl (pgNoRows env))
         else (update_rows Q (decide_row env status decidedBy) tbl, Inr ()))"

definition expire_direct ::
  "pg_env \<Rightarrow> review_status \<Rightarrow> uuid \<Rightarrow> uuid \<Rightarrow> (review_table, unit) db_call" where
  "expire_direct env status tenantID reviewID tbl =
     (let Q = (\<lambda>r. pool_sees env r \<and> rvTenantID r = tenantID \<and> rvID r = reviewID
            \<and> rvStatus r = ReviewStatusPending)
      in if count_rows Q tbl \<noteq> 0 \<and> status \<notin> {''PENDING'', ''APPROVED'', ''REJECTED'', ''EXPIRED'', ''EXECUTED''}
         then (tbl, Inl (PgError ''23514'' ''check constraint''))
         else (update_rows Q (\<lambda>r. r\<lparr>rvStatus := status, rvUpdatedAt := pgNow env\<rparr>) tbl, Inr ()))"

text \<open>\<open>UpdateStatus\<close>; every caller passes the deciding user.\<close>

definition ReviewRepository_UpdateStatus ::
  "pg_env \<Rightarrow> uuid \<Rightarrow> uuid \<Rightarrow> review_status \<Rightarrow> uuid \<Rightarrow> (review_table, unit) db_call" where
  "ReviewRepository_UpdateStatus env tenantID reviewID status decidedBy = WithTenant env tenantID (\<lambda>tbl.
     case stmt env (if status = ReviewStatusApproved \<or> status = ReviewStatusRejected
                    then DecideReviewRequest env status tenantID reviewID decidedBy
                    else expire_direct env status tenantID reviewID) tbl of
       (tbl', Inl e) \<Rightarrow> (tbl', Inl (if e = SqlErrNoRows then ErrReviewNotPending
                          else Wrapf ''failed to update review status'' e))
     | (tbl', Inr _) \<Rightarrow> (tbl', Inr ()))"

definition MarkExecuted :: "pg_env \<Rightarrow> uuid \<Rightarrow> uuid \<Rightarrow> (review_table, unit) db_call" where
  "MarkExecuted env tenantID reviewID = WithTenant env tenantID (\<lambda>tbl.
     let Q = (\<lambda>r. pool_sees env r \<and> rvTenantID r = tenantID \<and> rvID r = reviewID \<and> rvStatus r = ReviewStatusApproved)
     in case stmt env (\<lambda>tbl. (update_rows Q (\<lambda>r. r\<lparr>rvStatus := ReviewStatusExecuted, rvUpdatedAt := pgNow env\<rparr>) tbl,
               Inr (count_rows Q tbl))) tbl of
       (tbl', Inl e) \<Rightarrow> (tbl', Inl (Wrapf ''failed to mark review executed'' e))
     | (tbl', Inr n) \<Rightarrow> if n = 0 then (tbl', Inl ErrReviewNotPending) else (tbl', Inr ()))"

definition SweepExpiredReviews :: "pg_env \<Rightarrow> uuid \<Rightarrow> (review_table, unit) db_call" where
  "SweepExpiredReviews env tenantID tbl =
     (update_rows (\<lambda>r. pool_sees env r \<and> rvTenantID r = tenantID \<and> rvStatus r = ReviewStatusPending
          \<and> rvExpiresAt r \<le> pgNow env)
        (\<lambda>r. r\<lparr>rvStatus := ReviewStatusExpired, rvUpdatedAt := pgNow env\<rparr>) tbl, Inr ())"

definition minute :: int where "minute = 60000000000"

definition sweep_tenant :: "pg_env \<Rightarrow> uuid \<Rightarrow> (review_table, unit) db_call" where
  "sweep_tenant env tenantID = WithTenant env tenantID (\<lambda>tbl.
     case stmt env (SweepExpiredReviews env tenantID) tbl of
       (tbl', Inl e) \<Rightarrow> (tbl', Inl (Wrapf ''failed to sweep expired reviews for tenant'' e))
     | (tbl', Inr u) \<Rightarrow> (tbl', Inr u))"

definition count_expired :: "pg_env \<Rightarrow> uuid \<Rightarrow> (review_table, int) db_call" where
  "count_expired env tenantID = stmt env (\<lambda>tbl. (tbl, Inr (int (count_rows
     (\<lambda>r. pool_sees env r \<and> rvTenantID r = tenantID \<and> rvStatus r = ReviewStatusExpired
        \<and> rvUpdatedAt r > pgNow env - minute) tbl))))"

text \<open>The loop of \<open>ExpirePending\<close> over the tenants; \<open>E\<close> gives the servers its two
  calls for a tenant meet. It returns the total so far with the error.\<close>

fun sweep_loop ::
  "(uuid \<Rightarrow> pg_env \<times> pg_env) \<Rightarrow> uuid list \<Rightarrow> int \<Rightarrow> review_table \<Rightarrow> review_table \<times> int \<times> go_error option" where
  "sweep_loop E [] totalExpired tbl = (tbl, totalExpired, None)"
| "sweep_loop E (tenantID # ts) totalExpired tbl =
     (case sweep_tenant (fst (E tenantID)) tenantID tbl of
        (tbl', Inl e) \<Rightarrow> (tbl', totalExpired, Some e)
      | (tbl', Inr _) \<Rightarrow> (case count_expired (snd (E tenantID)) tenantID tbl' of
          (tbl'', Inl e) \<Rightarrow> (tbl'', totalExpired, Some e)
        | (tbl'', Inr count) \<Rightarrow> sweep_loop E ts (totalExpired + count) tbl''))"

definition ReviewRepository_ExpirePending ::
  "pg_env \<Rightarrow> (uuid \<Rightarrow> pg_env \<times> pg_env) \<Rightarrow> go_error option \<Rightarrow> review_table \<Rightarrow> review_table \<times> int \<times> go_error option" where
  "ReviewRepository_ExpirePending env E rowsErr tbl =
     (case stmt env (\<lambda>tbl. (tbl, Inr (remdups (map rvTenantID
              (filter (\<lambda>r. pool_sees env r \<and> rvStatus r = ReviewStatusPending) tbl))))) tbl of
        (tbl', Inl e) \<Rightarrow> (tbl', 0, Some (Wrapf ''failed to get tenants with pending reviews'' e))
      | (tbl', Inr tenants) \<Rightarrow> (case sweep_loop E tenants 0 tbl' of
          (tbl'', n, Some e) \<Rightarrow> (tbl'', n, Some e)
        | (tbl'', n, None) \<Rightarrow> (tbl'', n, rowsErr)))"

subsection \<open>The use case\<close>

record hitl_state =
  hsReviews :: review_table
  hsAudit :: audit_table

text \<open>What one use-case call meets: the servers of its database calls in the order
  it makes them (the repository runs with the background context), the server of the
  audit append, the clock it reads and the random values it draws.\<close>

record hitl_env =
  heFirst :: pg_env
  heUpdate :: pg_env
  heReload :: pg_env
  heAppend :: pg_env
  heNow :: time
  heRandom :: "byte list"
  heNewID :: uuid
  heAuditID :: uuid

definition background :: "pg_env \<Rightarrow> pg_env" where
  "background env = env\<lparr>pgCtxErr := None\<rparr>"

definition on_reviews :: "(review_table, 'a) db_call \<Rightarrow> (hitl_state, 'a) db_call" where
  "on_reviews f s = (case f (hsReviews s) of (tbl, x) \<Rightarrow> (s\<lparr>hsReviews := tbl\<rparr>, x))"

text \<open>An audit event whose append fails is lost.\<close>

definition emit :: "hitl_lib \<Rightarrow> hitl_env \<Rightarrow> AuditEvent \<Rightarrow> hitl_state \<Rightarrow> hitl_state" where
  "emit L e ev s = s\<lparr>hsAudit := fst (Append (hlAudit L) (background (heAppend e)) (heAuditID e) ev (hsAudit s))\<rparr>"

definition json_pair :: "string \<Rightarrow> string \<Rightarrow> string" where
  "json_pair k v = dq @ k @ dq @ '':'' @ dq @ v @ dq"

definition review_event ::
  "hitl_env \<Rightarrow> uuid \<Rightarrow> uuid \<Rightarrow> string \<Rightarrow> uuid \<Rightarrow> string \<Rightarrow> AuditEvent" where
  "review_event e tenant actor act review payload = \<lparr>
     aeID = zero_uuid, aeTenantID = tenant, aeSeq = 0, aePrevHash = [], aeChainHash = [],
     aeActorUserID = Some actor, aeAction = act, aeEntityType = ''review_request'',
     aeEntityID = Some review, aePayload = payload, aeSeverity = AuditSeverityInfo,
     aeCreatedAt = heNow e \<rparr>"

record CreateReviewInput =
  ciTenantID :: uuid
  ciRequesterID :: uuid
  ciAction :: string
  ciPayload :: "(string \<times> json) list"
  ciReviewerID :: "uuid option"
  ciTTL :: int

definition hour :: int where "hour = 60 * minute"

definition review_ttl :: "int \<Rightarrow> int \<Rightarrow> int" where
  "review_ttl defaultTTL ttl =
     (let ttl' = (if ttl = 0 then defaultTTL else ttl) in if ttl' = 0 then 24 * hour else ttl')"

definition new_review :: "int \<Rightarrow> hitl_env \<Rightarrow> CreateReviewInput \<Rightarrow> string \<Rightarrow> ReviewRequest" where
  "new_review defaultTTL e inp payloadBytes = \<lparr>
     rrID = zero_uuid, rrTenantID = ciTenantID inp, rrRequesterID = ciRequesterID inp,
     rrReviewerID = ciReviewerID inp, rrTokenHash = [], rrAction = ciAction inp,
     rrPayload = payloadBytes, rrStatus = ReviewStatusPending,
     rrExpiresAt = heNow e + review_ttl defaultTTL (ciTTL inp),
     rrDecidedAt = None, rrDecidedBy = None, rrDecisionReason = [], rrCreatedAt = 0, rrUpdatedAt = 0 \<rparr>"

definition CreateReview ::
  "hitl_lib \<Rightarrow> int \<Rightarrow> hitl_env \<Rightarrow> CreateReviewInput \<Rightarrow> (hitl_state, ReviewRequest \<times> string) db_call" where
  "CreateReview L defaultTTL e inp s =
     (case hlMarshal L (ciPayload inp) of
        None \<Rightarrow> (s, Inl (Errorf ''failed to marshal payload''))
      | Some payloadBytes \<Rightarrow>
        case on_reviews (ReviewRepository_Create L (background (heFirst e)) (heRandom e) (heNewID e)
               (new_review defaultTTL e inp payloadBytes)) s of
          (s', Inl err) \<Rightarrow> (s', Inl (Wrapf ''failed to create review'' err))
        | (s', Inr (created, token)) \<Rightarrow>
            (emit L e (review_event e (ciTenantID inp) (ciRequesterID inp) ''review.created'' (rrID created)
               (''{'' @ json_pair ''review_id'' (UUID_String (rrID created)) @ '',''
                  @ json_pair ''action'' (ciAction inp) @ ''}'')) s',
             Inr (created, token)))"

text \<open>\<open>GetStatus\<close> keeps the request's context.\<close>

definition GetStatus :: "hitl_lib \<Rightarrow> pg_env \<Rightarrow> uuid \<Rightarrow> uuid \<Rightarrow> (hitl_state, ReviewRequest) db_call" where
  "GetStatus L env tenantID reviewID = on_reviews (ReviewRepository_GetByID L env tenantID reviewID)"

definition rejectWithReason ::
  "hitl_env \<Rightarrow> ReviewRequest \<Rightarrow> uuid \<Rightarrow> (hitl_state, unit) db_call" where
  "rejectWithReason e review decidedBy = on_reviews (ReviewRepository_UpdateStatus (background (heUpdate e))
     (rrTenantID review) (rrID review) ReviewStatusRejected decidedBy)"

text \<open>A stub in the source: every payload passes.\<close>

definition revalidateResourceIDs :: "uuid \<Rightarrow> (string \<times> json) list \<Rightarrow> go_error option" where
  "revalidateResourceIDs tenantID payload = None"

definition decision_payload :: "ReviewRequest \<Rightarrow> string \<Rightarrow> string" where
  "decision_payload review reason = ''{'' @ json_pair ''review_id'' (UUID_String (rrID review)) @ '',''
     @ json_pair ''action'' (rrAction review) @ '','' @ json_pair ''decision_reason'' reason @ ''}''"

text \<open>The tail \<open>Approve\<close> and \<open>Reject\<close> share: the transition, the reload and the
  audit event.\<close>

definition settle ::
  "hitl_lib \<Rightarrow> hitl_env \<Rightarrow> ReviewRequest \<Rightarrow> review_status \<Rightarrow> string \<Rightarrow> string \<Rightarrow> uuid \<Rightarrow> string \<Rightarrow> (hitl_state, ReviewRequest) db_call" where
  "settle L e review status verb verbed decidedBy reason s =
     (case on_reviews (ReviewRepository_UpdateStatus (background (heUpdate e)) (rrTenantID review) (rrID review)
             status decidedBy) s of
        (s', Inl err) \<Rightarrow> (s', Inl (if err = ErrReviewNotPending then ErrReviewNotPending
                            else Wrapf (''failed to '' @ verb @ '' review'') err))
      | (s', Inr _) \<Rightarrow>
          case on_reviews (ReviewRepository_GetByID L (background (heReload e)) (rrTenantID review) (rrID review)) s' of
            (s'', Inl err) \<Rightarrow> (s'', Inl (Wrapf (''failed to get '' @ verbed @ '' review'') err))
          | (s'', Inr decided) \<Rightarrow>
              (emit L e (review_event e (rrTenantID review) decidedBy (''review.'' @ verbed) (rrID review)
                 (decision_payload review reason)) s'', Inr decided))"

definition Approve ::
  "hitl_lib \<Rightarrow> hitl_env \<Rightarrow> string \<Rightarrow> uuid \<Rightarrow> string \<Rightarrow> (hitl_state, ReviewRequest) db_call" where
  "Approve L e token decidedBy reason s =
     (let tokenHash = hashToken L token in
      case on_reviews (GetByTokenHash (background (heFirst e)) tokenHash) s of
        (s', Inl err) \<Rightarrow> (s', Inl (if err = ErrNotFound then ErrInvalidToken else Wrapf ''failed to get review'' err))
      | (s', Inr review) \<Rightarrow>
        case hex_decode (rrTokenHash review) of
          Inl _ \<Rightarrow> (s', Inl ErrInvalidToken)
        | Inr storedHashBytes \<Rightarrow>
          if storedHashBytes \<noteq> tokenHash then (s', Inl ErrInvalidToken)
          else if rrStatus review \<noteq> ReviewStatusPending then (s', Inl ErrReviewNotPending)
          else if Review_IsExpired (heNow e) review then (s', Inl ErrExpired)
          else case hlDecode L (rrPayload review) of
            None \<Rightarrow> (fst (rejectWithReason e review decidedBy s'), Inl ErrValidation)
          | Some payloadMap \<Rightarrow>
            if rrAction review = [] then (fst (rejectWithReason e review decidedBy s'), Inl ErrValidation)
            else case revalidateResourceIDs (rrTenantID review) payloadMap of
              Some err \<Rightarrow> (fst (rejectWithReason e review decidedBy s'), Inl ErrValidation)
            | None \<Rightarrow> settle L e review ReviewStatusApproved ''approve'' ''approved'' decidedBy reason s')"

text \<open>\<open>Reject\<close> compares the bytes of the hexadecimal text with the raw digest.\<close>

definition Reject ::
  "hitl_lib \<Rightarrow> hitl_env \<Rightarrow> string \<Rightarrow> uuid \<Rightarrow> string \<Rightarrow> (hitl_state, ReviewRequest) db_call" where
  "Reject L e token decidedBy reason s =
     (let tokenHash = hashToken L token in
      case on_reviews (GetByTokenHash (background (heFirst e)) tokenHash) s of
        (s', Inl err) \<Rightarrow> (s', Inl (if err = ErrNotFound then ErrInvalidToken else Wrapf ''failed to get review'' err))
      | (s', Inr review) \<Rightarrow>
          if map of_char (rrTokenHash review) \<noteq> tokenHash then (s', Inl ErrInvalidToken)
          else if rrStatus review \<noteq> ReviewStatusPending then (s', Inl ErrReviewNotPending)
          else if Review_IsExpired (heNow e) review then (s', Inl ErrExpired)
          else settle L e review ReviewStatusRejected ''reject'' ''rejected'' decidedBy reason s')"

definition Execute ::
  "hitl_lib \<Rightarrow> hitl_env \<Rightarrow> uuid \<Rightarrow> uuid \<Rightarrow> uuid \<Rightarrow> (hitl_state, ReviewRequest) db_call" where
  "Execute L e tenantID reviewID actorID s =
     (case on_reviews (ReviewRepository_GetByID L (background (heFirst e)) tenantID reviewID) s of
        (s', Inl err) \<Rightarrow> (s', Inl err)
      | (s', Inr review) \<Rightarrow>
          if rrStatus review \<noteq> ReviewStatusApproved then (s', Inl ErrReviewNotPending)
          else case on_reviews (MarkExecuted (background (heUpdate e)) tenantID reviewID) s' of
            (s'', Inl err) \<Rightarrow> (s'', Inl (Wrapf ''failed to mark review executed'' err))
          | (s'', Inr _) \<Rightarrow>
            case on_reviews (ReviewRepository_GetByID L (background (heReload e)) tenantID reviewID) s'' of
              (s3, Inl err) \<Rightarrow> (s3, Inl (Wrapf ''failed to get executed review'' err))
            | (s3, Inr executed) \<Rightarrow>
                (emit L e (review_event e tenantID actorID ''review.executed'' reviewID
                   (''{'' @ json_pair ''review_id'' (UUID_String reviewID) @ '',''
                      @ json_pair ''action'' (rrAction review) @ ''}'')) s3, Inr executed))"

text \<open>The sweep keeps its caller's context, and logs a summary under a tenant id of
  its own making.\<close>

definition ExpirePending ::
  "hitl_lib \<Rightarrow> hitl_env \<Rightarrow> (uuid \<Rightarrow> pg_env \<times> pg_env) \<Rightarrow> go_error option \<Rightarrow> (hitl_state, int) db_call" where
  "ExpirePending L e E rowsErr s =
     (case ReviewRepository_ExpirePending (heFirst e) E rowsErr (hsReviews s) of
        (tbl, count, Some err) \<Rightarrow> (s\<lparr>hsReviews := tbl\<rparr>, Inl err)
      | (tbl, count, None) \<Rightarrow>
          let s' = s\<lparr>hsReviews := tbl\<rparr>;
              ev = \<lparr> aeID = zero_uuid, aeTenantID = heNewID e, aeSeq = 0, aePrevHash = [], aeChainHash = [],
                aeActorUserID = None, aeAction = ''review.expired'', aeEntityType = ''review_request'',
                aeEntityID = None, aePayload = ''{'' @ dq @ ''expired_count'' @ dq @ '':'' @ int_text count @ ''}'',
                aeSeverity = AuditSeverityWarn, aeCreatedAt = heNow e \<rparr>
          in ((if count > 0
               then s'\<lparr>hsAudit := fst (Append (hlAudit L) (heAppend e) (heAuditID e) ev (hsAudit s'))\<rparr>
               else s'), Inr count))"

subsection \<open>The life of a review\<close>

definition review_rank :: "review_status \<Rightarrow> nat" where
  "review_rank st = (if st = ReviewStatusPending then 0 else if st = ReviewStatusApproved then 1 else 2)"

interpretation review_flow: status_machine Review_CanTransitionTo
    "\<lambda>st. st \<noteq> ReviewStatusPending \<and> st \<noteq> ReviewStatusApproved" review_rank 2
  by unfold_locales (auto simp: Review_CanTransitionTo_def review_rank_def review_status_defs split: if_splits)

text \<open>What no operation ever changes in a row.\<close>

definition frozen :: "review_row \<Rightarrow> uuid \<times> uuid \<times> uuid \<times> uuid option \<times> string \<times> string \<times> byte list \<times> time \<times> time" where
  "frozen r = (rvID r, rvTenantID r, rvRequesterID r, rvReviewerID r, rvAction r, rvPayload r,
     rvTokenHash r, rvExpiresAt r, rvCreatedAt r)"

definition evolves :: "review_row \<Rightarrow> review_row \<Rightarrow> bool" where
  "evolves r r' = (frozen r' = frozen r \<and> Review_CanTransitionTo\<^sup>*\<^sup>* (rvStatus r) (rvStatus r'))"

definition keeps :: "review_table \<Rightarrow> review_table \<Rightarrow> bool" where
  "keeps tbl tbl' = list_all2 evolves tbl tbl'"

definition review_key :: "review_row \<Rightarrow> uuid \<times> uuid" where
  "review_key r = (rvID r, rvTenantID r)"

definition grows :: "byte list \<Rightarrow> review_table \<Rightarrow> review_table \<Rightarrow> bool" where
  "grows h tbl tbl' = (tbl' = tbl \<or> (\<exists>row. tbl' = tbl @ [row] \<and> rvTokenHash row = h
     \<and> review_key row \<notin> review_key ` set tbl))"

lemma evolves_refl [simp]: "evolves r r"
  by (simp add: evolves_def)

lemma evolves_trans: "evolves r r' \<Longrightarrow> evolves r' r'' \<Longrightarrow> evolves r r''"
  by (auto simp: evolves_def)

lemma evolves_step:
  "frozen r' = frozen r \<Longrightarrow> Review_CanTransitionTo (rvStatus r) (rvStatus r') \<Longrightarrow> evolves r r'"
  by (auto simp: evolves_def)

lemma keeps_refl [simp]: "keeps tbl tbl"
  by (simp add: keeps_def list_all2_same)

lemma keeps_trans: "keeps a b \<Longrightarrow> keeps b c \<Longrightarrow> keeps a c"
  unfolding keeps_def by (rule list_all2_trans[OF evolves_trans])

lemma keeps_update:
  assumes "\<And>r. Q r \<Longrightarrow> evolves r (f r)"
  shows "keeps tbl (update_rows Q f tbl)"
  by (simp add: keeps_def list_all2_conv_all_nth update_rows_def assms)

lemma evolves_sel:
  "evolves r r' \<Longrightarrow> rvTokenHash r' = rvTokenHash r \<and> review_key r' = review_key r"
  by (simp add: evolves_def frozen_def review_key_def)

lemma keeps_map:
  assumes "keeps tbl tbl'"
  shows "map rvTokenHash tbl' = map rvTokenHash tbl" and "map review_key tbl' = map review_key tbl"
  using assms unfolding keeps_def by (induction rule: list_all2_induct) (auto dest: evolves_sel)

lemma keeps_WithTenant:
  "keeps tbl (fst (fn tbl)) \<Longrightarrow> keeps tbl (fst (WithTenant env t fn tbl))"
  using WithTenant_db_cases[of env t fn tbl] by auto

lemma keeps_stmt: "keeps tbl (fst (run tbl)) \<Longrightarrow> keeps tbl (fst (stmt env run tbl))"
  by (simp add: fst_stmt)

lemma grows_Create: "grows (hashToken L (GenerateOpaqueToken rnd)) tbl (fst (ReviewRepository_Create L env rnd i req tbl))"
proof -
  let ?h = "hashToken L (GenerateOpaqueToken rnd)"
  have "grows (rvTokenHash p) tbl (fst (stmt env (CreateReviewRequest L env i p) tbl))" for p
    by (auto simp: grows_def fst_stmt CreateReviewRequest_def Let_def review_key_def list_ex_iff)
  from this[of "review_params req ?h"]
  have "grows ?h tbl (fst (stmt env (CreateReviewRequest L env i (review_params req ?h)) tbl))"
    by (simp add: review_params_def)
  moreover have "grows ?h tbl tbl" by (simp add: grows_def)
  ultimately show ?thesis by (simp add: ReviewRepository_Create_def Let_def fst_WithTenant fst_case_result)
qed

lemma GetByID_pure [simp]: "fst (ReviewRepository_GetByID L env t i tbl) = tbl"
  by (simp add: ReviewRepository_GetByID_def fst_WithTenant fst_case_result fst_stmt)

lemma GetByTokenHash_pure [simp]: "fst (GetByTokenHash env h tbl) = tbl"
  by (simp add: GetByTokenHash_def fst_case_result fst_stmt)

lemma keeps_Decide:
  "status = ReviewStatusApproved \<or> status = ReviewStatusRejected \<Longrightarrow>
    keeps tbl (fst (DecideReviewRequest env status t i by tbl))"
  unfolding DecideReviewRequest_def Let_def
  by (auto intro!: keeps_update evolves_step simp: decide_row_def frozen_def Review_CanTransitionTo_def)

lemma keeps_UpdateStatus:
  assumes "status = ReviewStatusApproved \<or> status = ReviewStatusRejected"
  shows "keeps tbl (fst (ReviewRepository_UpdateStatus env t i status by tbl))"
  unfolding ReviewRepository_UpdateStatus_def
  by (intro keeps_WithTenant) (use assms in \<open>auto simp: fst_case_result intro!: keeps_stmt keeps_Decide\<close>)

lemma keeps_MarkExecuted: "keeps tbl (fst (MarkExecuted env t i tbl))"
proof -
  have *: "fst (case x of (tbl', Inl e) \<Rightarrow> (tbl', Inl (f e)) | (tbl', Inr n) \<Rightarrow> if P n then (tbl', a) else (tbl', b)) = fst x"
    for x :: "review_table \<times> nat result" and f P a b
    by (cases x; cases "snd x") auto
  show ?thesis unfolding MarkExecuted_def Let_def
    by (intro keeps_WithTenant) (auto simp: * frozen_def Review_CanTransitionTo_def review_status_defs
        intro!: keeps_stmt keeps_update evolves_step)
qed

lemma keeps_Sweep: "keeps tbl (fst (SweepExpiredReviews env t tbl))"
  unfolding SweepExpiredReviews_def
  by (auto intro!: keeps_update evolves_step simp: frozen_def Review_CanTransitionTo_def)

lemma keeps_sweep_tenant: "keeps tbl (fst (sweep_tenant env t tbl))"
  unfolding sweep_tenant_def by (intro keeps_WithTenant) (simp add: fst_case_result keeps_stmt keeps_Sweep)

lemma count_expired_pure [simp]: "fst (count_expired env t tbl) = tbl"
  by (simp add: count_expired_def fst_stmt)

lemma keeps_sweep_loop: "keeps tbl (fst (sweep_loop E ts n tbl))"
proof (induction ts arbitrary: n tbl)
  case (Cons t ts)
  obtain tbl' y where x: "sweep_tenant (fst (E t)) t tbl = (tbl', y)" by fastforce
  obtain z where z: "count_expired (snd (E t)) t tbl' = (tbl', z)"
    by (metis count_expired_pure prod.collapse)
  have k: "keeps tbl tbl'" using keeps_sweep_tenant[of tbl "fst (E t)" t] by (simp add: x)
  show ?case
    using k keeps_trans[OF k Cons.IH] by (auto simp: x z split: sum.splits)
qed simp

lemma keeps_ExpirePending: "keeps tbl (fst (ReviewRepository_ExpirePending env E rowsErr tbl))"
proof (cases "first_err [pgCtxErr env, pgStmtErr env]")
  case None
  have "fst (case x of (t, n, Some e) \<Rightarrow> (t, n, Some e) | (t, n, None) \<Rightarrow> (t, n, rowsErr)) = fst x"
    for x :: "review_table \<times> int \<times> go_error option"
    by (cases x) (auto split: option.splits)
  then show ?thesis using None keeps_sweep_loop by (simp add: ReviewRepository_ExpirePending_def stmt_def)
qed (simp add: ReviewRepository_ExpirePending_def stmt_def)

subsection \<open>Sequences of operations\<close>

datatype hitl_op =
    OpCreate int hitl_env CreateReviewInput
  | OpApprove hitl_env string uuid string
  | OpReject hitl_env string uuid string
  | OpExecute hitl_env uuid uuid uuid
  | OpExpire hitl_env "uuid \<Rightarrow> pg_env \<times> pg_env" "go_error option"

fun hitl_exec :: "hitl_lib \<Rightarrow> hitl_op \<Rightarrow> hitl_state \<Rightarrow> hitl_state" where
  "hitl_exec L (OpCreate ttl e inp) s = fst (CreateReview L ttl e inp s)"
| "hitl_exec L (OpApprove e token u reason) s = fst (Approve L e token u reason s)"
| "hitl_exec L (OpReject e token u reason) s = fst (Reject L e token u reason s)"
| "hitl_exec L (OpExecute e t i u) s = fst (Execute L e t i u s)"
| "hitl_exec L (OpExpire e E rowsErr) s = fst (ExpirePending L e E rowsErr s)"

definition hitl_run :: "hitl_lib \<Rightarrow> hitl_op list \<Rightarrow> hitl_state \<Rightarrow> hitl_state" where
  "hitl_run L ops s = fold (hitl_exec L) ops s"

lemma on_reviews_sel [simp]:
  "hsReviews (fst (on_reviews f s)) = fst (f (hsReviews s))"
  "hsAudit (fst (on_reviews f s)) = hsAudit s"
  "snd (on_reviews f s) = snd (f (hsReviews s))"
  by (simp_all add: on_reviews_def split: prod.split)

lemma on_reviews_pure: "(\<And>tbl. fst (f tbl) = tbl) \<Longrightarrow> on_reviews f s = (s, snd (f (hsReviews s)))"
  by (simp add: on_reviews_def split: prod.split) (metis fst_conv hitl_state.surjective hitl_state.update_convs(1))

lemmas on_reviews_GetByID [simp] = on_reviews_pure[of "ReviewRepository_GetByID L env t i" for L env t i, OF GetByID_pure]
lemmas on_reviews_GetByTokenHash [simp] = on_reviews_pure[of "GetByTokenHash env h" for env h, OF GetByTokenHash_pure]

lemma emit_reviews [simp]: "hsReviews (emit L e ev s) = hsReviews s"
  by (simp add: emit_def)

lemma keeps_settle:
  assumes "status = ReviewStatusApproved \<or> status = ReviewStatusRejected"
  shows "keeps (hsReviews s) (hsReviews (fst (settle L e review status verb verbed u reason s)))"
proof -
  let ?x = "on_reviews (ReviewRepository_UpdateStatus (background (heUpdate e)) (rrTenantID review) (rrID review) status u) s"
  obtain s' y where x: "?x = (s', y)" by fastforce
  have "keeps (hsReviews s) (hsReviews (fst ?x))"
    using keeps_UpdateStatus[OF assms] by simp
  then have "keeps (hsReviews s) (hsReviews s')" by (simp add: x)
  then show ?thesis by (auto simp: settle_def x split: sum.splits)
qed

lemma keeps_rejectWithReason: "keeps (hsReviews s) (hsReviews (fst (rejectWithReason e review u s)))"
  by (simp add: rejectWithReason_def keeps_UpdateStatus)

lemma keeps_Approve: "keeps (hsReviews s) (hsReviews (fst (Approve L e token u reason s)))"
  unfolding Approve_def Let_def
  by (auto simp: keeps_settle keeps_rejectWithReason split: sum.splits option.splits)

lemma keeps_Reject: "keeps (hsReviews s) (hsReviews (fst (Reject L e token u reason s)))"
  unfolding Reject_def Let_def by (auto simp: keeps_settle split: sum.splits)

lemma keeps_Execute: "keeps (hsReviews s) (hsReviews (fst (Execute L e t i u s)))"
proof -
  let ?x = "on_reviews (MarkExecuted (background (heUpdate e)) t i) s"
  obtain s' y where x: "?x = (s', y)" by fastforce
  have "keeps (hsReviews s) (hsReviews (fst ?x))" using keeps_MarkExecuted by simp
  then have "keeps (hsReviews s) (hsReviews s')" by (simp add: x)
  then show ?thesis by (auto simp: Execute_def x split: sum.splits)
qed

lemma grows_CreateReview:
  "grows (hashToken L (GenerateOpaqueToken (heRandom e))) (hsReviews s) (hsReviews (fst (CreateReview L ttl e inp s)))"
proof (cases "hlMarshal L (ciPayload inp)")
  case (Some p)
  let ?x = "on_reviews (ReviewRepository_Create L (background (heFirst e)) (heRandom e) (heNewID e) (new_review ttl e inp p)) s"
  obtain s' y where x: "?x = (s', y)" by fastforce
  have "grows (hashToken L (GenerateOpaqueToken (heRandom e))) (hsReviews s) (hsReviews (fst ?x))"
    using grows_Create by simp
  then have "grows (hashToken L (GenerateOpaqueToken (heRandom e))) (hsReviews s) (hsReviews s')" by (simp add: x)
  then show ?thesis by (auto simp: CreateReview_def Some x split: sum.splits prod.splits)
qed (simp add: CreateReview_def grows_def)

lemma keeps_OpExpire: "keeps (hsReviews s) (hsReviews (fst (ExpirePending L e E rowsErr s)))"
  using keeps_ExpirePending[of "hsReviews s" "heFirst e" E rowsErr]
  by (auto simp: ExpirePending_def Let_def split: prod.splits option.splits)

text \<open>The digests of the tokens a sequence of operations may hand out.\<close>

fun op_hashes :: "hitl_lib \<Rightarrow> hitl_op \<Rightarrow> byte list list" where
  "op_hashes L (OpCreate ttl e inp) = [hashToken L (GenerateOpaqueToken (heRandom e))]"
| "op_hashes L _ = []"

definition drawn :: "hitl_lib \<Rightarrow> hitl_op list \<Rightarrow> byte list list" where
  "drawn L ops = concat (map (op_hashes L) ops)"

lemma hitl_exec_cases:
  obtains (same) "keeps (hsReviews s) (hsReviews (hitl_exec L op s))"
  | (more) h row where "op_hashes L op = [h]" "hsReviews (hitl_exec L op s) = hsReviews s @ [row]"
      "rvTokenHash row = h" "review_key row \<notin> review_key ` set (hsReviews s)"
proof (cases op)
  case (OpCreate ttl e inp)
  then show thesis
    using grows_CreateReview[of L e s ttl inp] same more by (auto simp: grows_def)
qed (use same in \<open>simp_all add: keeps_Approve keeps_Reject keeps_Execute keeps_OpExpire\<close>)

lemma hitl_run_simps [simp]:
  "hitl_run L [] s = s" "hitl_run L (op # ops) s = hitl_run L ops (hitl_exec L op s)"
  "hitl_run L (ops @ ops') s = hitl_run L ops' (hitl_run L ops s)"
  by (simp_all add: hitl_run_def)

lemma hitl_run_nth:
  "i < length (hsReviews s) \<Longrightarrow> i < length (hsReviews (hitl_run L ops s))
    \<and> evolves (hsReviews s ! i) (hsReviews (hitl_run L ops s) ! i)"
proof (induction ops arbitrary: s)
  case (Cons op ops)
  have "i < length (hsReviews (hitl_exec L op s)) \<and> evolves (hsReviews s ! i) (hsReviews (hitl_exec L op s) ! i)"
    by (rule hitl_exec_cases[of s L op])
      (use Cons.prems in \<open>auto simp: keeps_def list_all2_conv_all_nth nth_append\<close>)
  then show ?case using Cons.IH[of "hitl_exec L op s"] evolves_trans by fastforce
qed simp

text \<open>Keys are unique, and the digests in the table were drawn.\<close>

definition reviews_ok :: "byte list list \<Rightarrow> review_table \<Rightarrow> bool" where
  "reviews_ok hs tbl = (distinct (map review_key tbl) \<and> subseq (map rvTokenHash tbl) hs)"

lemma reviews_ok_exec:
  "reviews_ok hs (hsReviews s) \<Longrightarrow> reviews_ok (hs @ op_hashes L op) (hsReviews (hitl_exec L op s))"
  by (rule hitl_exec_cases[of s L op])
    (auto simp: reviews_ok_def keeps_map intro: subseq_rev_drop_many list_emb_append_mono)

lemma reviews_ok_run:
  "reviews_ok hs (hsReviews s) \<Longrightarrow> reviews_ok (hs @ drawn L ops) (hsReviews (hitl_run L ops s))"
proof (induction ops arbitrary: s hs)
  case (Cons op ops)
  from Cons.IH[OF reviews_ok_exec[OF Cons.prems]] show ?case by (simp add: drawn_def)
qed (simp add: drawn_def)

subsection \<open>What an approval takes\<close>

lemma scan_review_sel [simp]:
  "rrTokenHash (scan_review r) = hex_encode (rvTokenHash r)" "rrStatus (scan_review r) = rvStatus r"
  "rrExpiresAt (scan_review r) = rvExpiresAt r" "rrPayload (scan_review r) = rvPayload r"
  "rrAction (scan_review r) = rvAction r" "rrTenantID (scan_review r) = rvTenantID r" "rrID (scan_review r) = rvID r"
  by (simp_all add: scan_review_def)

lemma GetByTokenHash_InrD:
  "snd (GetByTokenHash env h tbl) = Inr review \<Longrightarrow>
    \<exists>r. List.find (\<lambda>r. pool_sees env r \<and> rvTokenHash r = h) tbl = Some r \<and> review = scan_review r"
  by (auto simp: GetByTokenHash_def stmt_def split: option.splits)

lemma UpdateStatus_InrD:
  assumes "snd (ReviewRepository_UpdateStatus env t i status u tbl) = Inr ()"
    and "status = ReviewStatusApproved \<or> status = ReviewStatusRejected"
  shows "\<exists>Q. fst (ReviewRepository_UpdateStatus env t i status u tbl) = update_rows Q (decide_row env status u) tbl
     \<and> (\<exists>r \<in> set tbl. Q r) \<and> (\<forall>r. Q r \<longleftrightarrow> pool_sees env r \<and> review_key r = (i, t)
          \<and> rvStatus r = ReviewStatusPending \<and> rvExpiresAt r > pgNow env)"
proof -
  let ?Q = "\<lambda>r. pool_sees env r \<and> rvTenantID r = t \<and> rvID r = i \<and> rvStatus r = ReviewStatusPending \<and> rvExpiresAt r > pgNow env"
  have ok: "pgCtxErr env = None" "pgBeginErr env = None" "pgGucErr env = None" "pgStmtErr env = None"
    and n: "count_rows ?Q tbl \<noteq> 0"
    using assms
    by (auto simp: ReviewRepository_UpdateStatus_def WithTenant_def stmt_def first_err_def DecideReviewRequest_def Let_def
        split: option.splits prod.splits sum.splits if_splits)
  have "fst (ReviewRepository_UpdateStatus env t i status u tbl) = update_rows ?Q (decide_row env status u) tbl"
    using ok n assms(2) by (auto simp: ReviewRepository_UpdateStatus_def fst_WithTenant fst_case_result stmt_def DecideReviewRequest_def Let_def)
  moreover have "\<exists>r \<in> set tbl. ?Q r" using n by (auto simp: count_rows_0)
  ultimately show ?thesis by (intro exI[of _ ?Q]) (auto simp: review_key_def)
qed

lemma settle_InrD:
  assumes "snd (settle L e review status verb verbed u reason s) = Inr out"
  shows "snd (ReviewRepository_UpdateStatus (background (heUpdate e)) (rrTenantID review) (rrID review) status u (hsReviews s)) = Inr ()"
    and "hsReviews (fst (settle L e review status verb verbed u reason s)) =
      fst (ReviewRepository_UpdateStatus (background (heUpdate e)) (rrTenantID review) (rrID review) status u (hsReviews s))"
proof -
  let ?x = "on_reviews (ReviewRepository_UpdateStatus (background (heUpdate e)) (rrTenantID review) (rrID review) status u) s"
  obtain s' y where x: "?x = (s', y)" by fastforce
  have y: "y = snd ?x" and s': "s' = fst ?x" by (simp_all add: x)
  have "y = Inr ()" using assms by (auto simp: settle_def x split: sum.splits)
  then show "snd (ReviewRepository_UpdateStatus (background (heUpdate e)) (rrTenantID review) (rrID review) status u (hsReviews s)) = Inr ()"
    using y by simp
  have "hsReviews (fst (settle L e review status verb verbed u reason s)) = hsReviews s'"
    using assms by (auto simp: settle_def x split: sum.splits)
  then show "hsReviews (fst (settle L e review status verb verbed u reason s)) =
      fst (ReviewRepository_UpdateStatus (background (heUpdate e)) (rrTenantID review) (rrID review) status u (hsReviews s))"
    using s' by simp
qed

lemma Approve_InrD:
  assumes "snd (Approve L e token u reason s) = Inr out"
  obtains r where "r \<in> set (hsReviews s)" "rvTokenHash r = hashToken L token" "rvStatus r = ReviewStatusPending"
    "heNow e \<le> rvExpiresAt r" "hlDecode L (rvPayload r) \<noteq> None" "rvAction r \<noteq> []"
    "snd (ReviewRepository_UpdateStatus (background (heUpdate e)) (rvTenantID r) (rvID r) ReviewStatusApproved u (hsReviews s)) = Inr ()"
    "hsReviews (fst (Approve L e token u reason s)) =
      fst (ReviewRepository_UpdateStatus (background (heUpdate e)) (rvTenantID r) (rvID r) ReviewStatusApproved u (hsReviews s))"
proof -
  let ?h = "hashToken L token"
  obtain review where g: "snd (GetByTokenHash (background (heFirst e)) ?h (hsReviews s)) = Inr review"
    using assms by (auto simp: Approve_def Let_def split: sum.splits)
  then obtain r where f: "List.find (\<lambda>r. pool_sees (background (heFirst e)) r \<and> rvTokenHash r = ?h) (hsReviews s) = Some r"
    and rv: "review = scan_review r" using GetByTokenHash_InrD by blast
  have r: "r \<in> set (hsReviews s)" "rvTokenHash r = ?h" using f by (auto simp: find_Some_iff)
  have c: "rvStatus r = ReviewStatusPending" "\<not> Review_IsExpired (heNow e) (scan_review r)"
      "hlDecode L (rvPayload r) \<noteq> None" "rvAction r \<noteq> []"
    and a: "Approve L e token u reason s = settle L e (scan_review r) ReviewStatusApproved ''approve'' ''approved'' u reason s"
    using assms g by (auto simp: Approve_def Let_def rv r(2) revalidateResourceIDs_def split: if_splits option.splits)
  from assms have "snd (settle L e (scan_review r) ReviewStatusApproved ''approve'' ''approved'' u reason s) = Inr out"
    by (simp only: a)
  note settle_InrD[OF this]
  then show ?thesis using that[of r] r c by (simp add: a Review_IsExpired_def)
qed

text \<open>A digest no pending review carries is spent.\<close>

definition spent :: "byte list \<Rightarrow> review_table \<Rightarrow> bool" where
  "spent h tbl = list_all (\<lambda>r. rvTokenHash r = h \<longrightarrow> rvStatus r \<noteq> ReviewStatusPending) tbl"

lemma never_pending_again:
  "Review_CanTransitionTo\<^sup>*\<^sup>* a b \<Longrightarrow> a \<noteq> ReviewStatusPending \<Longrightarrow> b \<noteq> ReviewStatusPending"
  by (induction rule: rtranclp_induct) (auto simp: Review_CanTransitionTo_def review_status_defs split: if_splits)

lemma spent_exec:
  assumes "spent h (hsReviews s)" and "h \<notin> set (op_hashes L op)"
  shows "spent h (hsReviews (hitl_exec L op s))"
proof (rule hitl_exec_cases[of s L op])
  assume k: "keeps (hsReviews s) (hsReviews (hitl_exec L op s))"
  show ?thesis
    using k assms(1) unfolding keeps_def spent_def
    by (induction rule: list_all2_induct) (auto simp: evolves_def frozen_def dest: never_pending_again)
qed (use assms in \<open>auto simp: spent_def\<close>)

lemma spent_run: "spent h (hsReviews s) \<Longrightarrow> h \<notin> set (drawn L ops) \<Longrightarrow> spent h (hsReviews (hitl_run L ops s))"
proof (induction ops arbitrary: s)
  case (Cons op ops)
  have "spent h (hsReviews (hitl_exec L op s))" using Cons.prems by (intro spent_exec) (auto simp: drawn_def)
  from Cons.IH[OF this] Cons.prems(2) show ?case by (simp add: drawn_def)
qed simp

lemma spent_refused: "spent (hashToken L token) (hsReviews s) \<Longrightarrow> \<exists>err. snd (Approve L e token u reason s) = Inl err"
proof (rule ccontr)
  assume sp: "spent (hashToken L token) (hsReviews s)" and "\<nexists>err. snd (Approve L e token u reason s) = Inl err"
  then obtain out where "snd (Approve L e token u reason s) = Inr out" by (metis sum.exhaust)
  then show False by (rule Approve_InrD) (use sp in \<open>auto simp: spent_def list_all_iff\<close>)
qed

lemma subseq_distinct: "subseq xs ys \<Longrightarrow> distinct ys \<Longrightarrow> distinct xs"
  by (induction rule: list_emb.induct) (auto dest: list_emb_set)

lemma approved_spent:
  assumes ok: "reviews_ok hs (hsReviews s)" and "distinct hs"
    and ap: "snd (Approve L e token u reason s) = Inr out"
  shows "spent (hashToken L token) (hsReviews (fst (Approve L e token u reason s)))" and "hashToken L token \<in> set hs"
proof -
  let ?tbl = "hsReviews s"
  obtain r where r: "r \<in> set ?tbl" "rvTokenHash r = hashToken L token"
    and up: "snd (ReviewRepository_UpdateStatus (background (heUpdate e)) (rvTenantID r) (rvID r) ReviewStatusApproved u ?tbl) = Inr ()"
    and tbl': "hsReviews (fst (Approve L e token u reason s)) =
      fst (ReviewRepository_UpdateStatus (background (heUpdate e)) (rvTenantID r) (rvID r) ReviewStatusApproved u ?tbl)"
    using Approve_InrD[OF ap] by metis
  have dk: "inj_on review_key (set ?tbl)" using ok by (auto simp: reviews_ok_def distinct_map)
  have sub: "subseq (map rvTokenHash ?tbl) hs" using ok by (simp add: reviews_ok_def)
  then have dh: "inj_on rvTokenHash (set ?tbl)"
    using assms(2) subseq_distinct by (metis distinct_map)
  have "hashToken L token \<in> set (map rvTokenHash ?tbl)" using r by force
  then show "hashToken L token \<in> set hs" by (rule list_emb_set[OF sub]) simp
  obtain Q where q: "fst (ReviewRepository_UpdateStatus (background (heUpdate e)) (rvTenantID r) (rvID r) ReviewStatusApproved u ?tbl)
        = update_rows Q (decide_row (background (heUpdate e)) ReviewStatusApproved u) ?tbl"
      "\<exists>r \<in> set ?tbl. Q r"
    and Qk: "\<And>x. Q x \<Longrightarrow> review_key x = (rvID r, rvTenantID r)"
    using UpdateStatus_InrD[OF up] by blast
  have "Q r" using q(2) Qk dk r(1) by (metis inj_onD review_key_def)
  have "rvStatus x \<noteq> ReviewStatusPending"
    if x: "x \<in> set (update_rows Q (decide_row (background (heUpdate e)) ReviewStatusApproved u) ?tbl)"
      and "rvTokenHash x = hashToken L token" for x
  proof -
    obtain y where y: "y \<in> set ?tbl" "x = (if Q y then decide_row (background (heUpdate e)) ReviewStatusApproved u y else y)"
      using x unfolding in_update_rows by blast
    then have "rvTokenHash y = rvTokenHash r" using that(2) r(2) by (simp add: decide_row_def split: if_splits)
    then have "y = r" using dh y(1) r(1) by (simp add: inj_onD)
    then show ?thesis using y(2) \<open>Q r\<close> by (simp add: decide_row_def review_status_defs)
  qed
  then show "spent (hashToken L token) (hsReviews (fst (Approve L e token u reason s)))"
    unfolding tbl' q(1) by (simp add: spent_def list_all_iff)
qed

subsection \<open>From creation to approval\<close>

lemma CreateReviewRequest_InrD:
  assumes "snd (CreateReviewRequest L env i (review_params req h) tbl) = Inr row"
  shows "fst (CreateReviewRequest L env i (review_params req h) tbl) = tbl @ [row]"
    and "rvTokenHash row = h" "rvStatus row = ReviewStatusPending" "rvAction row = rrAction req"
    and "rvTenantID row = rrTenantID req" "rvReviewerID row = None" "review_key row \<notin> review_key ` set tbl"
  using assms
  by (auto simp: CreateReviewRequest_def Let_def review_params_def review_key_def list_ex_iff split: if_splits)

lemma CreateReview_InrD:
  assumes "snd (CreateReview L ttl e inp s) = Inr (created, token)"
  obtains row where "hsReviews (fst (CreateReview L ttl e inp s)) = hsReviews s @ [row]"
    "created = convertSQLCReviewRequest L row" "rvTokenHash row = hashToken L token"
    "rvStatus row = ReviewStatusPending" "rvAction row = ciAction inp" "rvTenantID row = ciTenantID inp"
    "rvReviewerID row = None" "review_key row \<notin> review_key ` set (hsReviews s)"
proof -
  obtain p where p: "hlMarshal L (ciPayload inp) = Some p"
    using assms by (auto simp: CreateReview_def split: option.splits)
  let ?req = "new_review ttl e inp p" and ?env = "background (heFirst e)"
  let ?f = "ReviewRepository_Create L ?env (heRandom e) (heNewID e) ?req"
  obtain s' y where x: "on_reviews ?f s = (s', y)" by fastforce
  then have y: "y = snd (?f (hsReviews s))" and s': "hsReviews s' = fst (?f (hsReviews s))"
    by (metis on_reviews_sel(3) snd_conv, metis on_reviews_sel(1) fst_conv)
  have "y = Inr (created, token)" using assms by (auto simp: CreateReview_def p x split: sum.splits)
  then have c: "snd (?f (hsReviews s)) = Inr (created, token)" using y by simp
  have h: "hsReviews (fst (CreateReview L ttl e inp s)) = fst (?f (hsReviews s))"
    using s' by (auto simp: CreateReview_def p x split: sum.splits prod.splits)
  let ?h = "hashToken L (GenerateOpaqueToken (heRandom e))"
  let ?g = "stmt ?env (CreateReviewRequest L ?env (heNewID e) (review_params ?req ?h))"
  have w: "pgCtxErr ?env = None" "pgBeginErr ?env = None" "pgGucErr ?env = None"
    and "snd (case ?g (hsReviews s) of
        (tbl', Inl e) \<Rightarrow> (tbl', Inl (Wrapf ''failed to create review request'' e))
      | (tbl', Inr row) \<Rightarrow> (tbl', Inr (convertSQLCReviewRequest L row, GenerateOpaqueToken (heRandom e)))) = Inr (created, token)"
    using WithTenant_answered[OF c[unfolded ReviewRepository_Create_def Let_def]] by simp_all
  then obtain row where g: "snd (?g (hsReviews s)) = Inr row" and t: "token = GenerateOpaqueToken (heRandom e)"
    and cr: "created = convertSQLCReviewRequest L row"
    by (auto split: prod.splits sum.splits)
  note row = stmt_answered[OF g]
  have ins: "snd (CreateReviewRequest L ?env (heNewID e) (review_params ?req ?h) (hsReviews s)) = Inr row" using row by simp
  note new = CreateReviewRequest_InrD[OF ins]
  have "fst (?f (hsReviews s)) = hsReviews s @ [row]"
    using w row new(1) by (simp add: ReviewRepository_Create_def Let_def fst_WithTenant fst_case_result fst_stmt)
  then show thesis
    using cr new(2-) by (intro that[of row]) (simp_all add: h t new_review_def)
qed

text \<open>The servers of a call answer, and let the pool see the tenant's rows.\<close>

definition served :: "uuid \<Rightarrow> pg_env \<Rightarrow> bool" where
  "served t env = (calm (background env) \<and> rls_ok env (pgPoolGuc env) t)"

lemma served_sees: "served (rvTenantID r) env \<Longrightarrow> pool_sees (background env) r"
  by (simp add: served_def pool_sees_def rls_ok_def background_def)

lemma find_fresh_key:
  "review_key row \<notin> review_key ` set T \<Longrightarrow> pool_sees env row \<Longrightarrow>
    List.find (\<lambda>r. pool_sees env r \<and> rvTenantID r = rvTenantID row \<and> rvID r = rvID row) (T @ [row]) = Some row"
  by (induction T) (auto simp: review_key_def)

lemma settle_fresh:
  assumes "hsReviews s = T @ [row]" and "review_key row \<notin> review_key ` set T"
    and "rvStatus row = ReviewStatusPending" and "pgNow (heUpdate e) < rvExpiresAt row"
    and "served (rvTenantID row) (heUpdate e)" and "served (rvTenantID row) (heReload e)"
    and "status = ReviewStatusApproved \<or> status = ReviewStatusRejected"
  shows "snd (settle L e (scan_review row) status verb verbed u reason s) =
    Inr (convertSQLCReviewRequest L (decide_row (background (heUpdate e)) status u row))"
proof -
  let ?env = "background (heUpdate e)" and ?env' = "background (heReload e)"
  let ?row = "decide_row ?env status u row"
  let ?Q = "\<lambda>r. pool_sees ?env r \<and> rvTenantID r = rvTenantID row \<and> rvID r = rvID row
      \<and> rvStatus r = ReviewStatusPending \<and> rvExpiresAt r > pgNow ?env"
  have calm: "calm ?env" "calm ?env'" using assms(5,6) by (simp_all add: served_def)
  have q: "?Q row" using assms(3,4) served_sees[OF assms(5)] by (simp add: background_def)
  have "update_rows ?Q (decide_row ?env status u) T = T"
    using assms(2) by (intro update_rows_id) (auto simp: review_key_def image_iff)
  then have u: "ReviewRepository_UpdateStatus ?env (rvTenantID row) (rvID row) status u (T @ [row]) = (T @ [?row], Inr ())"
    using q assms(7) calm(1)
    by (auto simp: ReviewRepository_UpdateStatus_def WithTenant_calm stmt_calm DecideReviewRequest_def Let_def)
  have "review_key ?row \<notin> review_key ` set T" "pool_sees ?env' ?row"
    using assms(2) served_sees[OF assms(6)] by (simp_all add: review_key_def decide_row_def pool_sees_def)
  from find_fresh_key[OF this]
  have g: "ReviewRepository_GetByID L ?env' (rvTenantID row) (rvID row) (T @ [?row])
      = (T @ [?row], Inr (convertSQLCReviewRequest L ?row))"
    using calm(2) by (simp add: ReviewRepository_GetByID_def WithTenant_calm stmt_calm decide_row_def)
  show ?thesis using u g by (simp add: settle_def on_reviews_def assms(1))
qed

text \<open>Two gaps of the use case. The assigned reviewer of a request is never stored;
  and a decision reason that breaks the hand-made JSON text of the audit event (a quotation
  mark is enough) loses the event, since the append fails and its error is only logged.\<close>

lemma assigned_reviewer_dropped:
  "snd (CreateReview L ttl e inp s) = Inr (created, token) \<Longrightarrow> rrReviewerID created = None"
  by (erule CreateReview_InrD) (simp add: convertSQLCReviewRequest_def)

lemma Append_not_json:
  "alCanon L (aePayload ev) = None \<Longrightarrow> aePayload ev \<noteq> [] \<Longrightarrow> fst (Append L env i ev tbl) = tbl"
  by (auto simp: Append_def WithTenantTx_def AppendWithTx_def canonicalizePayload_def Let_def split: option.splits)

lemma decision_unlogged:
  assumes "\<And>r. alCanon (hlAudit L) (decision_payload r reason) = None"
  shows "hsAudit (fst (Approve L e token u reason s)) = hsAudit s"
proof -
  have e: "hsAudit (emit L e (review_event e t a act i (decision_payload r reason)) s) = hsAudit s" for t a act i r s
    using assms by (simp add: emit_def Append_not_json review_event_def decision_payload_def)
  have st: "hsAudit (fst (settle L e review status verb verbed u reason s)) = hsAudit s" for review status verb verbed
  proof -
    let ?x = "on_reviews (ReviewRepository_UpdateStatus (background (heUpdate e)) (rrTenantID review) (rrID review) status u) s"
    obtain s' y where x: "?x = (s', y)" by fastforce
    then have "hsAudit s' = hsAudit s" by (metis fst_conv on_reviews_sel(2))
    then show ?thesis by (auto simp: settle_def x e split: sum.splits)
  qed
  show ?thesis
    by (auto simp: Approve_def Let_def st rejectWithReason_def split: sum.splits option.splits)
qed

subsection \<open>Properties\<close>

definition demo_hitl :: hitl_lib where
  "demo_hitl = \<lparr> hlAudit = short_lib, hlMarshal = (\<lambda>m. Some ''{}''), hlDecode = (\<lambda>s. Some []) \<rparr>"

definition demo_server :: pg_env where
  "demo_server = quiet_env\<lparr>pgPoolGuc := Some zero_uuid\<rparr>"

definition demo_call :: hitl_env where
  "demo_call = \<lparr> heFirst = demo_server, heUpdate = demo_server, heReload = demo_server, heAppend = demo_server,
     heNow = 60, heRandom = [1, 2, 3], heNewID = zero_uuid, heAuditID = zero_uuid \<rparr>"

definition demo_input :: CreateReviewInput where
  "demo_input = \<lparr> ciTenantID = zero_uuid, ciRequesterID = zero_uuid, ciAction = ''tool:execute'', ciPayload = [],
     ciReviewerID = Some zero_uuid, ciTTL = 0 \<rparr>"

definition empty_state :: hitl_state where
  "empty_state = \<lparr> hsReviews = [], hsAudit = [] \<rparr>"

lemma demo_created:
  "\<exists>created. snd (CreateReview demo_hitl 0 demo_call demo_input empty_state) = Inr (created, ''010203'')
     \<and> rrExpiresAt created = 60 + 24 * hour"
  by (simp add: CreateReview_def demo_hitl_def empty_state_def on_reviews_def ReviewRepository_Create_def Let_def
      demo_call_def demo_server_def background_def quiet_env_def WithTenant_def stmt_def CreateReviewRequest_def
      review_params_def new_review_def demo_input_def pool_sees_def rls_ok_def short_lib_def demo_lib_def
      GenerateOpaqueToken_def hex_encode_def hex_byte_def hex_char_def hex_digits_def review_ttl_def convertSQLCReviewRequest_def)

lemma demo_approved:
  "\<not> isl (snd (Approve demo_hitl demo_call ''010203'' zero_uuid []
     (hitl_run demo_hitl [OpCreate 0 demo_call demo_input] empty_state)))"
  by code_simp

text \<open>Through any sequence of creations, approvals, rejections, executions and sweeps, with
  any failures of the database, no review is ever lost, nothing about what was asked for changes,
  and its status only moves along the transitions \<open>CanTransitionTo\<close> allows.\<close>

theorem review_lifecycle:
  assumes "i < length (hsReviews s)"
  shows "let rows' = hsReviews (hitl_run L ops s); r = hsReviews s ! i; r' = rows' ! i in
    i < length rows' \<and> frozen r' = frozen r \<and> Review_CanTransitionTo\<^sup>*\<^sup>* (rvStatus r) (rvStatus r')"
  using hitl_run_nth[OF assms, of L ops] by (simp add: Let_def evolves_def)

theorem review_lifecycle_witness:
  "let s = hitl_run demo_hitl [OpCreate 0 demo_call demo_input] empty_state;
       rows' = hsReviews (hitl_run demo_hitl [OpApprove demo_call ''010203'' zero_uuid []] s) in
    0 < length (hsReviews s) \<and> frozen (rows' ! 0) = frozen (hsReviews s ! 0)"
proof -
  let ?s = "hitl_run demo_hitl [OpCreate 0 demo_call demo_input] empty_state"
  have "hsReviews ?s \<noteq> []"
    using demo_created by (auto elim!: CreateReview_InrD)
  then show ?thesis
    using review_lifecycle[of 0 ?s demo_hitl "[OpApprove demo_call ''010203'' zero_uuid []]"]
    by (simp add: Let_def)
qed

text \<open>C8: A review token approves at most once: after an approval, whatever happens next,
  every further approval with the same token is refused, provided no two of the random tokens drawn
  have the same digest.\<close>

theorem approve_single_use:
  assumes "hsReviews init = []" and "s = hitl_run L before init"
    and "distinct (drawn L before @ drawn L after)"
    and "snd (Approve L e token u reason s) = Inr out"
  shows "\<exists>err. snd (Approve L e' token u' reason' (hitl_run L after (fst (Approve L e token u reason s)))) = Inl err"
proof -
  have "reviews_ok ([] @ drawn L before) (hsReviews s)"
    unfolding assms(2) by (rule reviews_ok_run) (simp add: assms(1) reviews_ok_def)
  then have ok: "reviews_ok (drawn L before) (hsReviews s)" by simp
  have d: "distinct (drawn L before)" using assms(3) by simp
  note sp = approved_spent[OF ok d assms(4)]
  have "hashToken L token \<notin> set (drawn L after)" using sp(2) assms(3) by auto
  from spent_refused[OF spent_run[OF sp(1) this]] show ?thesis .
qed

theorem approve_single_use_witness:
  "let s = hitl_run demo_hitl [OpCreate 0 demo_call demo_input] empty_state;
       s' = fst (Approve demo_hitl demo_call ''010203'' zero_uuid [] s) in
   \<not> isl (snd (Approve demo_hitl demo_call ''010203'' zero_uuid [] s))
   \<and> (\<exists>err. snd (Approve demo_hitl demo_call ''010203'' zero_uuid [] s') = Inl err)"
proof -
  let ?s = "hitl_run demo_hitl [OpCreate 0 demo_call demo_input] empty_state"
  obtain out where "snd (Approve demo_hitl demo_call ''010203'' zero_uuid [] ?s) = Inr out"
    using demo_approved by (metis sum.collapse(2))
  then show ?thesis
    using approve_single_use[of empty_state ?s demo_hitl "[OpCreate 0 demo_call demo_input]" "[]" demo_call "''010203''"]
      demo_approved
    by (simp add: Let_def empty_state_def drawn_def)
qed

text \<open>The token \<open>CreateReview\<close> returns works: as long as the review has not expired and the
  stored payload still decodes, \<open>Approve\<close> with that token approves this review, in the name of
  the user who presents it.\<close>

theorem create_then_approve:
  assumes "snd (CreateReview L ttl e inp s) = Inr (created, token)"
    and "hashToken L token \<notin> rvTokenHash ` set (hsReviews s)"
    and "list_all (served (ciTenantID inp)) [heFirst e', heUpdate e', heReload e']"
    and "heNow e' \<le> rrExpiresAt created" and "pgNow (heUpdate e') < rrExpiresAt created"
    and "hlDecode L (rrPayload created) \<noteq> None" and "ciAction inp \<noteq> []"
  shows "\<exists>out. snd (Approve L e' token u reason (fst (CreateReview L ttl e inp s))) = Inr out
    \<and> rrID out = rrID created \<and> rrTenantID out = ciTenantID inp
    \<and> rrStatus out = ReviewStatusApproved \<and> rrDecidedBy out = Some u"
proof -
  obtain row where T: "hsReviews (fst (CreateReview L ttl e inp s)) = hsReviews s @ [row]"
    and cr: "created = convertSQLCReviewRequest L row" and h: "rvTokenHash row = hashToken L token"
    and st: "rvStatus row = ReviewStatusPending" "rvAction row = ciAction inp" "rvTenantID row = ciTenantID inp"
    and k: "review_key row \<notin> review_key ` set (hsReviews s)"
    using CreateReview_InrD[OF assms(1)] by metis
  have sv: "served (rvTenantID row) (heFirst e')" "served (rvTenantID row) (heUpdate e')" "served (rvTenantID row) (heReload e')"
    using assms(3) st by simp_all
  have ex: "heNow e' \<le> rvExpiresAt row" "pgNow (heUpdate e') < rvExpiresAt row" "hlDecode L (rvPayload row) \<noteq> None"
    using assms(4-6) by (simp_all add: cr convertSQLCReviewRequest_def)
  have "List.find (\<lambda>r. pool_sees (background (heFirst e')) r \<and> rvTokenHash r = hashToken L token) (hsReviews s) = None"
    using assms(2) by (auto simp: find_None_iff image_iff)
  then have "List.find (\<lambda>r. pool_sees (background (heFirst e')) r \<and> rvTokenHash r = hashToken L token) (hsReviews s @ [row]) = Some row"
    using served_sees[OF sv(1)] h by (simp add: find_append)
  then have g: "snd (GetByTokenHash (background (heFirst e')) (hashToken L token) (hsReviews s @ [row])) = Inr (scan_review row)"
    using sv(1) by (simp add: GetByTokenHash_def stmt_calm served_def)
  note settle_fresh[OF T k st(1) ex(2) sv(2,3), of ReviewStatusApproved L "''approve''" "''approved''" u reason]
  then show ?thesis
    using g ex st h assms(7)
    by (auto simp: Approve_def Let_def T Review_IsExpired_def revalidateResourceIDs_def
        convertSQLCReviewRequest_def decide_row_def cr)
qed

theorem create_then_approve_witness:
  "let s = fst (CreateReview demo_hitl 0 demo_call demo_input empty_state) in
    \<exists>out. snd (Approve demo_hitl demo_call ''010203'' zero_uuid [] s) = Inr out \<and> rrStatus out = ReviewStatusApproved"
proof -
  obtain created where c: "snd (CreateReview demo_hitl 0 demo_call demo_input empty_state) = Inr (created, ''010203'')"
    and x: "rrExpiresAt created = 60 + 24 * hour" using demo_created by blast
  have sv: "list_all (served (ciTenantID demo_input)) [heFirst demo_call, heUpdate demo_call, heReload demo_call]"
    by (simp add: served_def calm_def demo_call_def demo_server_def quiet_env_def demo_input_def rls_ok_def background_def)
  show ?thesis
    using create_then_approve[OF c _ sv, of zero_uuid "[]"] x
    by (auto simp: Let_def empty_state_def demo_call_def demo_server_def quiet_env_def hour_def minute_def
        demo_hitl_def demo_input_def)
qed

text \<open>No review can ever be rejected: with digests of 32 bytes, \<open>Reject\<close> refuses every
  token and changes nothing, because it compares the digest with its own hexadecimal text.\<close>

theorem reject_always_refused:
  assumes "\<And>x. length (alSha256 (hlAudit L) x) = 32"
  shows "\<exists>err. Reject L e token u reason s = (s, Inl err)"
proof -
  have len: "length (hex_encode bs) = 2 * length bs" for bs :: "byte list"
    by (induction bs) (simp_all add: hex_encode_def hex_byte_def)
  have "map of_char (rrTokenHash review) \<noteq> hashToken L token"
    if g: "snd (GetByTokenHash env (hashToken L token) tbl) = Inr review" for env tbl review
  proof
    assume "map of_char (rrTokenHash review) = hashToken L token"
    moreover obtain r where "rvTokenHash r = hashToken L token" "review = scan_review r"
      using GetByTokenHash_InrD[OF g] unfolding find_Some_iff by blast
    ultimately have "2 * length (hashToken L token) = length (hashToken L token)"
      by (metis len length_map scan_review_sel(1))
    then show False using assms by (simp add: hashToken_def)
  qed
  then show ?thesis by (auto simp: Reject_def Let_def split: sum.splits)
qed

theorem reject_always_refused_witness:
  "let L = demo_hitl\<lparr>hlAudit := short_lib\<lparr>alSha256 := (\<lambda>x. replicate 32 7)\<rparr>\<rparr> in
    \<exists>err. Reject L demo_call ''010203'' zero_uuid [] (fst (CreateReview L 0 demo_call demo_input empty_state))
      = (fst (CreateReview L 0 demo_call demo_input empty_state), Inl err)"
  unfolding Let_def by (rule reject_always_refused) simp

end
