(* ===== verification/Quota.thy ===== *)
theory Quota
  imports TenantTx "HOL-Library.Char_ord" "HOL-Library.List_Lexorder" "HOL-Library.Product_Lexorder"
begin

text \<open>
  Rate quotas: \<open>src/internal/domain/quota.go\<close>, the table \<open>quotas\<close> behind
  \<open>src/internal/adapter/postgres/quota_repository.go\<close> (queries of
  \<open>queries/quota.sql\<close>, constraints of its migration), and the resolver of
  \<open>src/internal/adapter/redis/ratelimit.go\<close> that turns the quotas of a tenant,
  a user and a role into one limit.
\<close>

subsection \<open>The domain\<close>

definition QuotaScopeTenant :: string where "QuotaScopeTenant = ''tenant''"
definition QuotaScopeUser :: string where "QuotaScopeUser = ''user''"
definition QuotaScopeRole :: string where "QuotaScopeRole = ''role''"

definition BucketTypeRequests :: string where "BucketTypeRequests = ''requests''"
definition BucketTypeTokens :: string where "BucketTypeTokens = ''tokens''"
definition BucketTypeToolExecs :: string where "BucketTypeToolExecs = ''tool_execs''"

lemmas bucket_defs = BucketTypeRequests_def BucketTypeTokens_def BucketTypeToolExecs_def

record Quota =
  quID :: uuid
  quTenantID :: uuid
  quScope :: string
  quScopeID :: uuid
  quRequestsPerMin :: int
  quTokensPerMin :: int
  quToolExecsPerMin :: int
  quCreatedAt :: time
  quUpdatedAt :: time

definition DefaultQuotas :: Quota where
  "DefaultQuotas = \<lparr> quID = zero_uuid, quTenantID = zero_uuid, quScope = [], quScopeID = zero_uuid,
     quRequestsPerMin = 60, quTokensPerMin = 10000, quToolExecsPerMin = 30, quCreatedAt = 0, quUpdatedAt = 0 \<rparr>"

subsection \<open>The repository\<close>

record quota_row =
  qrID :: uuid
  qrTenantID :: uuid
  qrScope :: string
  qrScopeID :: uuid
  qrRequestsPerMin :: "32 word"
  qrTokensPerMin :: "32 word"
  qrToolExecsPerMin :: "32 word"
  qrCreatedAt :: time
  qrUpdatedAt :: time

type_synonym quota_table = "quota_row list"

definition quota_sees :: "pg_env \<Rightarrow> quota_row \<Rightarrow> bool" where
  "quota_sees env r = rls_ok env (pgPoolGuc env) (qrTenantID r)"

definition quota_at :: "uuid \<Rightarrow> string \<Rightarrow> uuid \<Rightarrow> quota_row \<Rightarrow> bool" where
  "quota_at tenantID scope scopeID r = (qrTenantID r = tenantID \<and> qrScope r = scope \<and> qrScopeID r = scopeID)"

definition row_to_quota :: "quota_row \<Rightarrow> Quota" where
  "row_to_quota r = \<lparr> quID = qrID r, quTenantID = qrTenantID r, quScope = qrScope r, quScopeID = qrScopeID r,
     quRequestsPerMin = sint (qrRequestsPerMin r), quTokensPerMin = sint (qrTokensPerMin r),
     quToolExecsPerMin = sint (qrToolExecsPerMin r), quCreatedAt = qrCreatedAt r, quUpdatedAt = qrUpdatedAt r \<rparr>"

text \<open>\<open>Create\<close> fills the quota it was given with what the database chose; here it
  returns it.\<close>

definition QuotaRepository_Create :: "pg_env \<Rightarrow> uuid \<Rightarrow> uuid \<Rightarrow> Quota \<Rightarrow> (quota_table, Quota) db_call" where
  "QuotaRepository_Create env newID tenantID quota = WithTenant env tenantID (stmt env (\<lambda>tbl.
     let row = \<lparr> qrID = newID, qrTenantID = tenantID, qrScope = quScope quota, qrScopeID = quScopeID quota,
           qrRequestsPerMin = word_of_int (quRequestsPerMin quota), qrTokensPerMin = word_of_int (quTokensPerMin quota),
           qrToolExecsPerMin = word_of_int (quToolExecsPerMin quota), qrCreatedAt = pgNow env, qrUpdatedAt = pgNow env \<rparr>
     in if \<not> quota_sees env row then (tbl, Inl (PgError ''42501'' ''row-level security''))
        else if quScope quota \<notin> {''tenant'', ''user'', ''role''} then (tbl, Inl (PgError ''23514'' ''check constraint''))
        else if list_ex (\<lambda>r. qrTenantID r = tenantID \<and> qrID r = newID) tbl
            \<or> list_ex (quota_at tenantID (quScope quota) (quScopeID quota)) tbl
          then (tbl, Inl (PgError ''23505'' ''duplicate key value violates unique constraint''))
        else (tbl @ [row], Inr (quota\<lparr>quID := newID, quTenantID := tenantID,
               quCreatedAt := pgNow env, quUpdatedAt := pgNow env\<rparr>))))"

text \<open>The reads use the background context.\<close>

definition GetByScope :: "pg_env \<Rightarrow> uuid \<Rightarrow> string \<Rightarrow> uuid \<Rightarrow> (quota_table, Quota) db_call" where
  "GetByScope env tenantID scope scopeID = WithTenantBackground env tenantID (\<lambda>env tbl.
     case stmt env (\<lambda>tbl. (tbl, case List.find (\<lambda>r. quota_sees env r \<and> quota_at tenantID scope scopeID r) tbl of
            None \<Rightarrow> Inl (pgNoRows env) | Some r \<Rightarrow> Inr r)) tbl of
       (tbl', Inl e) \<Rightarrow> (tbl', Inl (if e = SqlErrNoRows then ErrNotFound else e))
     | (tbl', Inr r) \<Rightarrow> (tbl', Inr (row_to_quota r)))"

definition ListByTenant :: "pg_env \<Rightarrow> uuid \<Rightarrow> (quota_table, Quota list) db_call" where
  "ListByTenant env tenantID = WithTenantBackground env tenantID (\<lambda>env. stmt env (\<lambda>tbl.
     (tbl, Inr (map row_to_quota (sort_key (\<lambda>r. (qrScope r, map unat (qrScopeID r)))
        (filter (\<lambda>r. quota_sees env r \<and> qrTenantID r = tenantID) tbl))))))"

definition QuotaRepository_Update :: "pg_env \<Rightarrow> uuid \<Rightarrow> Quota \<Rightarrow> (quota_table, Quota) db_call" where
  "QuotaRepository_Update env tenantID quota = WithTenant env tenantID (stmt env (\<lambda>tbl.
     let Q = (\<lambda>r. quota_sees env r \<and> quota_at tenantID (quScope quota) (quScopeID quota) r)
     in if count_rows Q tbl = 0 then (tbl, Inl (pgNoRows env))
        else (update_rows Q (\<lambda>r. r\<lparr>qrRequestsPerMin := word_of_int (quRequestsPerMin quota),
                qrTokensPerMin := word_of_int (quTokensPerMin quota),
                qrToolExecsPerMin := word_of_int (quToolExecsPerMin quota), qrUpdatedAt := pgNow env\<rparr>) tbl,
              Inr (quota\<lparr>quUpdatedAt := pgNow env\<rparr>))))"

definition QuotaRepository_Delete :: "pg_env \<Rightarrow> uuid \<Rightarrow> string \<Rightarrow> uuid \<Rightarrow> (quota_table, unit) db_call" where
  "QuotaRepository_Delete env tenantID scope scopeID = WithTenant env tenantID (stmt env (\<lambda>tbl.
     (filter (\<lambda>r. \<not> (quota_sees env r \<and> quota_at tenantID scope scopeID r)) tbl, Inr ())))"

subsection \<open>The resolver\<close>

definition getBucketLimit :: "Quota \<Rightarrow> string \<Rightarrow> int" where
  "getBucketLimit quota bucketType =
     (if bucketType = BucketTypeRequests then quRequestsPerMin quota
      else if bucketType = BucketTypeTokens then quTokensPerMin quota
      else if bucketType = BucketTypeToolExecs then quToolExecsPerMin quota
      else 0)"

text \<open>The step for one scope: a quota that was read raises the limit, an error is only
  logged.\<close>

definition raise_limit :: "string \<Rightarrow> Quota result \<Rightarrow> int \<Rightarrow> int" where
  "raise_limit bucketType res maxLimit = (case res of
     Inl e \<Rightarrow> maxLimit
   | Inr quota \<Rightarrow> if getBucketLimit quota bucketType > maxLimit then getBucketLimit quota bucketType else maxLimit)"

text \<open>The servers of the three lookups; the fixed window is one minute.\<close>

record quota_env =
  qeTenant :: pg_env
  qeUser :: pg_env
  qeRole :: pg_env

definition one_minute :: duration where "one_minute = 60000000000"

definition GetEffectiveLimit ::
  "quota_env \<Rightarrow> quota_table \<Rightarrow> uuid \<Rightarrow> uuid \<Rightarrow> uuid \<Rightarrow> string \<Rightarrow> (int \<times> duration) result" where
  "GetEffectiveLimit env tbl tenantID userID roleID bucketType =
     (let maxLimit = raise_limit bucketType (snd (GetByScope (qeTenant env) tenantID QuotaScopeTenant zero_uuid tbl)) 0;
          maxLimit = (if IsZero userID then maxLimit
            else raise_limit bucketType (snd (GetByScope (qeUser env) tenantID QuotaScopeUser userID tbl)) maxLimit);
          maxLimit = (if IsZero roleID then maxLimit
            else raise_limit bucketType (snd (GetByScope (qeRole env) tenantID QuotaScopeRole roleID tbl)) maxLimit);
          maxLimit = (if maxLimit = 0 then getBucketLimit DefaultQuotas bucketType else maxLimit)
      in Inr (maxLimit, one_minute))"

subsection \<open>Lemmas\<close>

lemma raise_limit_ge: "maxLimit \<le> raise_limit b res maxLimit"
  by (simp add: raise_limit_def split: sum.split)

lemma raise_limit_quota: "getBucketLimit q b \<le> raise_limit b (Inr q) m"
  by (simp add: raise_limit_def)

text \<open>For the three known buckets the resolver never fails and its limit is positive:
  the limiter's own branch for a missing limit is never reached through it.\<close>

lemma GetEffectiveLimit_positive:
  assumes "b \<in> {BucketTypeRequests, BucketTypeTokens, BucketTypeToolExecs}"
  shows "\<exists>limit. GetEffectiveLimit env tbl t u r b = Inr (limit, one_minute) \<and> 0 < limit"
proof -
  have d: "0 < getBucketLimit DefaultQuotas b"
    using assms by (auto simp: getBucketLimit_def DefaultQuotas_def bucket_defs)
  have "0 \<le> m \<Longrightarrow> 0 \<le> raise_limit b res m" for res m
    using raise_limit_ge[of m b res] by linarith
  then have "\<exists>m \<ge> 0. GetEffectiveLimit env tbl t u r b =
      Inr (if m = 0 then getBucketLimit DefaultQuotas b else m, one_minute)"
    by (auto simp: GetEffectiveLimit_def Let_def)
  then show ?thesis using d by fastforce
qed

text \<open>Highest limit wins: no quota that was read is above the result.\<close>

lemma GetEffectiveLimit_ge_user:
  assumes "snd (GetByScope (qeUser env) t QuotaScopeUser u tbl) = Inr q" and "\<not> IsZero u"
    and "GetEffectiveLimit env tbl t u r b = Inr (limit, w)"
  shows "getBucketLimit q b \<le> limit \<or> limit = getBucketLimit DefaultQuotas b"
  using assms
  by (auto simp: GetEffectiveLimit_def Let_def split: if_splits
      intro: raise_limit_quota order_trans[OF raise_limit_quota raise_limit_ge])

text \<open>A quota that was created is the one \<open>GetByScope\<close> finds, as far as its counters
  fit the columns.\<close>

lemma quota_create_get:
  assumes "calm env" and "calm env'" and "pgRls env' \<longrightarrow> pgPoolGuc env' = Some t"
    and "QuotaRepository_Create env i t q tbl = (tbl', Inr q')"
  shows "\<exists>r. snd (GetByScope env' t (quScope q) (quScopeID q) tbl') = Inr (row_to_quota r)
    \<and> qrRequestsPerMin r = word_of_int (quRequestsPerMin q) \<and> qrTokensPerMin r = word_of_int (quTokensPerMin q)
    \<and> qrToolExecsPerMin r = word_of_int (quToolExecsPerMin q)"
proof -
  let ?Q = "\<lambda>r. quota_sees (env'\<lparr>pgCtxErr := None\<rparr>) r \<and> quota_at t (quScope q) (quScopeID q) r"
  obtain r where tbl': "tbl' = tbl @ [r]" and n: "\<not> list_ex (quota_at t (quScope q) (quScopeID q)) tbl"
    and r: "quota_at t (quScope q) (quScopeID q) r" "qrRequestsPerMin r = word_of_int (quRequestsPerMin q)"
      "qrTokensPerMin r = word_of_int (quTokensPerMin q)" "qrToolExecsPerMin r = word_of_int (quToolExecsPerMin q)"
    using assms(1,4)
    by (auto simp: QuotaRepository_Create_def WithTenant_calm stmt_calm Let_def quota_at_def split: if_splits)
  have "?Q r" using r(1) assms(3) by (auto simp: quota_sees_def rls_ok_def quota_at_def)
  moreover have "List.find ?Q tbl = None" using n by (auto simp: find_None_iff list_ex_iff)
  ultimately have "List.find ?Q tbl' = Some r" by (simp add: tbl' find_append)
  then have "snd (GetByScope env' t (quScope q) (quScopeID q) tbl') = Inr (row_to_quota r)"
    using assms(2) by (simp add: GetByScope_def WithTenantBackground_def calm_def stmt_def Let_def)
  then show ?thesis using r by blast
qed

end
