(* ===== verification/RateLimit.thy ===== *)
theory RateLimit
  imports Quota GoText Complex_Main
begin

text \<open>
  Rate limiting: the Lua script and the client of
  \<open>src/internal/adapter/redis/ratelimit.go\<close>, the types of
  \<open>src/internal/domain/ratelimit.go\<close> and the middleware of
  \<open>src/internal/middleware/ratelimit.go\<close>. The script's numbers are doubles; here
  they are rationals, so that the statements are about the algorithm and not about
  rounding in the last bit.
\<close>

subsection \<open>Keys, costs, results\<close>

record RateLimitKey =
  rkBucketType :: string
  rkScope :: string
  rkID :: uuid

definition RateLimitKey_String :: "RateLimitKey \<Rightarrow> string" where
  "RateLimitKey_String k = ''rl:'' @ rkBucketType k @ '':'' @ rkScope k @ '':'' @ UUID_String (rkID k)"

record RateLimitCost =
  rlRequests :: int
  rlTokens :: int
  rlToolExecs :: int

record RateLimitResult =
  rlAllowed :: bool
  rlRemaining :: int
  rlResetAt :: time
  rlRetryAfter :: duration

subsection \<open>The script\<close>

text \<open>The keys the script writes: the theoretical arrival time with the millisecond after
  which Redis drops the key.\<close>

type_synonym tat_store = "string \<rightharpoonup> rat \<times> int"

text \<open>\<open>GET\<close> at the server's clock, in milliseconds.\<close>

definition get_tat :: "rat \<Rightarrow> string \<Rightarrow> tat_store \<Rightarrow> rat option" where
  "get_tat clock key st = (case st key of
     None \<Rightarrow> None | Some (tat, expiry) \<Rightarrow> if \<lfloor>clock\<rfloor> > expiry then None else Some tat)"

definition gcraLuaScript ::
  "rat \<Rightarrow> string \<Rightarrow> int \<Rightarrow> int \<Rightarrow> int \<Rightarrow> int \<Rightarrow> tat_store \<Rightarrow> tat_store \<times> int \<times> int \<times> int \<times> int" where
  "gcraLuaScript clock key limit window cost now st =
     (let limit = (if limit \<le> 0 then 1000000 else limit);
          window = (if window \<le> 0 then 60 else window);
          cost = (if cost \<le> 0 then 1 else cost);
          now = (if now \<le> 0 then clock else of_int now);
          ttl = of_int window * 1000;
          emission_interval = ttl / of_int limit;
          tat_key = key @ '':tat'';
          tat = (case get_tat clock tat_key st of None \<Rightarrow> now | Some t \<Rightarrow> t);
          new_tat = max tat now + emission_interval * of_int cost;
          reset_at = now + ttl
      in if new_tat - now \<le> ttl + emission_interval
         then let px_ttl = \<lfloor>ttl + emission_interval\<rfloor>;
                  remaining = \<lfloor>(ttl - (new_tat - now)) / emission_interval\<rfloor>;
                  remaining = (if remaining < 0 then 0 else remaining);
                  remaining = (if remaining > limit then limit else remaining)
              in (st(tat_key \<mapsto> (new_tat, \<lfloor>clock\<rfloor> + px_ttl)), 1, remaining, 0, \<lfloor>reset_at\<rfloor>)
         else (st, 0, 0, \<lfloor>new_tat - now - ttl\<rfloor>, \<lfloor>reset_at\<rfloor>))"

subsection \<open>The limiter\<close>

definition second_ns :: int where "second_ns = 1000000000"
definition milli_ns :: int where "milli_ns = 1000000"

text \<open>What one call meets: the gateway's clock, the server's clock in milliseconds, and
  whether the command gets through.\<close>

record rl_env =
  reNow :: time
  reClock :: rat
  reLink :: redis_link

definition allowWithCost ::
  "bool \<Rightarrow> rl_env \<Rightarrow> RateLimitKey \<Rightarrow> int \<Rightarrow> int \<Rightarrow> duration \<Rightarrow> (tat_store, RateLimitResult) db_call" where
  "allowWithCost failOpen env key cost limit window st =
     (if limit \<le> 0
      then (st, Inr \<lparr> rlAllowed = True, rlRemaining = 2147483647, rlResetAt = reNow env + window, rlRetryAfter = 0 \<rparr>)
      else
        let now = reNow env div milli_ns; windowSec = window div second_ns;
            (st', allowed, remaining, retryAfterMs, resetAtMs) =
              gcraLuaScript (reClock env) (RateLimitKey_String key) limit windowSec cost now st;
            failed = (\<lambda>e. if failOpen
              then Inr \<lparr> rlAllowed = True, rlRemaining = limit, rlResetAt = reNow env + window, rlRetryAfter = 0 \<rparr>
              else Inl e)
        in case reLink env of
             Link_down e \<Rightarrow> (st, failed e)
           | Reply_lost e \<Rightarrow> (st', failed e)
           | Link_up \<Rightarrow> (st', Inr \<lparr> rlAllowed = (allowed = 1), rlRemaining = remaining,
               rlResetAt = resetAtMs * milli_ns, rlRetryAfter = retryAfterMs * milli_ns \<rparr>))"

definition bucket_cost :: "string \<Rightarrow> RateLimitCost \<Rightarrow> int" where
  "bucket_cost bucketType cost =
     (let n = (if bucketType = BucketTypeRequests then rlRequests cost
               else if bucketType = BucketTypeTokens then rlTokens cost
               else if bucketType = BucketTypeToolExecs then rlToolExecs cost
               else 1)
      in if n \<le> 0 then 1 else n)"

definition Allow ::
  "bool \<Rightarrow> rl_env \<Rightarrow> RateLimitKey \<Rightarrow> RateLimitCost \<Rightarrow> int \<Rightarrow> duration \<Rightarrow> (tat_store, RateLimitResult) db_call" where
  "Allow failOpen env key cost limit window =
     allowWithCost failOpen env key (bucket_cost (rkBucketType key) cost) limit window"

definition AllowN ::
  "bool \<Rightarrow> rl_env \<Rightarrow> RateLimitKey \<Rightarrow> int \<Rightarrow> int \<Rightarrow> duration \<Rightarrow> (tat_store, RateLimitResult) db_call" where
  "AllowN failOpen env key n limit window = allowWithCost failOpen env key n limit window"

subsection \<open>The middleware\<close>

record bucketConfig =
  bkType :: string
  bkLimit :: int
  bkWindow :: duration
  bkResult :: RateLimitResult

definition no_result :: RateLimitResult where
  "no_result = \<lparr> rlAllowed = False, rlRemaining = 0, rlResetAt = 0, rlRetryAfter = 0 \<rparr>"

text \<open>The two ports of \<open>RateLimitConfig\<close>: the resolver and the limiter, each given the
  index of its call within the request.\<close>

record 's ratelimit_config =
  rcLimiter :: "nat \<Rightarrow> RateLimitKey \<Rightarrow> RateLimitCost \<Rightarrow> int \<Rightarrow> duration \<Rightarrow> ('s, RateLimitResult) db_call"
  rcQuotaResolver :: "nat \<Rightarrow> uuid \<Rightarrow> uuid \<Rightarrow> uuid \<Rightarrow> string \<Rightarrow> (int \<times> duration) result"
  rcFailOpen :: bool
  rcClock :: "nat \<Rightarrow> time"

definition bucketHeaderPrefix :: "string \<Rightarrow> string" where
  "bucketHeaderPrefix bucketType =
     (if bucketType = BucketTypeRequests then ''X-RateLimit-Limit-Requests''
      else if bucketType = BucketTypeTokens then ''X-RateLimit-Limit-Tokens''
      else if bucketType = BucketTypeToolExecs then ''X-RateLimit-Limit-ToolExecs''
      else ''X-RateLimit-Limit'')"

definition setRateLimitHeaders :: "bucketConfig list \<Rightarrow> (string \<times> string) list" where
  "setRateLimitHeaders buckets = concat (map (\<lambda>b. let prefix = bucketHeaderPrefix (bkType b) in
     [(prefix @ ''Limit'', int_text (bkLimit b)),
      (prefix @ ''Remaining'', int_text (rlRemaining (bkResult b))),
      (prefix @ ''Reset'', int_text (rlResetAt (bkResult b) div second_ns))]) buckets)"

definition estimateTokenCost :: int where "estimateTokenCost = 1000"

text \<open>What the middleware does with a request: pass it on, or answer with a status and an
  error; in both cases with the headers it has set.\<close>

datatype rl_outcome =
    RL_next "(string \<times> string) list"
  | RL_error int go_error "(string \<times> string) list"

text \<open>The first loop resolves the limits.\<close>

fun resolve_loop ::
  "'s ratelimit_config \<Rightarrow> uuid \<Rightarrow> uuid \<Rightarrow> uuid \<Rightarrow> nat \<Rightarrow> string list \<Rightarrow> bucketConfig list option" where
  "resolve_loop cfg tenantID userID roleID i [] = Some []"
| "resolve_loop cfg tenantID userID roleID i (b # bs) =
     (case rcQuotaResolver cfg i tenantID userID roleID b of
        Inl e \<Rightarrow> if \<not> rcFailOpen cfg then None
          else map_option (Cons \<lparr> bkType = b, bkLimit = 10000, bkWindow = one_minute, bkResult = no_result \<rparr>)
            (resolve_loop cfg tenantID userID roleID (Suc i) bs)
      | Inr (limit, window) \<Rightarrow>
          map_option (Cons \<lparr> bkType = b, bkLimit = limit, bkWindow = window, bkResult = no_result \<rparr>)
            (resolve_loop cfg tenantID userID roleID (Suc i) bs))"

text \<open>The second loop checks them in order; \<open>done\<close> are the buckets already checked, whose
  results are in the headers of a refusal.\<close>

fun check_loop ::
  "'s ratelimit_config \<Rightarrow> uuid \<Rightarrow> RateLimitCost \<Rightarrow> bucketConfig list \<Rightarrow> bucketConfig list \<Rightarrow> 's \<Rightarrow> 's \<times> rl_outcome" where
  "check_loop cfg tenantID cost done [] st = (st, RL_next (setRateLimitHeaders done))"
| "check_loop cfg tenantID cost done (b # bs) st =
     (let key = \<lparr> rkBucketType = bkType b, rkScope = ''tenant'', rkID = tenantID \<rparr>;
          (st', res) = rcLimiter cfg (length done) key cost (bkLimit b) (bkWindow b) st
      in case res of
        Inl e \<Rightarrow>
          if \<not> rcFailOpen cfg then (st', RL_error 500 ErrRateLimited [])
          else check_loop cfg tenantID cost (done @ [b\<lparr>bkResult := \<lparr> rlAllowed = True, rlRemaining = bkLimit b,
                 rlResetAt = rcClock cfg (length done) + bkWindow b, rlRetryAfter = 0 \<rparr>\<rparr>]) bs st'
      | Inr result \<Rightarrow>
          let b' = b\<lparr>bkResult := result\<rparr> in
          if \<not> rlAllowed result
          then (st', RL_error 429 ErrRateLimited (setRateLimitHeaders (done @ b' # bs)
                 @ [(''Retry-After'', int_text (rlRetryAfter result div second_ns))]))
          else check_loop cfg tenantID cost (done @ [b']) bs st')"

text \<open>The handler. The role in the context is a name, so the role id stays zero.\<close>

definition NewRateLimit :: "'s ratelimit_config \<Rightarrow> uuid option \<Rightarrow> uuid option \<Rightarrow> 's \<Rightarrow> 's \<times> rl_outcome" where
  "NewRateLimit cfg tenant user st = (case tenant of
     None \<Rightarrow> (st, if rcFailOpen cfg then RL_next [] else RL_error 401 ErrUnauthorized [])
   | Some tenantID \<Rightarrow>
       let userID = (case user of None \<Rightarrow> zero_uuid | Some u \<Rightarrow> u);
           cost = \<lparr> rlRequests = 1, rlTokens = estimateTokenCost, rlToolExecs = 0 \<rparr>
       in case resolve_loop cfg tenantID userID zero_uuid 0
              [BucketTypeRequests, BucketTypeTokens, BucketTypeToolExecs] of
            None \<Rightarrow> (st, RL_error 500 ErrRateLimited [])
          | Some buckets \<Rightarrow> check_loop cfg tenantID cost [] buckets st)"

text \<open>The wiring of \<open>cmd/gateway/main.go\<close>, where \<open>envs i\<close> and \<open>qenvs i\<close> are what the
  \<open>i\<close>-th call of each port meets.\<close>

definition gateway_ratelimit ::
  "bool \<Rightarrow> (nat \<Rightarrow> rl_env) \<Rightarrow> (nat \<Rightarrow> quota_env) \<Rightarrow> quota_table \<Rightarrow> tat_store ratelimit_config" where
  "gateway_ratelimit failOpen envs qenvs tbl = \<lparr>
     rcLimiter = (\<lambda>i. Allow failOpen (envs i)),
     rcQuotaResolver = (\<lambda>i tenantID userID roleID bucketType.
        GetEffectiveLimit (qenvs i) tbl tenantID userID roleID bucketType),
     rcFailOpen = failOpen, rcClock = (\<lambda>i. reNow (envs i)) \<rparr>"

subsection \<open>The level of a bucket\<close>

text \<open>The time up to which a bucket is booked. It never goes back: a key is dropped only
  after its booking has run out.\<close>

definition level :: "string \<Rightarrow> int \<Rightarrow> tat_store \<Rightarrow> rat" where
  "level key now st = (case get_tat (of_int now) (key @ '':tat'') st of
     None \<Rightarrow> of_int now | Some t \<Rightarrow> max t (of_int now))"

definition tats_ok :: "tat_store \<Rightarrow> bool" where
  "tats_ok st = (\<forall>k t e. st k = Some (t, e) \<longrightarrow> t < of_int e + 1)"

definition emission :: "int \<Rightarrow> int \<Rightarrow> rat" where
  "emission limit window = of_int window * 1000 / of_int limit"

lemma tats_ok_empty [simp]: "tats_ok Map.empty"
  by (simp add: tats_ok_def)

lemma emission_pos: "0 < limit \<Longrightarrow> 0 < window \<Longrightarrow> 0 < emission limit window"
  by (simp add: emission_def)

lemma level_ge_now: "of_int now \<le> level key now st"
  by (simp add: level_def split: option.split)

lemma level_mono:
  assumes "tats_ok st" and "now \<le> now'"
  shows "level key now st \<le> level key now' st"
proof (cases "st (key @ '':tat'')")
  case (Some te)
  obtain t e where te: "te = (t, e)" by (cases te)
  have "t < of_int e + 1" using assms(1) Some te by (simp add: tats_ok_def)
  moreover have "(of_int e :: rat) + 1 \<le> of_int now'" if "e < now'"
    using that by (metis of_int_1 of_int_add of_int_le_iff zless_imp_add1_zle)
  ultimately show ?thesis
    using assms(2) Some te by (auto simp: level_def get_tat_def max_def)
next
  case None
  then show ?thesis using assms(2) by (simp add: level_def get_tat_def)
qed

text \<open>One run of the script with the client's arguments, on both clocks alike.\<close>

definition gcra :: "string \<Rightarrow> int \<Rightarrow> int \<Rightarrow> int \<Rightarrow> int \<Rightarrow> tat_store \<Rightarrow> tat_store \<times> bool" where
  "gcra key limit window cost now st =
     (let booked = level key now st + emission limit window * of_int cost in
      if booked - of_int now \<le> of_int window * 1000 + emission limit window
      then (st(key @ '':tat'' \<mapsto> (booked, now + \<lfloor>of_int window * 1000 + emission limit window\<rfloor>)), True)
      else (st, False))"

lemma gcraLuaScript_gcra:
  assumes "0 < limit" and "0 < window" and "0 < cost" and "0 < now"
  shows "fst (gcraLuaScript (of_int now) key limit window cost now st) = fst (gcra key limit window cost now st)"
    and "fst (snd (gcraLuaScript (of_int now) key limit window cost now st)) =
      (if snd (gcra key limit window cost now st) then 1 else 0)"
  using assms
  by (auto simp: gcraLuaScript_def gcra_def Let_def level_def emission_def max.commute split: option.splits)

lemma gcra_refused: "\<not> snd (gcra key limit window cost now st) \<Longrightarrow> fst (gcra key limit window cost now st) = st"
  by (simp add: gcra_def Let_def split: if_splits)

lemma gcra_tats_ok: "tats_ok st \<Longrightarrow> tats_ok (fst (gcra key limit window cost now st))"
proof -
  let ?b = "level key now st + emission limit window * of_int cost" and ?y = "of_int window * 1000 + emission limit window"
  have "?b < of_int (now + \<lfloor>?y\<rfloor>) + 1" if "?b - of_int now \<le> ?y" using that by linarith
  then show "tats_ok st \<Longrightarrow> ?thesis" by (auto simp: gcra_def Let_def tats_ok_def)
qed

lemma gcra_admitted:
  assumes "snd (gcra key limit window cost now st)" and "now \<le> now'"
  shows "level key now st + emission limit window * of_int cost \<le> level key now' (fst (gcra key limit window cost now st))"
    and "level key now st + emission limit window * of_int cost \<le> of_int now + of_int window * 1000 + emission limit window"
proof -
  let ?b = "level key now st + emission limit window * of_int cost" and ?y = "of_int window * 1000 + emission limit window"
  show y: "?b \<le> of_int now + of_int window * 1000 + emission limit window"
    using assms(1) by (simp add: gcra_def Let_def split: if_splits)
  have "?b \<le> of_int now'" if "now + \<lfloor>?y\<rfloor> < now'"
    using y that by linarith
  then show "?b \<le> level key now' (fst (gcra key limit window cost now st))"
    using assms(1) by (auto simp: gcra_def Let_def level_def get_tat_def split: if_splits)
qed

subsection \<open>Sequences of calls\<close>

type_synonym rl_call = "rl_env \<times> RateLimitCost"

definition call_ms :: "rl_call \<Rightarrow> int" where
  "call_ms r = reNow (fst r) div milli_ns"

text \<open>The clocks of gateway and server agree to the millisecond.\<close>

definition in_step :: "rl_call \<Rightarrow> bool" where
  "in_step r = (0 < call_ms r \<and> reClock (fst r) = of_int (call_ms r))"

text \<open>The calls on one bucket of a limiter that fails closed, with the total cost it
  admits.\<close>

primrec rl_run :: "RateLimitKey \<Rightarrow> int \<Rightarrow> duration \<Rightarrow> rl_call list \<Rightarrow> tat_store \<Rightarrow> tat_store \<times> int" where
  "rl_run key limit window [] st = (st, 0)"
| "rl_run key limit window (r # rs) st =
     (case Allow False (fst r) key (snd r) limit window st of (st', res) \<Rightarrow>
       case rl_run key limit window rs st' of (st'', n) \<Rightarrow>
         (st'', (case res of Inl e \<Rightarrow> 0
           | Inr x \<Rightarrow> if rlAllowed x then bucket_cost (rkBucketType key) (snd r) else 0) + n))"

lemma bucket_cost_pos: "0 < bucket_cost b cost"
  by (simp add: bucket_cost_def Let_def)

lemma Allow_gcra:
  assumes "in_step r" and "0 < limit" and "second_ns \<le> window"
  shows "\<exists>st' ok res. gcra (RateLimitKey_String key) limit (window div second_ns) (bucket_cost (rkBucketType key) (snd r)) (call_ms r) st = (st', ok)
    \<and> (case reLink (fst r) of
        Link_up \<Rightarrow> rlAllowed res = ok \<and> Allow False (fst r) key (snd r) limit window st = (st', Inr res)
      | Link_down e \<Rightarrow> Allow False (fst r) key (snd r) limit window st = (st, Inl e)
      | Reply_lost e \<Rightarrow> Allow False (fst r) key (snd r) limit window st = (st', Inl e))"
proof -
  let ?c = "bucket_cost (rkBucketType key) (snd r)" and ?w = "window div second_ns"
  let ?L = "gcraLuaScript (of_int (call_ms r)) (RateLimitKey_String key) limit ?w ?c (call_ms r) st"
  obtain st' ok where g: "gcra (RateLimitKey_String key) limit ?w ?c (call_ms r) st = (st', ok)" by fastforce
  have "0 < ?w" using assms(3) by (simp add: second_ns_def pos_imp_zdiv_pos_iff)
  then have f: "fst ?L = st'" "fst (snd ?L) = (if ok then 1 else 0)"
    using gcraLuaScript_gcra[of limit ?w ?c "call_ms r" "RateLimitKey_String key" st] assms(1,2) bucket_cost_pos[of "rkBucketType key" "snd r"]
    by (simp_all add: g in_step_def)
  then obtain a b c where l: "?L = (st', (if ok then 1 else 0), a, b, c)" by (cases ?L) auto
  show ?thesis
    using assms(1,2) g l
    by (cases "reLink (fst r)") (simp_all add: Allow_def allowWithCost_def in_step_def call_ms_def)
qed

lemma Allow_tats_ok:
  assumes "in_step r" and "0 < limit" and "second_ns \<le> window" and "tats_ok st"
  shows "tats_ok (fst (Allow False (fst r) key (snd r) limit window st))"
proof -
  obtain st' ok res where g: "gcra (RateLimitKey_String key) limit (window div second_ns) (bucket_cost (rkBucketType key) (snd r)) (call_ms r) st = (st', ok)"
    and a: "case reLink (fst r) of
        Link_up \<Rightarrow> rlAllowed res = ok \<and> Allow False (fst r) key (snd r) limit window st = (st', Inr res)
      | Link_down e \<Rightarrow> Allow False (fst r) key (snd r) limit window st = (st, Inl e)
      | Reply_lost e \<Rightarrow> Allow False (fst r) key (snd r) limit window st = (st', Inl e)"
    using Allow_gcra[OF assms(1-3), of key st] by blast
  have "tats_ok st'" using gcra_tats_ok[OF assms(4)] g by (metis fst_conv)
  then show ?thesis using a assms(4) by (cases "reLink (fst r)") simp_all
qed

text \<open>One call books what it admits, and never gives anything back.\<close>

lemma Allow_level:
  assumes "in_step r" and "0 < limit" and "second_ns \<le> window" and "tats_ok st"
    and "Allow False (fst r) key (snd r) limit window st = (st', res)" and "call_ms r \<le> now"
  defines "em \<equiv> emission limit (window div second_ns)" and "c \<equiv> bucket_cost (rkBucketType key) (snd r)"
    and "k \<equiv> RateLimitKey_String key"
  shows "level k (call_ms r) st \<le> level k now st'"
    and "res = Inr x \<Longrightarrow> rlAllowed x \<Longrightarrow> level k (call_ms r) st + em * of_int c \<le> level k now st'
      \<and> level k (call_ms r) st + em * of_int c \<le> of_int (call_ms r) + of_int (window div second_ns) * 1000 + em"
proof -
  let ?w = "window div second_ns"
  obtain st2 ok x' where g: "gcra k limit ?w c (call_ms r) st = (st2, ok)"
    and al: "case reLink (fst r) of
        Link_up \<Rightarrow> rlAllowed x' = ok \<and> (st', res) = (st2, Inr x')
      | Link_down e \<Rightarrow> (st', res) = (st, Inl e)
      | Reply_lost e \<Rightarrow> (st', res) = (st2, Inl e)"
    using Allow_gcra[OF assms(1-3), of key st] unfolding assms(5) k_def c_def by blast
  have w: "0 \<le> em" using emission_pos[of limit ?w] assms(2,3) by (simp add: em_def second_ns_def pos_imp_zdiv_pos_iff)
  have c: "0 < c" by (simp add: c_def bucket_cost_pos)
  have ok: "level k (call_ms r) st + em * of_int c \<le> level k now st2
      \<and> level k (call_ms r) st + em * of_int c \<le> of_int (call_ms r) + of_int ?w * 1000 + em" if ok
    using gcra_admitted[of k limit ?w c "call_ms r" st now] that assms(6) by (simp add: g em_def)
  have st2: "level k (call_ms r) st \<le> level k now st2"
  proof (cases ok)
    case True
    moreover have "0 \<le> em * of_int c" using w c by simp
    ultimately show ?thesis using ok by linarith
  next
    case False
    then have "st2 = st" using gcra_refused[of k limit ?w c "call_ms r" st] by (simp add: g)
    then show ?thesis using level_mono[OF assms(4,6)] by simp
  qed
  show "level k (call_ms r) st \<le> level k now st'"
    using al st2 level_mono[OF assms(4,6)] by (auto split: redis_link.splits)
  show "level k (call_ms r) st + em * of_int c \<le> level k now st'
      \<and> level k (call_ms r) st + em * of_int c \<le> of_int (call_ms r) + of_int ?w * 1000 + em"
    if "res = Inr x" "rlAllowed x"
    using al ok that by (auto split: redis_link.splits)
qed

lemma rl_run_tats_ok:
  "list_all in_step rs \<Longrightarrow> 0 < limit \<Longrightarrow> second_ns \<le> window \<Longrightarrow> tats_ok st \<Longrightarrow>
    tats_ok (fst (rl_run key limit window rs st))"
proof (induction rs arbitrary: st)
  case (Cons r rs)
  obtain st' res where a: "Allow False (fst r) key (snd r) limit window st = (st', res)" by fastforce
  have "tats_ok st'" using Allow_tats_ok[of r limit window st key] Cons.prems by (simp add: a)
  then show ?case using Cons.IH[of st'] Cons.prems by (cases "rl_run key limit window rs st'") (simp add: a)
qed simp

lemma rl_run_bound:
  fixes key :: RateLimitKey
  assumes "0 < limit" and "second_ns \<le> window"
    and "list_all in_step rs" and "sorted (map call_ms rs)" and "list_all (\<lambda>r. a \<le> call_ms r \<and> call_ms r \<le> b) rs"
    and "tats_ok st"
  defines "em \<equiv> emission limit (window div second_ns)" and "n \<equiv> snd (rl_run key limit window rs st)"
  shows "n = 0 \<or> level (RateLimitKey_String key) a st + em * of_int n \<le> of_int b + of_int (window div second_ns) * 1000 + em"
  using assms(3-6) unfolding n_def
proof (induction rs arbitrary: a st)
  case (Cons r rs)
  let ?k = "RateLimitKey_String key" and ?t = "call_ms r"
  obtain st' res where al: "Allow False (fst r) key (snd r) limit window st = (st', res)" by fastforce
  have r: "in_step r" "a \<le> ?t" "?t \<le> b" "sorted (map call_ms rs)" "list_all (\<lambda>r. ?t \<le> call_ms r \<and> call_ms r \<le> b) rs"
    using Cons.prems by (auto simp: list_all_iff)
  have ok': "tats_ok st'" using Allow_tats_ok[OF r(1) assms(1,2) Cons.prems(4), of key] by (simp add: al)
  obtain st3 m where m: "rl_run key limit window rs st' = (st3, m)" by fastforce
  have "list_all in_step rs" using Cons.prems(1) by simp
  from Cons.IH[OF this r(4,5) ok']
  have IH: "m = 0 \<or> level ?k ?t st' + em * of_int m \<le> of_int b + of_int (window div second_ns) * 1000 + em"
    by (simp add: m)
  note lv = Allow_level[OF r(1) assms(1,2) Cons.prems(4) al order_refl]
  have a: "level ?k a st \<le> level ?k ?t st" by (rule level_mono[OF Cons.prems(4) r(2)])
  show ?case
  proof (cases "\<exists>x. res = Inr x \<and> rlAllowed x")
    case True
    then obtain x where x: "res = Inr x" "rlAllowed x" by blast
    let ?c = "bucket_cost (rkBucketType key) (snd r)"
    have n: "snd (rl_run key limit window (r # rs) st) = ?c + m" using x by (simp add: al m)
    have "em * of_int (?c + m) = em * of_int ?c + em * of_int m" by (simp add: distrib_left)
    moreover have "(of_int ?t :: rat) \<le> of_int b" using r(3) by simp
    ultimately have "level ?k a st + em * of_int (?c + m) \<le> of_int b + of_int (window div second_ns) * 1000 + em"
      using lv(2)[OF x] IH a by (auto simp: em_def)
    then show ?thesis unfolding n by blast
  next
    case False
    then have n: "snd (rl_run key limit window (r # rs) st) = m"
      by (cases res) (simp_all add: al m)
    show ?thesis unfolding n using IH lv(1) a by linarith
  qed
qed simp

subsection \<open>A burst\<close>

text \<open>A bucket that is empty, in the sense of its key not being there or having expired.\<close>

definition same_instant :: "int \<Rightarrow> rl_call \<Rightarrow> bool" where
  "same_instant ms r = (call_ms r = ms \<and> in_step r \<and> reLink (fst r) = Link_up)"

lemma Allow_at:
  fixes key :: RateLimitKey
  assumes "same_instant ms r" and "0 < limit" and "second_ns \<le> window"
  defines "k \<equiv> RateLimitKey_String key" and "em \<equiv> emission limit (window div second_ns)"
    and "c \<equiv> bucket_cost (rkBucketType key) (snd r)" and "ttl \<equiv> of_int (window div second_ns) * 1000"
  shows "\<exists>res. Allow False (fst r) key (snd r) limit window st = (fst (gcra k limit (window div second_ns) c ms st), Inr res)
    \<and> rlAllowed res = (level k ms st + em * of_int c \<le> of_int ms + ttl + em)"
proof -
  have r: "in_step r" "call_ms r = ms" "reLink (fst r) = Link_up" using assms(1) by (simp_all add: same_instant_def)
  obtain st' ok res where g: "gcra k limit (window div second_ns) c ms st = (st', ok)"
    and "rlAllowed res = ok" "Allow False (fst r) key (snd r) limit window st = (st', Inr res)"
    using Allow_gcra[OF r(1) assms(2,3), of key st] r(2,3) unfolding k_def c_def by auto
  moreover have "ok = (level k ms st + em * of_int c \<le> of_int ms + ttl + em)"
    using g by (auto simp: gcra_def Let_def em_def ttl_def split: if_splits)
  ultimately show ?thesis by (metis fst_conv)
qed

lemma level_after:
  assumes "0 < limit" and "0 < window" and "0 < c" and "level k ms st + emission limit window * of_int c \<le> of_int ms + of_int window * 1000 + emission limit window"
  shows "level k ms (fst (gcra k limit window c ms st)) = level k ms st + emission limit window * of_int c"
proof -
  let ?b = "level k ms st + emission limit window * of_int c"
  have b: "of_int ms \<le> ?b"
    using level_ge_now[of ms k st] emission_pos[OF assms(1,2)] assms(3) by (intro add_increasing2) simp_all
  have px: "0 \<le> \<lfloor>of_int window * 1000 + emission limit window\<rfloor>"
    using assms(2) emission_pos[OF assms(1,2)] by (simp add: add_nonneg_nonneg)
  then have "\<not> ms + \<lfloor>of_int window * 1000 + emission limit window\<rfloor> < ms" by simp
  then have "level k ms (st(k @ '':tat'' \<mapsto> (?b, ms + \<lfloor>of_int window * 1000 + emission limit window\<rfloor>))) = ?b"
    using b by (simp add: level_def get_tat_def max_def)
  moreover have "fst (gcra k limit window c ms st) = st(k @ '':tat'' \<mapsto> (?b, ms + \<lfloor>of_int window * 1000 + emission limit window\<rfloor>))"
    using assms(4) by (simp add: gcra_def Let_def)
  ultimately show ?thesis by simp
qed

lemma burst_from:
  assumes "0 < limit" and "second_ns \<le> window"
    and "list_all (same_instant ms) rs" and "list_all (\<lambda>r. bucket_cost (rkBucketType key) (snd r) = 1) rs"
    and "0 \<le> j" and "j \<le> limit + 1"
    and "level (RateLimitKey_String key) ms st = of_int ms + emission limit (window div second_ns) * of_int j"
  shows "snd (rl_run key limit window rs st) = min (int (length rs)) (limit + 1 - j)"
  using assms(3-7)
proof (induction rs arbitrary: j st)
  case (Cons r rs)
  let ?k = "RateLimitKey_String key" and ?w = "window div second_ns"
  let ?em = "emission limit ?w"
  have w: "0 < ?w" using assms(2) by (simp add: second_ns_def pos_imp_zdiv_pos_iff)
  note em = emission_pos[OF assms(1) w]
  have r: "same_instant ms r" "bucket_cost (rkBucketType key) (snd r) = 1" using Cons.prems by simp_all
  have ttl: "of_int ?w * 1000 = ?em * of_int limit" using assms(1) by (simp add: emission_def)
  have adm: "level ?k ms st + ?em * of_int 1 \<le> of_int ms + of_int ?w * 1000 + ?em \<longleftrightarrow> j \<le> limit"
    unfolding Cons.prems(5) ttl using em by simp
  obtain res where al: "Allow False (fst r) key (snd r) limit window st = (fst (gcra ?k limit ?w 1 ms st), Inr res)"
    and ok: "rlAllowed res = (j \<le> limit)"
    using Allow_at[OF r(1) assms(1,2), of key st] unfolding r(2) adm by blast
  obtain st3 m where m: "rl_run key limit window rs (fst (gcra ?k limit ?w 1 ms st)) = (st3, m)" by fastforce
  have n: "snd (rl_run key limit window (r # rs) st) = (if j \<le> limit then 1 else 0) + m"
    by (simp add: al m ok r(2))
  show ?case
  proof (cases "j \<le> limit")
    case True
    have "level ?k ms (fst (gcra ?k limit ?w 1 ms st)) = of_int ms + ?em * of_int (j + 1)"
      using level_after[OF assms(1) w, of 1 ?k ms st] True adm Cons.prems(5) by (simp add: distrib_left)
    from Cons.IH[OF _ _ _ _ this] Cons.prems True
    have "m = min (int (length rs)) (limit + 1 - (j + 1))" by (simp add: m)
    then show ?thesis unfolding n using True by simp
  next
    case False
    then have "\<not> snd (gcra ?k limit ?w 1 ms st)" using adm by (simp add: gcra_def Let_def)
    then have "fst (gcra ?k limit ?w 1 ms st) = st" by (rule gcra_refused)
    then have "m = min (int (length rs)) (limit + 1 - j)"
      using Cons.IH[OF _ _ Cons.prems(3,4,5)] Cons.prems(1,2) m by simp
    then show ?thesis unfolding n using False Cons.prems(4) by simp
  qed
qed simp

subsection \<open>A burst through the middleware\<close>

definition bucket_key :: "uuid \<Rightarrow> string \<Rightarrow> RateLimitKey" where
  "bucket_key t b = \<lparr> rkBucketType = b, rkScope = ''tenant'', rkID = t \<rparr>"

abbreviation key_of :: "uuid \<Rightarrow> bucketConfig \<Rightarrow> string" where
  "key_of t b \<equiv> RateLimitKey_String (bucket_key t (bkType b))"

abbreviation em_of :: "bucketConfig \<Rightarrow> rat" where
  "em_of b \<equiv> emission (bkLimit b) (bkWindow b div second_ns)"

definition admits :: "uuid \<Rightarrow> RateLimitCost \<Rightarrow> int \<Rightarrow> tat_store \<Rightarrow> bucketConfig \<Rightarrow> bool" where
  "admits t cost ms st b = (level (key_of t b) ms st + em_of b * of_int (bucket_cost (bkType b) cost)
     \<le> of_int ms + of_int (bkWindow b div second_ns) * 1000 + em_of b)"

lemma Allow_link_up: "reLink env = Link_up \<Longrightarrow> Allow failOpen env key cost limit window st = Allow False env key cost limit window st"
  by (simp add: Allow_def allowWithCost_def Let_def split: prod.splits)

lemma level_other: "k \<noteq> k' \<Longrightarrow> level k' ms (fst (gcra k limit window c now st)) = level k' ms st"
  by (simp add: gcra_def Let_def level_def get_tat_def)

lemma level_up:
  "0 < limit \<Longrightarrow> 0 < window \<Longrightarrow> 0 < c \<Longrightarrow> level k ms st \<le> level k ms (fst (gcra k limit window c ms st))"
proof (cases "snd (gcra k limit window c ms st)")
  case True
  assume p: "0 < limit" "0 < window" "0 < c"
  have "0 \<le> emission limit window * of_int c" using emission_pos[OF p(1,2)] p(3) by simp
  then show ?thesis using gcra_admitted(1)[OF True order_refl] by linarith
qed (simp add: gcra_refused)

definition next_outcome :: "rl_outcome \<Rightarrow> bool" where
  "next_outcome o1 = (case o1 of RL_next h \<Rightarrow> True | RL_error c e h \<Rightarrow> False)"

text \<open>One bucket of the check loop.\<close>

lemma bucket_instant:
  assumes lim: "\<And>i. rcLimiter cfg i = Allow failOpen (envs i)" and inst: "\<And>i. same_instant ms (envs i, cost)"
    and b: "0 < bkLimit b" "second_ns \<le> bkWindow b"
  obtains st1 res where "rcLimiter cfg i (bucket_key t (bkType b)) cost (bkLimit b) (bkWindow b) st = (st1, Inr res)"
    "rlAllowed res = admits t cost ms st b" "\<forall>k. level k ms st \<le> level k ms st1"
    "\<forall>k. k \<noteq> key_of t b \<longrightarrow> level k ms st1 = level k ms st"
    "admits t cost ms st b \<longrightarrow> level (key_of t b) ms st1 = level (key_of t b) ms st + em_of b * of_int (bucket_cost (bkType b) cost)"
proof -
  let ?k = "key_of t b" and ?w = "bkWindow b div second_ns" and ?c = "bucket_cost (bkType b) cost"
  define st1 where "st1 = fst (gcra ?k (bkLimit b) ?w ?c ms st)"
  have w: "0 < ?w" using b(2) by (simp add: second_ns_def pos_imp_zdiv_pos_iff)
  have up: "reLink (envs i) = Link_up" for i using inst[of i] by (simp add: same_instant_def)
  obtain res where "rcLimiter cfg i (bucket_key t (bkType b)) cost (bkLimit b) (bkWindow b) st = (st1, Inr res)"
    "rlAllowed res = admits t cost ms st b"
    using Allow_at[OF inst[of i] b, of "bucket_key t (bkType b)" st]
    by (auto simp: lim Allow_link_up[OF up, of failOpen] st1_def admits_def bucket_key_def)
  moreover have "\<forall>k. level k ms st \<le> level k ms st1"
  proof
    show "level k ms st \<le> level k ms st1" for k
      using level_up[OF b(1) w bucket_cost_pos] level_other[of ?k k] by (cases "k = ?k") (simp_all add: st1_def)
  qed
  moreover have "\<forall>k. k \<noteq> ?k \<longrightarrow> level k ms st1 = level k ms st"
    using level_other[of ?k] by (simp add: st1_def)
  moreover have "admits t cost ms st b \<longrightarrow> level ?k ms st1 = level ?k ms st + em_of b * of_int ?c"
    using level_after[OF b(1) w bucket_cost_pos, of ?k ms st] by (simp add: st1_def admits_def)
  ultimately show thesis by (rule that)
qed

text \<open>The check loop at one instant: it passes exactly when every bucket admits its cost,
  and then books it in each; bookings never go back.\<close>

lemma check_loop_instant:
  assumes lim: "\<And>i. rcLimiter cfg i = Allow failOpen (envs i)" and inst: "\<And>i. same_instant ms (envs i, cost)"
    and "list_all (\<lambda>b. 0 < bkLimit b \<and> second_ns \<le> bkWindow b) bs" and "distinct (map (key_of t) bs)"
    and "check_loop cfg t cost done1 bs st = (st', out)"
  shows "next_outcome out = list_all (admits t cost ms st) bs
    \<and> (\<forall>k. level k ms st \<le> level k ms st')
    \<and> (next_outcome out \<longrightarrow> (\<forall>b \<in> set bs. level (key_of t b) ms st' = level (key_of t b) ms st + em_of b * of_int (bucket_cost (bkType b) cost)))
    \<and> (\<forall>k. k \<notin> set (map (key_of t) bs) \<longrightarrow> level k ms st' = level k ms st)"
  using assms(3-5)
proof (induction bs arbitrary: done1 st)
  case (Cons b bs)
  let ?k = "key_of t b"
  have b: "0 < bkLimit b" "second_ns \<le> bkWindow b" using Cons.prems(1) by simp_all
  obtain st1 res where al: "rcLimiter cfg (length done1) (bucket_key t (bkType b)) cost (bkLimit b) (bkWindow b) st = (st1, Inr res)"
    and ok: "rlAllowed res = admits t cost ms st b" and mono: "\<forall>k. level k ms st \<le> level k ms st1"
    and other: "\<forall>k. k \<noteq> ?k \<longrightarrow> level k ms st1 = level k ms st"
    and own: "admits t cost ms st b \<longrightarrow> level ?k ms st1 = level ?k ms st + em_of b * of_int (bucket_cost (bkType b) cost)"
    by (rule bucket_instant[OF lim inst b, where i = "length done1" and t = t and st = st])
  show ?case
  proof (cases "admits t cost ms st b")
    case False
    then have "st' = st1" "\<not> next_outcome out"
      using Cons.prems(3) al ok by (auto simp: bucket_key_def next_outcome_def Let_def)
    then show ?thesis using False mono other by auto
  next
    case True
    have rest: "check_loop cfg t cost (done1 @ [b\<lparr>bkResult := res\<rparr>]) bs st1 = (st', out)"
      using Cons.prems(3) al ok True by (simp add: bucket_key_def Let_def)
    have bs: "list_all (\<lambda>b. 0 < bkLimit b \<and> second_ns \<le> bkWindow b) bs" "distinct (map (key_of t) bs)" "?k \<notin> set (map (key_of t) bs)"
      using Cons.prems(1,2) by simp_all
    have same: "level (key_of t b') ms st1 = level (key_of t b') ms st" if "b' \<in> set bs" for b'
      using other bs(3) that by (metis image_eqI list.set_map)
    have adm: "list_all (admits t cost ms st1) bs = list_all (admits t cost ms st) bs"
      by (intro list.pred_cong refl) (simp add: admits_def same)
    have IH: "next_outcome out = list_all (admits t cost ms st1) bs"
      "\<And>k. level k ms st1 \<le> level k ms st'"
      "\<And>b'. next_outcome out \<Longrightarrow> b' \<in> set bs \<Longrightarrow>
        level (key_of t b') ms st' = level (key_of t b') ms st1 + em_of b' * of_int (bucket_cost (bkType b') cost)"
      "\<And>k. k \<notin> set (map (key_of t) bs) \<Longrightarrow> level k ms st' = level k ms st1"
      using Cons.IH[OF bs(1,2) rest] by blast+
    have 1: "next_outcome out = list_all (admits t cost ms st) (b # bs)" using IH(1) adm True by simp
    have 2: "level k ms st \<le> level k ms st'" for k using mono[rule_format, of k] IH(2)[of k] by (rule order_trans)
    have 3: "level (key_of t b') ms st' = level (key_of t b') ms st + em_of b' * of_int (bucket_cost (bkType b') cost)"
      if "next_outcome out" "b' \<in> set (b # bs)" for b'
      using that IH(3)[OF that(1), of b'] IH(4)[OF bs(3)] own True same[of b'] by auto
    have 4: "level k ms st' = level k ms st" if "k \<notin> set (map (key_of t) (b # bs))" for k
      using that IH(4)[of k] other by auto
    show ?thesis using 1 2 3 4 by blast
  qed
qed (auto simp: next_outcome_def)

text \<open>A sequence of requests of one tenant through the gateway's wiring, with the number
  that pass.\<close>

type_synonym mw_call = "(nat \<Rightarrow> rl_env) \<times> (nat \<Rightarrow> quota_env) \<times> uuid option"

primrec mw_run :: "bool \<Rightarrow> quota_table \<Rightarrow> uuid \<Rightarrow> mw_call list \<Rightarrow> tat_store \<Rightarrow> tat_store \<times> int" where
  "mw_run failOpen tbl t [] st = (st, 0)"
| "mw_run failOpen tbl t (c # cs) st =
     (case NewRateLimit (gateway_ratelimit failOpen (fst c) (fst (snd c)) tbl) (Some t) (snd (snd c)) st of (st', out) \<Rightarrow>
       case mw_run failOpen tbl t cs st' of (st'', n) \<Rightarrow> (st'', (if next_outcome out then 1 else 0) + n))"

definition request_cost :: RateLimitCost where
  "request_cost = \<lparr> rlRequests = 1, rlTokens = estimateTokenCost, rlToolExecs = 0 \<rparr>"

definition minute_bucket :: "string \<Rightarrow> int \<Rightarrow> bucketConfig" where
  "minute_bucket b limit = \<lparr> bkType = b, bkLimit = limit, bkWindow = one_minute, bkResult = no_result \<rparr>"

definition request_buckets :: "int \<Rightarrow> int \<Rightarrow> int \<Rightarrow> bucketConfig list" where
  "request_buckets lr lt lx = [minute_bucket BucketTypeRequests lr, minute_bucket BucketTypeTokens lt,
     minute_bucket BucketTypeToolExecs lx]"

text \<open>A call in the given millisecond, with Redis up, for which the resolver finds the
  given limits.\<close>

definition burst_call :: "quota_table \<Rightarrow> uuid \<Rightarrow> int \<Rightarrow> int \<Rightarrow> int \<Rightarrow> int \<Rightarrow> mw_call \<Rightarrow> bool" where
  "burst_call tbl t ms lr lt lx c = (\<forall>i. same_instant ms (fst c i, request_cost)
     \<and> list_all (\<lambda>(b, l). GetEffectiveLimit (fst (snd c) i) tbl t (case snd (snd c) of None \<Rightarrow> zero_uuid | Some u \<Rightarrow> u)
           zero_uuid b = Inr (l, one_minute))
         [(BucketTypeRequests, lr), (BucketTypeTokens, lt), (BucketTypeToolExecs, lx)])"

lemma distinct_keys: "distinct (map (key_of t) (request_buckets lr lt lx))"
  by (simp add: request_buckets_def minute_bucket_def bucket_key_def RateLimitKey_String_def bucket_defs)

lemma NewRateLimit_burst:
  assumes "burst_call tbl t ms lr lt lx c"
  shows "NewRateLimit (gateway_ratelimit failOpen (fst c) (fst (snd c)) tbl) (Some t) (snd (snd c)) st =
    check_loop (gateway_ratelimit failOpen (fst c) (fst (snd c)) tbl) t request_cost [] (request_buckets lr lt lx) st"
  using assms
  by (simp add: NewRateLimit_def burst_call_def gateway_ratelimit_def request_cost_def request_buckets_def
      minute_bucket_def Let_def)

lemma burst_step:
  assumes "burst_call tbl t ms lr lt lx c" and "0 < lr" and "0 < lt" and "0 < lx"
    and "NewRateLimit (gateway_ratelimit failOpen (fst c) (fst (snd c)) tbl) (Some t) (snd (snd c)) st = (st', out)"
  shows "next_outcome out = list_all (admits t request_cost ms st) (request_buckets lr lt lx)
    \<and> (\<forall>k. level k ms st \<le> level k ms st')
    \<and> (next_outcome out \<longrightarrow> (\<forall>b \<in> set (request_buckets lr lt lx).
          level (key_of t b) ms st' = level (key_of t b) ms st + em_of b * of_int (bucket_cost (bkType b) request_cost)))"
proof -
  have "list_all (\<lambda>b. 0 < bkLimit b \<and> second_ns \<le> bkWindow b) (request_buckets lr lt lx)"
    using assms(2-4) by (simp add: request_buckets_def minute_bucket_def one_minute_def second_ns_def)
  moreover have "same_instant ms (fst c i, request_cost)" for i using assms(1) by (simp add: burst_call_def)
  moreover have "rcLimiter (gateway_ratelimit failOpen (fst c) (fst (snd c)) tbl) i = Allow failOpen (fst c i)" for i
    by (simp add: gateway_ratelimit_def)
  ultimately show ?thesis
    using check_loop_instant[OF _ _ _ distinct_keys assms(5)[unfolded NewRateLimit_burst[OF assms(1)]]] by blast
qed

lemma admits_antimono:
  "level (key_of t b) ms st \<le> level (key_of t b) ms st' \<Longrightarrow> admits t cost ms st' b \<Longrightarrow> admits t cost ms st b"
  by (simp add: admits_def)

lemma mw_full:
  assumes "0 < lr" and "0 < lt" and "0 < lx" and "list_all (burst_call tbl t ms lr lt lx) cs"
    and "\<not> list_all (admits t request_cost ms st) (request_buckets lr lt lx)"
  shows "snd (mw_run failOpen tbl t cs st) = 0"
  using assms(4,5)
proof (induction cs arbitrary: st)
  case (Cons c cs)
  have c: "burst_call tbl t ms lr lt lx c" using Cons.prems(1) by simp
  obtain st' out where n: "NewRateLimit (gateway_ratelimit failOpen (fst c) (fst (snd c)) tbl) (Some t) (snd (snd c)) st = (st', out)"
    by fastforce
  note b = burst_step[OF c assms(1-3) n]
  have "\<not> list_all (admits t request_cost ms st') (request_buckets lr lt lx)"
    using Cons.prems(2) b unfolding list_all_iff by (meson admits_antimono)
  from Cons.IH[OF _ this] Cons.prems(1) have "snd (mw_run failOpen tbl t cs st') = 0" by simp
  then show ?case using b Cons.prems(2) by (cases "mw_run failOpen tbl t cs st'") (simp add: n)
qed simp

lemma le_div_iff: "0 < c \<Longrightarrow> c * x \<le> y \<longleftrightarrow> x \<le> y div c" for c x y :: int
proof
  assume c: "0 < c"
  show "c * x \<le> y \<Longrightarrow> x \<le> y div c" using zdiv_mono1[of "c * x" y c] c by simp
  assume "x \<le> y div c"
  then have "c * x \<le> c * (y div c)" using c by simp
  then show "c * x \<le> y" using c by (smt (verit) mult_div_mod_eq pos_mod_sign)
qed

lemma admits_iff:
  assumes "0 < bkLimit b" and "second_ns \<le> bkWindow b"
    and "level (key_of t b) ms st = of_int ms + em_of b * of_int (bucket_cost (bkType b) cost * j)"
  shows "admits t cost ms st b \<longleftrightarrow> j < (bkLimit b + 1) div bucket_cost (bkType b) cost"
proof -
  let ?w = "bkWindow b div second_ns" and ?c = "bucket_cost (bkType b) cost"
  have w: "0 < ?w" using assms(2) by (simp add: second_ns_def pos_imp_zdiv_pos_iff)
  note em = emission_pos[OF assms(1) w]
  have ttl: "of_int ?w * 1000 = em_of b * of_int (bkLimit b)" using assms(1) by (simp add: emission_def)
  have "admits t cost ms st b \<longleftrightarrow> em_of b * of_int (?c * j + ?c) \<le> em_of b * of_int (bkLimit b + 1)"
    unfolding admits_def assms(3) ttl by (simp add: distrib_left)
  also have "\<dots> \<longleftrightarrow> ?c * j + ?c \<le> bkLimit b + 1" using em by (simp only: mult_le_cancel_left_pos of_int_le_iff)
  also have "\<dots> \<longleftrightarrow> ?c * (j + 1) \<le> bkLimit b + 1" by (simp add: distrib_left)
  also have "\<dots> \<longleftrightarrow> j + 1 \<le> (bkLimit b + 1) div ?c"
    using bucket_cost_pos[of "bkType b" cost] le_div_iff by blast
  finally show ?thesis by linarith
qed

definition burst_size :: "int \<Rightarrow> int \<Rightarrow> int \<Rightarrow> int" where
  "burst_size lr lt lx = min (lr + 1) (min ((lt + 1) div estimateTokenCost) (lx + 1))"

lemma mw_from:
  assumes "0 < lr" and "0 < lt" and "0 < lx" and "list_all (burst_call tbl t ms lr lt lx) cs"
    and "0 \<le> j" and "j \<le> burst_size lr lt lx"
    and "\<forall>b \<in> set (request_buckets lr lt lx). level (key_of t b) ms st
      = of_int ms + em_of b * of_int (bucket_cost (bkType b) request_cost * j)"
  shows "snd (mw_run failOpen tbl t cs st) = min (int (length cs)) (burst_size lr lt lx - j)"
  using assms(4-7)
proof (induction cs arbitrary: st j)
  case (Cons c cs)
  let ?B = "request_buckets lr lt lx" and ?N = "burst_size lr lt lx"
  have B: "0 < bkLimit b" "second_ns \<le> bkWindow b" if "b \<in> set ?B" for b
    using that assms(1-3) by (auto simp: request_buckets_def minute_bucket_def one_minute_def second_ns_def)
  have adm: "list_all (admits t request_cost ms st) ?B \<longleftrightarrow> (\<forall>b \<in> set ?B. j < (bkLimit b + 1) div bucket_cost (bkType b) request_cost)"
    unfolding list_all_iff using admits_iff[OF B] Cons.prems(4) by blast
  also have "\<dots> \<longleftrightarrow> j < ?N"
    by (auto simp: request_buckets_def minute_bucket_def burst_size_def bucket_cost_def request_cost_def
        estimateTokenCost_def bucket_defs)
  finally have adm: "list_all (admits t request_cost ms st) ?B \<longleftrightarrow> j < ?N" .
  show ?case
  proof (cases "j < ?N")
    case False
    then have "snd (mw_run failOpen tbl t (c # cs) st) = 0"
      using adm by (intro mw_full[OF assms(1-3) Cons.prems(1)]) simp
    then show ?thesis using False Cons.prems(3) by simp
  next
    case True
    obtain st' out where n: "NewRateLimit (gateway_ratelimit failOpen (fst c) (fst (snd c)) tbl) (Some t) (snd (snd c)) st = (st', out)"
      by fastforce
    have c: "burst_call tbl t ms lr lt lx c" using Cons.prems(1) by simp
    note b = burst_step[OF c assms(1-3) n]
    have out: "next_outcome out" using b adm True by blast
    then have "\<forall>b \<in> set ?B. level (key_of t b) ms st' = of_int ms + em_of b * of_int (bucket_cost (bkType b) request_cost * (j + 1))"
      using b Cons.prems(4) by (simp add: distrib_left)
    from Cons.IH[OF _ _ _ this] Cons.prems True
    have "snd (mw_run failOpen tbl t cs st') = min (int (length cs)) (?N - (j + 1))" by simp
    then show ?thesis using out True by (cases "mw_run failOpen tbl t cs st'") (simp add: n)
  qed
qed simp

subsection \<open>Properties\<close>

definition demo_rl_env :: rl_env where
  "demo_rl_env = \<lparr> reNow = 5000000, reClock = 5, reLink = Link_up \<rparr>"

definition demo_rl_call :: rl_call where
  "demo_rl_call = (demo_rl_env, request_cost)"

definition demo_quota_env :: quota_env where
  "demo_quota_env = \<lparr> qeTenant = quiet_env, qeUser = quiet_env, qeRole = quiet_env \<rparr>"

lemma demo_in_step [simp]: "call_ms demo_rl_call = 5" "in_step demo_rl_call" "same_instant 5 demo_rl_call"
  by (simp_all add: demo_rl_call_def demo_rl_env_def call_ms_def in_step_def same_instant_def milli_ns_def)

text \<open>A tenant without quotas has the default limits.\<close>

lemma demo_burst_call:
  "burst_call [] t 5 60 10000 30 (\<lambda>i. demo_rl_env, \<lambda>i. demo_quota_env, None)"
proof -
  have "GetEffectiveLimit demo_quota_env [] t zero_uuid zero_uuid b = Inr (getBucketLimit DefaultQuotas b, one_minute)" for b
    by (simp add: GetEffectiveLimit_def demo_quota_env_def GetByScope_def WithTenantBackground_def quiet_env_def
        stmt_def raise_limit_def Let_def IsZero_def)
  then show ?thesis
    using demo_in_step(3)
    by (simp add: burst_call_def demo_rl_call_def getBucketLimit_def DefaultQuotas_def bucket_defs)
qed



text \<open>A burst on a fresh bucket gets one request more than the limit: of any number of unit
  requests in the same millisecond exactly \<open>limit + 1\<close> are admitted, as far as there are so many.\<close>

theorem burst_admits_one_more:
  assumes "0 < limit" and "second_ns \<le> window" and "list_all (same_instant ms) calls"
    and "list_all (\<lambda>r. bucket_cost (rkBucketType key) (snd r) = 1) calls"
  shows "snd (rl_run key limit window calls Map.empty) = min (int (length calls)) (limit + 1)"
  using burst_from[OF assms, of 0 Map.empty] assms(1) by (simp add: level_def get_tat_def)

theorem burst_admits_one_more_witness:
  "snd (rl_run (bucket_key zero_uuid BucketTypeRequests) 2 second_ns (replicate 9 demo_rl_call) Map.empty) = 3"
  using burst_admits_one_more[of 2 second_ns 5 "replicate 9 demo_rl_call" "bucket_key zero_uuid BucketTypeRequests"]
  by (simp add: bucket_key_def bucket_cost_def list_all_iff) (simp add: demo_rl_call_def request_cost_def)

text \<open>What a tenant gets in one instant through the whole middleware: of any number of
  requests in the same millisecond on fresh buckets exactly the least of the request limit plus one,
  a thousandth of the token limit plus one, and the tool limit plus one pass. Every request is
  charged a thousand tokens and one tool execution, whatever it asks for.\<close>

theorem middleware_burst_exact:
  assumes "0 < lr" and "0 < lt" and "0 < lx" and "list_all (burst_call tbl t ms lr lt lx) calls"
  shows "snd (mw_run failOpen tbl t calls Map.empty) = min (int (length calls)) (burst_size lr lt lx)"
proof -
  have "0 \<le> burst_size lr lt lx" using assms(1-3) by (simp add: burst_size_def estimateTokenCost_def)
  then show ?thesis
    using mw_from[OF assms, of 0 Map.empty] by (simp add: level_def get_tat_def)
qed

theorem middleware_burst_exact_witness:
  "snd (mw_run True [] zero_uuid (replicate 60 (\<lambda>i. demo_rl_env, \<lambda>i. demo_quota_env, None)) Map.empty) = 10"
  using middleware_burst_exact[of 60 10000 30 "[]" zero_uuid 5 "replicate 60 (\<lambda>i. demo_rl_env, \<lambda>i. demo_quota_env, None)" True]
    demo_burst_call
  by (simp add: burst_size_def estimateTokenCost_def list_all_iff)

end
