(* ===== verification/ToolStore.thy ===== *)
theory ToolStore
  imports AuditLog ToolTypes "HOL-Library.Char_ord" "HOL-Library.List_Lexorder" "HOL-Library.Multiset"
begin

text \<open>
  The tool registry: \<open>src/internal/adapter/postgres/tool_repository.go\<close> over the table
  \<open>tool_definitions\<close> (queries of \<open>queries/tool.sql\<close>, constraints of migrations 0018 and
  0019) and the audit log it writes in the same transactions, and \<open>ComputeHash\<close> of
  \<open>src/internal/domain/tool/registry.go\<close>. The expiring LRU cache is a package outside the
  repository: its operations are a parameter, and \<open>lawful_cache\<close> states what is relied on.
\<close>

subsection \<open>Parameters\<close>

text \<open>JSON, RFC 8785 canonicalization and the audit library.\<close>

record tool_lib =
  tlAudit :: audit_lib
  tlHashText :: "string \<Rightarrow> string \<Rightarrow> string \<Rightarrow> string"
  tlDecode :: "string \<Rightarrow> json option"
  tlMarshalGrants :: "ToolGrants \<Rightarrow> string"
  tlMarshalPayload ::
    "string \<Rightarrow> string \<Rightarrow> string option \<Rightarrow> string option \<Rightarrow> string list \<Rightarrow> ToolDefinition \<Rightarrow> string"

type_synonym cacheKey = "uuid \<times> string"

record 'c cache_ops =
  coGet :: "time \<Rightarrow> cacheKey \<Rightarrow> 'c \<Rightarrow> 'c \<times> ToolDefinition option"
  coAdd :: "time \<Rightarrow> cacheKey \<Rightarrow> ToolDefinition \<Rightarrow> 'c \<Rightarrow> 'c"
  coRemove :: "cacheKey \<Rightarrow> 'c \<Rightarrow> 'c"
  coPurge :: "'c \<Rightarrow> 'c"

text \<open>What every cache with eviction and expiry does: an entry is what was last added under
  its key, it may vanish at any time, and removing and purging make it vanish.\<close>

definition lawful_cache :: "'c cache_ops \<Rightarrow> ('c \<Rightarrow> cacheKey \<rightharpoonup> ToolDefinition) \<Rightarrow> bool" where
  "lawful_cache ops entries =
     ((\<forall>t k c d. snd (coGet ops t k c) = Some d \<longrightarrow> entries c k = Some d)
      \<and> (\<forall>t k c. entries (fst (coGet ops t k c)) \<subseteq>\<^sub>m entries c)
      \<and> (\<forall>t k d c. entries (coAdd ops t k d c) \<subseteq>\<^sub>m (entries c)(k \<mapsto> d))
      \<and> (\<forall>k c. entries (coRemove ops k c) \<subseteq>\<^sub>m (entries c)(k := None))
      \<and> (\<forall>c. entries (coPurge ops c) = Map.empty))"

subsection \<open>Hash and JSON comparison\<close>

definition ComputeHash :: "tool_lib \<Rightarrow> string \<Rightarrow> string \<Rightarrow> string option \<Rightarrow> string" where
  "ComputeHash L name description parameters =
     hex_encode (alSha256 (tlAudit L) (tlHashText L name description
       (case parameters of None \<Rightarrow> ''{}'' | Some p \<Rightarrow> p)))"

text \<open>The value of a key that is missing from a Go map of interfaces is nil, as is JSON null.\<close>

definition lookup_nil :: "(string \<times> json) list \<Rightarrow> string \<Rightarrow> json" where
  "lookup_nil m k = (case map_of m k of None \<Rightarrow> JNull | Some v \<Rightarrow> v)"

lemma size_zip_left [termination_simp]:
  "ab \<in> set (zip av bv) \<Longrightarrow> size (fst ab) < Suc (size_list size av)"
proof -
  assume "ab \<in> set (zip av bv)"
  then have "fst ab \<in> set av" by (metis prod.collapse set_zip_leftD)
  then show ?thesis using size_list_estimation[of "fst ab" av "size (fst ab)" size] by (simp add: less_Suc_eq_le size_list_estimation')
qed

fun jsonEqualValue :: "json \<Rightarrow> json \<Rightarrow> bool" where
  "jsonEqualValue (JObj av) b = (case b of
     JObj bv \<Rightarrow> length av = length bv \<and> list_all (\<lambda>kv. jsonEqualValue (snd kv) (lookup_nil bv (fst kv))) av
   | _ \<Rightarrow> False)"
| "jsonEqualValue (JArr av) b = (case b of
     JArr bv \<Rightarrow> length av = length bv \<and> list_all (\<lambda>ab. jsonEqualValue (fst ab) (snd ab)) (zip av bv)
   | _ \<Rightarrow> False)"
| "jsonEqualValue a b = (a = b)"

definition jsonEqual :: "tool_lib \<Rightarrow> string option \<Rightarrow> string option \<Rightarrow> bool" where
  "jsonEqual L a b =
     (let s = (\<lambda>x. case x of None \<Rightarrow> [] | Some t \<Rightarrow> t) in
      if s a = [] \<and> s b = [] then True
      else if s a = [] \<or> s b = [] then False
      else case (tlDecode L (s a), tlDecode L (s b)) of
        (Some va, Some vb) \<Rightarrow> jsonEqualValue va vb | _ \<Rightarrow> False)"

definition toLower :: "string \<Rightarrow> string" where
  "toLower s = map (\<lambda>c. let n = of_char c :: nat in if 65 \<le> n \<and> n \<le> 90 then char_of (n + 32) else c) s"

subsection \<open>The table\<close>

type_synonym int64 = "64 word"

record tool_row =
  toID :: int
  toTenantID :: uuid
  toName :: string
  toDescription :: string
  toInputSchema :: string
  toGrants :: string
  toExecutionTimeoutMs :: int64
  toMemoryPages :: uint32
  toHash :: string
  toIsActive :: bool
  toCreatedAt :: time
  toUpdatedAt :: time

text \<open>The database of one tenant transaction: the tools and the audit log.\<close>

record tool_db =
  tbTools :: "tool_row list"
  tbAudit :: audit_table

definition convertSQLCToolDefinition :: "tool_row \<Rightarrow> ToolDefinition" where
  "convertSQLCToolDefinition r = \<lparr> tdID = toID r, tdTenantID = toTenantID r, tdName = toName r,
     tdDescription = toDescription r, tdInputSchema = Some (toInputSchema r), tdGrants = Some (toGrants r),
     tdExecutionTimeoutMs = toExecutionTimeoutMs r, tdMemoryPages = toMemoryPages r, tdHash = toHash r,
     tdIsActive = toIsActive r \<rparr>"

text \<open>What one repository call meets: the servers of its transaction and of the audit append
  inside it, the server of a read before it, the clock of the cache, and the ids the
  database draws.\<close>

record tool_env =
  teRead :: pg_env
  teTx :: pg_env
  teAppend :: pg_env
  teNow :: time
  teNewID :: int
  teAuditID :: uuid

text \<open>\<open>hash\<close> is \<open>char(64)\<close>: a shorter text is padded with blanks.\<close>

definition char64 :: "string \<Rightarrow> string" where
  "char64 h = h @ replicate (64 - length h) (CHR '' '')"

text \<open>The values an insert or update writes, with the conversions and constraints of the
  columns. A nil \<open>json.RawMessage\<close> is NULL.\<close>

definition column_error :: "tool_lib \<Rightarrow> ToolDefinition \<Rightarrow> go_error option" where
  "column_error L def =
     (if length (tdName def) > 255 \<or> length (tdHash def) > 64 then Some (PgError ''22001'' ''value too long'')
      else if tdInputSchema def = None \<or> tdGrants def = None then Some (PgError ''23502'' ''not-null constraint'')
      else if alCanon (tlAudit L) (the (tdInputSchema def)) = None \<or> alCanon (tlAudit L) (the (tdGrants def)) = None
        then Some (PgError ''22P02'' ''invalid input syntax for type json'')
      else if sint (tdExecutionTimeoutMs def) \<le> 0 \<or> sint (tdExecutionTimeoutMs def) > 300000
        then Some (PgError ''23514'' ''chk_execution_timeout_ms_range'')
      else None)"

definition write_columns :: "tool_lib \<Rightarrow> ToolDefinition \<Rightarrow> tool_row \<Rightarrow> tool_row" where
  "write_columns L def r = r\<lparr>toDescription := tdDescription def,
     toInputSchema := alJsonb (tlAudit L) (the (tdInputSchema def)),
     toGrants := alJsonb (tlAudit L) (the (tdGrants def)),
     toExecutionTimeoutMs := tdExecutionTimeoutMs def, toMemoryPages := tdMemoryPages def,
     toHash := char64 (tdHash def), toIsActive := tdIsActive def\<rparr>"

definition new_tool_row :: "tool_lib \<Rightarrow> pg_env \<Rightarrow> int \<Rightarrow> uuid \<Rightarrow> ToolDefinition \<Rightarrow> tool_row" where
  "new_tool_row L env newID tenantID def = write_columns L def \<lparr> toID = newID, toTenantID = tenantID, toName = tdName def,
     toDescription = [], toInputSchema = [], toGrants = [], toExecutionTimeoutMs = 0, toMemoryPages = 0,
     toHash = [], toIsActive = False, toCreatedAt = pgNow env, toUpdatedAt = pgNow env \<rparr>"

definition tool_sees :: "pg_env \<Rightarrow> uuid option \<Rightarrow> tool_row \<Rightarrow> bool" where
  "tool_sees env guc r = rls_ok env guc (toTenantID r)"

definition named :: "uuid \<Rightarrow> string \<Rightarrow> tool_row \<Rightarrow> bool" where
  "named tenantID name r = (toTenantID r = tenantID \<and> toName r = name)"

text \<open>The partial unique index: one active row per tenant and name.\<close>

definition one_active :: "tool_row list \<Rightarrow> bool" where
  "one_active rs = distinct (map (\<lambda>r. (toTenantID r, toName r)) (filter toIsActive rs))"

definition duplicate_key :: go_error where
  "duplicate_key = PgError ''23505'' ''duplicate key value violates unique constraint''"

definition SqlGetToolDefinitionByName ::
  "pg_env \<Rightarrow> uuid option \<Rightarrow> uuid \<Rightarrow> string \<Rightarrow> tool_row list \<Rightarrow> tool_row result" where
  "SqlGetToolDefinitionByName env guc tenantID name rs =
     (case List.find (\<lambda>r. tool_sees env guc r \<and> named tenantID name r \<and> toIsActive r) rs of
        None \<Rightarrow> Inl (pgNoRows env) | Some r \<Rightarrow> Inr r)"

definition SqlCreateToolDefinition ::
  "tool_lib \<Rightarrow> pg_env \<Rightarrow> uuid option \<Rightarrow> int \<Rightarrow> uuid \<Rightarrow> ToolDefinition \<Rightarrow> (tool_row list, tool_row) db_call" where
  "SqlCreateToolDefinition L env guc newID tenantID def rs =
     (let row = new_tool_row L env newID tenantID def in
      case column_error L def of
        Some e \<Rightarrow> (rs, Inl e)
      | None \<Rightarrow>
          if \<not> tool_sees env guc row then (rs, Inl (PgError ''42501'' ''row-level security''))
          else if list_ex (\<lambda>r. toID r = newID \<and> toTenantID r = tenantID) rs \<or> \<not> one_active (rs @ [row])
            then (rs, Inl duplicate_key)
          else (rs @ [row], Inr row))"

text \<open>The update has no condition on \<open>is_active\<close>: it rewrites every row of that name.\<close>

definition SqlUpdateToolDefinition ::
  "tool_lib \<Rightarrow> pg_env \<Rightarrow> uuid option \<Rightarrow> uuid \<Rightarrow> ToolDefinition \<Rightarrow> (tool_row list, tool_row) db_call" where
  "SqlUpdateToolDefinition L env guc tenantID def rs =
     (let Q = (\<lambda>r. tool_sees env guc r \<and> named tenantID (tdName def) r);
          rs' = update_rows Q (\<lambda>r. (write_columns L def r)\<lparr>toUpdatedAt := pgNow env\<rparr>) rs
      in case List.find Q rs' of
           None \<Rightarrow> (rs, Inl (pgNoRows env))
         | Some row \<Rightarrow> (case column_error L def of
             Some e \<Rightarrow> (rs, Inl e)
           | None \<Rightarrow> if \<not> one_active rs' then (rs, Inl duplicate_key) else (rs', Inr row)))"

definition SqlDeactivateToolDefinition ::
  "pg_env \<Rightarrow> uuid option \<Rightarrow> uuid \<Rightarrow> string \<Rightarrow> (tool_row list, unit) db_call" where
  "SqlDeactivateToolDefinition env guc tenantID name rs =
     (update_rows (\<lambda>r. tool_sees env guc r \<and> named tenantID name r)
        (\<lambda>r. r\<lparr>toIsActive := False, toUpdatedAt := pgNow env\<rparr>) rs, Inr ())"

text \<open>The conflict target is the partial index, so an inactive row is no conflict.\<close>

definition SqlUpsertToolDefinition ::
  "tool_lib \<Rightarrow> pg_env \<Rightarrow> uuid option \<Rightarrow> int \<Rightarrow> uuid \<Rightarrow> ToolDefinition \<Rightarrow> (tool_row list, tool_row) db_call" where
  "SqlUpsertToolDefinition L env guc newID tenantID def rs =
     (let Q = (\<lambda>r. named tenantID (tdName def) r \<and> toIsActive r) in
      case (column_error L def, tdIsActive def \<and> list_ex Q rs) of
        (Some e, _) \<Rightarrow> (rs, Inl e)
      | (None, False) \<Rightarrow> SqlCreateToolDefinition L env guc newID tenantID def rs
      | (None, True) \<Rightarrow>
          if \<not> rls_ok env guc tenantID then (rs, Inl (PgError ''42501'' ''row-level security''))
          else let upd = (\<lambda>r. (write_columns L def r)\<lparr>toUpdatedAt := pgNow env\<rparr>);
                   rs' = update_rows Q upd rs
               in (case List.find Q rs of None \<Rightarrow> (rs, Inl (pgNoRows env)) | Some r \<Rightarrow> (rs', Inr (upd r))))"

subsection \<open>The repository\<close>

record 'c tool_state =
  tsDb :: tool_db
  tsCache :: 'c

definition on_tools :: "(tool_row list, 'a) db_call \<Rightarrow> (tool_db, 'a) db_call" where
  "on_tools f db = (case f (tbTools db) of (rs, x) \<Rightarrow> (db\<lparr>tbTools := rs\<rparr>, x))"

definition in_tx :: "pg_env \<Rightarrow> uuid \<Rightarrow> (uuid option \<Rightarrow> (tool_db, 'a) db_call) \<Rightarrow> ('c tool_state, 'a) db_call" where
  "in_tx env tenantID fn s = (case WithTenantTx env tenantID fn (tsDb s) of (db, x) \<Rightarrow> (s\<lparr>tsDb := db\<rparr>, x))"

definition invalidateCache :: "'c cache_ops \<Rightarrow> uuid \<Rightarrow> string \<Rightarrow> 'c tool_state \<Rightarrow> 'c tool_state" where
  "invalidateCache ops tenantID name s = s\<lparr>tsCache := coRemove ops (tenantID, name) (tsCache s)\<rparr>"

definition clearCache :: "'c cache_ops \<Rightarrow> 'c tool_state \<Rightarrow> 'c tool_state" where
  "clearCache ops s = s\<lparr>tsCache := coPurge ops (tsCache s)\<rparr>"

definition GetByNameTx ::
  "pg_env \<Rightarrow> uuid \<Rightarrow> string \<Rightarrow> uuid option \<Rightarrow> (tool_db, ToolDefinition) db_call" where
  "GetByNameTx env tenantID name guc db =
     (case stmt env (\<lambda>db. (db, SqlGetToolDefinitionByName env guc tenantID name (tbTools db))) db of
        (db', Inl e) \<Rightarrow> (db', Inl (if errors_is e SqlErrNoRows then ErrToolNotFound else e))
      | (db', Inr r) \<Rightarrow> (db', Inr (convertSQLCToolDefinition r)))"

text \<open>\<open>GetByName\<close> in its three steps: the cache, the database, the fill. Between them
  the lock of the cache is not held.\<close>

definition cache_lookup :: "'c cache_ops \<Rightarrow> time \<Rightarrow> uuid \<Rightarrow> string \<Rightarrow> 'c tool_state \<Rightarrow> 'c tool_state \<times> ToolDefinition option" where
  "cache_lookup ops now tenantID name s =
     (case coGet ops now (tenantID, name) (tsCache s) of (c, d) \<Rightarrow> (s\<lparr>tsCache := c\<rparr>, d))"

definition db_lookup :: "pg_env \<Rightarrow> uuid \<Rightarrow> string \<Rightarrow> ('c tool_state, ToolDefinition) db_call" where
  "db_lookup env tenantID name = in_tx env tenantID (GetByNameTx env tenantID name)"

definition cache_fill :: "'c cache_ops \<Rightarrow> time \<Rightarrow> uuid \<Rightarrow> string \<Rightarrow> ToolDefinition \<Rightarrow> 'c tool_state \<Rightarrow> 'c tool_state" where
  "cache_fill ops now tenantID name d s = s\<lparr>tsCache := coAdd ops now (tenantID, name) d (tsCache s)\<rparr>"

definition GetByName ::
  "'c cache_ops \<Rightarrow> tool_env \<Rightarrow> uuid \<Rightarrow> string \<Rightarrow> ('c tool_state, ToolDefinition) db_call" where
  "GetByName ops e tenantID name s =
     (case cache_lookup ops (teNow e) tenantID name s of
        (s', Some cached) \<Rightarrow> (s', Inr cached)
      | (s', None) \<Rightarrow> (case db_lookup (teRead e) tenantID name s' of
          (s'', Inl err) \<Rightarrow> (s'', Inl err)
        | (s'', Inr def) \<Rightarrow> (cache_fill ops (teNow e) tenantID name def s'', Inr def)))"

definition buildAuditEvent ::
  "tool_lib \<Rightarrow> tool_env \<Rightarrow> uuid \<Rightarrow> ToolDefinition \<Rightarrow> string \<Rightarrow> string option \<Rightarrow> string option \<Rightarrow> string list \<Rightarrow> string \<Rightarrow> AuditEvent" where
  "buildAuditEvent L e tenantID def operation oldHash newHash changedFields severity = \<lparr>
     aeID = zero_uuid, aeTenantID = tenantID, aeSeq = 0, aePrevHash = [], aeChainHash = [],
     aeActorUserID = None, aeAction = ''tool_definition.'' @ toLower operation,
     aeEntityType = ''tool_definition'', aeEntityID = None,
     aePayload = tlMarshalPayload L operation (tdName def) oldHash newHash changedFields def,
     aeSeverity = severity, aeCreatedAt = Truncate_us (teNow e) \<rparr>"

text \<open>The append inside the transaction; an error rolls everything back.\<close>

definition append_tx :: "tool_lib \<Rightarrow> tool_env \<Rightarrow> uuid option \<Rightarrow> AuditEvent \<Rightarrow> (tool_db, unit) db_call" where
  "append_tx L e guc ev db = (case AppendWithTx (tlAudit L) (teAppend e) (teAuditID e) ev guc (tbAudit db) of
     (a, Inl err) \<Rightarrow> (db, Inl err) | (a, Inr _) \<Rightarrow> (db\<lparr>tbAudit := a\<rparr>, Inr ()))"

text \<open>A write of the tools followed by its audit event.\<close>

definition write_audited ::
  "tool_lib \<Rightarrow> tool_env \<Rightarrow> (uuid option \<Rightarrow> (tool_row list, 'r) db_call) \<Rightarrow> ('r \<Rightarrow> AuditEvent) \<Rightarrow>
   uuid option \<Rightarrow> (tool_db, 'r) db_call" where
  "write_audited L e q ev guc db =
     (case on_tools (stmt (teTx e) (q guc)) db of
        (db', Inl err) \<Rightarrow> (db', Inl err)
      | (db', Inr r) \<Rightarrow> (case append_tx L e guc (ev r) db' of
          (db'', Inl err) \<Rightarrow> (db'', Inl err)
        | (db'', Inr _) \<Rightarrow> (db'', Inr r)))"

definition with_hash :: "tool_lib \<Rightarrow> ToolDefinition \<Rightarrow> ToolDefinition" where
  "with_hash L def = (if tdHash def = [] then def\<lparr>tdHash := ComputeHash L (tdName def) (tdDescription def) (tdInputSchema def)\<rparr> else def)"

definition CreateToolDefinition ::
  "tool_lib \<Rightarrow> 'c cache_ops \<Rightarrow> tool_env \<Rightarrow> uuid \<Rightarrow> ToolDefinition \<Rightarrow> ('c tool_state, ToolDefinition) db_call" where
  "CreateToolDefinition L ops e tenantID def0 s =
     (let def = with_hash L def0; filled = (\<lambda>r. def\<lparr>tdID := toID r, tdTenantID := toTenantID r\<rparr>) in
      case in_tx (teTx e) tenantID (write_audited L e
             (\<lambda>guc. SqlCreateToolDefinition L (teTx e) guc (teNewID e) tenantID def)
             (\<lambda>r. buildAuditEvent L e tenantID (filled r) ''CREATE'' None (Some (tdHash def)) [] AuditSeverityInfo)) s of
        (s', Inl err) \<Rightarrow> (s', Inl err)
      | (s', Inr r) \<Rightarrow> (invalidateCache ops tenantID (tdName def) s', Inr (filled r)))"

definition changed_fields :: "tool_lib \<Rightarrow> ToolDefinition \<Rightarrow> ToolDefinition \<Rightarrow> string list" where
  "changed_fields L existing def =
     (if tdDescription existing \<noteq> tdDescription def then [''description''] else [])
     @ (if \<not> jsonEqual L (tdInputSchema existing) (tdInputSchema def) then [''input_schema''] else [])
     @ (if \<not> jsonEqual L (tdGrants existing) (tdGrants def) then [''grants''] else [])
     @ (if tdExecutionTimeoutMs existing \<noteq> tdExecutionTimeoutMs def then [''execution_timeout_ms''] else [])
     @ (if tdMemoryPages existing \<noteq> tdMemoryPages def then [''memory_pages''] else [])
     @ (if tdIsActive existing \<noteq> tdIsActive def then [''is_active''] else [])"

text \<open>The part of an update after the existing definition has been read: the statement and
  the audit event. The result is the definition as updated and whether its hash changed.\<close>

definition update_tx ::
  "tool_lib \<Rightarrow> tool_env \<Rightarrow> uuid \<Rightarrow> ToolDefinition \<Rightarrow> ToolDefinition \<Rightarrow> uuid option \<Rightarrow> (tool_db, ToolDefinition \<times> bool) db_call" where
  "update_tx L e tenantID existing def guc db =
     (let newHash = (if tdHash def = [] then ComputeHash L (tdName def) (tdDescription def) (tdInputSchema def) else tdHash def);
          hashChanged = (tdHash existing \<noteq> newHash);
          severity = (if hashChanged then AuditSeverityCritical else AuditSeverityWarn);
          filled = (\<lambda>r. def\<lparr>tdID := toID r, tdTenantID := toTenantID r, tdHash := toHash r\<rparr>)
      in case write_audited L e
             (\<lambda>guc. SqlUpdateToolDefinition L (teTx e) guc tenantID (def\<lparr>tdHash := newHash\<rparr>))
             (\<lambda>r. buildAuditEvent L e tenantID (filled r) ''UPDATE'' (Some (tdHash existing)) (Some newHash)
                (changed_fields L existing def) severity) guc db of
           (db', Inl err) \<Rightarrow> (db', Inl err)
         | (db', Inr r) \<Rightarrow> (db', Inr (filled r, hashChanged)))"

definition UpdateToolDefinition ::
  "tool_lib \<Rightarrow> 'c cache_ops \<Rightarrow> tool_env \<Rightarrow> uuid \<Rightarrow> ToolDefinition \<Rightarrow> ('c tool_state, ToolDefinition \<times> bool) db_call" where
  "UpdateToolDefinition L ops e tenantID def s =
     (case GetByName ops e tenantID (tdName def) s of
        (s', Inl err) \<Rightarrow> (s', Inl err)
      | (s', Inr existing) \<Rightarrow> (case in_tx (teTx e) tenantID (update_tx L e tenantID existing def) s' of
          (s'', Inl err) \<Rightarrow> (s'', Inl err)
        | (s'', Inr r) \<Rightarrow> (invalidateCache ops tenantID (tdName def) s'', Inr r)))"

text \<open>\<open>UpdateToolDefinitionTx\<close> works in its caller's transaction and leaves the cache alone.\<close>

definition UpdateToolDefinitionTx ::
  "tool_lib \<Rightarrow> tool_env \<Rightarrow> uuid \<Rightarrow> ToolDefinition \<Rightarrow> uuid option \<Rightarrow> (tool_db, ToolDefinition \<times> bool) db_call" where
  "UpdateToolDefinitionTx L e tenantID def guc db =
     (case GetByNameTx (teRead e) tenantID (tdName def) guc db of
        (db', Inl err) \<Rightarrow> (db', Inl err)
      | (db', Inr existing) \<Rightarrow> update_tx L e tenantID existing def guc db')"

definition DeactivateToolDefinition ::
  "tool_lib \<Rightarrow> 'c cache_ops \<Rightarrow> tool_env \<Rightarrow> uuid \<Rightarrow> string \<Rightarrow> ('c tool_state, unit) db_call" where
  "DeactivateToolDefinition L ops e tenantID name s =
     (case GetByName ops e tenantID name s of
        (s', Inl err) \<Rightarrow> (s', Inl err)
      | (s', Inr existing) \<Rightarrow> (case in_tx (teTx e) tenantID (write_audited L e
             (\<lambda>guc. SqlDeactivateToolDefinition (teTx e) guc tenantID name)
             (\<lambda>_. buildAuditEvent L e tenantID existing ''DELETE'' (Some (tdHash existing)) None [] AuditSeverityWarn)) s' of
          (s'', Inl err) \<Rightarrow> (s'', Inl err)
        | (s'', Inr _) \<Rightarrow> (invalidateCache ops tenantID name s'', Inr ())))"

definition UpsertToolDefinition ::
  "tool_lib \<Rightarrow> tool_env \<Rightarrow> uuid \<Rightarrow> ToolDefinition \<Rightarrow> ('c tool_state, ToolDefinition) db_call" where
  "UpsertToolDefinition L e tenantID def0 s =
     (let def = with_hash L def0; filled = (\<lambda>r. def\<lparr>tdID := toID r, tdTenantID := toTenantID r\<rparr>) in
      case in_tx (teTx e) tenantID (write_audited L e
             (\<lambda>guc. SqlUpsertToolDefinition L (teTx e) guc (teNewID e) tenantID def)
             (\<lambda>r. buildAuditEvent L e tenantID (filled r) ''UPSERT'' None (Some (tdHash def)) [] AuditSeverityInfo)) s of
        (s', Inl err) \<Rightarrow> (s', Inl err)
      | (s', Inr r) \<Rightarrow> (s', Inr (filled r)))"

text \<open>The boot seed: every upsert in one transaction; \<open>e i\<close> is what the \<open>i\<close>-th tool meets.\<close>

definition seed_def :: "tool_lib \<Rightarrow> ToolConfig \<Rightarrow> uuid \<Rightarrow> ToolModuleConfig \<Rightarrow> ToolDefinition" where
  "seed_def L cfg tenantID tc = \<lparr> tdID = 0, tdTenantID = tenantID, tdName = tmName tc, tdDescription = [],
     tdInputSchema = Some ''{}'', tdGrants = Some (tlMarshalGrants L (tmGrants tc)),
     tdExecutionTimeoutMs = word_of_int (EffectiveTimeoutMs cfg tc), tdMemoryPages = EffectiveMemoryPages cfg tc,
     tdHash = ComputeHash L (tmName tc) [] (Some ''{}''), tdIsActive = True \<rparr>"

definition seed_audit_def :: "tool_lib \<Rightarrow> uuid \<Rightarrow> ToolModuleConfig \<Rightarrow> ToolDefinition" where
  "seed_audit_def L tenantID tc = \<lparr> tdID = 0, tdTenantID = tenantID, tdName = tmName tc, tdDescription = [],
     tdInputSchema = None, tdGrants = None, tdExecutionTimeoutMs = 0, tdMemoryPages = 0,
     tdHash = ComputeHash L (tmName tc) [] (Some ''{}''), tdIsActive = False \<rparr>"

fun seed_loop ::
  "tool_lib \<Rightarrow> (nat \<Rightarrow> tool_env) \<Rightarrow> ToolConfig \<Rightarrow> uuid \<Rightarrow> nat \<Rightarrow> ToolModuleConfig list \<Rightarrow> uuid option \<Rightarrow> (tool_db, unit) db_call" where
  "seed_loop L e cfg tenantID i [] guc db = (db, Inr ())"
| "seed_loop L e cfg tenantID i (tc # tcs) guc db =
     (case write_audited L (e i)
            (\<lambda>guc. SqlUpsertToolDefinition L (teTx (e i)) guc (teNewID (e i)) tenantID (seed_def L cfg tenantID tc))
            (\<lambda>_. buildAuditEvent L (e i) tenantID (seed_audit_def L tenantID tc) ''UPSERT'' None
                (Some (ComputeHash L (tmName tc) [] (Some ''{}''))) [] AuditSeverityInfo) guc db of
        (db', Inl err) \<Rightarrow> (db', Inl err)
      | (db', Inr _) \<Rightarrow> seed_loop L e cfg tenantID (Suc i) tcs guc db')"

definition InitFromConfig ::
  "tool_lib \<Rightarrow> 'c cache_ops \<Rightarrow> pg_env \<Rightarrow> (nat \<Rightarrow> tool_env) \<Rightarrow> uuid \<Rightarrow> ToolConfig \<Rightarrow> ('c tool_state, unit) db_call" where
  "InitFromConfig L ops env e tenantID cfg s =
     (case in_tx env tenantID (seed_loop L e cfg tenantID 0 (tcfTools cfg)) s of
        (s', Inl err) \<Rightarrow> (s', Inl err)
      | (s', Inr _) \<Rightarrow> (clearCache ops s', Inr ()))"

subsection \<open>What a write changes\<close>

definition active_def :: "uuid \<Rightarrow> string \<Rightarrow> tool_row list \<Rightarrow> ToolDefinition option" where
  "active_def t n rs = map_option convertSQLCToolDefinition (List.find (\<lambda>r. named t n r \<and> toIsActive r) rs)"

text \<open>Only the definition of one tool may differ.\<close>

definition only_tool :: "uuid \<Rightarrow> string \<Rightarrow> tool_row list \<Rightarrow> tool_row list \<Rightarrow> bool" where
  "only_tool t n rs rs' = (\<forall>t' n'. (t', n') \<noteq> (t, n) \<longrightarrow> active_def t' n' rs' = active_def t' n' rs)"

lemma only_tool_refl [simp]: "only_tool t n rs rs"
  by (simp add: only_tool_def)

lemma write_columns_key [simp]:
  "toTenantID (write_columns L def r) = toTenantID r" "toName (write_columns L def r) = toName r"
  by (simp_all add: write_columns_def)

lemma new_tool_row_key [simp]:
  "toTenantID (new_tool_row L env i t def) = t" "toName (new_tool_row L env i t def) = tdName def"
  by (simp_all add: new_tool_row_def)

lemma only_tool_update:
  assumes "\<And>r. Q r \<Longrightarrow> named t n r" and "\<And>r. toTenantID (f r) = toTenantID r \<and> toName (f r) = toName r"
  shows "only_tool t n rs (update_rows Q f rs)"
proof -
  have "List.find (\<lambda>r. named t' n' r \<and> toIsActive r) (update_rows Q f rs) = List.find (\<lambda>r. named t' n' r \<and> toIsActive r) rs"
    if "(t', n') \<noteq> (t, n)" for t' n'
  proof -
    have "\<not> named t' n' r" "\<not> named t' n' (f r)" if "Q r" for r
      using assms(1)[OF that] assms(2)[of r] \<open>(t', n') \<noteq> (t, n)\<close> by (auto simp: named_def)
    then show ?thesis by (induction rs) auto
  qed
  then show ?thesis by (simp add: only_tool_def active_def_def)
qed

lemma only_tool_append: "named t n row \<Longrightarrow> only_tool t n rs (rs @ [row])"
  by (auto simp: only_tool_def active_def_def find_append named_def split: option.split)

lemma only_tool_create: "only_tool t (tdName def) rs (fst (SqlCreateToolDefinition L env guc i t def rs))"
  by (auto simp: SqlCreateToolDefinition_def Let_def named_def intro!: only_tool_append split: option.split)

lemma only_tool_sql_update: "only_tool t (tdName def) rs (fst (SqlUpdateToolDefinition L env guc t def rs))"
  by (auto simp: SqlUpdateToolDefinition_def Let_def intro!: only_tool_update split: option.split)

lemma only_tool_deactivate: "only_tool t n rs (fst (SqlDeactivateToolDefinition env guc t n rs))"
  by (auto simp: SqlDeactivateToolDefinition_def intro!: only_tool_update)

lemma write_audited_tools:
  assumes "\<And>guc rs. P rs rs" and "\<And>guc rs. P rs (fst (q guc rs))"
  shows "P (tbTools db) (tbTools (fst (write_audited L e q ev guc db)))"
proof -
  obtain rs x where q: "stmt (teTx e) (q guc) (tbTools db) = (rs, x)" by fastforce
  have rs: "P (tbTools db) rs" using assms q by (metis fst_conv fst_stmt)
  have ap: "tbTools (fst (append_tx L e guc v d)) = tbTools d" for v d
    by (simp add: append_tx_def split: prod.split sum.split)
  show ?thesis
  proof (cases x)
    case (Inr r)
    obtain db2 y where a: "append_tx L e guc (ev r) (db\<lparr>tbTools := rs\<rparr>) = (db2, y)" by fastforce
    have "tbTools db2 = rs" using ap[of "ev r" "db\<lparr>tbTools := rs\<rparr>"] by (simp add: a)
    then show ?thesis using rs Inr by (cases y) (simp_all add: write_audited_def on_tools_def q a)
  qed (use rs in \<open>simp add: write_audited_def on_tools_def q\<close>)
qed

lemma in_tx_eq:
  "in_tx env t fn s = (s\<lparr>tsDb := fst (WithTenantTx env t fn (tsDb s))\<rparr>, snd (WithTenantTx env t fn (tsDb s)))"
  by (simp add: in_tx_def split: prod.split)

lemma fst_WithTenantTx: "fst (WithTenantTx env t fn db) = db \<or> fst (WithTenantTx env t fn db) = fst (fn (Some t) db)"
  by (auto simp: WithTenantTx_def split: option.splits prod.splits sum.splits)

lemma WithTenantTx_Inl: "snd (WithTenantTx env t fn db) = Inl err \<Longrightarrow> fst (WithTenantTx env t fn db) = db"
  by (auto simp: WithTenantTx_def split: option.splits prod.splits sum.splits)

lemma db_lookup_calm:
  assumes "calm env"
  shows "db_lookup env t n s = (s, case active_def t n (tbTools (tsDb s)) of
    Some d \<Rightarrow> Inr d | None \<Rightarrow> Inl (if errors_is (pgNoRows env) SqlErrNoRows then ErrToolNotFound else pgNoRows env))"
proof -
  have "(\<lambda>r. tool_sees env (Some t) r \<and> named t n r \<and> toIsActive r) = (\<lambda>r. named t n r \<and> toIsActive r)"
    by (auto simp: tool_sees_def rls_ok_def named_def)
  then show ?thesis
    using assms
    by (simp add: db_lookup_def in_tx_def WithTenantTx_calm GetByNameTx_def stmt_calm SqlGetToolDefinitionByName_def
        active_def_def split: option.split)
qed

subsection \<open>The cache is transparent\<close>

definition coherent :: "('c \<Rightarrow> cacheKey \<rightharpoonup> ToolDefinition) \<Rightarrow> 'c tool_state \<Rightarrow> bool" where
  "coherent entries s = (\<forall>t n d. entries (tsCache s) (t, n) = Some d \<longrightarrow> active_def t n (tbTools (tsDb s)) = Some d)"

text \<open>The repository without a cache: the specification.\<close>

definition no_cache :: "unit cache_ops" where
  "no_cache = \<lparr> coGet = (\<lambda>t k c. (c, None)), coAdd = (\<lambda>t k d c. c), coRemove = (\<lambda>k c. c), coPurge = (\<lambda>c. c) \<rparr>"

lemma coherent_less:
  "coherent entries s \<Longrightarrow> tsDb s' = tsDb s \<Longrightarrow> entries (tsCache s') \<subseteq>\<^sub>m entries (tsCache s) \<Longrightarrow> coherent entries s'"
  unfolding coherent_def map_le_def by (metis domI)

lemma cache_lookup_coherent:
  assumes "lawful_cache ops entries" and "coherent entries s" and "cache_lookup ops now t n s = (s', d)"
  shows "coherent entries s'" and "tsDb s' = tsDb s" and "d = Some x \<Longrightarrow> active_def t n (tbTools (tsDb s)) = Some x"
proof -
  obtain c where g: "coGet ops now (t, n) (tsCache s) = (c, d)" and s': "s' = s\<lparr>tsCache := c\<rparr>"
    using assms(3) by (auto simp: cache_lookup_def split: prod.splits)
  show db: "tsDb s' = tsDb s" by (simp add: s')
  have "entries (fst (coGet ops now (t, n) (tsCache s))) \<subseteq>\<^sub>m entries (tsCache s)"
    using assms(1) by (simp add: lawful_cache_def)
  then show "coherent entries s'" using coherent_less[OF assms(2) db] by (simp add: g s')
  have "snd (coGet ops now (t, n) (tsCache s)) = Some x \<longrightarrow> entries (tsCache s) (t, n) = Some x"
    using assms(1) unfolding lawful_cache_def by blast
  then show "d = Some x \<Longrightarrow> active_def t n (tbTools (tsDb s)) = Some x"
    using assms(2) by (simp add: g coherent_def)
qed

lemma cache_fill_coherent:
  assumes "lawful_cache ops entries" and "coherent entries s" and "active_def t n (tbTools (tsDb s)) = Some d"
  shows "coherent entries (cache_fill ops now t n d s)"
proof -
  have "entries (coAdd ops now (t, n) d (tsCache s)) \<subseteq>\<^sub>m (entries (tsCache s))((t, n) \<mapsto> d)"
    using assms(1) by (simp add: lawful_cache_def)
  then have "((entries (tsCache s))((t, n) \<mapsto> d)) (t', n') = Some d'"
    if "entries (coAdd ops now (t, n) d (tsCache s)) (t', n') = Some d'" for t' n' d'
    using that by (metis domI map_le_def)
  note * = this
  show ?thesis
    unfolding coherent_def
  proof (intro allI impI)
    fix t' n' d' assume "entries (tsCache (cache_fill ops now t n d s)) (t', n') = Some d'"
    then have e: "((entries (tsCache s))((t, n) \<mapsto> d)) (t', n') = Some d'"
      using *[of t' n' d'] by (simp add: cache_fill_def)
    have db: "tsDb (cache_fill ops now t n d s) = tsDb s" by (simp add: cache_fill_def)
    show "active_def t' n' (tbTools (tsDb (cache_fill ops now t n d s))) = Some d'"
    proof (cases "(t', n') = (t, n)")
      case True then show ?thesis using e assms(3) db by simp
    next
      case False
      then have "entries (tsCache s) (t', n') = Some d'" using e by (metis fun_upd_other)
      then show ?thesis using assms(2) db by (simp add: coherent_def)
    qed
  qed
qed

lemma invalidate_coherent:
  assumes "lawful_cache ops entries" and "coherent entries s" and "tsCache s' = tsCache s"
    and "only_tool t n (tbTools (tsDb s)) (tbTools (tsDb s'))"
  shows "coherent entries (invalidateCache ops t n s')"
proof -
  have "entries (coRemove ops (t, n) (tsCache s)) \<subseteq>\<^sub>m (entries (tsCache s))((t, n) := None)"
    using assms(1) by (simp add: lawful_cache_def)
  then have *: "((entries (tsCache s))((t, n) := None)) (t', n') = Some d'"
    if "entries (coRemove ops (t, n) (tsCache s)) (t', n') = Some d'" for t' n' d'
    using that by (metis domI map_le_def)
  show ?thesis
    unfolding coherent_def
  proof (intro allI impI)
    fix t' n' d' assume "entries (tsCache (invalidateCache ops t n s')) (t', n') = Some d'"
    then have "(t', n') \<noteq> (t, n)" "entries (tsCache s) (t', n') = Some d'"
      using *[of t' n' d'] assms(3) by (auto simp: invalidateCache_def split: if_splits)
    then show "active_def t' n' (tbTools (tsDb (invalidateCache ops t n s'))) = Some d'"
      using assms(2,4) by (simp add: coherent_def only_tool_def invalidateCache_def)
  qed
qed

lemma no_cache_update [simp]: "(s :: unit tool_state)\<lparr>tsCache := c\<rparr> = s"
  by (cases s) simp

lemma no_cache_GetByName: "GetByName no_cache e t n s = db_lookup (teRead e) t n s"
  by (simp add: GetByName_def cache_lookup_def no_cache_def cache_fill_def split: prod.split sum.split)

lemma GetByName_sim:
  assumes "lawful_cache ops entries" and "coherent entries s" and "tsDb (s0 :: unit tool_state) = tsDb s" and "calm (teRead e)"
    and "GetByName ops e t n s = (s', r)"
  shows "GetByName no_cache e t n s0 = (s0, r)" and "tsDb s' = tsDb s" and "coherent entries s'"
proof -
  obtain s1 d where l: "cache_lookup ops (teNow e) t n s = (s1, d)" by fastforce
  note c = cache_lookup_coherent[OF assms(1,2) l]
  have db: "GetByName no_cache e t n s0 = (s0, case active_def t n (tbTools (tsDb s)) of
      Some d \<Rightarrow> Inr d | None \<Rightarrow> Inl (if errors_is (pgNoRows (teRead e)) SqlErrNoRows then ErrToolNotFound else pgNoRows (teRead e)))"
    using assms(3) by (simp add: no_cache_GetByName db_lookup_calm[OF assms(4)])
  have "GetByName no_cache e t n s0 = (s0, r) \<and> tsDb s' = tsDb s \<and> coherent entries s'"
  proof (cases d)
    case (Some x)
    then show ?thesis using c(3)[OF Some] c(1,2) db assms(5) by (auto simp: GetByName_def l)
  next
    case None
    show ?thesis
    proof (cases "active_def t n (tbTools (tsDb s))")
      case None
      then show ?thesis using db c(1,2) assms(5) \<open>d = None\<close> by (auto simp: GetByName_def l db_lookup_calm[OF assms(4)])
    next
      case (Some x)
      then have "s' = cache_fill ops (teNow e) t n x s1" "r = Inr x"
        using c(2) assms(5) \<open>d = None\<close> by (auto simp: GetByName_def l db_lookup_calm[OF assms(4)])
      then show ?thesis
        using db Some c(2) cache_fill_coherent[OF assms(1) c(1)] by (simp add: cache_fill_def)
    qed
  qed
  then show "GetByName no_cache e t n s0 = (s0, r)" "tsDb s' = tsDb s" "coherent entries s'" by auto
qed

text \<open>A transaction on states with the same database, and what it leaves of coherence when it
  touches one tool only.\<close>

lemma in_tx_sim:
  assumes "tsDb (s0 :: unit tool_state) = tsDb s" and "in_tx env t fn s = (s', r)"
  shows "in_tx env t fn s0 = (\<lparr>tsDb = tsDb s', tsCache = ()\<rparr>, r)" and "tsCache s' = tsCache s"
    and "r = Inl err \<Longrightarrow> tsDb s' = tsDb s"
    and "tsDb s' = tsDb s \<or> tsDb s' = fst (fn (Some t) (tsDb s))"
  using assms fst_WithTenantTx[of env t fn "tsDb s"] WithTenantTx_Inl[of env t fn "tsDb s"] by (auto simp: in_tx_eq)

lemma write_coherent:
  assumes "lawful_cache ops entries" and "coherent entries s" and "in_tx env t fn s = (s', r)"
    and "\<And>guc db. only_tool t n (tbTools db) (tbTools (fst (fn guc db)))"
  shows "r = Inl err \<Longrightarrow> coherent entries s'" and "coherent entries (invalidateCache ops t n s')"
proof -
  define s0 :: "unit tool_state" where "s0 = \<lparr>tsDb = tsDb s, tsCache = ()\<rparr>"
  have s0: "tsDb s0 = tsDb s" by (simp add: s0_def)
  note x = in_tx_sim[OF s0 assms(3)]
  show "r = Inl err \<Longrightarrow> coherent entries s'" using x(2,3) assms(2) by (simp add: coherent_def)
  have "only_tool t n (tbTools (tsDb s)) (tbTools (tsDb s'))" using x(4) assms(4) by (metis only_tool_refl)
  then show "coherent entries (invalidateCache ops t n s')" using invalidate_coherent[OF assms(1,2) x(2)] by blast
qed

text \<open>The operations the gateway runs, in any order; each with what it meets.\<close>

datatype tool_op =
    OpGet uuid string
  | OpCreate uuid ToolDefinition
  | OpUpdate uuid ToolDefinition
  | OpDeactivate uuid string
  | OpInit pg_env "nat \<Rightarrow> tool_env" uuid ToolConfig

datatype tool_answer = Def ToolDefinition | Updated ToolDefinition bool | Done_ok

fun tool_exec :: "tool_lib \<Rightarrow> 'c cache_ops \<Rightarrow> tool_env \<Rightarrow> tool_op \<Rightarrow> ('c tool_state, tool_answer) db_call" where
  "tool_exec L ops e (OpGet t n) s = apsnd (map_sum id Def) (GetByName ops e t n s)"
| "tool_exec L ops e (OpCreate t d) s = apsnd (map_sum id Def) (CreateToolDefinition L ops e t d s)"
| "tool_exec L ops e (OpUpdate t d) s = apsnd (map_sum id (\<lambda>(d, h). Updated d h)) (UpdateToolDefinition L ops e t d s)"
| "tool_exec L ops e (OpDeactivate t n) s = apsnd (map_sum id (\<lambda>_. Done_ok)) (DeactivateToolDefinition L ops e t n s)"
| "tool_exec L ops e (OpInit env es t cfg) s = apsnd (map_sum id (\<lambda>_. Done_ok)) (InitFromConfig L ops env es t cfg s)"

fun tool_run :: "tool_lib \<Rightarrow> 'c cache_ops \<Rightarrow> (tool_env \<times> tool_op) list \<Rightarrow> 'c tool_state \<Rightarrow> 'c tool_state \<times> tool_answer result list" where
  "tool_run L ops [] s = (s, [])"
| "tool_run L ops ((e, p) # ps) s = (case tool_exec L ops e p s of (s', r) \<Rightarrow>
     (case tool_run L ops ps s' of (s'', rs) \<Rightarrow> (s'', r # rs)))"

definition bare :: "'c tool_state \<Rightarrow> unit tool_state" where
  "bare s = \<lparr>tsDb = tsDb s, tsCache = ()\<rparr>"

lemma bare_simps [simp]: "tsDb (bare s) = tsDb s" "(bare s = bare s') = (tsDb s = tsDb s')"
  "bare (invalidateCache ops t n s) = bare s" "invalidateCache no_cache t n s0 = s0" "clearCache no_cache s0 = s0"
  "bare (clearCache ops s) = bare s" "tsDb (invalidateCache ops t n s) = tsDb s" "tsDb (clearCache ops s) = tsDb s"
  by (simp_all add: bare_def invalidateCache_def clearCache_def)

lemma in_tx_bare: "in_tx env t fn s = (s', r) \<Longrightarrow> in_tx env t fn (bare s) = (bare s', r)"
  using in_tx_sim(1)[of "bare s" s] by (simp add: bare_def)

lemma GetByName_bare:
  assumes "lawful_cache ops entries" and "coherent entries s" and "calm (teRead e)" and "GetByName ops e t n s = (s', r)"
  shows "GetByName no_cache e t n (bare s) = (bare s', r)" and "coherent entries s'"
  using GetByName_sim[OF assms(1,2) _ assms(3,4), of "bare s"] by (simp_all add: bare_def)

lemma Create_sim:
  assumes "lawful_cache ops entries" and "coherent entries s" and "CreateToolDefinition L ops e t d s = (s', r)"
  shows "CreateToolDefinition L no_cache e t d (bare s) = (bare s', r) \<and> coherent entries s'"
proof -
  let ?fn = "write_audited L e (\<lambda>guc. SqlCreateToolDefinition L (teTx e) guc (teNewID e) t (with_hash L d))
     (\<lambda>r. buildAuditEvent L e t ((with_hash L d)\<lparr>tdID := toID r, tdTenantID := toTenantID r\<rparr>) ''CREATE'' None
        (Some (tdHash (with_hash L d))) [] AuditSeverityInfo)"
  obtain s1 x where x: "in_tx (teTx e) t ?fn s = (s1, x)" by fastforce
  have "only_tool t (tdName (with_hash L d)) (tbTools db) (tbTools (fst (?fn guc db)))" for guc db
    by (rule write_audited_tools) (simp_all add: only_tool_create)
  note c = write_coherent[OF assms(1,2) x this]
  show ?thesis
    using assms(3) c in_tx_bare[OF x] by (cases x) (auto simp: CreateToolDefinition_def Let_def x)
qed

lemma Update_sim:
  assumes "lawful_cache ops entries" and "coherent entries s" and "calm (teRead e)"
    and "UpdateToolDefinition L ops e t d s = (s', r)"
  shows "UpdateToolDefinition L no_cache e t d (bare s) = (bare s', r) \<and> coherent entries s'"
proof -
  obtain s1 x where g: "GetByName ops e t (tdName d) s = (s1, x)" by fastforce
  note b = GetByName_bare[OF assms(1-3) g]
  show ?thesis
  proof (cases x)
    case (Inl err) then show ?thesis using assms(4) b by (simp add: UpdateToolDefinition_def g)
  next
    case (Inr ex)
    obtain s2 y where x: "in_tx (teTx e) t (update_tx L e t ex d) s1 = (s2, y)" by fastforce
    have "only_tool t (tdName d) (tbTools db) (tbTools (fst (update_tx L e t ex d guc db)))" for guc db
      unfolding update_tx_def Let_def fst_case_result
      by (rule write_audited_tools) (simp, metis only_tool_sql_update ToolDefinition.select_convs(3) ToolDefinition.surjective ToolDefinition.update_convs(9))
    note c = write_coherent[OF assms(1) b(2) x this]
    show ?thesis using assms(4) Inr b(1) c in_tx_bare[OF x] by (cases y) (auto simp: UpdateToolDefinition_def g x)
  qed
qed

lemma Deactivate_sim:
  assumes "lawful_cache ops entries" and "coherent entries s" and "calm (teRead e)"
    and "DeactivateToolDefinition L ops e t n s = (s', r)"
  shows "DeactivateToolDefinition L no_cache e t n (bare s) = (bare s', r) \<and> coherent entries s'"
proof -
  obtain s1 x where g: "GetByName ops e t n s = (s1, x)" by fastforce
  note b = GetByName_bare[OF assms(1-3) g]
  show ?thesis
  proof (cases x)
    case (Inl err) then show ?thesis using assms(4) b by (simp add: DeactivateToolDefinition_def g)
  next
    case (Inr ex)
    let ?fn = "write_audited L e (\<lambda>guc. SqlDeactivateToolDefinition (teTx e) guc t n)
      (\<lambda>_. buildAuditEvent L e t ex ''DELETE'' (Some (tdHash ex)) None [] AuditSeverityWarn)"
    obtain s2 y where x: "in_tx (teTx e) t ?fn s1 = (s2, y)" by fastforce
    have "only_tool t n (tbTools db) (tbTools (fst (?fn guc db)))" for guc db
      by (rule write_audited_tools) (simp_all add: only_tool_deactivate)
    note c = write_coherent[OF assms(1) b(2) x this]
    show ?thesis using assms(4) Inr b(1) c in_tx_bare[OF x] by (cases y) (auto simp: DeactivateToolDefinition_def g x)
  qed
qed

lemma Init_sim:
  assumes "lawful_cache ops entries" and "coherent entries s" and "InitFromConfig L ops env es t cfg s = (s', r)"
  shows "InitFromConfig L no_cache env es t cfg (bare s) = (bare s', r) \<and> coherent entries s'"
proof -
  obtain s1 x where x: "in_tx env t (seed_loop L es cfg t 0 (tcfTools cfg)) s = (s1, x)" by fastforce
  have "coherent entries (clearCache ops s1)"
    using assms(1) by (simp add: coherent_def clearCache_def lawful_cache_def)
  moreover have "x = Inl err \<Longrightarrow> coherent entries s1" for err
    using in_tx_sim(2,3)[of "bare s", OF _ x] assms(2) by (simp add: coherent_def)
  ultimately show ?thesis
    using assms(3) in_tx_bare[OF x] by (cases x) (auto simp: InitFromConfig_def x)
qed

lemma tool_exec_sim:
  assumes "lawful_cache ops entries" and "coherent entries s" and "calm (teRead e)" and "tool_exec L ops e p s = (s', r)"
  shows "tool_exec L no_cache e p (bare s) = (bare s', r) \<and> coherent entries s'"
proof (cases p)
  case (OpGet t n)
  obtain r0 where "GetByName ops e t n s = (s', r0)" "r = map_sum id Def r0"
    using assms(4) OpGet by (cases "GetByName ops e t n s") auto
  then show ?thesis using GetByName_bare[OF assms(1-3)] OpGet by simp
next
  case (OpCreate t d)
  obtain r0 where "CreateToolDefinition L ops e t d s = (s', r0)" "r = map_sum id Def r0"
    using assms(4) OpCreate by (cases "CreateToolDefinition L ops e t d s") auto
  then show ?thesis using Create_sim[OF assms(1,2)] OpCreate by simp
next
  case (OpUpdate t d)
  obtain r0 where "UpdateToolDefinition L ops e t d s = (s', r0)" "r = map_sum id (\<lambda>(d, h). Updated d h) r0"
    using assms(4) OpUpdate by (cases "UpdateToolDefinition L ops e t d s") auto
  then show ?thesis using Update_sim[OF assms(1-3)] OpUpdate by simp
next
  case (OpDeactivate t n)
  obtain r0 where "DeactivateToolDefinition L ops e t n s = (s', r0)" "r = map_sum id (\<lambda>_. Done_ok) r0"
    using assms(4) OpDeactivate by (cases "DeactivateToolDefinition L ops e t n s") auto
  then show ?thesis using Deactivate_sim[OF assms(1-3)] OpDeactivate by simp
next
  case (OpInit env es t cfg)
  obtain r0 where "InitFromConfig L ops env es t cfg s = (s', r0)" "r = map_sum id (\<lambda>_. Done_ok) r0"
    using assms(4) OpInit by (cases "InitFromConfig L ops env es t cfg s") auto
  then show ?thesis using Init_sim[OF assms(1,2)] OpInit by simp
qed

lemma tool_run_sim:
  assumes "lawful_cache ops entries"
  shows "coherent entries s \<Longrightarrow> list_all (\<lambda>ep. calm (teRead (fst ep))) ps \<Longrightarrow>
    tool_run L no_cache ps (bare s) = apfst bare (tool_run L ops ps s)"
proof (induction ps arbitrary: s)
  case (Cons ep ps)
  obtain e p where ep: "ep = (e, p)" by fastforce
  obtain s1 r where x: "tool_exec L ops e p s = (s1, r)" by fastforce
  have "tool_exec L no_cache e p (bare s) = (bare s1, r)" "coherent entries s1"
    using tool_exec_sim[OF assms Cons.prems(1) _ x] Cons.prems(2) ep by simp_all
  then show ?case using Cons.IH[of s1] Cons.prems(2) by (simp add: ep x split: prod.split)
qed simp

subsection \<open>Comparison of JSON documents\<close>

text \<open>The reference: two documents are the same when they agree once the members of every
  object are in the order of their keys.\<close>

fun json_canon :: "json \<Rightarrow> json" where
  "json_canon (JObj m) = JObj (sort_key fst (map (\<lambda>kv. (fst kv, json_canon (snd kv))) m))"
| "json_canon (JArr xs) = JArr (map json_canon xs)"
| "json_canon j = j"

fun distinct_keys :: "json \<Rightarrow> bool" where
  "distinct_keys (JObj m) = (distinct (map fst m) \<and> list_all (\<lambda>kv. distinct_keys (snd kv)) m)"
| "distinct_keys (JArr xs) = list_all distinct_keys xs"
| "distinct_keys j = True"

fun no_null_member :: "json \<Rightarrow> bool" where
  "no_null_member (JObj m) = list_all (\<lambda>kv. snd kv \<noteq> JNull \<and> no_null_member (snd kv)) m"
| "no_null_member (JArr xs) = list_all no_null_member xs"
| "no_null_member j = True"

lemma json_canon_atom [simp]:
  "(json_canon j = JNull) = (j = JNull)" "(json_canon j = JBool b) = (j = JBool b)"
  "(json_canon j = JNum n) = (j = JNum n)" "(json_canon j = JStr s) = (j = JStr s)"
  "(JNull = json_canon j) = (j = JNull)" "(JBool b = json_canon j) = (j = JBool b)"
  "(JNum n = json_canon j) = (j = JNum n)" "(JStr s = json_canon j) = (j = JStr s)"
  by (cases j; auto)+

lemma sort_key_eq_iff_set:
  assumes "distinct (map f xs)" and "distinct (map f ys)"
  shows "(sort_key f xs = sort_key f ys) = (set xs = set ys)"
proof
  assume "sort_key f xs = sort_key f ys" then show "set xs = set ys" by (metis set_sort)
next
  assume "set xs = set ys"
  then have "mset xs = mset ys" using assms by (simp add: distinct_map set_eq_iff_mset_eq_distinct)
  then show "sort_key f xs = sort_key f ys"
    using assms by (intro sort_key_inj_key_eq) (auto simp: distinct_map)
qed

lemma object_members_eq:
  assumes "distinct (map fst av)" and "distinct (map fst bv)" and "\<forall>kv \<in> set av. snd kv \<noteq> JNull"
  shows "(length av = length bv \<and> (\<forall>kv \<in> set av. json_canon (snd kv) = json_canon (lookup_nil bv (fst kv))))
    = (json_canon (JObj av) = json_canon (JObj bv))"
proof -
  let ?c = "\<lambda>kv. (fst kv, json_canon (snd kv))"
  let ?A = "set (map ?c av)" and ?B = "set (map ?c bv)"
  have d: "distinct (map fst (map ?c av))" "distinct (map fst (map ?c bv))" using assms(1,2) by (simp_all add: comp_def)
  have mem: "(json_canon v = json_canon (lookup_nil bv k)) = ((k, json_canon v) \<in> ?B)" if "v \<noteq> JNull" for k v
  proof (cases "map_of bv k")
    case None
    then have "k \<notin> fst ` set bv" by (simp add: map_of_eq_None_iff)
    then show ?thesis using that None by (auto simp: lookup_nil_def)
  next
    case (Some w)
    have "((k, json_canon v) \<in> ?B) = (\<exists>w'. map_of bv k = Some w' \<and> json_canon v = json_canon w')"
      using assms(2) by (force simp: image_iff dest: map_of_SomeD)
    then show ?thesis by (simp add: lookup_nil_def Some)
  qed
  have sub: "(\<forall>kv \<in> set av. json_canon (snd kv) = json_canon (lookup_nil bv (fst kv))) = (?A \<subseteq> ?B)"
  proof -
    have "(\<forall>kv \<in> set av. json_canon (snd kv) = json_canon (lookup_nil bv (fst kv))) = (\<forall>kv \<in> set av. ?c kv \<in> ?B)"
      using mem assms(3) by (intro ball_cong refl) simp
    then show ?thesis by (simp add: image_subset_iff)
  qed
  have card: "card ?A = length av" "card ?B = length bv"
    using d[unfolded distinct_map[of fst]] by (simp_all only: distinct_card length_map)
  have "(length av = length bv \<and> ?A \<subseteq> ?B) = (?A = ?B)"
  proof
    assume "length av = length bv \<and> ?A \<subseteq> ?B"
    then show "?A = ?B" using card by (intro card_subset_eq[OF finite_set]) simp_all
  next
    assume e: "?A = ?B"
    then have "length av = length bv" using card by (simp only:)
    then show "length av = length bv \<and> ?A \<subseteq> ?B" using e by simp
  qed
  then show ?thesis unfolding sub using sort_key_eq_iff_set[OF d] by simp
qed

lemma distinct_keys_lookup: "list_all (\<lambda>kv. distinct_keys (snd kv)) bv \<Longrightarrow> distinct_keys (lookup_nil bv k)"
  by (force simp: lookup_nil_def list_all_iff split: option.split dest: map_of_SomeD)

lemma zip_all_map_eq:
  "length xs = length ys \<Longrightarrow> list_all (\<lambda>ab. f (fst ab) = f (snd ab)) (zip xs ys) = (map f xs = map f ys)"
  by (induction xs ys rule: list_induct2) auto

lemma jsonEqualValue_canon:
  "distinct_keys a \<Longrightarrow> distinct_keys b \<Longrightarrow> no_null_member a \<Longrightarrow> jsonEqualValue a b = (json_canon a = json_canon b)"
proof (induction a b rule: jsonEqualValue.induct)
  case (1 av b)
  show ?case
  proof (cases b)
    case (JObj bv)
    have "jsonEqualValue (snd kv) (lookup_nil bv (fst kv)) = (json_canon (snd kv) = json_canon (lookup_nil bv (fst kv)))"
      if "kv \<in> set av" for kv
      using 1 that JObj distinct_keys_lookup[of bv "fst kv"] by (simp add: list_all_iff)
    then show ?thesis
      using object_members_eq[of av bv] 1(2-4) JObj by (simp add: list_all_iff)
  qed auto
next
  case (2 av b)
  show ?case
  proof (cases b)
    case (JArr bv)
    have "jsonEqualValue (fst ab) (snd ab) = (json_canon (fst ab) = json_canon (snd ab))" if "ab \<in> set (zip av bv)" for ab
      using 2 that JArr set_zip_leftD[of "fst ab" "snd ab" av bv] set_zip_rightD[of "fst ab" "snd ab" av bv]
      by (simp add: list_all_iff)
    then show ?thesis
      using JArr zip_all_map_eq[of av bv json_canon] map_eq_imp_length_eq[of json_canon av json_canon bv]
      by (auto simp: list_all_iff simp del: map_eq_conv)
  qed auto
qed auto

subsection \<open>Properties\<close>

definition map_cache :: "(cacheKey \<rightharpoonup> ToolDefinition) cache_ops" where
  "map_cache = \<lparr> coGet = (\<lambda>t k c. (c, c k)), coAdd = (\<lambda>t k d c. c(k \<mapsto> d)), coRemove = (\<lambda>k c. c(k := None)),
     coPurge = (\<lambda>c. Map.empty) \<rparr>"

lemma map_cache_lawful: "lawful_cache map_cache id"
  by (simp add: lawful_cache_def map_cache_def)

definition demo_tool_lib :: tool_lib where
  "demo_tool_lib = \<lparr> tlAudit = short_lib, tlHashText = (\<lambda>n d p. n @ d @ p),
     tlDecode = (\<lambda>s. if s = ''ab'' then Some (JObj [(''a'', JNum 1), (''b'', JNum 2)])
       else if s = ''ba'' then Some (JObj [(''b'', JNum 2), (''a'', JNum 1)]) else None),
     tlMarshalGrants = (\<lambda>g. ''[]''), tlMarshalPayload = (\<lambda>op n oh nh cf d. op) \<rparr>"

definition demo_tool_env :: "int \<Rightarrow> tool_env" where
  "demo_tool_env i = \<lparr> teRead = quiet_env, teTx = quiet_env, teAppend = quiet_env, teNow = 0, teNewID = i, teAuditID = zero_uuid \<rparr>"

definition demo_tool :: ToolDefinition where
  "demo_tool = \<lparr> tdID = 0, tdTenantID = zero_uuid, tdName = ''calc'', tdDescription = [], tdInputSchema = Some ''{}'',
     tdGrants = Some ''[]'', tdExecutionTimeoutMs = 1000, tdMemoryPages = 16, tdHash = [], tdIsActive = True \<rparr>"

definition empty_tools :: "'c \<Rightarrow> 'c tool_state" where
  "empty_tools c = \<lparr> tsDb = \<lparr> tbTools = [], tbAudit = [] \<rparr>, tsCache = c \<rparr>"

definition demo_tool_ops :: "(tool_env \<times> tool_op) list" where
  "demo_tool_ops = [(demo_tool_env 1, OpCreate zero_uuid demo_tool), (demo_tool_env 2, OpGet zero_uuid ''calc''),
     (demo_tool_env 3, OpDeactivate zero_uuid ''calc''), (demo_tool_env 4, OpGet zero_uuid ''calc'')]"


lemma demo_tool_answers:
  "map isl (snd (tool_run demo_tool_lib map_cache demo_tool_ops (empty_tools Map.empty))) = [False, False, False, True]"
  by code_simp


text \<open>C39: The comparison that decides whether an update changed a schema or the grants: on
  documents that decode, whose objects repeat no key and of which the first has no null member, it
  says equal exactly when the documents agree up to the order of the members.\<close>

theorem jsonEqual_canonical:
  assumes "a \<noteq> []" and "b \<noteq> []" and "tlDecode L a = Some va" and "tlDecode L b = Some vb"
    and "distinct_keys va" and "distinct_keys vb" and "no_null_member va"
  shows "jsonEqual L (Some a) (Some b) = (json_canon va = json_canon vb)"
  using assms jsonEqualValue_canon[of va vb] by (simp add: jsonEqual_def)

theorem jsonEqual_canonical_witness:
  "jsonEqual demo_tool_lib (Some ''ab'') (Some ''ba'')"
  using jsonEqual_canonical[of "''ab''" "''ba''" demo_tool_lib "JObj [(''a'', JNum 1), (''b'', JNum 2)]"
      "JObj [(''b'', JNum 2), (''a'', JNum 1)]"]
  by (simp add: demo_tool_lib_def)

text \<open>With a null member the comparison goes wrong: a missing key reads as null.\<close>

theorem null_member_equals_missing:
  "jsonEqualValue (JObj [(''a'', JNull)]) (JObj [(''b'', JNull)])"
  "json_canon (JObj [(''a'', JNull)]) \<noteq> json_canon (JObj [(''b'', JNull)])"
  by (simp_all add: lookup_nil_def)

text \<open>Two calls that overlap: a lookup that missed reads the database, the tool is deactivated and
  its entry removed, and then the lookup fills the cache. The deactivated tool is served again.\<close>

definition overlapped :: "(cacheKey \<rightharpoonup> ToolDefinition) tool_state \<Rightarrow> bool" where
  "overlapped s =
     (case db_lookup quiet_env zero_uuid ''calc'' s of
        (s1, Inr d) \<Rightarrow> (case DeactivateToolDefinition demo_tool_lib map_cache (demo_tool_env 3) zero_uuid ''calc'' s1 of
          (s2, Inr _) \<Rightarrow> (let s3 = cache_fill map_cache 0 zero_uuid ''calc'' d s2 in
             snd (GetByName map_cache (demo_tool_env 4) zero_uuid ''calc'' s3) = Inr d
             \<and> active_def zero_uuid ''calc'' (tbTools (tsDb s3)) = None)
        | _ \<Rightarrow> False)
      | _ \<Rightarrow> False)"

definition created :: "(cacheKey \<rightharpoonup> ToolDefinition) tool_state" where
  "created = fst (CreateToolDefinition demo_tool_lib map_cache (demo_tool_env 1) zero_uuid demo_tool (empty_tools Map.empty))"

theorem late_fill_serves_deactivated: "overlapped created"
  by code_simp

text \<open>After a tool was deactivated and created anew, no update of it succeeds.\<close>

theorem recreated_tool_update_refused:
  "snd (tool_run demo_tool_lib map_cache
     [(demo_tool_env 1, OpCreate zero_uuid demo_tool), (demo_tool_env 2, OpDeactivate zero_uuid ''calc''),
      (demo_tool_env 3, OpCreate zero_uuid demo_tool), (demo_tool_env 4, OpUpdate zero_uuid demo_tool)]
     (empty_tools Map.empty)) ! 3 = Inl duplicate_key"
  by code_simp

end
