(* ===== verification/ToolRuntime.thy ===== *)
theory ToolRuntime
  imports ToolTypes GoText
begin

text \<open>
  \<open>src/internal/adapter/tool/wazero/executor.go\<close>: the WebAssembly executor of tools, with its
  pools of runtimes by memory bucket, its cache of compiled modules and the limits of an
  execution. The runtime library is a parameter (\<open>wasm_lib\<close>): what reading a module file,
  compiling, instantiating and running yield. Executions of several requests interleave; a step
  relation over the executor and the executions in flight describes it.
\<close>

subsection \<open>The executor\<close>

definition ErrModuleNotFound :: go_error where
  "ErrModuleNotFound = Errorf ''wasm module not found''"

definition ErrModuleInstantiationFailed :: go_error where
  "ErrModuleInstantiationFailed = Errorf ''module instantiation failed''"

definition ErrExecutionFailed :: go_error where
  "ErrExecutionFailed = Errorf ''execution failed''"

definition ErrPoolExhausted :: go_error where
  "ErrPoolExhausted = Errorf ''runtime pool exhausted''"

definition ErrInvalidLimits :: go_error where
  "ErrInvalidLimits = Errorf ''resource limits not configured''"

definition MinTimeoutMs :: int where "MinTimeoutMs = 1"
definition MaxTimeoutMs :: int where "MaxTimeoutMs = 300000"
definition MaxRuntimesPerBucket :: nat where "MaxRuntimesPerBucket = 2"

definition MemoryBuckets :: "uint32 list" where
  "MemoryBuckets = [256, 512, 1024, 2048]"

text \<open>A runtime is known by its number, which stands for its address, and the memory limit it
  was created with. The times of last use, which nothing reads, are left out.\<close>

record wasm_runtime =
  wrID :: nat
  wrMemoryLimitPages :: uint32

record pooledRuntime =
  prRuntime :: wasm_runtime
  prInUse :: bool

text \<open>The channel \<open>available\<close> is the queue of what it holds; its capacity is
  \<open>MaxRuntimesPerBucket\<close>.\<close>

record runtimePool =
  rpBucket :: uint32
  rpRuntimes :: "pooledRuntime list"
  rpAvailable :: "wasm_runtime list"
  rpClosed :: bool

text \<open>A compiled module remembers the runtime that compiled it.\<close>

record compiledModule =
  cmConfig :: ToolModuleConfig
  cmRuntime :: wasm_runtime
  cmBytes :: string

type_synonym CompileCacheKey = "uint32 \<times> string \<times> nat"

record WasmExecutor =
  weConfig :: ToolConfig
  weCompileCache :: "CompileCacheKey \<rightharpoonup> compiledModule"
  weRuntimePools :: "uint32 \<rightharpoonup> runtimePool"
  weToolBuckets :: "string \<rightharpoonup> uint32"

text \<open>The loop over the buckets returns the first that is large enough, else the last.\<close>

fun round_up :: "uint32 \<Rightarrow> uint32 list \<Rightarrow> uint32" where
  "round_up p [] = last MemoryBuckets"
| "round_up p (b # bs) = (if p \<le> b then b else round_up p bs)"

definition getMemoryBucket :: "ToolConfig \<Rightarrow> ToolModuleConfig \<Rightarrow> uint32" where
  "getMemoryBucket cfg tc =
     (let p = liMemoryPages (tmLimits tc);
          p = (if p = 0 then tcfDefaultMemoryPages cfg else p);
          p = (if p = 0 then 512 else p)
      in round_up p MemoryBuckets)"

text \<open>The conversion to \<open>int64\<close> reads the word as signed.\<close>

definition getExecutionTimeout :: "WasmExecutor \<Rightarrow> ValidatedTool option \<Rightarrow> int" where
  "getExecutionTimeout w validatedTool = (case validatedTool of
     None \<Rightarrow> 0
   | Some vt \<Rightarrow>
       if vtExecutionTimeoutMs vt = 0 then 0
       else let t = sint (vtExecutionTimeoutMs vt);
                d = tcfDefaultTimeoutMs (weConfig w);
                t = (if d > 0 \<and> t > d then d else t);
                t = (if t < MinTimeoutMs then MinTimeoutMs else t)
            in if t > MaxTimeoutMs then MaxTimeoutMs else t)"

definition getMemoryBucketFromValidated :: "WasmExecutor \<Rightarrow> ValidatedTool option \<Rightarrow> uint32" where
  "getMemoryBucketFromValidated w validatedTool = (case validatedTool of
     None \<Rightarrow> 0
   | Some vt \<Rightarrow>
       if vtMemoryPages vt = 0 then 0
       else let d = tcfDefaultMemoryPages (weConfig w);
                p = (if d > 0 \<and> vtMemoryPages vt > d then d else vtMemoryPages vt)
            in round_up p MemoryBuckets)"

definition SupportsTool :: "WasmExecutor \<Rightarrow> string \<Rightarrow> bool" where
  "SupportsTool w name = (weToolBuckets w name \<noteq> None)"

text \<open>\<open>NewWasmExecutor\<close>: two runtimes for each bucket, numbered in the order of creation, and
  the tools whose module can be read.\<close>

definition new_pool :: "nat \<Rightarrow> uint32 \<Rightarrow> runtimePool" where
  "new_pool i bucket = (let rts = map (\<lambda>k. \<lparr> wrID = i + k, wrMemoryLimitPages = bucket \<rparr>) [0..<MaxRuntimesPerBucket] in
     \<lparr> rpBucket = bucket, rpRuntimes = map (\<lambda>r. \<lparr> prRuntime = r, prInUse = False \<rparr>) rts, rpAvailable = rts, rpClosed = False \<rparr>)"

fun new_pools :: "nat \<Rightarrow> uint32 list \<Rightarrow> (uint32 \<rightharpoonup> runtimePool)" where
  "new_pools i [] = Map.empty"
| "new_pools i (b # bs) = (new_pools (i + MaxRuntimesPerBucket) bs)(b \<mapsto> new_pool i b)"

fun load_tools :: "(string \<Rightarrow> string result) \<Rightarrow> ToolConfig \<Rightarrow> ToolModuleConfig list \<Rightarrow> (string \<rightharpoonup> uint32) \<Rightarrow> (string \<rightharpoonup> uint32) result" where
  "load_tools read cfg [] m = Inr m"
| "load_tools read cfg (tc # tcs) m = (case read (tmModulePath tc) of
     Inl e \<Rightarrow> Inl (Wrapf (''read wasm module '' @ tmModulePath tc) e)
   | Inr _ \<Rightarrow> load_tools read cfg tcs (m(tmName tc \<mapsto> getMemoryBucket cfg tc)))"

definition NewWasmExecutor :: "(string \<Rightarrow> string result) \<Rightarrow> ToolConfig \<Rightarrow> WasmExecutor result" where
  "NewWasmExecutor read cfg = (case load_tools read cfg (tcfTools cfg) Map.empty of
     Inl e \<Rightarrow> Inl e
   | Inr m \<Rightarrow> Inr \<lparr> weConfig = cfg, weCompileCache = Map.empty, weRuntimePools = new_pools 0 MemoryBuckets, weToolBuckets = m \<rparr>)"

subsection \<open>Modules\<close>

text \<open>\<open>filepath.Join(".", path)\<close> of a relative path.\<close>

fun clean_segments :: "string list \<Rightarrow> string list \<Rightarrow> string list" where
  "clean_segments st [] = rev st"
| "clean_segments st (s # ss) =
     (if s = [] \<or> s = ''.'' then clean_segments st ss
      else if s = ''..'' then (case st of
          [] \<Rightarrow> clean_segments [''..''] ss
        | t # st' \<Rightarrow> if t = ''..'' then clean_segments (''..'' # st) ss else clean_segments st' ss)
      else clean_segments (s # st) ss)"

fun join_segments :: "string list \<Rightarrow> string" where
  "join_segments [] = ''.''"
| "join_segments [s] = s"
| "join_segments (s # ss) = s @ ''/'' @ join_segments ss"

definition IsAbs :: "string \<Rightarrow> bool" where
  "IsAbs path = (take 1 path = ''/'')"

definition host_path :: "string \<Rightarrow> string" where
  "host_path path = (if IsAbs path then path else join_segments (clean_segments [] (split_on CHR ''/'' path)))"

text \<open>The configuration of an instance: each \<open>WithFSConfig\<close> replaces the one before, so that the
  last mount remains.\<close>

record module_config =
  mcName :: string
  mcMount :: "(string \<times> string) option"
  mcWalltime :: bool

definition new_module_config :: "ToolModuleConfig \<Rightarrow> module_config" where
  "new_module_config tc = \<lparr> mcName = tmName tc,
     mcMount = fold (\<lambda>m _. Some (host_path (fsHostPath m), fsGuestPath m)) (tgFSReadOnlyMounts (tmGrants tc)) None,
     mcWalltime = tgAllowNetwork (tmGrants tc) \<rparr>"

text \<open>The runtime library and the file system: reading a module, compiling it in a runtime, and
  instantiating and running it with a timeout in milliseconds.\<close>

record wasm_lib =
  wlReadFile :: "string \<Rightarrow> string result"
  wlCompile :: "wasm_runtime \<Rightarrow> string \<Rightarrow> unit result"
  wlInstantiate :: "int \<Rightarrow> wasm_runtime \<Rightarrow> compiledModule \<Rightarrow> module_config \<Rightarrow> unit result"
  wlExports :: "compiledModule \<Rightarrow> bool"
  wlCall :: "int \<Rightarrow> wasm_runtime \<Rightarrow> compiledModule \<Rightarrow> module_config \<Rightarrow> unit result"

definition find_tool :: "WasmExecutor \<Rightarrow> string \<Rightarrow> ToolModuleConfig option" where
  "find_tool w name = List.find (\<lambda>tc. tmName tc = name) (tcfTools (weConfig w))"

definition getOrCompileModule ::
  "wasm_lib \<Rightarrow> wasm_runtime \<Rightarrow> string \<Rightarrow> uint32 \<Rightarrow> WasmExecutor \<Rightarrow> WasmExecutor \<times> compiledModule result" where
  "getOrCompileModule L rt toolName bucket w =
     (let key = (bucket, toolName, wrID rt) in
      case weCompileCache w key of
        Some cached \<Rightarrow> (w, Inr cached)
      | None \<Rightarrow> (case find_tool w toolName of
          None \<Rightarrow> (w, Inl ErrModuleNotFound)
        | Some tc \<Rightarrow> (case wlReadFile L (tmModulePath tc) of
            Inl e \<Rightarrow> (w, Inl (Wrapf (''read wasm module '' @ tmModulePath tc) e))
          | Inr wasmBytes \<Rightarrow> (case wlCompile L rt wasmBytes of
              Inl e \<Rightarrow> (w, Inl (Wrapf (''compile wasm module '' @ tmModulePath tc) e))
            | Inr _ \<Rightarrow>
                let m = \<lparr> cmConfig = tc, cmRuntime = rt, cmBytes = wasmBytes \<rparr>
                in (w\<lparr>weCompileCache := (weCompileCache w)(key \<mapsto> m)\<rparr>, Inr m)))))"

subsection \<open>The pools\<close>

text \<open>What the \<open>select\<close> of an acquisition runs into: something on the channel, the end of the
  context, or the five seconds. None is a panic: a closed channel delivers a nil runtime.\<close>

datatype wait = Received | Cancelled go_error | TimedOut

definition set_in_use :: "bool \<Rightarrow> wasm_runtime \<Rightarrow> pooledRuntime list \<Rightarrow> pooledRuntime list" where
  "set_in_use b rt prs = map (\<lambda>pr. if prRuntime pr = rt then pr\<lparr>prInUse := b\<rparr> else pr) prs"

definition set_pool :: "uint32 \<Rightarrow> runtimePool \<Rightarrow> WasmExecutor \<Rightarrow> WasmExecutor" where
  "set_pool bucket pool w = w\<lparr>weRuntimePools := (weRuntimePools w)(bucket \<mapsto> pool)\<rparr>"

definition acquireRuntime :: "wait \<Rightarrow> uint32 \<Rightarrow> WasmExecutor \<Rightarrow> (WasmExecutor \<times> wasm_runtime result) option" where
  "acquireRuntime wt bucket w = (case weRuntimePools w bucket of
     None \<Rightarrow> Some (w, Inl (Errorf (''no runtime pool for bucket '' @ nat_text (unat bucket))))
   | Some pool \<Rightarrow> (case wt of
       Cancelled e \<Rightarrow> Some (w, Inl e)
     | TimedOut \<Rightarrow> Some (w, Inl ErrPoolExhausted)
     | Received \<Rightarrow> (case rpAvailable pool of
         [] \<Rightarrow> None
       | rt # rest \<Rightarrow> Some (set_pool bucket (pool\<lparr>rpAvailable := rest, rpRuntimes := set_in_use True rt (rpRuntimes pool)\<rparr>) w, Inr rt))))"

text \<open>The channel can deliver: it holds something, or it is closed.\<close>

definition receivable :: "uint32 \<Rightarrow> WasmExecutor \<Rightarrow> bool" where
  "receivable bucket w = (case weRuntimePools w bucket of None \<Rightarrow> False | Some pool \<Rightarrow> rpAvailable pool \<noteq> [] \<or> rpClosed pool)"

text \<open>A send on a closed channel panics; on a full one the default branch drops the runtime.\<close>

definition releaseRuntime :: "uint32 \<Rightarrow> wasm_runtime \<Rightarrow> WasmExecutor \<Rightarrow> WasmExecutor option" where
  "releaseRuntime bucket rt w = (case weRuntimePools w bucket of
     None \<Rightarrow> Some w
   | Some pool \<Rightarrow>
       if \<not> list_ex (\<lambda>pr. prRuntime pr = rt) (rpRuntimes pool) then Some w
       else if rpClosed pool then None
       else Some (set_pool bucket (pool\<lparr>
              rpAvailable := (if length (rpAvailable pool) < MaxRuntimesPerBucket then rpAvailable pool @ [rt] else rpAvailable pool),
              rpRuntimes := set_in_use False rt (rpRuntimes pool)\<rparr>) w))"

text \<open>\<open>Close\<close> closes every channel, which panics when one is closed already. Closing a runtime only
  logs its error.\<close>

definition CloseExecutor :: "WasmExecutor \<Rightarrow> WasmExecutor option" where
  "CloseExecutor w =
     (if list_ex (\<lambda>b. case weRuntimePools w b of None \<Rightarrow> False | Some p \<Rightarrow> rpClosed p) MemoryBuckets then None
      else Some (w\<lparr>weRuntimePools := (\<lambda>b. map_option (\<lambda>p. p\<lparr>rpClosed := True\<rparr>) (weRuntimePools w b))\<rparr>))"

subsection \<open>Execution\<close>

definition getValidatedToolFromContext :: "ValidatedTool option \<Rightarrow> string \<Rightarrow> ValidatedTool option" where
  "getValidatedToolFromContext ctxTool toolName = (case ctxTool of
     None \<Rightarrow> None | Some vt \<Rightarrow> if vtName vt = toolName then Some vt else None)"

definition failed :: "ExecCall \<Rightarrow> duration \<Rightarrow> string \<Rightarrow> go_error \<Rightarrow> ToolResult \<times> go_error option" where
  "failed call dur txt err = (\<lparr> trCallID = xcID call, trOutput = None, trError = txt, trDuration = dur \<rparr>, Some err)"

text \<open>Compiling, instantiating and running in the runtime that was acquired.\<close>

definition run_in_runtime ::
  "wasm_lib \<Rightarrow> duration \<Rightarrow> ToolModuleConfig \<Rightarrow> int \<Rightarrow> uint32 \<Rightarrow> wasm_runtime \<Rightarrow> ExecCall \<Rightarrow> WasmExecutor \<Rightarrow> WasmExecutor \<times> ToolResult \<times> go_error option" where
  "run_in_runtime L dur tc timeoutMs bucket rt call w =
     (case getOrCompileModule L rt (xcName call) bucket w of
        (w', Inl e) \<Rightarrow> (w', failed call dur (''module compilation failed: '' @ error_text e) ErrModuleInstantiationFailed)
      | (w', Inr m) \<Rightarrow> (w',
          case wlInstantiate L timeoutMs rt m (new_module_config tc) of
            Inl e \<Rightarrow> failed call dur (''module instantiation failed: '' @ error_text e) ErrModuleInstantiationFailed
          | Inr _ \<Rightarrow>
              if \<not> wlExports L m then failed call dur ''execute function not exported'' ErrExecutionFailed
              else (case wlCall L timeoutMs rt m (new_module_config tc) of
                Inl e \<Rightarrow> failed call dur (''execution failed: '' @ error_text e) ErrExecutionFailed
              | Inr _ \<Rightarrow> (\<lparr> trCallID = xcID call, trOutput = Some (JObj [(''status'', JStr ''ok'')]), trError = [], trDuration = dur \<rparr>, None))))"

definition WasmExecutor_Execute ::
  "wasm_lib \<Rightarrow> wait \<Rightarrow> duration \<Rightarrow> ValidatedTool option \<Rightarrow> ExecCall \<Rightarrow> WasmExecutor \<Rightarrow> (WasmExecutor \<times> ToolResult \<times> go_error option) option" where
  "WasmExecutor_Execute L wt dur ctxTool call w =
     (case weToolBuckets w (xcName call) of
        None \<Rightarrow> Some (w, failed call dur (error_text ErrToolNotFound) ErrToolNotFound)
      | Some _ \<Rightarrow> (case find_tool w (xcName call) of
          None \<Rightarrow> Some (w, failed call dur (error_text ErrToolNotFound) ErrToolNotFound)
        | Some tc \<Rightarrow>
            let validatedTool = getValidatedToolFromContext ctxTool (xcName call);
                timeoutMs = getExecutionTimeout w validatedTool;
                bucket = getMemoryBucketFromValidated w validatedTool
            in if timeoutMs \<le> 0 \<or> bucket = 0
               then Some (w, failed call dur (error_text ErrInvalidLimits) ErrToolResourceExhausted)
               else (case acquireRuntime wt bucket w of
                 None \<Rightarrow> None
               | Some (w1, Inl e) \<Rightarrow> Some (w1, failed call dur (''runtime pool exhausted: '' @ error_text e) ErrToolResourceExhausted)
               | Some (w1, Inr rt) \<Rightarrow> (case run_in_runtime L dur tc timeoutMs bucket rt call w1 of
                   (w2, out) \<Rightarrow> map_option (\<lambda>w3. (w3, out)) (releaseRuntime bucket rt w2)))))"

subsection \<open>Executions in flight\<close>

text \<open>The executor and the executions that hold a runtime, each with its bucket.\<close>

record exec_state =
  esExec :: WasmExecutor
  esRunning :: "nat \<rightharpoonup> uint32 \<times> wasm_runtime"

text \<open>A call that gets a runtime, one that gets none, a compilation, and the end of a call.\<close>

inductive exec_step :: "wasm_lib \<Rightarrow> exec_state \<Rightarrow> exec_state \<Rightarrow> bool" for L where
  got: "esRunning s i = None \<Longrightarrow> acquireRuntime wt bucket (esExec s) = Some (w', Inr rt) \<Longrightarrow>
    exec_step L s (s\<lparr>esExec := w', esRunning := (esRunning s)(i \<mapsto> (bucket, rt))\<rparr>)"
| refused: "acquireRuntime wt bucket (esExec s) = Some (w', Inl e) \<Longrightarrow> exec_step L s (s\<lparr>esExec := w'\<rparr>)"
| compiled: "esRunning s i = Some (bucket, rt) \<Longrightarrow> getOrCompileModule L rt name bucket (esExec s) = (w', r) \<Longrightarrow>
    exec_step L s (s\<lparr>esExec := w'\<rparr>)"
| finish: "esRunning s i = Some (bucket, rt) \<Longrightarrow> releaseRuntime bucket rt (esExec s) = Some w' \<Longrightarrow>
    exec_step L s (s\<lparr>esExec := w', esRunning := (esRunning s)(i := None)\<rparr>)"

text \<open>States reachable from a fresh executor.\<close>

inductive exec_reachable :: "wasm_lib \<Rightarrow> ToolConfig \<Rightarrow> exec_state \<Rightarrow> bool" for L cfg where
  start: "NewWasmExecutor (wlReadFile L) cfg = Inr w \<Longrightarrow> exec_reachable L cfg \<lparr> esExec = w, esRunning = Map.empty \<rparr>"
| step: "exec_reachable L cfg s \<Longrightarrow> exec_step L s s' \<Longrightarrow> exec_reachable L cfg s'"

text \<open>The invariant of one pool, given the runtimes that are held from it: every runtime is either
  on the channel, once, or held; and it has the memory limit of the bucket.\<close>

definition held :: "uint32 \<Rightarrow> (nat \<rightharpoonup> uint32 \<times> wasm_runtime) \<Rightarrow> wasm_runtime set" where
  "held bucket running = {rt. \<exists>i. running i = Some (bucket, rt)}"

definition runtimes :: "runtimePool \<Rightarrow> wasm_runtime set" where
  "runtimes p = set (map prRuntime (rpRuntimes p))"

definition pool_ok :: "uint32 \<Rightarrow> runtimePool \<Rightarrow> wasm_runtime set \<Rightarrow> bool" where
  "pool_ok bucket p H = (\<not> rpClosed p \<and> length (rpRuntimes p) = MaxRuntimesPerBucket \<and> distinct (map prRuntime (rpRuntimes p))
     \<and> inj_on wrID (runtimes p)
     \<and> distinct (rpAvailable p) \<and> set (rpAvailable p) \<inter> H = {} \<and> set (rpAvailable p) \<union> H = runtimes p
     \<and> (\<forall>pr \<in> set (rpRuntimes p). wrMemoryLimitPages (prRuntime pr) = bucket \<and> prInUse pr = (prRuntime pr \<in> H)))"

definition pools_ok :: "WasmExecutor \<Rightarrow> (nat \<rightharpoonup> uint32 \<times> wasm_runtime) \<Rightarrow> bool" where
  "pools_ok w running = (dom (weRuntimePools w) = set MemoryBuckets
     \<and> (\<forall>b p. weRuntimePools w b = Some p \<longrightarrow> pool_ok b p (held b running))
     \<and> (\<forall>b. weRuntimePools w b = None \<longrightarrow> held b running = {}))"

definition running_ok :: "(nat \<rightharpoonup> uint32 \<times> wasm_runtime) \<Rightarrow> bool" where
  "running_ok running = (\<forall>i j x. running i = Some x \<longrightarrow> running j = Some x \<longrightarrow> i = j)"

definition cache_ok :: "WasmExecutor \<Rightarrow> bool" where
  "cache_ok w = (\<forall>b n k m. weCompileCache w (b, n, k) = Some m \<longrightarrow>
     wrID (cmRuntime m) = k \<and> find_tool w n = Some (cmConfig m)
     \<and> (\<exists>p. weRuntimePools w b = Some p \<and> cmRuntime m \<in> runtimes p))"

definition exec_ok :: "exec_state \<Rightarrow> bool" where
  "exec_ok s = (pools_ok (esExec s) (esRunning s) \<and> running_ok (esRunning s) \<and> cache_ok (esExec s))"

lemma held_empty [simp]: "held b Map.empty = {}"
  by (simp add: held_def)

lemma ex_upd: "(\<exists>j. (f(i := v)) j = y) \<longleftrightarrow> v = y \<or> (\<exists>j. j \<noteq> i \<and> f j = y)"
  unfolding fun_upd_def by metis

lemma held_insert:
  assumes "running i = None"
  shows "held c (running(i \<mapsto> (b, rt))) = (if c = b then insert rt (held c running) else held c running)"
proof -
  have "(\<exists>j. j \<noteq> i \<and> running j = Some y) \<longleftrightarrow> (\<exists>j. running j = Some y)" for y
    using assms by (metis option.distinct(1))
  then show ?thesis unfolding held_def ex_upd by auto
qed

lemma held_remove:
  assumes "running_ok running" and "running i = Some (b, rt)"
  shows "held c (running(i := None)) = (if c = b then held c running - {rt} else held c running)"
proof -
  have "(\<exists>j. j \<noteq> i \<and> running j = Some y) \<longleftrightarrow> (\<exists>j. running j = Some y) \<and> y \<noteq> (b, rt)" for y
    using assms unfolding running_ok_def by (metis option.inject)
  then show ?thesis unfolding held_def ex_upd by auto
qed

lemma set_in_use_runtimes [simp]:
  "map prRuntime (set_in_use x rt prs) = map prRuntime prs" "length (set_in_use x rt prs) = length prs"
  by (simp_all add: set_in_use_def)

lemma runtimes_set_in_use [simp]:
  "runtimes (p\<lparr>rpAvailable := a, rpRuntimes := set_in_use x rt (rpRuntimes p)\<rparr>) = runtimes p"
  unfolding runtimes_def by simp

lemma set_in_use_ball:
  "(\<forall>pr \<in> set (set_in_use x rt prs). P (prRuntime pr) (prInUse pr)) \<longleftrightarrow>
   (\<forall>pr \<in> set prs. P (prRuntime pr) (if prRuntime pr = rt then x else prInUse pr))"
  unfolding set_in_use_def by (induction prs) simp_all

lemma new_pool_ok: "pool_ok b (new_pool i b) {}"
proof -
  have "[0..<MaxRuntimesPerBucket] = [0, 1]" by (simp add: MaxRuntimesPerBucket_def upt_rec)
  then show ?thesis
    by (simp add: pool_ok_def runtimes_def new_pool_def MaxRuntimesPerBucket_def)
qed

lemma new_pools_lookup: "new_pools i bs b = Some p \<Longrightarrow> \<exists>j. p = new_pool j b"
  by (induction i bs rule: new_pools.induct) (auto split: if_splits)

lemma dom_new_pools: "dom (new_pools i bs) = set bs"
proof (induction i bs rule: new_pools.induct)
  case (2 i b bs)
  then show ?case unfolding new_pools.simps dom_fun_upd by simp
qed simp

lemma fresh_ok:
  assumes "NewWasmExecutor rd cfg = Inr w"
  shows "exec_ok \<lparr> esExec = w, esRunning = Map.empty \<rparr>"
proof -
  have w: "weRuntimePools w = new_pools 0 MemoryBuckets" "weCompileCache w = Map.empty"
    using assms by (auto simp: NewWasmExecutor_def split: sum.splits)
  have "pool_ok b p {}" if "weRuntimePools w b = Some p" for b p
    using new_pools_lookup[of 0 MemoryBuckets b p] that w(1) new_pool_ok by auto
  then show ?thesis unfolding exec_ok_def pools_ok_def running_ok_def cache_ok_def using w dom_new_pools by simp
qed

lemma pool_ok_acquire:
  assumes "pool_ok b p H" and "rpAvailable p = rt # rest"
  shows "pool_ok b (p\<lparr>rpAvailable := rest, rpRuntimes := set_in_use True rt (rpRuntimes p)\<rparr>) (insert rt H)" and "rt \<notin> H"
proof -
  have "\<forall>pr \<in> set (set_in_use True rt (rpRuntimes p)). wrMemoryLimitPages (prRuntime pr) = b \<and> prInUse pr = (prRuntime pr \<in> insert rt H)"
    unfolding set_in_use_ball[where P = "\<lambda>r x. wrMemoryLimitPages r = b \<and> x = (r \<in> insert rt H)"]
    using assms(1) unfolding pool_ok_def by simp
  then show "pool_ok b (p\<lparr>rpAvailable := rest, rpRuntimes := set_in_use True rt (rpRuntimes p)\<rparr>) (insert rt H)"
    using assms unfolding pool_ok_def by auto
  show "rt \<notin> H" using assms unfolding pool_ok_def by simp
qed

lemma pool_ok_release:
  assumes "pool_ok b p H" and "rt \<in> H"
  shows "length (rpAvailable p) < MaxRuntimesPerBucket" and "rt \<in> runtimes p"
    and "pool_ok b (p\<lparr>rpAvailable := rpAvailable p @ [rt], rpRuntimes := set_in_use False rt (rpRuntimes p)\<rparr>) (H - {rt})"
proof -
  have a: "distinct (rpAvailable p)" "distinct (map prRuntime (rpRuntimes p))" "length (rpRuntimes p) = MaxRuntimesPerBucket"
    "set (rpAvailable p) \<inter> H = {}" "set (rpAvailable p) \<union> H = runtimes p" "\<not> rpClosed p" "inj_on wrID (runtimes p)"
    "\<forall>pr \<in> set (rpRuntimes p). wrMemoryLimitPages (prRuntime pr) = b \<and> prInUse pr = (prRuntime pr \<in> H)"
    using assms(1) unfolding pool_ok_def by blast+
  show "rt \<in> runtimes p" using a(5) assms(2) by blast
  have n: "rt \<notin> set (rpAvailable p)" using a(4) assms(2) by blast
  have "length (rpAvailable p) = card (set (rpAvailable p))" using a(1) by (simp add: distinct_card)
  also have "\<dots> < card (runtimes p)"
    by (rule psubset_card_mono) (use n a(5) assms(2) in \<open>auto simp: runtimes_def\<close>)
  also have "\<dots> = MaxRuntimesPerBucket" using distinct_card[OF a(2)] a(3) unfolding runtimes_def by simp
  finally show "length (rpAvailable p) < MaxRuntimesPerBucket" .
  have u: "\<forall>pr \<in> set (set_in_use False rt (rpRuntimes p)). wrMemoryLimitPages (prRuntime pr) = b \<and> prInUse pr = (prRuntime pr \<in> H - {rt})"
    unfolding set_in_use_ball[where P = "\<lambda>r x. wrMemoryLimitPages r = b \<and> x = (r \<in> H - {rt})"]
    using a(8) by simp
  have d: "set (rpAvailable p @ [rt]) \<inter> (H - {rt}) = {}" "set (rpAvailable p @ [rt]) \<union> (H - {rt}) = runtimes p"
    using a(4,5) assms(2) by auto
  show "pool_ok b (p\<lparr>rpAvailable := rpAvailable p @ [rt], rpRuntimes := set_in_use False rt (rpRuntimes p)\<rparr>) (H - {rt})"
    unfolding pool_ok_def runtimes_set_in_use using u n a d by simp
qed

lemma set_pool_fields [simp]:
  "weRuntimePools (set_pool b p w) = (weRuntimePools w)(b \<mapsto> p)" "weCompileCache (set_pool b p w) = weCompileCache w"
  "find_tool (set_pool b p w) n = find_tool w n"
  by (simp_all add: set_pool_def find_tool_def)

lemma cache_ok_set_pool:
  "cache_ok w \<Longrightarrow> weRuntimePools w b = Some p \<Longrightarrow> runtimes q = runtimes p \<Longrightarrow> cache_ok (set_pool b q w)"
  unfolding cache_ok_def by fastforce

lemma pools_ok_set_pool:
  assumes "pools_ok w running" and "weRuntimePools w b = Some p" and "pool_ok b q (held b running')"
    and "\<And>c. c \<noteq> b \<Longrightarrow> held c running' = held c running"
  shows "pools_ok (set_pool b q w) running'"
  using assms unfolding pools_ok_def by (auto simp: dom_def)

lemma acquired:
  assumes "acquireRuntime wt b w = Some (w', Inr rt)"
  obtains p rest where "weRuntimePools w b = Some p" and "rpAvailable p = rt # rest"
    and "w' = set_pool b (p\<lparr>rpAvailable := rest, rpRuntimes := set_in_use True rt (rpRuntimes p)\<rparr>) w"
  using assms unfolding acquireRuntime_def by (auto split: option.splits wait.splits list.splits)

lemma refused_unchanged: "acquireRuntime wt b w = Some (w', Inl e) \<Longrightarrow> w' = w"
  unfolding acquireRuntime_def by (auto split: option.splits wait.splits list.splits)

lemma released:
  assumes "releaseRuntime b rt w = Some w'" and "weRuntimePools w b = Some p" and "pool_ok b p H" and "rt \<in> H"
  shows "w' = set_pool b (p\<lparr>rpAvailable := rpAvailable p @ [rt], rpRuntimes := set_in_use False rt (rpRuntimes p)\<rparr>) w"
proof -
  have "list_ex (\<lambda>pr. prRuntime pr = rt) (rpRuntimes p)"
    using pool_ok_release(2)[OF assms(3,4)] by (auto simp: runtimes_def list_ex_iff)
  then show ?thesis
    using assms(1,2) pool_ok_release(1)[OF assms(3,4)] unfolding releaseRuntime_def by (simp split: if_splits)
qed

lemma release_succeeds:
  assumes "pools_ok w running" and "running i = Some (b, rt)"
  shows "\<exists>w'. releaseRuntime b rt w = Some w'"
  using assms unfolding releaseRuntime_def pools_ok_def pool_ok_def by (cases "weRuntimePools w b") auto

lemma exec_ok_got:
  assumes "exec_ok s" and "esRunning s i = None" and "acquireRuntime wt b (esExec s) = Some (w', Inr rt)"
  shows "exec_ok (s\<lparr>esExec := w', esRunning := (esRunning s)(i \<mapsto> (b, rt))\<rparr>)"
proof -
  obtain p rest where p: "weRuntimePools (esExec s) b = Some p" "rpAvailable p = rt # rest"
    and w': "w' = set_pool b (p\<lparr>rpAvailable := rest, rpRuntimes := set_in_use True rt (rpRuntimes p)\<rparr>) (esExec s)"
    using acquired[OF assms(3)] .
  have ok: "pool_ok b p (held b (esRunning s))" using assms(1) p(1) unfolding exec_ok_def pools_ok_def by blast
  have free: "esRunning s j \<noteq> Some (b, rt)" for j using pool_ok_acquire(2)[OF ok p(2)] unfolding held_def by blast
  note h = held_insert[of "esRunning s" i, OF assms(2)]
  have "pools_ok w' ((esRunning s)(i \<mapsto> (b, rt)))" unfolding w'
    by (rule pools_ok_set_pool[OF _ p(1)]) (use assms(1) pool_ok_acquire(1)[OF ok p(2)] in \<open>simp_all add: h exec_ok_def\<close>)
  moreover have "running_ok ((esRunning s)(i \<mapsto> (b, rt)))"
    using assms(1) free unfolding exec_ok_def running_ok_def by auto
  moreover have "cache_ok w'" unfolding w'
    by (rule cache_ok_set_pool[OF _ p(1)]) (use assms(1) in \<open>simp_all add: exec_ok_def\<close>)
  ultimately show ?thesis unfolding exec_ok_def by simp
qed

lemma exec_ok_finish:
  assumes "exec_ok s" and "esRunning s i = Some (b, rt)" and "releaseRuntime b rt (esExec s) = Some w'"
  shows "exec_ok (s\<lparr>esExec := w', esRunning := (esRunning s)(i := None)\<rparr>)"
proof -
  have b: "rt \<in> held b (esRunning s)" using assms(2) unfolding held_def by blast
  obtain p where p: "weRuntimePools (esExec s) b = Some p"
    using assms(1) b unfolding exec_ok_def pools_ok_def by (metis empty_iff option.exhaust)
  have ok: "pool_ok b p (held b (esRunning s))" using assms(1) p unfolding exec_ok_def pools_ok_def by blast
  note w' = released[OF assms(3) p ok b]
  have r: "running_ok (esRunning s)" using assms(1) unfolding exec_ok_def by blast
  note h = held_remove[OF r assms(2)]
  have "pools_ok w' ((esRunning s)(i := None))" unfolding w'
    by (rule pools_ok_set_pool[OF _ p]) (use assms(1) pool_ok_release(3)[OF ok b] in \<open>simp_all add: h exec_ok_def\<close>)
  moreover have "running_ok ((esRunning s)(i := None))" using r unfolding running_ok_def by auto
  moreover have "cache_ok w'" unfolding w'
    by (rule cache_ok_set_pool[OF _ p]) (use assms(1) in \<open>simp_all add: exec_ok_def\<close>)
  ultimately show ?thesis unfolding exec_ok_def by simp
qed

lemma getOrCompileModule_frame:
  assumes "getOrCompileModule L rt n b w = (w', r)"
  shows "weRuntimePools w' = weRuntimePools w" and "find_tool w' = find_tool w"
  using assms unfolding getOrCompileModule_def Let_def find_tool_def by (auto split: option.splits sum.splits)

lemma getOrCompileModule_cache:
  assumes "getOrCompileModule L rt n b w = (w', r)"
  shows "weCompileCache w' = weCompileCache w
    \<or> (\<exists>m. weCompileCache w' = (weCompileCache w)((b, n, wrID rt) \<mapsto> m) \<and> cmRuntime m = rt \<and> find_tool w n = Some (cmConfig m))"
  using assms unfolding getOrCompileModule_def Let_def by (auto split: option.splits sum.splits)

lemma held_runtime:
  assumes "pools_ok w running" and "running i = Some (b, rt)"
  obtains p where "weRuntimePools w b = Some p" and "pool_ok b p (held b running)" and "rt \<in> runtimes p"
proof -
  have h: "rt \<in> held b running" using assms(2) unfolding held_def by blast
  obtain p where p: "weRuntimePools w b = Some p"
    using assms(1) h unfolding pools_ok_def by (metis empty_iff option.exhaust)
  have ok: "pool_ok b p (held b running)" using assms(1) p unfolding pools_ok_def by blast
  show thesis using that[OF p ok] h ok unfolding pool_ok_def by blast
qed

lemma exec_ok_compiled:
  assumes "exec_ok s" and "esRunning s i = Some (b, rt)" and "getOrCompileModule L rt n b (esExec s) = (w', r)"
  shows "exec_ok (s\<lparr>esExec := w'\<rparr>)"
proof -
  note fr = getOrCompileModule_frame[OF assms(3)]
  obtain p where p: "weRuntimePools (esExec s) b = Some p" "rt \<in> runtimes p"
    using held_runtime[of "esExec s" "esRunning s" i b rt] assms(1,2) unfolding exec_ok_def by blast
  have "cache_ok w'"
    using getOrCompileModule_cache[OF assms(3)]
  proof
    assume "weCompileCache w' = weCompileCache (esExec s)"
    then show ?thesis using assms(1) fr unfolding exec_ok_def cache_ok_def by simp
  next
    assume "\<exists>m. weCompileCache w' = (weCompileCache (esExec s))((b, n, wrID rt) \<mapsto> m) \<and> cmRuntime m = rt \<and> find_tool (esExec s) n = Some (cmConfig m)"
    then show ?thesis using assms(1) fr p unfolding exec_ok_def cache_ok_def by (auto split: if_splits)
  qed
  then show ?thesis using assms(1) fr unfolding exec_ok_def pools_ok_def by simp
qed

lemma exec_ok_step: "exec_step L s s' \<Longrightarrow> exec_ok s \<Longrightarrow> exec_ok s'"
proof (induction rule: exec_step.induct)
  case (refused wt bucket s w' e)
  then show ?case using refused_unchanged[OF refused(1)] by simp
qed (simp_all add: exec_ok_got exec_ok_compiled exec_ok_finish)

lemma exec_reachable_ok: "exec_reachable L cfg s \<Longrightarrow> exec_ok s"
  by (induction rule: exec_reachable.induct) (simp_all add: fresh_ok exec_ok_step)

subsection \<open>Isolation of executions\<close>

text \<open>A module that comes out of the cache was compiled by the runtime it is asked for.\<close>

lemma compiled_in_runtime:
  assumes "exec_ok s" and "esRunning s i = Some (b, rt)" and "getOrCompileModule L rt n b (esExec s) = (w', Inr m)"
  shows "cmRuntime m = rt \<and> find_tool (esExec s) n = Some (cmConfig m)"
proof (cases "weCompileCache (esExec s) (b, n, wrID rt)")
  case None
  then show ?thesis using assms(3) unfolding getOrCompileModule_def Let_def by (auto split: option.splits sum.splits)
next
  case (Some c)
  obtain p where p: "weRuntimePools (esExec s) b = Some p" "rt \<in> runtimes p" "pool_ok b p (held b (esRunning s))"
    using held_runtime[of "esExec s" "esRunning s" i b rt] assms(1,2) unfolding exec_ok_def by blast
  have m: "m = c" using assms(3) Some unfolding getOrCompileModule_def Let_def by simp
  have "wrID (cmRuntime m) = wrID rt \<and> find_tool (esExec s) n = Some (cmConfig m) \<and> cmRuntime m \<in> runtimes p"
    using assms(1) Some p(1) unfolding exec_ok_def cache_ok_def m by (metis option.inject)
  then show ?thesis using p(2,3) unfolding pool_ok_def by (metis inj_onD)
qed

text \<open>The number of executions in flight in a bucket.\<close>

definition in_flight :: "uint32 \<Rightarrow> exec_state \<Rightarrow> nat set" where
  "in_flight b s = {i. \<exists>rt. esRunning s i = Some (b, rt)}"

lemma in_flight_card:
  assumes "running_ok (esRunning s)"
  shows "card (in_flight b s) = card (held b (esRunning s))"
proof (rule bij_betw_same_card[of "\<lambda>i. snd (the (esRunning s i))"])
  show "bij_betw (\<lambda>i. snd (the (esRunning s i))) (in_flight b s) (held b (esRunning s))"
    using assms unfolding bij_betw_def inj_on_def in_flight_def held_def running_ok_def
    by (auto simp: image_iff) (metis option.sel snd_conv)
qed

lemma pool_conserved:
  assumes "pool_ok b p H"
  shows "length (rpAvailable p) + card H = MaxRuntimesPerBucket"
proof -
  have a: "distinct (rpAvailable p)" "set (rpAvailable p) \<inter> H = {}" "set (rpAvailable p) \<union> H = runtimes p"
    "distinct (map prRuntime (rpRuntimes p))" "length (rpRuntimes p) = MaxRuntimesPerBucket"
    using assms unfolding pool_ok_def by blast+
  have f: "finite H" using a(3) unfolding runtimes_def by (metis finite_Un finite_set)
  have "length (rpAvailable p) + card H = card (set (rpAvailable p) \<union> H)"
    using a(1,2) f by (simp add: card_Un_disjoint distinct_card)
  also have "\<dots> = MaxRuntimesPerBucket" using a(3,4,5) distinct_card[OF a(4)] unfolding runtimes_def by simp
  finally show ?thesis .
qed

lemma running_runtime:
  assumes "exec_ok s" and "esRunning s i = Some (b, rt)"
  shows "b \<in> set MemoryBuckets \<and> wrMemoryLimitPages rt = b"
proof -
  obtain p where p: "weRuntimePools (esExec s) b = Some p" "pool_ok b p (held b (esRunning s))" "rt \<in> runtimes p"
    using held_runtime[of "esExec s" "esRunning s" i b rt] assms unfolding exec_ok_def by blast
  then have "wrMemoryLimitPages rt = b" unfolding pool_ok_def runtimes_def by auto
  then show ?thesis using p(1) assms(1) unfolding exec_ok_def pools_ok_def by blast
qed

text \<open>C10: However the executions of the requests interleave, two of them never share a runtime, a
  runtime has the memory limit of its bucket, at most two executions are in flight in a bucket and
  the others of its runtimes wait on the channel, so that none is lost; and what an execution
  instantiates was compiled by its own runtime from the configuration of the tool it names.\<close>

theorem executions_isolated:
  assumes "exec_reachable L cfg s"
  shows "(\<forall>i j b c rt. esRunning s i = Some (b, rt) \<longrightarrow> esRunning s j = Some (c, rt) \<longrightarrow> i = j)
    \<and> (\<forall>i b rt. esRunning s i = Some (b, rt) \<longrightarrow> b \<in> set MemoryBuckets \<and> wrMemoryLimitPages rt = b)
    \<and> (\<forall>b p. weRuntimePools (esExec s) b = Some p \<longrightarrow> length (rpAvailable p) + card (in_flight b s) = MaxRuntimesPerBucket)
    \<and> (\<forall>i b rt n w' m. esRunning s i = Some (b, rt) \<longrightarrow> getOrCompileModule L rt n b (esExec s) = (w', Inr m) \<longrightarrow>
         cmRuntime m = rt \<and> find_tool (esExec s) n = Some (cmConfig m))"
proof (intro conjI allI impI)
  have ok: "exec_ok s" using exec_reachable_ok[OF assms] .
  show "i = j" if "esRunning s i = Some (b, rt)" "esRunning s j = Some (c, rt)" for i j b c rt
  proof -
    have "c = b" using running_runtime[OF ok that(1)] running_runtime[OF ok that(2)] by simp
    then show ?thesis using ok that unfolding exec_ok_def running_ok_def by blast
  qed
  show "b \<in> set MemoryBuckets" "wrMemoryLimitPages rt = b" if "esRunning s i = Some (b, rt)" for i b rt
    using running_runtime[OF ok that] by simp_all
  show "length (rpAvailable p) + card (in_flight b s) = MaxRuntimesPerBucket" if "weRuntimePools (esExec s) b = Some p" for b p
    using ok that pool_conserved[of b p "held b (esRunning s)"] in_flight_card[of s b]
    unfolding exec_ok_def pools_ok_def by simp
  show "cmRuntime m = rt" "find_tool (esExec s) n = Some (cmConfig m)"
    if "esRunning s i = Some (b, rt)" "getOrCompileModule L rt n b (esExec s) = (w', Inr m)" for i b rt n w' m
    using compiled_in_runtime[OF ok that] by simp_all
qed

subsection \<open>A whole call\<close>

text \<open>A call that runs to its end is a sequence of the steps above: what holds of every reachable
  state holds whenever calls of \<open>WasmExecutor_Execute\<close> overlap.\<close>

lemma run_in_runtime_compiles:
  "run_in_runtime L dur tc t b rt call w = (fst (getOrCompileModule L rt (xcName call) b w), snd (run_in_runtime L dur tc t b rt call w))"
  unfolding run_in_runtime_def by (auto split: prod.split sum.split)

lemma WasmExecutor_Execute_cases:
  assumes "WasmExecutor_Execute L wt dur vt call w = Some (w', out)"
  obtains (refused) "w' = w"
  | (ran) b rt w1 w2 r where "acquireRuntime wt b w = Some (w1, Inr rt)"
      and "getOrCompileModule L rt (xcName call) b w1 = (w2, r)" and "releaseRuntime b rt w2 = Some w'"
proof (cases "\<exists>tc. weToolBuckets w (xcName call) \<noteq> None \<and> find_tool w (xcName call) = Some tc")
  case False
  then have "w' = w" using assms unfolding WasmExecutor_Execute_def by (auto split: option.splits)
  then show ?thesis by (rule refused)
next
  case True
  then obtain tc b0 where t: "weToolBuckets w (xcName call) = Some b0" "find_tool w (xcName call) = Some tc" by auto
  define b where "b = getMemoryBucketFromValidated w (getValidatedToolFromContext vt (xcName call))"
  define t where "t = getExecutionTimeout w (getValidatedToolFromContext vt (xcName call))"
  show ?thesis
  proof (cases "t \<le> 0 \<or> b = 0")
    case True
    then have "w' = w" using assms t unfolding WasmExecutor_Execute_def Let_def b_def t_def by auto
    then show ?thesis by (rule refused)
  next
    case False
    then have x: "(case acquireRuntime wt b w of
                 None \<Rightarrow> None
               | Some (w1, Inl e) \<Rightarrow> Some (w1, failed call dur (''runtime pool exhausted: '' @ error_text e) ErrToolResourceExhausted)
               | Some (w1, Inr rt) \<Rightarrow> (case run_in_runtime L dur tc t b rt call w1 of
                   (w2, out) \<Rightarrow> map_option (\<lambda>w3. (w3, out)) (releaseRuntime b rt w2))) = Some (w', out)"
      using assms t unfolding WasmExecutor_Execute_def Let_def b_def t_def by simp
    show ?thesis
    proof (cases "acquireRuntime wt b w")
      case (Some a)
      obtain w1 y where a: "a = (w1, y)" by (cases a)
      show ?thesis
      proof (cases y)
        case (Inl e)
        then show ?thesis using x Some a refused_unchanged[of wt b w w1 e] refused by simp
      next
        case (Inr rt)
        obtain w2 r where c: "getOrCompileModule L rt (xcName call) b w1 = (w2, r)" by fastforce
        have "releaseRuntime b rt w2 = Some w'"
          using x Some a Inr c run_in_runtime_compiles[of L dur tc t b rt call w1] by (auto split: prod.splits)
        then show ?thesis using ran[OF _ c] Some a Inr by simp
      qed
    qed (use x in simp)
  qed
qed

lemma WasmExecutor_Execute_steps:
  assumes "WasmExecutor_Execute L wt dur vt call (esExec s) = Some (w', out)" and "esRunning s i = None"
  shows "(exec_step L)\<^sup>*\<^sup>* s (s\<lparr>esExec := w'\<rparr>)"
  using assms(1)
proof (cases rule: WasmExecutor_Execute_cases)
  case (ran b rt w1 w2 r)
  let ?s1 = "s\<lparr>esExec := w1, esRunning := (esRunning s)(i \<mapsto> (b, rt))\<rparr>"
  let ?s2 = "?s1\<lparr>esExec := w2\<rparr>"
  have "exec_step L s ?s1" by (rule exec_step.got[OF assms(2) ran(1)])
  moreover have "exec_step L ?s1 ?s2" by (rule exec_step.compiled[of _ i b rt L "xcName call" _ r]) (use ran(2) in simp_all)
  moreover have "exec_step L ?s2 (?s2\<lparr>esExec := w', esRunning := (esRunning ?s2)(i := None)\<rparr>)"
    by (rule exec_step.finish[of _ i b rt]) (use ran(3) in simp_all)
  moreover have "?s2\<lparr>esExec := w', esRunning := (esRunning ?s2)(i := None)\<rparr> = s\<lparr>esExec := w'\<rparr>"
    using assms(2) by (simp add: fun_upd_idem)
  ultimately show ?thesis by (metis (no_types, lifting) rtranclp.simps)
qed simp

lemma steps_reachable: "(exec_step L)\<^sup>*\<^sup>* s s' \<Longrightarrow> exec_reachable L cfg s \<Longrightarrow> exec_reachable L cfg s'"
  by (induction rule: rtranclp_induct) (auto intro: exec_reachable.step)

lemma held_finite: "pools_ok w running \<Longrightarrow> finite (held b running)"
  unfolding pools_ok_def pool_ok_def runtimes_def
  by (cases "weRuntimePools w b") (simp, metis finite_Un finite_set)

lemma fresh_execution:
  assumes "exec_ok s"
  obtains i where "esRunning s i = None"
proof -
  have "finite (in_flight b s)" if "b \<in> set MemoryBuckets" for b
  proof (rule inj_on_finite)
    show "inj_on (\<lambda>i. snd (the (esRunning s i))) (in_flight b s)"
      using assms unfolding inj_on_def in_flight_def exec_ok_def running_ok_def by auto
    show "(\<lambda>i. snd (the (esRunning s i))) ` in_flight b s \<subseteq> held b (esRunning s)"
      unfolding in_flight_def held_def by auto
    show "finite (held b (esRunning s))" using assms held_finite unfolding exec_ok_def by blast
  qed
  moreover have "dom (esRunning s) \<subseteq> (\<Union>b \<in> set MemoryBuckets. in_flight b s)"
    using running_runtime[OF assms] unfolding in_flight_def by fastforce
  ultimately have "finite (dom (esRunning s))" by (meson finite_UN_I finite_set finite_subset)
  then obtain i where "i \<notin> dom (esRunning s)" using ex_new_if_finite[OF infinite_UNIV_nat] by blast
  then show thesis using that by (meson domIff)
qed

lemma acquire_returns:
  assumes "exec_ok s" and "wt = Received \<Longrightarrow> receivable b (esExec s)"
  shows "\<exists>w' r. acquireRuntime wt b (esExec s) = Some (w', r)"
  using assms unfolding acquireRuntime_def receivable_def exec_ok_def pools_ok_def pool_ok_def
  by (cases "weRuntimePools (esExec s) b"; cases wt; cases "rpAvailable (the (weRuntimePools (esExec s) b))") auto

lemma run_release_returns:
  assumes "exec_ok s" and "esRunning s i = None" and "acquireRuntime wt b (esExec s) = Some (w1, Inr rt)"
  shows "\<exists>w3. releaseRuntime b rt (fst (getOrCompileModule L rt n b w1)) = Some w3"
proof -
  let ?s1 = "s\<lparr>esExec := w1, esRunning := (esRunning s)(i \<mapsto> (b, rt))\<rparr>"
  obtain w2 r where c: "getOrCompileModule L rt n b w1 = (w2, r)" by fastforce
  have "exec_ok (?s1\<lparr>esExec := w2\<rparr>)"
    using exec_ok_compiled[OF exec_ok_got[OF assms], of i b rt L n w2 r] c by simp
  then show ?thesis using release_succeeds[of w2 "(esRunning s)(i \<mapsto> (b, rt))" i b rt] c unfolding exec_ok_def by simp
qed

lemma WasmExecutor_Execute_returns:
  assumes "exec_ok s" and "wt = Received \<Longrightarrow> receivable (getMemoryBucketFromValidated (esExec s) (getValidatedToolFromContext vt (xcName call))) (esExec s)"
  shows "\<exists>w' out. WasmExecutor_Execute L wt dur vt call (esExec s) = Some (w', out)"
proof -
  define w where "w = esExec s"
  define b where "b = getMemoryBucketFromValidated w (getValidatedToolFromContext vt (xcName call))"
  define t where "t = getExecutionTimeout w (getValidatedToolFromContext vt (xcName call))"
  obtain i where i: "esRunning s i = None" using fresh_execution[OF assms(1)] .
  obtain w1 y where a: "acquireRuntime wt b w = Some (w1, y)"
    using acquire_returns[OF assms(1), of wt b] assms(2) unfolding b_def w_def by blast
  have "\<exists>w3. map_option (\<lambda>w3. (w3, out)) (releaseRuntime b rt (fst (getOrCompileModule L rt (xcName call) b w1))) = Some (w3, out)"
    if "y = Inr rt" for rt out
    using run_release_returns[OF assms(1) i, of wt b w1 rt L "xcName call"] a that unfolding w_def by auto
  then have "\<exists>x. (case run_in_runtime L dur tc t b rt call w1 of
                   (w2, out) \<Rightarrow> map_option (\<lambda>w3. (w3, out)) (releaseRuntime b rt w2)) = Some x" if "y = Inr rt" for rt tc
    using run_in_runtime_compiles[of L dur tc t b rt call w1] that by (metis (mono_tags, lifting) case_prod_conv)
  then show ?thesis
    unfolding WasmExecutor_Execute_def Let_def w_def[symmetric] b_def[symmetric] t_def[symmetric] a
    by (cases y) (auto split: option.splits simp: a)
qed

definition free_runtimes :: "uint32 \<Rightarrow> WasmExecutor \<Rightarrow> nat" where
  "free_runtimes b w = (case weRuntimePools w b of None \<Rightarrow> 0 | Some p \<Rightarrow> length (rpAvailable p))"

lemma free_runtimes_ok:
  assumes "exec_ok s" and "b \<in> set MemoryBuckets"
  shows "free_runtimes b (esExec s) + card (in_flight b s) = MaxRuntimesPerBucket"
proof -
  obtain p where "weRuntimePools (esExec s) b = Some p" using assms unfolding exec_ok_def pools_ok_def by blast
  then show ?thesis
    using assms(1) pool_conserved[of b p "held b (esRunning s)"] in_flight_card[of s b]
    unfolding exec_ok_def pools_ok_def free_runtimes_def by simp
qed

lemma failed_id [simp]: "trCallID (fst (failed call dur txt e)) = xcID call"
  by (simp add: failed_def)

lemma run_in_runtime_id: "trCallID (fst (snd (run_in_runtime L dur tc t b rt call w))) = xcID call"
  unfolding run_in_runtime_def by (simp split: prod.split sum.split)

lemma WasmExecutor_Execute_id: "WasmExecutor_Execute L wt dur vt call w = Some (w', out) \<Longrightarrow> trCallID (fst out) = xcID call"
  unfolding WasmExecutor_Execute_def Let_def using run_in_runtime_id[of L dur _ _ _ _ call]
  by (auto split: option.splits if_splits sum.splits prod.splits) (metis snd_conv fst_conv)+

text \<open>C30: Between any others in flight, a call whose wait for a runtime ends (one is on the channel, the
  context ends, or the five seconds pass) returns a result for its identifier, whether the module is
  missing, does not compile, cannot be instantiated, lacks the function, fails or succeeds; the
  state it leaves is again a reachable one and as many runtimes are free as before.\<close>

theorem execution_returns_runtime:
  assumes "exec_reachable L cfg s"
    and "wt = Received \<longrightarrow> receivable (getMemoryBucketFromValidated (esExec s) (getValidatedToolFromContext vt (xcName call))) (esExec s)"
  shows "\<exists>w' res err. WasmExecutor_Execute L wt dur vt call (esExec s) = Some (w', res, err) \<and> trCallID res = xcID call
    \<and> exec_reachable L cfg (s\<lparr>esExec := w'\<rparr>) \<and> (\<forall>b. free_runtimes b w' = free_runtimes b (esExec s))"
proof -
  have ok: "exec_ok s" using exec_reachable_ok[OF assms(1)] .
  obtain w' res err where x: "WasmExecutor_Execute L wt dur vt call (esExec s) = Some (w', res, err)"
    using WasmExecutor_Execute_returns[OF ok, of wt vt call L dur] assms(2) by auto
  obtain i where i: "esRunning s i = None" using fresh_execution[OF ok] .
  have r: "exec_reachable L cfg (s\<lparr>esExec := w'\<rparr>)" using steps_reachable[OF WasmExecutor_Execute_steps[OF x i] assms(1)] .
  have ok': "exec_ok (s\<lparr>esExec := w'\<rparr>)" using exec_reachable_ok[OF r] .
  have "free_runtimes b w' = free_runtimes b (esExec s)" for b
  proof (cases "b \<in> set MemoryBuckets")
    case True
    have "in_flight b (s\<lparr>esExec := w'\<rparr>) = in_flight b s" by (simp add: in_flight_def)
    then show ?thesis using free_runtimes_ok[OF ok True] free_runtimes_ok[OF ok' True] by simp
  next
    case False
    then have "weRuntimePools (esExec s) b = None" "weRuntimePools w' b = None"
      using ok ok' unfolding exec_ok_def pools_ok_def by auto
    then show ?thesis by (simp add: free_runtimes_def)
  qed
  then show ?thesis using x r WasmExecutor_Execute_id[OF x] by auto
qed

subsection \<open>Limits of an execution\<close>

lemma round_up_least:
  "round_up p MemoryBuckets \<in> set MemoryBuckets
   \<and> (\<forall>c \<in> set MemoryBuckets. p \<le> c \<longrightarrow> p \<le> round_up p MemoryBuckets \<and> round_up p MemoryBuckets \<le> c)"
  by (auto simp: MemoryBuckets_def word_le_nat_alt)

text \<open>The pages an execution asks for: those of the registry, at most the configured ceiling.\<close>

definition asked_pages :: "WasmExecutor \<Rightarrow> ValidatedTool \<Rightarrow> uint32" where
  "asked_pages w vt = (let d = tcfDefaultMemoryPages (weConfig w) in if 0 < d \<and> d < vtMemoryPages vt then d else vtMemoryPages vt)"

lemma sint_le_uint: "sint (x :: 64 word) \<le> uint x"
proof -
  have "take_bit 64 (uint x) \<le> uint x" by (simp add: take_bit_int_less_eq_self_iff)
  then show ?thesis by (simp add: sint_uint signed_take_bit_eq_take_bit_minus)
qed

lemma getExecutionTimeout_bounds:
  assumes "vtExecutionTimeoutMs vt \<noteq> 0"
  shows "1 \<le> getExecutionTimeout w (Some vt) \<and> getExecutionTimeout w (Some vt) \<le> MaxTimeoutMs
    \<and> getExecutionTimeout w (Some vt) \<le> uint (vtExecutionTimeoutMs vt)
    \<and> (0 < tcfDefaultTimeoutMs (weConfig w) \<longrightarrow> getExecutionTimeout w (Some vt) \<le> tcfDefaultTimeoutMs (weConfig w))"
proof -
  have "0 < uint (vtExecutionTimeoutMs vt)" using assms by (metis uint_0_iff uint_ge_0 order_le_less)
  then show ?thesis
    using assms sint_le_uint[of "vtExecutionTimeoutMs vt"]
    by (auto simp: getExecutionTimeout_def Let_def MinTimeoutMs_def MaxTimeoutMs_def)
qed

text \<open>The memory bucket is the least that holds the pages asked for, and the largest when none
  does; without limits of the registry there is no bucket, or no time.\<close>

lemma getMemoryBucketFromValidated_least:
  assumes "vtMemoryPages vt \<noteq> 0"
  shows "getMemoryBucketFromValidated w (Some vt) \<in> set MemoryBuckets
    \<and> (\<forall>c \<in> set MemoryBuckets. asked_pages w vt \<le> c \<longrightarrow>
         asked_pages w vt \<le> getMemoryBucketFromValidated w (Some vt) \<and> getMemoryBucketFromValidated w (Some vt) \<le> c)"
  using assms round_up_least[of "asked_pages w vt"] by (simp add: getMemoryBucketFromValidated_def asked_pages_def Let_def)

lemma WasmExecutor_Execute_rejects:
  assumes "find_tool w (xcName call) = Some tc" and "weToolBuckets w (xcName call) = Some b0"
    and "getExecutionTimeout w (getValidatedToolFromContext vt (xcName call)) = 0 \<or> getMemoryBucketFromValidated w (getValidatedToolFromContext vt (xcName call)) = 0"
  shows "WasmExecutor_Execute L wt dur vt call w = Some (w, failed call dur (error_text ErrInvalidLimits) ErrToolResourceExhausted)"
  using assms by (auto simp: WasmExecutor_Execute_def Let_def)

text \<open>An execution runs only with limits of the registry for the tool it names: without them the
  call is refused and the executor untouched. With them the time is between one millisecond and five
  minutes, at most the registry's and, where one is configured, the ceiling; and the memory is that
  of the least bucket with the pages the registry gives, cut at the configured ceiling. The number of
  milliseconds is read as a signed 64-bit integer.\<close>

theorem execution_limits:
  assumes "find_tool w (xcName call) = Some tc" and "weToolBuckets w (xcName call) = Some b0"
  shows "case getValidatedToolFromContext ctx (xcName call) of
      None \<Rightarrow> WasmExecutor_Execute L wt dur ctx call w = Some (w, failed call dur (error_text ErrInvalidLimits) ErrToolResourceExhausted)
    | Some vt \<Rightarrow>
        if vtExecutionTimeoutMs vt = 0 \<or> vtMemoryPages vt = 0
        then WasmExecutor_Execute L wt dur ctx call w = Some (w, failed call dur (error_text ErrInvalidLimits) ErrToolResourceExhausted)
        else vtName vt = xcName call
          \<and> 1 \<le> getExecutionTimeout w (Some vt) \<and> getExecutionTimeout w (Some vt) \<le> MaxTimeoutMs
          \<and> getExecutionTimeout w (Some vt) \<le> uint (vtExecutionTimeoutMs vt)
          \<and> (0 < tcfDefaultTimeoutMs (weConfig w) \<longrightarrow> getExecutionTimeout w (Some vt) \<le> tcfDefaultTimeoutMs (weConfig w))
          \<and> getMemoryBucketFromValidated w (Some vt) \<in> set MemoryBuckets
          \<and> (\<forall>c \<in> set MemoryBuckets. asked_pages w vt \<le> c \<longrightarrow>
               asked_pages w vt \<le> getMemoryBucketFromValidated w (Some vt) \<and> getMemoryBucketFromValidated w (Some vt) \<le> c)"
proof (cases "getValidatedToolFromContext ctx (xcName call)")
  case None
  then show ?thesis using WasmExecutor_Execute_rejects[OF assms] by (simp add: getExecutionTimeout_def)
next
  case (Some vt)
  have n: "vtName vt = xcName call" using Some unfolding getValidatedToolFromContext_def by (auto split: option.splits if_splits)
  show ?thesis
  proof (cases "vtExecutionTimeoutMs vt = 0 \<or> vtMemoryPages vt = 0")
    case True
    then have "WasmExecutor_Execute L wt dur ctx call w = Some (w, failed call dur (error_text ErrInvalidLimits) ErrToolResourceExhausted)"
      by (intro WasmExecutor_Execute_rejects[OF assms]) (auto simp: Some getExecutionTimeout_def getMemoryBucketFromValidated_def)
    then show ?thesis using Some True by simp
  next
    case False
    then have "vtExecutionTimeoutMs vt \<noteq> 0" "vtMemoryPages vt \<noteq> 0" by simp_all
    then show ?thesis
      using Some False n getExecutionTimeout_bounds[of vt w] getMemoryBucketFromValidated_least[of vt w] by simp
  qed
qed

subsection \<open>An executor with one tool\<close>

definition demo_wasm_config :: ToolConfig where
  "demo_wasm_config = \<lparr> tcfMaxIterations = 5, tcfDefaultTimeoutMs = 1000, tcfDefaultMemoryPages = 300, tcfCacheTTL = 0, tcfCacheMaxEntries = 0,
     tcfTools = [\<lparr> tmName = ''echo'', tmModulePath = ''echo.wasm'',
       tmGrants = \<lparr> tgFSReadOnlyMounts = [\<lparr> fsGuestPath = ''/in'', fsHostPath = ''data/in'' \<rparr>, \<lparr> fsGuestPath = ''/ref'', fsHostPath = ''data/ref'' \<rparr>], tgAllowNetwork = False \<rparr>,
       tmLimits = \<lparr> liTimeoutMs = 0, liMemoryPages = 0 \<rparr>, tmRequiresApproval = False \<rparr>] \<rparr>"

definition demo_wasm_lib :: wasm_lib where
  "demo_wasm_lib = \<lparr> wlReadFile = (\<lambda>p. Inr ''wasm''), wlCompile = (\<lambda>rt b. Inr ()), wlInstantiate = (\<lambda>t rt m c. Inr ()),
     wlExports = (\<lambda>m. True), wlCall = (\<lambda>t rt m c. Inr ()) \<rparr>"

definition demo_executor :: WasmExecutor where
  "demo_executor = \<lparr> weConfig = demo_wasm_config, weCompileCache = Map.empty, weRuntimePools = new_pools 0 MemoryBuckets,
     weToolBuckets = [''echo'' \<mapsto> 512] \<rparr>"

definition demo_validated :: ValidatedTool where
  "demo_validated = \<lparr> vtName = ''echo'', vtDescription = [], vtInputSchema = None, vtGrants = None,
     vtExecutionTimeoutMs = 5000, vtMemoryPages = 400, vtHash = [] \<rparr>"

definition demo_exec_call :: ExecCall where
  "demo_exec_call = \<lparr> xcID = ''c1'', xcName = ''echo'', xcArguments = None \<rparr>"

lemma demo_executor_new: "NewWasmExecutor (wlReadFile demo_wasm_lib) demo_wasm_config = Inr demo_executor"
  by (simp add: NewWasmExecutor_def demo_wasm_lib_def demo_wasm_config_def demo_executor_def getMemoryBucket_def MemoryBuckets_def)

lemma demo_exec_reachable: "exec_reachable demo_wasm_lib demo_wasm_config \<lparr> esExec = demo_executor, esRunning = Map.empty \<rparr>"
  by (rule exec_reachable.start[OF demo_executor_new])

text \<open>Two executions in the bucket of 512 pages, one after the other.\<close>

definition demo_acquired :: WasmExecutor where
  "demo_acquired = (case acquireRuntime Received 512 demo_executor of Some (w, _) \<Rightarrow> w | None \<Rightarrow> demo_executor)"

definition demo_in_flight :: exec_state where
  "demo_in_flight = \<lparr> esExec = demo_acquired, esRunning = [0 \<mapsto> (512, \<lparr> wrID = 2, wrMemoryLimitPages = 512 \<rparr>)] \<rparr>"

lemma demo_acquire: "acquireRuntime Received 512 demo_executor = Some (demo_acquired, Inr \<lparr> wrID = 2, wrMemoryLimitPages = 512 \<rparr>)"
  unfolding demo_acquired_def
  by (simp add: acquireRuntime_def demo_executor_def MemoryBuckets_def new_pool_def MaxRuntimesPerBucket_def upt_rec)

lemma demo_in_flight_reachable: "exec_reachable demo_wasm_lib demo_wasm_config demo_in_flight"
proof -
  have "exec_step demo_wasm_lib \<lparr> esExec = demo_executor, esRunning = Map.empty \<rparr> demo_in_flight"
    using exec_step.got[of "\<lparr> esExec = demo_executor, esRunning = Map.empty \<rparr>" 0 Received 512 demo_acquired _ demo_wasm_lib] demo_acquire
    by (simp add: demo_in_flight_def)
  then show ?thesis by (rule exec_reachable.step[OF demo_exec_reachable])
qed

lemma demo_pool: "weRuntimePools (esExec demo_in_flight) 512 = Some \<lparr> rpBucket = 512,
    rpRuntimes = [\<lparr> prRuntime = \<lparr> wrID = 2, wrMemoryLimitPages = 512 \<rparr>, prInUse = True \<rparr>, \<lparr> prRuntime = \<lparr> wrID = 3, wrMemoryLimitPages = 512 \<rparr>, prInUse = False \<rparr>],
    rpAvailable = [\<lparr> wrID = 3, wrMemoryLimitPages = 512 \<rparr>], rpClosed = False \<rparr>"
  by (simp add: demo_in_flight_def demo_acquired_def acquireRuntime_def demo_executor_def MemoryBuckets_def new_pool_def
      MaxRuntimesPerBucket_def upt_rec set_pool_def set_in_use_def)

theorem executions_isolated_witness:
  "exec_reachable demo_wasm_lib demo_wasm_config demo_in_flight
   \<and> esRunning demo_in_flight 0 = Some (512, \<lparr> wrID = 2, wrMemoryLimitPages = 512 \<rparr>)
   \<and> 1 + card (in_flight 512 demo_in_flight) = MaxRuntimesPerBucket"
proof (intro conjI)
  have "\<forall>b p. weRuntimePools (esExec demo_in_flight) b = Some p \<longrightarrow>
      length (rpAvailable p) + card (in_flight b demo_in_flight) = MaxRuntimesPerBucket"
    using executions_isolated[OF demo_in_flight_reachable] by blast
  from this[rule_format, OF demo_pool] show "1 + card (in_flight 512 demo_in_flight) = MaxRuntimesPerBucket" by simp
qed (simp_all add: demo_in_flight_reachable, simp add: demo_in_flight_def)

theorem execution_returns_runtime_witness:
  "\<exists>w' res err. WasmExecutor_Execute demo_wasm_lib Received 1 (Some demo_validated) demo_exec_call (esExec demo_in_flight) = Some (w', res, err)
    \<and> trCallID res = ''c1'' \<and> free_runtimes 512 w' = 1"
proof -
  have b: "getMemoryBucketFromValidated (esExec demo_in_flight) (getValidatedToolFromContext (Some demo_validated) (xcName demo_exec_call)) = 512"
    by (simp add: getMemoryBucketFromValidated_def getValidatedToolFromContext_def demo_validated_def demo_exec_call_def demo_in_flight_def
        demo_acquired_def acquireRuntime_def demo_executor_def MemoryBuckets_def new_pool_def MaxRuntimesPerBucket_def upt_rec set_pool_def demo_wasm_config_def)
  have "Received = Received \<longrightarrow> receivable (getMemoryBucketFromValidated (esExec demo_in_flight)
      (getValidatedToolFromContext (Some demo_validated) (xcName demo_exec_call))) (esExec demo_in_flight)"
    unfolding b by (simp add: receivable_def demo_pool)
  from execution_returns_runtime[OF demo_in_flight_reachable this, of 1] obtain w' res err
    where "WasmExecutor_Execute demo_wasm_lib Received 1 (Some demo_validated) demo_exec_call (esExec demo_in_flight) = Some (w', res, err)"
      "trCallID res = xcID demo_exec_call" "\<forall>b. free_runtimes b w' = free_runtimes b (esExec demo_in_flight)" by blast
  then show ?thesis by (auto simp: free_runtimes_def demo_pool demo_exec_call_def)
qed

theorem execution_limits_witness:
  "getExecutionTimeout demo_executor (Some demo_validated) \<le> 1000 \<and> getMemoryBucketFromValidated demo_executor (Some demo_validated) \<in> set MemoryBuckets"
proof -
  have "find_tool demo_executor (xcName demo_exec_call) = Some (hd (tcfTools demo_wasm_config))"
    "weToolBuckets demo_executor (xcName demo_exec_call) = Some 512"
    "getValidatedToolFromContext (Some demo_validated) (xcName demo_exec_call) = Some demo_validated"
    "\<not> (vtExecutionTimeoutMs demo_validated = 0 \<or> vtMemoryPages demo_validated = 0)" "tcfDefaultTimeoutMs (weConfig demo_executor) = 1000"
    by (simp_all add: find_tool_def demo_executor_def demo_wasm_config_def demo_exec_call_def getValidatedToolFromContext_def demo_validated_def)
  then show ?thesis
    using execution_limits[where w = demo_executor and call = demo_exec_call and tc = "hd (tcfTools demo_wasm_config)" and ?b0.0 = 512
        and ctx = "Some demo_validated" and L = demo_wasm_lib and wt = Received and dur = 1] by auto
qed

text \<open>The ceiling of 300 pages does not hold: the pages are cut to it and then rounded up.\<close>

theorem memory_ceiling_exceeded:
  "tcfDefaultMemoryPages (weConfig demo_executor) = 300 \<and> getMemoryBucketFromValidated demo_executor (Some demo_validated) = 512"
  by (simp add: demo_executor_def demo_wasm_config_def getMemoryBucketFromValidated_def demo_validated_def MemoryBuckets_def)

text \<open>Of several mounts only the last is there.\<close>

theorem last_mount_remains:
  "mcMount (new_module_config tc) = (case rev (tgFSReadOnlyMounts (tmGrants tc)) of [] \<Rightarrow> None | m # _ \<Rightarrow> Some (host_path (fsHostPath m), fsGuestPath m))"
  by (cases "tgFSReadOnlyMounts (tmGrants tc)" rule: rev_cases) (simp_all add: new_module_config_def)

text \<open>A call that overlaps \<open>Close\<close>, or comes after it, panics when it returns its runtime, and
  closing twice panics.\<close>

lemma closed_release_panics:
  assumes "weRuntimePools w b = Some p" and "rpClosed p" and "rt \<in> runtimes p"
  shows "releaseRuntime b rt w = None"
  using assms by (auto simp: releaseRuntime_def runtimes_def list_ex_iff)

theorem close_breaks_executions:
  assumes "exec_ok s" and "esRunning s i = Some (b, rt)" and "CloseExecutor (esExec s) = Some w"
  shows "releaseRuntime b rt w = None \<and> CloseExecutor w = None"
proof
  obtain p where p: "weRuntimePools (esExec s) b = Some p" "rt \<in> runtimes p"
    using held_runtime[of "esExec s" "esRunning s" i b rt] assms(1,2) unfolding exec_ok_def by blast
  have w: "weRuntimePools w = (\<lambda>b. map_option (\<lambda>p. p\<lparr>rpClosed := True\<rparr>) (weRuntimePools (esExec s) b))"
    using assms(3) unfolding CloseExecutor_def by (auto split: if_splits)
  have q: "weRuntimePools w b = Some (p\<lparr>rpClosed := True\<rparr>)" using w p(1) by simp
  show "releaseRuntime b rt w = None"
    by (rule closed_release_panics[OF q]) (use p(2) in \<open>simp_all add: runtimes_def\<close>)
  have "b \<in> set MemoryBuckets" using running_runtime[OF assms(1,2)] by simp
  then show "CloseExecutor w = None" using q unfolding CloseExecutor_def by (force simp: list_ex_iff)
qed

subsection \<open>The mock executor\<close>

text \<open>\<open>src/internal/adapter/tool/mock/executor.go\<close>, which is the one \<open>cmd/gateway/main.go\<close> builds.\<close>

record MockExecutor =
  mkName :: string
  mkSupported :: "string \<Rightarrow> bool"
  mkLatency :: duration
  mkErr :: "go_error option"
  mkResponse :: "ToolResult option"
  mkFixedResult :: "ToolResult option"
  mkCallCount :: int
  mkLastCall :: "ExecCall option"
  mkCustomFunc :: "(ExecCall \<Rightarrow> ToolResult \<times> go_error option) option"

type_synonym MockOption = "MockExecutor \<Rightarrow> MockExecutor"

definition WithSupportedTools :: "string list \<Rightarrow> MockOption" where
  "WithSupportedTools tools m = m\<lparr>mkSupported := (\<lambda>t. t \<in> set tools)\<rparr>"

definition WithLatency :: "duration \<Rightarrow> MockOption" where
  "WithLatency d m = m\<lparr>mkLatency := d\<rparr>"

definition NewMockExecutor :: "MockOption list \<Rightarrow> MockExecutor" where
  "NewMockExecutor opts = fold (\<lambda>opt m. opt m) opts
     \<lparr> mkName = ''mock'', mkSupported = (\<lambda>t. False), mkLatency = 0, mkErr = None, mkResponse = None, mkFixedResult = None,
       mkCallCount = 0, mkLastCall = None, mkCustomFunc = None \<rparr>"

definition empty_tool_result :: ToolResult where
  "empty_tool_result = \<lparr> trCallID = [], trOutput = None, trError = [], trDuration = 0 \<rparr>"

text \<open>\<open>ended\<close> is the error of a context that ends before the latency is over.\<close>

definition MockExecutor_Execute :: "go_error option \<Rightarrow> ExecCall \<Rightarrow> MockExecutor \<Rightarrow> MockExecutor \<times> ToolResult \<times> go_error option" where
  "MockExecutor_Execute ended call m0 =
     (let m = m0\<lparr>mkCallCount := mkCallCount m0 + 1, mkLastCall := Some call\<rparr> in
      (m,
       if 0 < mkLatency m \<and> ended \<noteq> None then (empty_tool_result, ended)
       else case mkCustomFunc m of
         Some fn \<Rightarrow> fn call
       | None \<Rightarrow> (case mkErr m of
           Some e \<Rightarrow> (empty_tool_result, Some e)
         | None \<Rightarrow> (case mkFixedResult m of
             Some r \<Rightarrow> (r\<lparr>trCallID := xcID call\<rparr>, None)
           | None \<Rightarrow> (case mkResponse m of
               Some r \<Rightarrow> (r\<lparr>trCallID := xcID call\<rparr>, None)
             | None \<Rightarrow> (\<lparr> trCallID = xcID call,
                 trOutput = Some (JObj [(''echo'', case xcArguments call of None \<Rightarrow> JNull | Some a \<Rightarrow> a)]), trError = [],
                 trDuration = mkLatency m \<rparr>, None))))))"

definition ResetMock :: "MockExecutor \<Rightarrow> MockExecutor" where
  "ResetMock m = m\<lparr>mkCallCount := 0, mkLastCall := None\<rparr>"

text \<open>The executor of the gateway.\<close>

definition toolExecutor :: MockExecutor where
  "toolExecutor = NewMockExecutor [WithSupportedTools [''echo_tool'', ''send_email'', ''query_db''], WithLatency (10 * 1000000)]"

text \<open>Whatever tool a call names and whatever its limits, the gateway echoes the arguments.\<close>

theorem gateway_tools_echo:
  "snd (MockExecutor_Execute None call toolExecutor) =
     (\<lparr> trCallID = xcID call, trOutput = Some (JObj [(''echo'', case xcArguments call of None \<Rightarrow> JNull | Some a \<Rightarrow> a)]), trError = [],
        trDuration = 10000000 \<rparr>, None)"
  by (simp add: MockExecutor_Execute_def toolExecutor_def NewMockExecutor_def WithSupportedTools_def WithLatency_def)

end
