(* ===== verification/Tokens.thy ===== *)
theory Tokens
  imports Delegation TenantTx GoText
begin

text \<open>
  \<open>src/internal/adapter/jwt/token.go\<close>: the key store, the access tokens and the opaque
  refresh tokens. Signing and parsing are the package \<open>golang-jwt\<close>, outside the repository: a
  parameter, and \<open>jwt_lawful\<close> states what its documentation promises.
\<close>

subsection \<open>Keys\<close>

record KeyStore =
  ksCurrentKID :: string
  ksSigningKey :: "byte list"
  ksKeys :: "string \<rightharpoonup> byte list"

definition NewKeyStore :: "string \<Rightarrow> byte list \<Rightarrow> (string \<rightharpoonup> byte list) option \<Rightarrow> KeyStore" where
  "NewKeyStore currentKID signingKey keys0 =
     (let keys = (case keys0 of None \<Rightarrow> Map.empty | Some m \<Rightarrow> m) in
      \<lparr> ksCurrentKID = currentKID, ksSigningKey = signingKey, ksKeys = keys(currentKID \<mapsto> signingKey) \<rparr>)"

definition RotateKey :: "string \<Rightarrow> byte list \<Rightarrow> KeyStore \<Rightarrow> KeyStore" where
  "RotateKey newKID newKey ks = ks\<lparr>ksKeys := (ksKeys ks)(newKID \<mapsto> newKey), ksCurrentKID := newKID, ksSigningKey := newKey\<rparr>"

definition GetSigningKey :: "KeyStore \<Rightarrow> string \<times> byte list" where
  "GetSigningKey ks = (ksCurrentKID ks, ksSigningKey ks)"

definition GetVerificationKey :: "KeyStore \<Rightarrow> string \<Rightarrow> byte list option" where
  "GetVerificationKey ks kid = ksKeys ks kid"

subsection \<open>Claims and the signing library\<close>

text \<open>A numeric date is a number of seconds.\<close>

record Claims =
  clUserID :: string
  clTenantID :: string
  clRole :: string
  clScopes :: "string list"
  clIssuer :: string
  clAudience :: "string list"
  clIssuedAt :: "int option"
  clExpiresAt :: "int option"
  clNotBefore :: "int option"

datatype jwt_alg = HS256 | HS384 | HS512 | Other_alg string

text \<open>The three HMAC methods of the library have the one type \<open>*SigningMethodHMAC\<close>.\<close>

definition is_hmac :: "jwt_alg \<Rightarrow> bool" where
  "is_hmac a = (a \<in> set [HS256, HS384, HS512])"

definition sec :: int where "sec = 1000000000"

definition NewNumericDate :: "time \<Rightarrow> int option" where
  "NewNumericDate t = Some (t div sec)"

text \<open>What the registered claims must satisfy: not expired, not early, the audience among
  those named, and the issuer when one is configured.\<close>

definition claims_ok :: "time \<Rightarrow> string \<Rightarrow> string \<Rightarrow> Claims \<Rightarrow> bool" where
  "claims_ok now issuer audience c =
     ((case clExpiresAt c of None \<Rightarrow> True | Some e \<Rightarrow> now < e * sec)
      \<and> (case clNotBefore c of None \<Rightarrow> True | Some n \<Rightarrow> n * sec \<le> now)
      \<and> audience \<noteq> [] \<and> audience \<in> set (clAudience c)
      \<and> (issuer = [] \<or> clIssuer c = issuer))"

text \<open>\<open>SignedString\<close>, given method, \<open>kid\<close> header, key and claims, and \<open>ParseWithClaims\<close>,
  given the clock, the configured issuer and audience, the key function and the text.
  \<open>jlAuthentic\<close> is the verification of a text's signature under a method and key.\<close>

record jwt_lib =
  jlSign :: "jwt_alg \<Rightarrow> string \<Rightarrow> byte list \<Rightarrow> Claims \<Rightarrow> string result"
  jlParse :: "time \<Rightarrow> string \<Rightarrow> string \<Rightarrow> (jwt_alg \<Rightarrow> string option \<Rightarrow> byte list result) \<Rightarrow> string \<Rightarrow> Claims result"
  jlAuthentic :: "jwt_alg \<Rightarrow> byte list \<Rightarrow> string \<Rightarrow> bool"

text \<open>A parsed text is authentic under the key its key function chose and its claims are in
  order; a text that was signed parses to its claims whenever the key function finds the key
  and the claims are in order.\<close>

definition jwt_lawful :: "jwt_lib \<Rightarrow> bool" where
  "jwt_lawful J =
     ((\<forall>now iss aud kf tok c. jlParse J now iss aud kf tok = Inr c \<longrightarrow>
         claims_ok now iss aud c \<and> (\<exists>alg kid key. kf alg kid = Inr key \<and> jlAuthentic J alg key tok))
      \<and> (\<forall>alg kid key c tok now iss aud kf. jlSign J alg kid key c = Inr tok \<longrightarrow> kf alg (Some kid) = Inr key \<longrightarrow>
         claims_ok now iss aud c \<longrightarrow> jlParse J now iss aud kf tok = Inr c)
      \<and> (\<forall>alg kid key c tok now iss aud kf. jlSign J alg kid key c = Inr tok \<longrightarrow>
         \<not> claims_ok now iss aud c \<longrightarrow> isl (jlParse J now iss aud kf tok)))"

subsection \<open>The service\<close>

record AuthService =
  asKeystore :: KeyStore
  asIssuer :: string
  asAudience :: string

definition NewAuthService :: "KeyStore \<Rightarrow> string \<Rightarrow> string \<Rightarrow> AuthService" where
  "NewAuthService ks issuer audience = \<lparr> asKeystore = ks, asIssuer = issuer, asAudience = audience \<rparr>"

definition access_ttl :: duration where "access_ttl = 15 * 60 * sec"

definition registered :: "AuthService \<Rightarrow> time \<Rightarrow> Claims \<Rightarrow> Claims" where
  "registered s now claims = claims\<lparr>clIssuer := asIssuer s, clAudience := [asAudience s], clIssuedAt := NewNumericDate now,
     clExpiresAt := NewNumericDate (now + access_ttl), clNotBefore := NewNumericDate now\<rparr>"

definition IssueAccessToken :: "jwt_lib \<Rightarrow> AuthService \<Rightarrow> time \<Rightarrow> Claims \<Rightarrow> string result" where
  "IssueAccessToken J s now claims =
     (let (kid, key) = GetSigningKey (asKeystore s) in jlSign J HS256 kid key (registered s now claims))"

definition user_claims :: "string \<Rightarrow> string \<Rightarrow> string \<Rightarrow> string list \<Rightarrow> Claims" where
  "user_claims userID tenantID role scopes = \<lparr> clUserID = userID, clTenantID = tenantID, clRole = role, clScopes = scopes,
     clIssuer = [], clAudience = [], clIssuedAt = None, clExpiresAt = None, clNotBefore = None \<rparr>"

definition IssueSuperAdminToken :: "jwt_lib \<Rightarrow> AuthService \<Rightarrow> time \<Rightarrow> uuid \<Rightarrow> string result" where
  "IssueSuperAdminToken J s now superAdminID =
     IssueAccessToken J s now (user_claims (UUID_String superAdminID) [] ''super_admin'' [''*''])"

definition ErrInvalidAlgorithm :: go_error where
  "ErrInvalidAlgorithm = Errorf ''invalid algorithm: only HS256 is allowed''"

text \<open>The key function: the method must be an HMAC, the header must name a known key.\<close>

definition key_func :: "KeyStore \<Rightarrow> jwt_alg \<Rightarrow> string option \<Rightarrow> byte list result" where
  "key_func ks alg kid =
     (if \<not> is_hmac alg then Inl ErrInvalidAlgorithm
      else case kid of
        None \<Rightarrow> Inl (Errorf ''missing kid header'')
      | Some k \<Rightarrow> (case GetVerificationKey ks k of
          None \<Rightarrow> Inl (Errorf (''unknown kid: '' @ k))
        | Some key \<Rightarrow> Inr key))"

definition ParseAccessToken :: "jwt_lib \<Rightarrow> AuthService \<Rightarrow> time \<Rightarrow> string \<Rightarrow> Claims result" where
  "ParseAccessToken J s now tokenString =
     jlParse J now (asIssuer s) (asAudience s) (key_func (asKeystore s)) tokenString"

text \<open>\<open>base64.RawURLEncoding\<close> differs from the standard alphabet in two digits.\<close>

definition b64url_encode :: "byte list \<Rightarrow> string" where
  "b64url_encode bs = map (\<lambda>c. if c = CHR ''+'' then CHR ''-'' else if c = CHR ''/'' then CHR ''_'' else c) (b64_encode bs)"

definition refresh_ttl :: duration where "refresh_ttl = 7 * 24 * 60 * 60 * sec"

text \<open>\<open>IssueRefreshToken\<close>, given the digest, the bytes \<open>rand.Read\<close> delivers and those of the
  family id: token, hash, family and expiry. Nothing is stored.\<close>

definition IssueRefreshToken ::
  "(string \<Rightarrow> byte list) \<Rightarrow> time \<Rightarrow> byte list result \<Rightarrow> byte list \<Rightarrow> uuid \<Rightarrow> (string \<times> string \<times> uuid \<times> time) result" where
  "IssueRefreshToken sha256 now rnd famRnd userID = (case rnd of
     Inl e \<Rightarrow> Inl e
   | Inr tokenBytes \<Rightarrow>
       let token = b64url_encode tokenBytes in
       Inr (token, b64url_encode (sha256 token), NewUUID famRnd, now + refresh_ttl))"

text \<open>The repository operations of the interface are not implemented by the service.\<close>

definition VerifyRefreshToken :: "string \<Rightarrow> Claims result" where
  "VerifyRefreshToken tokenHash = Inl (Errorf ''VerifyRefreshToken requires repository'')"

definition RotateRefreshToken :: "string \<Rightarrow> (string \<times> string \<times> uuid \<times> time) result" where
  "RotateRefreshToken oldTokenHash = Inl (Errorf ''RotateRefreshToken requires repository'')"

definition RevokeRefreshToken :: "string \<Rightarrow> go_error option" where
  "RevokeRefreshToken tokenHash = Some (Errorf ''RevokeRefreshToken requires repository'')"

definition AuthService_RevokeFamily :: "uuid \<Rightarrow> go_error option" where
  "AuthService_RevokeFamily familyID = Some (Errorf ''RevokeFamily requires repository'')"

subsection \<open>Issued tokens are accepted for their lifetime\<close>

definition rotate_keys :: "(string \<times> byte list) list \<Rightarrow> AuthService \<Rightarrow> AuthService" where
  "rotate_keys rs s = s\<lparr>asKeystore := fold (\<lambda>(kid, key). RotateKey kid key) rs (asKeystore s)\<rparr>"

text \<open>The signing key is among the verification keys.\<close>

definition keystore_ok :: "KeyStore \<Rightarrow> bool" where
  "keystore_ok ks = (ksKeys ks (ksCurrentKID ks) = Some (ksSigningKey ks))"

lemma keystore_ok_new: "keystore_ok (NewKeyStore kid key keys)"
  by (simp add: keystore_ok_def NewKeyStore_def Let_def)

lemma keystore_ok_rotate: "keystore_ok (RotateKey kid key ks)"
  by (simp add: keystore_ok_def RotateKey_def)

lemma rotations_keep_key:
  "kid \<notin> fst ` set rs \<Longrightarrow> ksKeys (fold (\<lambda>(kid, key). RotateKey kid key) rs ks) kid = ksKeys ks kid"
  by (induction rs arbitrary: ks) (auto simp: RotateKey_def)

lemma rotate_keys_sel [simp]: "asIssuer (rotate_keys rs s) = asIssuer s" "asAudience (rotate_keys rs s) = asAudience s"
  by (simp_all add: rotate_keys_def)

lemma registered_ok:
  assumes "asAudience s \<noteq> []" and "now \<le> now'"
  shows "claims_ok now' (asIssuer s) (asAudience s) (registered s now c) = (now' < (now + access_ttl) div sec * sec)"
proof -
  have "now div sec * sec \<le> now'" using assms(2) by (simp add: sec_def)
  then show ?thesis using assms(1) by (simp add: claims_ok_def registered_def NewNumericDate_def)
qed

lemma issued_key_found:
  assumes "keystore_ok (asKeystore s)" and "ksCurrentKID (asKeystore s) \<notin> fst ` set rs"
  shows "key_func (asKeystore (rotate_keys rs s)) HS256 (Some (ksCurrentKID (asKeystore s))) = Inr (ksSigningKey (asKeystore s))"
  using assms rotations_keep_key[OF assms(2)]
  by (simp add: key_func_def is_hmac_def GetVerificationKey_def rotate_keys_def keystore_ok_def)

lemma issued_token_lifetime:
  assumes "jwt_lawful J" and "keystore_ok (asKeystore s)" and "asAudience s \<noteq> []"
    and "IssueAccessToken J s now c = Inr tok" and "ksCurrentKID (asKeystore s) \<notin> fst ` set rs" and "now \<le> now'"
  shows "if now' < (now + access_ttl) div sec * sec
    then ParseAccessToken J (rotate_keys rs s) now' tok = Inr (registered s now c)
    else isl (ParseAccessToken J (rotate_keys rs s) now' tok)"
proof -
  let ?kf = "key_func (asKeystore (rotate_keys rs s))"
  have sign: "jlSign J HS256 (ksCurrentKID (asKeystore s)) (ksSigningKey (asKeystore s)) (registered s now c) = Inr tok"
    using assms(4) by (simp add: IssueAccessToken_def GetSigningKey_def)
  have ok: "claims_ok now' (asIssuer s) (asAudience s) (registered s now c) = (now' < (now + access_ttl) div sec * sec)"
    using registered_ok[OF assms(3,6)] .
  show ?thesis
  proof (cases "now' < (now + access_ttl) div sec * sec")
    case True
    then have "jlParse J now' (asIssuer s) (asAudience s) ?kf tok = Inr (registered s now c)"
      using assms(1) sign issued_key_found[OF assms(2,5)] ok unfolding jwt_lawful_def by blast
    then show ?thesis using True by (simp add: ParseAccessToken_def)
  next
    case False
    then have "isl (jlParse J now' (asIssuer s) (asAudience s) ?kf tok)"
      using assms(1) sign ok unfolding jwt_lawful_def by blast
    then show ?thesis using False by (simp add: ParseAccessToken_def)
  qed
qed

text \<open>C28: An access token is accepted, with the claims it was issued for, from the moment it is
  issued until the last full second of its fifteen minutes, and by no means later; keys rotated in
  meanwhile under other ids change nothing.\<close>

theorem access_token_lifetime:
  assumes "jwt_lawful J" and "keystore_ok (asKeystore s)" and "asAudience s \<noteq> []"
    and "IssueAccessToken J s now c = Inr tok" and "ksCurrentKID (asKeystore s) \<notin> fst ` set rs" and "now \<le> now'"
  shows "if now' < (now + access_ttl) div sec * sec
    then ParseAccessToken J (rotate_keys rs s) now' tok = Inr (registered s now c)
    else isl (ParseAccessToken J (rotate_keys rs s) now' tok)"
  using assms by (rule issued_token_lifetime)

text \<open>A signing library for one text.\<close>

definition demo_service :: AuthService where
  "demo_service = NewAuthService (NewKeyStore ''v1'' [1] None) ''gw'' ''api''"

definition demo_claims :: Claims where
  "demo_claims = user_claims (UUID_String zero_uuid) (UUID_String zero_uuid) ''admin'' [''*'']"

definition demo_jwt :: jwt_lib where
  "demo_jwt = \<lparr>
     jlSign = (\<lambda>alg kid key c. if (alg, kid, key, c) = (HS256, ''v1'', [1], registered demo_service 0 demo_claims)
       then Inr ''t'' else Inl (Errorf ''key is of invalid type'')),
     jlParse = (\<lambda>now iss aud kf tok. if tok = ''t'' \<and> kf HS256 (Some ''v1'') = Inr [1]
         \<and> claims_ok now iss aud (registered demo_service 0 demo_claims)
       then Inr (registered demo_service 0 demo_claims) else Inl (Errorf ''token is malformed'')),
     jlAuthentic = (\<lambda>alg key tok. tok = ''t'') \<rparr>"

lemma demo_jwt_lawful: "jwt_lawful demo_jwt"
  by (auto simp: jwt_lawful_def demo_jwt_def split: if_splits)

lemma demo_issued: "IssueAccessToken demo_jwt demo_service 0 demo_claims = Inr ''t''"
  by (simp add: IssueAccessToken_def demo_service_def NewAuthService_def NewKeyStore_def GetSigningKey_def demo_jwt_def)

theorem access_token_lifetime_witness:
  "ParseAccessToken demo_jwt (rotate_keys [(''v2'', [2])] demo_service) (5 * sec) ''t'' = Inr (registered demo_service 0 demo_claims)
   \<and> isl (ParseAccessToken demo_jwt (rotate_keys [(''v2'', [2])] demo_service) (900 * sec) ''t'')"
proof -
  have s: "keystore_ok (asKeystore demo_service)" "asAudience demo_service \<noteq> []" "ksCurrentKID (asKeystore demo_service) = ''v1''"
    by (simp_all add: demo_service_def NewAuthService_def keystore_ok_def NewKeyStore_def)
  show ?thesis
    using access_token_lifetime[OF demo_jwt_lawful s(1,2) demo_issued, of "[(''v2'', [2])]" "5 * sec"]
      access_token_lifetime[OF demo_jwt_lawful s(1,2) demo_issued, of "[(''v2'', [2])]" "900 * sec"] s(3)
    by (simp add: access_ttl_def sec_def)
qed

text \<open>The key function lets every HMAC method pass, not HS256 alone.\<close>

theorem other_hmac_methods_pass:
  "GetVerificationKey ks kid = Some key \<Longrightarrow> key_func ks HS512 (Some kid) = Inr key"
  by (simp add: key_func_def is_hmac_def)

end
