(* ===== verification/Password.thy ===== *)
theory Password
  imports GoText
begin

text \<open>
  \<open>src/internal/adapter/crypto/argon2.go\<close>: password hashes in PHC text. Argon2id itself is
  a package outside the repository: \<open>argon2_fn\<close> is its \<open>IDKey\<close>, None when it panics.
\<close>

record Argon2idParams =
  apMemory :: "32 word"
  apIterations :: "32 word"
  apParallelism :: "8 word"
  apSaltLength :: "32 word"
  apKeyLength :: "32 word"

type_synonym argon2_fn =
  "string \<Rightarrow> byte list \<Rightarrow> 32 word \<Rightarrow> 32 word \<Rightarrow> 8 word \<Rightarrow> 32 word \<Rightarrow> byte list option"

text \<open>A derived key has the length that was asked for.\<close>

definition argon2_sized :: "argon2_fn \<Rightarrow> bool" where
  "argon2_sized idkey = (\<forall>pw salt t m p n h. idkey pw salt t m p n = Some h \<longrightarrow> length h = unat n)"

definition ErrInvalidHash :: go_error where "ErrInvalidHash = Errorf ''invalid hash format''"
definition ErrInvalidVersion :: go_error where "ErrInvalidVersion = Errorf ''invalid argon2 version''"

definition DefaultParams :: Argon2idParams where
  "DefaultParams = \<lparr> apMemory = 65536, apIterations = 1, apParallelism = 4, apSaltLength = 16, apKeyLength = 32 \<rparr>"

definition phc_text :: "32 word \<Rightarrow> 32 word \<Rightarrow> 8 word \<Rightarrow> byte list \<Rightarrow> byte list \<Rightarrow> string" where
  "phc_text m t p salt h = ''$argon2id$v=19$m='' @ nat_text (unat m) @ '',t='' @ nat_text (unat t)
     @ '',p='' @ nat_text (unat p) @ CHR ''$'' # b64_encode salt @ CHR ''$'' # b64_encode h"

text \<open>\<open>rnd n\<close> is what \<open>rand.Read\<close> delivers for \<open>n\<close> bytes.\<close>

definition HashPassword ::
  "argon2_fn \<Rightarrow> (nat \<Rightarrow> byte list result) \<Rightarrow> string \<Rightarrow> Argon2idParams option \<Rightarrow> string result option" where
  "HashPassword idkey rnd password params0 =
     (let params = (case params0 of None \<Rightarrow> DefaultParams | Some p \<Rightarrow> p) in
      case rnd (unat (apSaltLength params)) of
        Inl e \<Rightarrow> Some (Inl e)
      | Inr salt \<Rightarrow> map_option (\<lambda>h. Inr (phc_text (apMemory params) (apIterations params) (apParallelism params) salt h))
          (idkey password salt (apIterations params) (apMemory params) (apParallelism params) (apKeyLength params)))"

text \<open>\<open>fmt.Sscanf(v, "%d", &x)\<close> into an unsigned variable of \<open>w\<close> bits: on an error the
  variable keeps its value, and the code ignores the error.\<close>

definition is_digit :: "char \<Rightarrow> bool" where
  "is_digit c = (let n = of_char c :: nat in 48 \<le> n \<and> n \<le> 57)"

definition is_blank :: "char \<Rightarrow> bool" where
  "is_blank c = (of_char c \<in> set [9, 11, 12, 13, 32 :: nat])"

definition scan_uint :: "nat \<Rightarrow> string \<Rightarrow> nat \<Rightarrow> nat" where
  "scan_uint w v old = (let ds = takeWhile is_digit (dropWhile is_blank v) in
     if ds = [] \<or> digits_value ds \<ge> 2 ^ w then old else digits_value ds)"

fun phc_params :: "string list \<Rightarrow> nat \<times> nat \<times> nat \<Rightarrow> (nat \<times> nat \<times> nat) result" where
  "phc_params [] st = Inr st"
| "phc_params (q # qs) (m, t, p) = (case split_on (CHR ''='') q of
     [k, v] \<Rightarrow> phc_params qs
       (if k = ''m'' then (scan_uint 32 v m, t, p)
        else if k = ''t'' then (m, scan_uint 32 v t, p)
        else if k = ''p'' then (m, t, scan_uint 8 v p)
        else (m, t, p))
   | _ \<Rightarrow> Inl ErrInvalidHash)"

definition decodePHC :: "string \<Rightarrow> (Argon2idParams \<times> byte list \<times> byte list) result" where
  "decodePHC phc =
     (let parts = split_on (CHR ''$'') phc in
      if length parts \<noteq> 6 then Inl ErrInvalidHash
      else if parts ! 1 \<noteq> ''argon2id'' then Inl ErrInvalidHash
      else if parts ! 2 \<noteq> ''v=19'' then Inl ErrInvalidVersion
      else let paramParts = split_on (CHR '','') (parts ! 3) in
        if length paramParts \<noteq> 3 then Inl ErrInvalidHash
        else (case phc_params paramParts (0, 0, 0) of
          Inl e \<Rightarrow> Inl e
        | Inr (m, t, p) \<Rightarrow> (case b64_decode (parts ! 4) of
            None \<Rightarrow> Inl ErrInvalidHash
          | Some salt \<Rightarrow> (case b64_decode (parts ! 5) of
              None \<Rightarrow> Inl ErrInvalidHash
            | Some h \<Rightarrow> Inr (\<lparr> apMemory = word_of_nat m, apIterations = word_of_nat t, apParallelism = word_of_nat p,
                apSaltLength = word_of_nat (length salt), apKeyLength = word_of_nat (length h) \<rparr>, salt, h)))))"

text \<open>None is the panic of \<open>IDKey\<close>, \<open>Some None\<close> a match.\<close>

definition VerifyPassword :: "argon2_fn \<Rightarrow> string \<Rightarrow> string \<Rightarrow> go_error option option" where
  "VerifyPassword idkey password phcHash = (case decodePHC phcHash of
     Inl e \<Rightarrow> Some (Some e)
   | Inr (params, salt, h) \<Rightarrow>
       map_option (\<lambda>computed. if computed = h then None else Some (Errorf ''invalid password''))
         (idkey password salt (apIterations params) (apMemory params) (apParallelism params) (word_of_nat (length h))))"

subsection \<open>Reading back what was written\<close>

lemma is_digit_hex_char: "d < 10 \<Longrightarrow> is_digit (hex_char d)"
proof -
  have "\<forall>d \<in> set [0..<10]. is_digit (hex_char d)" by code_simp
  then show "d < 10 \<Longrightarrow> is_digit (hex_char d)" by simp
qed

lemma digit_not_blank: "is_digit c \<Longrightarrow> \<not> is_blank c"
  by (auto simp: is_digit_def is_blank_def Let_def)

lemma nat_text_all_digits: "c \<in> set (nat_text n) \<Longrightarrow> is_digit c"
  using nat_text_digits[of n] is_digit_hex_char by auto

lemma nat_text_not_Nil: "nat_text n \<noteq> []"
  by (subst nat_text.simps) simp

lemma scan_uint_nat_text: "n < 2 ^ w \<Longrightarrow> scan_uint w (nat_text n) old = n"
proof -
  assume n: "n < 2 ^ w"
  have "dropWhile is_blank (nat_text n) = nat_text n"
    using nat_text_not_Nil[of n] nat_text_all_digits[of "hd (nat_text n)" n] digit_not_blank
    by (cases "nat_text n") auto
  moreover have "takeWhile is_digit (nat_text n) = nat_text n"
    using nat_text_all_digits by (simp add: takeWhile_eq_all_conv)
  ultimately show ?thesis
    using n nat_text_not_Nil[of n] by (simp only: scan_uint_def Let_def digits_value_nat_text) simp
qed

lemma nat_text_no_sep [simp]: "CHR ''$'' \<notin> set (nat_text n)" "CHR '','' \<notin> set (nat_text n)" "CHR ''='' \<notin> set (nat_text n)"
  using nat_text_all_digits by (force simp: is_digit_def Let_def)+

lemma split_phc:
  "split_on (CHR ''$'') (phc_text m t p salt h) =
     [ [], ''argon2id'', ''v=19'', ''m='' @ nat_text (unat m) @ '',t='' @ nat_text (unat t) @ '',p='' @ nat_text (unat p),
       b64_encode salt, b64_encode h]"
proof -
  let ?ps = "''m='' @ nat_text (unat m) @ '',t='' @ nat_text (unat t) @ '',p='' @ nat_text (unat p)"
  have "CHR ''$'' \<notin> set ?ps" by simp
  from split_on_sep[OF this, of "b64_encode salt @ CHR ''$'' # b64_encode h"]
  have "split_on (CHR ''$'') (?ps @ CHR ''$'' # b64_encode salt @ CHR ''$'' # b64_encode h) =
      [?ps, b64_encode salt, b64_encode h]"
    by simp
  then show ?thesis by (simp add: phc_text_def)
qed

lemma split_params:
  "split_on (CHR '','') (''m='' @ nat_text m @ '',t='' @ nat_text t @ '',p='' @ nat_text p) =
     [''m='' @ nat_text m, ''t='' @ nat_text t, ''p='' @ nat_text p]"
  using split_on_sep[of "CHR '',''" "''m='' @ nat_text m" "''t='' @ nat_text t @ '',p='' @ nat_text p"]
    split_on_sep[of "CHR '',''" "''t='' @ nat_text t" "''p='' @ nat_text p"]
  by simp

lemma decodePHC_phc_text:
  "decodePHC (phc_text m t p salt h) = Inr (\<lparr> apMemory = m, apIterations = t, apParallelism = p,
    apSaltLength = word_of_nat (length salt), apKeyLength = word_of_nat (length h) \<rparr>, salt, h)"
proof -
  have w: "unat m < 2 ^ 32" "unat t < 2 ^ 32" "unat p < 2 ^ 8"
    using unsigned_less[of m] unsigned_less[of t] unsigned_less[of p] by simp_all
  have "phc_params [''m='' @ nat_text (unat m), ''t='' @ nat_text (unat t), ''p='' @ nat_text (unat p)] (0, 0, 0) =
      Inr (unat m, unat t, unat p)"
    using w by (simp add: scan_uint_nat_text)
  then show ?thesis by (simp add: decodePHC_def Let_def split_phc split_params)
qed

lemma hash_verifies:
  assumes "argon2_sized idkey" and "HashPassword idkey rnd pw (Some params) = Some (Inr phc)"
  shows "\<exists>salt. rnd (unat (apSaltLength params)) = Inr salt \<and> (\<forall>pw'. VerifyPassword idkey pw' phc =
    map_option (\<lambda>key. if Some key = idkey pw salt (apIterations params) (apMemory params) (apParallelism params) (apKeyLength params)
        then None else Some (Errorf ''invalid password''))
      (idkey pw' salt (apIterations params) (apMemory params) (apParallelism params) (apKeyLength params)))"
proof -
  obtain salt h where s: "rnd (unat (apSaltLength params)) = Inr salt"
    and h: "idkey pw salt (apIterations params) (apMemory params) (apParallelism params) (apKeyLength params) = Some h"
    and phc: "phc = phc_text (apMemory params) (apIterations params) (apParallelism params) salt h"
    using assms(2) by (auto simp: HashPassword_def Let_def split: sum.splits)
  have "length h = unat (apKeyLength params)" using assms(1) h unfolding argon2_sized_def by blast
  then have "word_of_nat (length h) = apKeyLength params" by simp
  then show ?thesis
    using s by (auto simp: VerifyPassword_def phc decodePHC_phc_text h)
qed

text \<open>A password hash verifies the password it was made from, and another password only when
  Argon2id maps both to the same key: the PHC text gives back the parameters, the salt and the key.\<close>

theorem password_hash_verifies:
  assumes "argon2_sized idkey" and "HashPassword idkey rnd pw (Some params) = Some (Inr phc)"
  shows "\<exists>salt. rnd (unat (apSaltLength params)) = Inr salt \<and> (\<forall>pw'. VerifyPassword idkey pw' phc =
    map_option (\<lambda>key. if Some key = idkey pw salt (apIterations params) (apMemory params) (apParallelism params) (apKeyLength params)
        then None else Some (Errorf ''invalid password''))
      (idkey pw' salt (apIterations params) (apMemory params) (apParallelism params) (apKeyLength params)))"
  using assms by (rule hash_verifies)

definition demo_idkey :: argon2_fn where
  "demo_idkey pw salt t m p n = Some (replicate (unat n) (of_nat (length pw)))"

theorem password_hash_verifies_witness:
  "VerifyPassword demo_idkey ''abc'' (phc_text 64 1 4 [7, 9] [3, 3]) = Some None \<and>
   VerifyPassword demo_idkey ''ab'' (phc_text 64 1 4 [7, 9] [3, 3]) \<noteq> Some None"
proof -
  let ?p = "\<lparr> apMemory = 64, apIterations = 1, apParallelism = 4, apSaltLength = 2, apKeyLength = 2 \<rparr> :: Argon2idParams"
  have k: "demo_idkey pw salt t m p 2 = Some [of_nat (length pw), of_nat (length pw)]" for pw salt t m p
  proof -
    have "unat (2 :: 32 word) = Suc (Suc 0)" by (simp add: eval_nat_numeral(3))
    then show ?thesis by (simp only: demo_idkey_def replicate.simps)
  qed
  have "argon2_sized demo_idkey" by (simp add: argon2_sized_def demo_idkey_def)
  moreover have "HashPassword demo_idkey (\<lambda>n. Inr [7, 9]) ''abc'' (Some ?p) = Some (Inr (phc_text 64 1 4 [7, 9] [3, 3]))"
    by (simp add: HashPassword_def k)
  ultimately show ?thesis
    using password_hash_verifies[of demo_idkey "\<lambda>n. Inr [7, 9]" "''abc''" ?p] by (simp add: k)
qed

end
