(* ===== verification/Sessions.thy ===== *)
theory Sessions
  imports Tokens Password
begin

text \<open>
  Users, refresh tokens and the authentication use case: \<open>src/internal/domain/user.go\<close>,
  \<open>domain/refresh_token.go\<close>, \<open>adapter/postgres/user_repository.go\<close>,
  \<open>adapter/postgres/refresh_repository.go\<close> and \<open>usecase/auth/*.go\<close>, over the tables of
  migrations 0002, 0003, 0005 and 0009. The table of refresh tokens has no row-level security;
  the table of users has, and its repository queries the pool.
\<close>

subsection \<open>Parameters and state\<close>

text \<open>Argon2id, SHA-256, the token library, the case folding of \<open>citext\<close>, and
  \<open>netip.ParseAddr\<close> followed by the text of the address.\<close>

record auth_lib =
  auIdkey :: argon2_fn
  auSha256 :: "string \<Rightarrow> byte list"
  auJwt :: jwt_lib
  auFold :: "string \<Rightarrow> string"
  auParseIP :: "string \<Rightarrow> string option"

type_synonym user_status = string

definition UserStatusActive :: user_status where "UserStatusActive = ''active''"
definition UserStatusSuspended :: user_status where "UserStatusSuspended = ''suspended''"
definition UserStatusDeleted :: user_status where "UserStatusDeleted = ''deleted''"

record User =
  usID :: uuid
  usTenantID :: uuid
  usEmail :: string
  usPasswordHash :: string
  usStatus :: user_status
  usCreatedAt :: time
  usUpdatedAt :: time

definition User_IsActive :: "User \<Rightarrow> bool" where
  "User_IsActive u = (usStatus u = UserStatusActive)"

record RefreshToken =
  rtID :: uuid
  rtUserID :: uuid
  rtTenantID :: uuid
  rtTokenHash :: "byte list"
  rtFamilyID :: uuid
  rtRevoked :: bool
  rtExpiresAt :: time
  rtUserAgent :: string
  rtIP :: string
  rtCreatedAt :: time
  rtLastUsedAt :: "time option"
  rtRotatedFrom :: "uuid option"

definition RefreshToken_IsExpired :: "time \<Rightarrow> RefreshToken \<Rightarrow> bool" where
  "RefreshToken_IsExpired now t = (now > rtExpiresAt t)"

definition RefreshToken_IsActive :: "time \<Rightarrow> RefreshToken \<Rightarrow> bool" where
  "RefreshToken_IsActive now t = (\<not> rtRevoked t \<and> \<not> RefreshToken_IsExpired now t)"

record Session =
  snID :: uuid
  snUserID :: uuid
  snCreatedAt :: time
  snLastUsedAt :: "time option"
  snUserAgent :: "string option"
  snIP :: string

text \<open>Rows of \<open>refresh_tokens\<close>: user agent and address may be NULL. Rows of \<open>users\<close> have the
  fields of \<^typ>\<open>User\<close>.\<close>

record token_row =
  trID :: uuid
  trUserID :: uuid
  trTenantID :: uuid
  trTokenHash :: "byte list"
  trFamilyID :: uuid
  trRevoked :: bool
  trExpiresAt :: time
  trUserAgent :: "string option"
  trIP :: "string option"
  trCreatedAt :: time
  trLastUsedAt :: "time option"
  trRotatedFrom :: "uuid option"

record admin_row =
  adID :: uuid
  adEmail :: string
  adPasswordHash :: string

record auth_db =
  dbTenants :: "uuid list"
  dbAdmins :: "admin_row list"
  dbUsers :: "User list"
  dbTokens :: "token_row list"

definition on_users :: "(User list, 'a) db_call \<Rightarrow> (auth_db, 'a) db_call" where
  "on_users f db = (case f (dbUsers db) of (rs, x) \<Rightarrow> (db\<lparr>dbUsers := rs\<rparr>, x))"

definition on_tokens :: "(token_row list, 'a) db_call \<Rightarrow> (auth_db, 'a) db_call" where
  "on_tokens f db = (case f (dbTokens db) of (rs, x) \<Rightarrow> (db\<lparr>dbTokens := rs\<rparr>, x))"

definition foreign_key :: go_error where
  "foreign_key = PgError ''23503'' ''insert violates foreign key constraint''"

definition unique_key :: go_error where
  "unique_key = PgError ''23505'' ''duplicate key value violates unique constraint''"

subsection \<open>The user repository\<close>

definition user_sees :: "pg_env \<Rightarrow> User \<Rightarrow> bool" where
  "user_sees env u = rls_ok env (pgPoolGuc env) (usTenantID u)"

text \<open>\<open>CreateUser\<close>: the status of the argument is not written, the column is set to
  \<open>active\<close>.\<close>

definition SqlCreateUser :: "pg_env \<Rightarrow> uuid list \<Rightarrow> uuid \<Rightarrow> uuid \<Rightarrow> User \<Rightarrow> (User list, User) db_call" where
  "SqlCreateUser env tenants newID tenantID u rs =
     (let row = \<lparr> usID = newID, usTenantID = tenantID, usEmail = usEmail u, usPasswordHash = usPasswordHash u,
            usStatus = UserStatusActive, usCreatedAt = pgNow env, usUpdatedAt = pgNow env \<rparr> in
      if \<not> user_sees env row then (rs, Inl (PgError ''42501'' ''row-level security''))
      else if list_ex (\<lambda>r. usID r = newID \<and> usTenantID r = tenantID) rs then (rs, Inl unique_key)
      else if tenantID \<notin> set tenants then (rs, Inl foreign_key)
      else (rs @ [row], Inr row))"

definition UserRepository_Create :: "pg_env \<Rightarrow> uuid \<Rightarrow> uuid \<Rightarrow> User \<Rightarrow> (auth_db, User) db_call" where
  "UserRepository_Create env newID tenantID u = WithTenant env tenantID (\<lambda>db.
     case on_users (stmt env (SqlCreateUser env (dbTenants db) newID tenantID u)) db of
       (db', Inl e) \<Rightarrow> (db', Inl e)
     | (db', Inr r) \<Rightarrow> (db', Inr (u\<lparr>usID := usID r, usTenantID := usTenantID r, usCreatedAt := usCreatedAt r,
         usUpdatedAt := usUpdatedAt r\<rparr>)))"

text \<open>The two lookups, with \<open>err == sql.ErrNoRows\<close> as the code compares it.\<close>

definition get_user :: "pg_env \<Rightarrow> uuid \<Rightarrow> (User \<Rightarrow> bool) \<Rightarrow> (auth_db, User) db_call" where
  "get_user env tenantID P = WithTenant env tenantID (\<lambda>db.
     case stmt env (\<lambda>db. (db, case List.find (\<lambda>r. user_sees env r \<and> usTenantID r = tenantID \<and> P r) (dbUsers db) of
            None \<Rightarrow> Inl (pgNoRows env) | Some r \<Rightarrow> Inr r)) db of
       (db', Inl e) \<Rightarrow> (db', Inl (if e = SqlErrNoRows then ErrNotFound else e))
     | (db', Inr r) \<Rightarrow> (db', Inr r))"

definition GetByEmail :: "auth_lib \<Rightarrow> pg_env \<Rightarrow> uuid \<Rightarrow> string \<Rightarrow> (auth_db, User) db_call" where
  "GetByEmail L env tenantID email = get_user env tenantID (\<lambda>r. auFold L (usEmail r) = auFold L email)"

definition UserRepository_GetByID :: "pg_env \<Rightarrow> uuid \<Rightarrow> uuid \<Rightarrow> (auth_db, User) db_call" where
  "UserRepository_GetByID env tenantID i = get_user env tenantID (\<lambda>r. usID r = i)"

definition SqlUpdateUser :: "pg_env \<Rightarrow> uuid \<Rightarrow> User \<Rightarrow> (User list, User) db_call" where
  "SqlUpdateUser env tenantID u rs =
     (let Q = (\<lambda>r. user_sees env r \<and> usTenantID r = tenantID \<and> usID r = usID u);
          f = (\<lambda>r. r\<lparr>usEmail := usEmail u, usPasswordHash := usPasswordHash u, usStatus := usStatus u, usUpdatedAt := pgNow env\<rparr>)
      in case List.find Q rs of
           None \<Rightarrow> (rs, Inl (pgNoRows env))
         | Some r \<Rightarrow> if usStatus u \<notin> set [UserStatusActive, UserStatusSuspended, UserStatusDeleted]
             then (rs, Inl (PgError ''23514'' ''users_status_check''))
             else (update_rows Q f rs, Inr (f r)))"

definition UserRepository_Update :: "pg_env \<Rightarrow> uuid \<Rightarrow> User \<Rightarrow> (auth_db, User) db_call" where
  "UserRepository_Update env tenantID u = WithTenant env tenantID (\<lambda>db.
     case on_users (stmt env (SqlUpdateUser env tenantID u)) db of
       (db', Inl e) \<Rightarrow> (db', Inl e)
     | (db', Inr r) \<Rightarrow> (db', Inr (u\<lparr>usUpdatedAt := usUpdatedAt r\<rparr>)))"

definition live_token :: "pg_env \<Rightarrow> uuid \<Rightarrow> uuid \<Rightarrow> token_row \<Rightarrow> bool" where
  "live_token env tenantID userID r = (trUserID r = userID \<and> trTenantID r = tenantID \<and> \<not> trRevoked r \<and> trExpiresAt r > pgNow env)"

definition newest_first :: "token_row list \<Rightarrow> token_row list" where
  "newest_first rs = sort_key (\<lambda>r. - trCreatedAt r) rs"

definition ListSessions :: "pg_env \<Rightarrow> uuid \<Rightarrow> uuid \<Rightarrow> (auth_db, Session list) db_call" where
  "ListSessions env tenantID userID = WithTenant env tenantID (stmt env (\<lambda>db. (db, Inr (map
     (\<lambda>r. \<lparr> snID = trID r, snUserID = trUserID r, snCreatedAt = trCreatedAt r, snLastUsedAt = trLastUsedAt r,
        snUserAgent = trUserAgent r, snIP = (case trIP r of None \<Rightarrow> [] | Some a \<Rightarrow> a) \<rparr>)
     (newest_first (filter (live_token env tenantID userID) (dbTokens db)))))))"

definition revoke_where :: "(token_row \<Rightarrow> bool) \<Rightarrow> (token_row list, unit) db_call" where
  "revoke_where P rs = (update_rows P (\<lambda>r. r\<lparr>trRevoked := True\<rparr>) rs, Inr ())"

definition RevokeAllSessions :: "pg_env \<Rightarrow> uuid \<Rightarrow> uuid \<Rightarrow> (auth_db, unit) db_call" where
  "RevokeAllSessions env tenantID userID = WithTenant env tenantID (on_tokens (stmt env
     (revoke_where (\<lambda>r. trUserID r = userID \<and> trTenantID r = tenantID \<and> \<not> trRevoked r))))"

subsection \<open>The refresh token repository\<close>

definition HashToken :: "auth_lib \<Rightarrow> string \<Rightarrow> byte list" where
  "HashToken L token = auSha256 L token"

definition token_params :: "auth_lib \<Rightarrow> pg_env \<Rightarrow> uuid \<Rightarrow> uuid option \<Rightarrow> RefreshToken \<Rightarrow> token_row" where
  "token_params L env newID rotatedFrom t = \<lparr> trID = newID, trUserID = rtUserID t, trTenantID = rtTenantID t,
     trTokenHash = rtTokenHash t, trFamilyID = rtFamilyID t, trRevoked = False, trExpiresAt = rtExpiresAt t,
     trUserAgent = (if rtUserAgent t \<noteq> [] then Some (rtUserAgent t) else None),
     trIP = (if rtIP t \<noteq> [] then auParseIP L (rtIP t) else None),
     trCreatedAt = pgNow env, trLastUsedAt = None, trRotatedFrom = rotatedFrom \<rparr>"

definition insert_token :: "uuid list \<Rightarrow> token_row \<Rightarrow> (token_row list, token_row) db_call" where
  "insert_token tenants row rs =
     (if list_ex (\<lambda>r. trID r = trID row) rs then (rs, Inl unique_key)
      else if trTenantID row \<notin> set tenants
          \<or> (case trRotatedFrom row of None \<Rightarrow> False | Some p \<Rightarrow> \<not> list_ex (\<lambda>r. trID r = p) rs)
        then (rs, Inl foreign_key)
      else (rs @ [row], Inr row))"

definition Store :: "auth_lib \<Rightarrow> pg_env \<Rightarrow> uuid \<Rightarrow> RefreshToken \<Rightarrow> (auth_db, RefreshToken) db_call" where
  "Store L env newID t db =
     (case on_tokens (stmt env (insert_token (dbTenants db) (token_params L env newID None t))) db of
        (db', Inl e) \<Rightarrow> (db', Inl e)
      | (db', Inr r) \<Rightarrow> (db', Inr (t\<lparr>rtID := trID r, rtCreatedAt := trCreatedAt r\<rparr>)))"

definition row_token :: "token_row \<Rightarrow> RefreshToken" where
  "row_token r = \<lparr> rtID = trID r, rtUserID = trUserID r, rtTenantID = trTenantID r, rtTokenHash = trTokenHash r,
     rtFamilyID = trFamilyID r, rtRevoked = trRevoked r, rtExpiresAt = trExpiresAt r,
     rtUserAgent = (case trUserAgent r of None \<Rightarrow> [] | Some a \<Rightarrow> a), rtIP = (case trIP r of None \<Rightarrow> [] | Some a \<Rightarrow> a),
     rtCreatedAt = trCreatedAt r, rtLastUsedAt = trLastUsedAt r, rtRotatedFrom = trRotatedFrom r \<rparr>"

definition FindByTokenHash :: "pg_env \<Rightarrow> byte list \<Rightarrow> auth_db \<Rightarrow> RefreshToken result" where
  "FindByTokenHash env h db = (case snd (stmt env (\<lambda>db. (db, case List.find (\<lambda>r. trTokenHash r = h) (dbTokens db) of
       None \<Rightarrow> Inl (pgNoRows env) | Some r \<Rightarrow> Inr r)) db) of
     Inl e \<Rightarrow> Inl (if e = SqlErrNoRows then ErrNotFound else e)
   | Inr r \<Rightarrow> Inr (row_token r))"

text \<open>\<open>RotateRefreshToken\<close>: one statement inserts the new token and revokes the old one; both
  parts see the table as it was. Whether the old token is still valid is not asked.\<close>

definition SqlRotateRefreshToken :: "uuid list \<Rightarrow> uuid \<Rightarrow> token_row \<Rightarrow> (token_row list, token_row) db_call" where
  "SqlRotateRefreshToken tenants oldID row rs = (case insert_token tenants row rs of
     (_, Inl e) \<Rightarrow> (rs, Inl e)
   | (_, Inr r) \<Rightarrow> (update_rows (\<lambda>r. trID r = oldID) (\<lambda>r. r\<lparr>trRevoked := True\<rparr>) rs @ [row], Inr r))"

definition Rotate :: "auth_lib \<Rightarrow> pg_env \<Rightarrow> uuid \<Rightarrow> uuid \<Rightarrow> RefreshToken \<Rightarrow> (auth_db, RefreshToken) db_call" where
  "Rotate L env newID oldTokenID t db =
     (case on_tokens (stmt env (SqlRotateRefreshToken (dbTenants db) oldTokenID (token_params L env newID (Some oldTokenID) t))) db of
        (db', Inl e) \<Rightarrow> (db', Inl e)
      | (db', Inr r) \<Rightarrow> (db', Inr (t\<lparr>rtID := trID r, rtCreatedAt := trCreatedAt r\<rparr>)))"

definition Revoke :: "pg_env \<Rightarrow> uuid \<Rightarrow> (auth_db, unit) db_call" where
  "Revoke env tokenID = on_tokens (stmt env (revoke_where (\<lambda>r. trID r = tokenID)))"

definition RevokeFamily :: "pg_env \<Rightarrow> uuid \<Rightarrow> (auth_db, unit) db_call" where
  "RevokeFamily env familyID = on_tokens (stmt env (revoke_where (\<lambda>r. trFamilyID r = familyID \<and> \<not> trRevoked r)))"

definition ListActiveTokens :: "pg_env \<Rightarrow> uuid \<Rightarrow> uuid \<Rightarrow> auth_db \<Rightarrow> RefreshToken list result" where
  "ListActiveTokens env tenantID userID db = snd (stmt env (\<lambda>db. (db, Inr (map row_token
     (newest_first (filter (live_token env tenantID userID) (dbTokens db)))))) db)"

definition UpdateLastUsed :: "pg_env \<Rightarrow> uuid \<Rightarrow> (auth_db, unit) db_call" where
  "UpdateLastUsed env tokenID = on_tokens (stmt env (\<lambda>rs.
     (update_rows (\<lambda>r. trID r = tokenID) (\<lambda>r. r\<lparr>trLastUsedAt := Some (pgNow env)\<rparr>) rs, Inr ())))"

subsection \<open>The use case\<close>

text \<open>What one call meets: the server of the user queries and of the token queries, the clock,
  and the random bytes and ids drawn.\<close>

record auth_env =
  xeUser :: pg_env
  xeToken :: pg_env
  xeNow :: time
  xeTokenBytes :: "byte list"
  xeFamilyBytes :: "byte list"
  xeSalt :: "nat \<Rightarrow> byte list result"
  xeNewID :: uuid

text \<open>The second component of a call is None when \<open>argon2.IDKey\<close> panics.\<close>

type_synonym 'a auth_call = "auth_db \<Rightarrow> auth_db \<times> 'a result option"

record LoginRequest =
  lqEmail :: string
  lqPassword :: string
  lqTenantID :: uuid
  lqUserAgent :: string
  lqIP :: string

record LoginResponse =
  lpAccessToken :: string
  lpRefreshToken :: string
  lpExpiresIn :: int

definition generateOpaqueToken :: "byte list \<Rightarrow> string" where
  "generateOpaqueToken rnd = hex_encode rnd"

definition new_token :: "auth_lib \<Rightarrow> auth_env \<Rightarrow> User \<Rightarrow> uuid \<Rightarrow> uuid \<Rightarrow> string \<Rightarrow> string \<Rightarrow> RefreshToken" where
  "new_token L e u tenantID familyID agent ip = \<lparr> rtID = zero_uuid, rtUserID = usID u, rtTenantID = tenantID,
     rtTokenHash = HashToken L (generateOpaqueToken (xeTokenBytes e)), rtFamilyID = familyID, rtRevoked = False,
     rtExpiresAt = xeNow e + refresh_ttl, rtUserAgent = agent, rtIP = ip, rtCreatedAt = 0, rtLastUsedAt = None,
     rtRotatedFrom = None \<rparr>"

definition session_claims :: "User \<Rightarrow> uuid \<Rightarrow> Claims" where
  "session_claims u tenantID = user_claims (UUID_String (usID u)) (UUID_String tenantID) ''admin'' [''*'']"

text \<open>Whom a login admits.\<close>

definition login_user :: "auth_lib \<Rightarrow> auth_env \<Rightarrow> LoginRequest \<Rightarrow> auth_db \<Rightarrow> User result option" where
  "login_user L e req db = (case snd (GetByEmail L (xeUser e) (lqTenantID req) (lqEmail req) db) of
     Inl _ \<Rightarrow> Some (Inl ErrInvalidCredentials)
   | Inr u \<Rightarrow> (case VerifyPassword (auIdkey L) (lqPassword req) (usPasswordHash u) of
       None \<Rightarrow> None
     | Some (Some _) \<Rightarrow> Some (Inl ErrInvalidCredentials)
     | Some None \<Rightarrow> if \<not> User_IsActive u then Some (Inl ErrForbidden) else Some (Inr u)))"

definition Login :: "auth_lib \<Rightarrow> AuthService \<Rightarrow> auth_env \<Rightarrow> LoginRequest \<Rightarrow> LoginResponse auth_call" where
  "Login L s e req db = (case login_user L e req db of
     None \<Rightarrow> (db, None)
   | Some (Inl err) \<Rightarrow> (db, Some (Inl err))
   | Some (Inr u) \<Rightarrow> (case IssueAccessToken (auJwt L) s (xeNow e) (session_claims u (lqTenantID req)) of
       Inl err \<Rightarrow> (db, Some (Inl err))
     | Inr accessToken \<Rightarrow>
         (case Store L (xeToken e) (xeNewID e)
              (new_token L e u (lqTenantID req) (NewUUID (xeFamilyBytes e)) (lqUserAgent req) (lqIP req)) db of
            (db', Inl err) \<Rightarrow> (db', Some (Inl err))
          | (db', Inr _) \<Rightarrow> (db', Some (Inr \<lparr> lpAccessToken = accessToken,
              lpRefreshToken = generateOpaqueToken (xeTokenBytes e), lpExpiresIn = 900 \<rparr>)))))"

record RefreshRequest =
  rfRefreshToken :: string
  rfUserAgent :: string
  rfIP :: string

text \<open>\<open>Refresh\<close> in two parts: up to the point where a new token will be issued, and the
  issuing. Other calls may run between the two.\<close>

definition refresh_check :: "auth_lib \<Rightarrow> auth_env \<Rightarrow> RefreshRequest \<Rightarrow> (auth_db, RefreshToken \<times> User) db_call" where
  "refresh_check L e req db = (case FindByTokenHash (xeToken e) (HashToken L (rfRefreshToken req)) db of
     Inl _ \<Rightarrow> (db, Inl ErrInvalidToken)
   | Inr stored \<Rightarrow>
       if rtRevoked stored then
         (case RevokeFamily (xeToken e) (rtFamilyID stored) db of
            (db', Inl err) \<Rightarrow> (db', Inl err)
          | (db', Inr _) \<Rightarrow> (db', Inl ErrReplayDetected))
       else if RefreshToken_IsExpired (xeNow e) stored then (db, Inl ErrExpired)
       else (case snd (UserRepository_GetByID (xeUser e) (rtTenantID stored) (rtUserID stored) db) of
         Inl _ \<Rightarrow> (db, Inl ErrInvalidToken)
       | Inr u \<Rightarrow> if \<not> User_IsActive u then (db, Inl ErrForbidden) else (db, Inr (stored, u))))"

definition refresh_issue ::
  "auth_lib \<Rightarrow> AuthService \<Rightarrow> auth_env \<Rightarrow> RefreshRequest \<Rightarrow> RefreshToken \<Rightarrow> User \<Rightarrow> (auth_db, LoginResponse) db_call" where
  "refresh_issue L s e req stored u db =
     (case IssueAccessToken (auJwt L) s (xeNow e) (session_claims u (rtTenantID stored)) of
        Inl err \<Rightarrow> (db, Inl err)
      | Inr accessToken \<Rightarrow>
          (case Rotate L (xeToken e) (xeNewID e) (rtID stored)
               (new_token L e u (rtTenantID stored) (rtFamilyID stored) (rfUserAgent req) (rfIP req)) db of
             (db', Inl err) \<Rightarrow> (db', Inl err)
           | (db', Inr _) \<Rightarrow> (db', Inr \<lparr> lpAccessToken = accessToken,
               lpRefreshToken = generateOpaqueToken (xeTokenBytes e), lpExpiresIn = 900 \<rparr>)))"

definition Refresh :: "auth_lib \<Rightarrow> AuthService \<Rightarrow> auth_env \<Rightarrow> RefreshRequest \<Rightarrow> (auth_db, LoginResponse) db_call" where
  "Refresh L s e req db = (case refresh_check L e req db of
     (db', Inl err) \<Rightarrow> (db', Inl err)
   | (db', Inr (stored, u)) \<Rightarrow> refresh_issue L s e req stored u db')"

record LogoutRequest =
  loRefreshToken :: string
  loRevokeAll :: bool

definition Logout :: "auth_lib \<Rightarrow> auth_env \<Rightarrow> LogoutRequest \<Rightarrow> (auth_db, unit) db_call" where
  "Logout L e req db = (case FindByTokenHash (xeToken e) (HashToken L (loRefreshToken req)) db of
     Inl _ \<Rightarrow> (db, Inl ErrInvalidToken)
   | Inr stored \<Rightarrow> if loRevokeAll req then RevokeFamily (xeToken e) (rtFamilyID stored) db
       else Revoke (xeToken e) (rtID stored) db)"

record RegisterRequest =
  rgEmail :: string
  rgPassword :: string
  rgTenantID :: uuid
  rgRole :: string

text \<open>The requested role is read and not used.\<close>

definition AuthUseCase_Register :: "auth_lib \<Rightarrow> auth_env \<Rightarrow> RegisterRequest \<Rightarrow> User auth_call" where
  "AuthUseCase_Register L e req db =
     (if \<not> isl (snd (GetByEmail L (xeUser e) (rgTenantID req) (rgEmail req) db)) then (db, Some (Inl ErrConflict))
      else case HashPassword (auIdkey L) (xeSalt e) (rgPassword req) (Some DefaultParams) of
        None \<Rightarrow> (db, None)
      | Some (Inl err) \<Rightarrow> (db, Some (Inl err))
      | Some (Inr passwordHash) \<Rightarrow> apsnd Some (UserRepository_Create (xeUser e) (xeNewID e) (rgTenantID req)
          \<lparr> usID = zero_uuid, usTenantID = rgTenantID req, usEmail = rgEmail req, usPasswordHash = passwordHash,
            usStatus = UserStatusActive, usCreatedAt = 0, usUpdatedAt = 0 \<rparr> db))"

text \<open>The super admin's refresh token is handed out and stored nowhere.\<close>

definition SuperAdminLogin :: "auth_lib \<Rightarrow> AuthService \<Rightarrow> auth_env \<Rightarrow> string \<Rightarrow> string \<Rightarrow> LoginResponse auth_call" where
  "SuperAdminLogin L s e email password db =
     (case snd (stmt (xeUser e) (\<lambda>db. (db, case List.find (\<lambda>r. auFold L (adEmail r) = auFold L email) (dbAdmins db) of
          None \<Rightarrow> Inl (pgNoRows (xeUser e)) | Some r \<Rightarrow> Inr r)) db) of
        Inl _ \<Rightarrow> (db, Some (Inl ErrInvalidCredentials))
      | Inr a \<Rightarrow> (case VerifyPassword (auIdkey L) password (adPasswordHash a) of
          None \<Rightarrow> (db, None)
        | Some (Some _) \<Rightarrow> (db, Some (Inl ErrInvalidCredentials))
        | Some None \<Rightarrow> (case IssueSuperAdminToken (auJwt L) s (xeNow e) (adID a) of
            Inl err \<Rightarrow> (db, Some (Inl err))
          | Inr accessToken \<Rightarrow>
              (case IssueRefreshToken (auSha256 L) (xeNow e) (Inr (xeTokenBytes e)) (xeFamilyBytes e) (adID a) of
                 Inl err \<Rightarrow> (db, Some (Inl err))
               | Inr (token, _, _, _) \<Rightarrow> (db, Some (Inr \<lparr> lpAccessToken = accessToken, lpRefreshToken = token,
                   lpExpiresIn = 900 \<rparr>))))))"

subsection \<open>Runs\<close>

datatype auth_op =
    OpLogin LoginRequest
  | OpRefresh RefreshRequest
  | OpLogout LogoutRequest
  | OpRegister RegisterRequest
  | OpRevokeAll uuid uuid
  | OpSuperAdmin string string

fun auth_exec :: "auth_lib \<Rightarrow> AuthService \<Rightarrow> auth_env \<times> auth_op \<Rightarrow> auth_db \<Rightarrow> auth_db" where
  "auth_exec L s (e, OpLogin req) db = fst (Login L s e req db)"
| "auth_exec L s (e, OpRefresh req) db = fst (Refresh L s e req db)"
| "auth_exec L s (e, OpLogout req) db = fst (Logout L e req db)"
| "auth_exec L s (e, OpRegister req) db = fst (AuthUseCase_Register L e req db)"
| "auth_exec L s (e, OpRevokeAll t u) db = fst (RevokeAllSessions (xeToken e) t u db)"
| "auth_exec L s (e, OpSuperAdmin email pw) db = fst (SuperAdminLogin L s e email pw db)"

definition auth_run :: "auth_lib \<Rightarrow> AuthService \<Rightarrow> (auth_env \<times> auth_op) list \<Rightarrow> auth_db \<Rightarrow> auth_db" where
  "auth_run L s ops db = fold (auth_exec L s) ops db"

subsection \<open>How the token table evolves\<close>

text \<open>A row keeps everything but its revocation, which is final; a new row belongs to the family
  drawn for the call or to one that still has a valid token.\<close>

definition ages :: "token_row \<Rightarrow> token_row \<Rightarrow> bool" where
  "ages r r' = (r' = r\<lparr>trRevoked := trRevoked r'\<rparr> \<and> (trRevoked r \<longrightarrow> trRevoked r'))"

definition table_step :: "uuid \<Rightarrow> token_row list \<Rightarrow> token_row list \<Rightarrow> bool" where
  "table_step fam rs rs' = (\<exists>old new. rs' = old @ new \<and> list_all2 ages rs old \<and>
     (\<forall>n \<in> set new. trFamilyID n = fam \<or> (\<exists>r \<in> set rs. trFamilyID r = trFamilyID n \<and> \<not> trRevoked r)))"

lemma ages_refl [simp]: "ages r r"
  by (cases r) (simp add: ages_def)

lemma table_step_refl [simp]: "table_step fam rs rs"
  unfolding table_step_def by (intro exI[of _ rs] exI[of _ "[]"]) (simp add: list_all2_refl)

lemma table_step_revoke: "table_step fam rs (update_rows P (\<lambda>r. r\<lparr>trRevoked := True\<rparr>) rs)"
  unfolding table_step_def update_rows_def
  by (intro exI[of _ "map (\<lambda>r. if P r then r\<lparr>trRevoked := True\<rparr> else r) rs"] exI[of _ "[]"])
    (auto simp: list_all2_map2 ages_def intro!: list_all2_refl)

lemma table_step_append:
  "trFamilyID n = fam \<or> (\<exists>r \<in> set rs. trFamilyID r = trFamilyID n \<and> \<not> trRevoked r) \<Longrightarrow>
   table_step fam rs (update_rows P (\<lambda>r. r\<lparr>trRevoked := True\<rparr>) rs @ [n])"
  unfolding table_step_def update_rows_def
  by (intro exI[of _ "map (\<lambda>r. if P r then r\<lparr>trRevoked := True\<rparr> else r) rs"] exI[of _ "[n]"])
    (auto simp: list_all2_map2 ages_def intro!: list_all2_refl)

text \<open>The first row of a hash stays the first, and its revocation stays.\<close>

definition spent :: "byte list \<Rightarrow> uuid \<Rightarrow> token_row list \<Rightarrow> bool" where
  "spent h f rs = (\<exists>r. List.find (\<lambda>r. trTokenHash r = h) rs = Some r \<and> trRevoked r \<and> trFamilyID r = f)"

definition family_dead :: "uuid \<Rightarrow> token_row list \<Rightarrow> bool" where
  "family_dead f rs = (\<forall>r \<in> set rs. trFamilyID r = f \<longrightarrow> trRevoked r)"

lemma ages_sel:
  assumes "ages r r'"
  shows "trTokenHash r' = trTokenHash r \<and> trFamilyID r' = trFamilyID r \<and> (trRevoked r \<longrightarrow> trRevoked r')"
proof -
  have "r' = r\<lparr>trRevoked := trRevoked r'\<rparr>" "trRevoked r \<longrightarrow> trRevoked r'" using assms by (simp_all add: ages_def)
  then show ?thesis by (metis token_row.select_convs(4,5) token_row.surjective token_row.update_convs(6))
qed

lemma find_ages:
  assumes "list_all2 ages rs old" and "List.find (\<lambda>r. trTokenHash r = h) rs = Some r"
  shows "\<exists>r'. List.find (\<lambda>r. trTokenHash r = h) old = Some r' \<and> ages r r'"
  using assms
proof (induction rule: list_all2_induct)
  case (Cons x xs y ys)
  have "trTokenHash y = trTokenHash x" using ages_sel[OF Cons.hyps(1)] by simp
  then show ?case using Cons by (auto split: if_splits)
qed simp

lemma spent_step: "spent h f rs \<Longrightarrow> table_step fam rs rs' \<Longrightarrow> spent h f rs'"
proof -
  assume "spent h f rs" and "table_step fam rs rs'"
  then obtain r old new where r: "List.find (\<lambda>r. trTokenHash r = h) rs = Some r" "trRevoked r" "trFamilyID r = f"
    and rs': "rs' = old @ new" "list_all2 ages rs old"
    unfolding spent_def table_step_def by blast
  obtain r' where "List.find (\<lambda>r. trTokenHash r = h) old = Some r'" "ages r r'"
    using find_ages[OF rs'(2) r(1)] by blast
  then show ?thesis using ages_sel[of r r'] r rs'(1) by (simp add: spent_def)
qed

lemma all2_source: "list_all2 P xs ys \<Longrightarrow> y \<in> set ys \<Longrightarrow> \<exists>x \<in> set xs. P x y"
  by (induction rule: list_all2_induct) auto

lemma family_dead_step:
  assumes "family_dead f rs" and "table_step fam rs rs'" and "fam \<noteq> f"
  shows "family_dead f rs'"
proof -
  obtain old new where rs': "rs' = old @ new" and a: "list_all2 ages rs old"
    and n: "\<forall>n \<in> set new. trFamilyID n = fam \<or> (\<exists>r \<in> set rs. trFamilyID r = trFamilyID n \<and> \<not> trRevoked r)"
    using assms(2) unfolding table_step_def by blast
  have "trRevoked r" if r: "r \<in> set old" "trFamilyID r = f" for r
  proof -
    obtain r0 where "r0 \<in> set rs" "ages r0 r" using all2_source[OF a r(1)] by blast
    then show ?thesis using ages_sel[of r0 r] assms(1) r(2) by (auto simp: family_dead_def)
  qed
  moreover have "trFamilyID r \<noteq> f" if "r \<in> set new" for r
    using bspec[OF n that] assms(1,3) by (auto simp: family_dead_def)
  ultimately show ?thesis unfolding rs' family_dead_def by auto
qed

lemma on_tokens_sel:
  "dbTokens (fst (on_tokens f db)) = fst (f (dbTokens db))" "dbUsers (fst (on_tokens f db)) = dbUsers db"
  "snd (on_tokens f db) = snd (f (dbTokens db))"
  by (simp_all add: on_tokens_def split: prod.split)

lemma on_tokens_step:
  "table_step fam (dbTokens db) (fst (f (dbTokens db))) \<Longrightarrow>
   table_step fam (dbTokens db) (dbTokens (fst (on_tokens (stmt env f) db)))"
  using stmt_db_cases[of env f "dbTokens db"] by (auto simp: on_tokens_sel)

lemma table_step_insert:
  assumes "trFamilyID n = fam \<or> (\<exists>r \<in> set rs. trFamilyID r = trFamilyID n \<and> \<not> trRevoked r)"
  shows "table_step fam rs (fst (insert_token tenants n rs))" and "table_step fam rs (fst (SqlRotateRefreshToken tenants old n rs))"
proof -
  have "update_rows (\<lambda>_. False) (\<lambda>r. r\<lparr>trRevoked := True\<rparr>) rs = rs" by (simp add: update_rows_def)
  then have "table_step fam rs (rs @ [n])" using table_step_append[OF assms, of "\<lambda>_. False"] by simp
  then show "table_step fam rs (fst (insert_token tenants n rs))" by (simp add: insert_token_def)
  show "table_step fam rs (fst (SqlRotateRefreshToken tenants old n rs))"
    using table_step_append[OF assms] by (simp add: SqlRotateRefreshToken_def split: prod.split sum.split)
qed

lemma Store_step: "rtFamilyID t = fam \<Longrightarrow> table_step fam (dbTokens db) (dbTokens (fst (Store L env i t db)))"
  unfolding Store_def fst_case_result by (intro on_tokens_step table_step_insert) (simp add: token_params_def)

lemma Rotate_step:
  "\<exists>r \<in> set (dbTokens db). trFamilyID r = rtFamilyID t \<and> \<not> trRevoked r \<Longrightarrow>
   table_step fam (dbTokens db) (dbTokens (fst (Rotate L env i old t db)))"
  unfolding Rotate_def fst_case_result by (intro on_tokens_step table_step_insert) (simp add: token_params_def)

lemma revoke_step: "table_step fam (dbTokens db) (dbTokens (fst (on_tokens (stmt env (revoke_where P)) db)))"
  by (intro on_tokens_step) (simp add: revoke_where_def table_step_revoke)

lemma FindByTokenHash_InrD:
  "FindByTokenHash env h db = Inr t \<Longrightarrow> \<exists>r. List.find (\<lambda>r. trTokenHash r = h) (dbTokens db) = Some r \<and> t = row_token r"
  by (auto simp: FindByTokenHash_def stmt_def split: option.splits sum.splits)

lemma row_token_sel [simp]:
  "rtRevoked (row_token r) = trRevoked r" "rtFamilyID (row_token r) = trFamilyID r" "rtID (row_token r) = trID r"
  "rtTenantID (row_token r) = trTenantID r" "rtUserID (row_token r) = trUserID r" "rtTokenHash (row_token r) = trTokenHash r"
  by (simp_all add: row_token_def)

lemma new_token_sel [simp]: "rtFamilyID (new_token L e u t f a i) = f"
  by (simp add: new_token_def)

lemma refresh_check_InrD:
  assumes "refresh_check L e req db = (db', Inr (stored, u))"
  shows "db' = db" and "\<exists>r. List.find (\<lambda>r. trTokenHash r = HashToken L (rfRefreshToken req)) (dbTokens db) = Some r
      \<and> stored = row_token r \<and> \<not> trRevoked r"
    and "snd (UserRepository_GetByID (xeUser e) (rtTenantID stored) (rtUserID stored) db) = Inr u" and "User_IsActive u"
    and "\<not> RefreshToken_IsExpired (xeNow e) stored"
proof -
  obtain t where t: "FindByTokenHash (xeToken e) (HashToken L (rfRefreshToken req)) db = Inr t" "\<not> rtRevoked t"
    using assms by (auto simp: refresh_check_def split: sum.splits if_splits prod.splits)
  then have c: "\<not> RefreshToken_IsExpired (xeNow e) t" "db' = db" "stored = t" "User_IsActive u"
    "snd (UserRepository_GetByID (xeUser e) (rtTenantID t) (rtUserID t) db) = Inr u"
    using assms by (auto simp: refresh_check_def split: sum.splits if_splits)
  then show "db' = db" "snd (UserRepository_GetByID (xeUser e) (rtTenantID stored) (rtUserID stored) db) = Inr u"
    "User_IsActive u" "\<not> RefreshToken_IsExpired (xeNow e) stored" by simp_all
  show "\<exists>r. List.find (\<lambda>r. trTokenHash r = HashToken L (rfRefreshToken req)) (dbTokens db) = Some r
      \<and> stored = row_token r \<and> \<not> trRevoked r"
    using FindByTokenHash_InrD[OF t(1)] t(2) c(3) by auto
qed

lemma refresh_check_step: "table_step fam (dbTokens db) (dbTokens (fst (refresh_check L e req db)))"
proof (cases "FindByTokenHash (xeToken e) (HashToken L (rfRefreshToken req)) db")
  case (Inr t)
  have "fst (refresh_check L e req db) = db \<or> fst (refresh_check L e req db) = fst (RevokeFamily (xeToken e) (rtFamilyID t) db)"
    by (simp add: refresh_check_def Inr split: sum.split prod.split)
  then show ?thesis using revoke_step[of fam db "xeToken e"] by (auto simp: RevokeFamily_def)
qed (simp add: refresh_check_def)

lemma refresh_issue_step:
  assumes "\<exists>r \<in> set (dbTokens db). trFamilyID r = rtFamilyID stored \<and> \<not> trRevoked r"
  shows "table_step fam (dbTokens db) (dbTokens (fst (refresh_issue L s e req stored u db)))"
  using Rotate_step[of db "new_token L e u (rtTenantID stored) (rtFamilyID stored) (rfUserAgent req) (rfIP req)"] assms
  by (simp add: refresh_issue_def fst_case_result split: sum.split)

lemma Refresh_step: "table_step fam (dbTokens db) (dbTokens (fst (Refresh L s e req db)))"
proof -
  obtain db' x where c: "refresh_check L e req db = (db', x)" by fastforce
  show ?thesis
  proof (cases x)
    case (Inl err)
    then show ?thesis using refresh_check_step[of fam db L e req] by (simp add: Refresh_def c)
  next
    case (Inr su)
    then obtain stored u where "refresh_check L e req db = (db', Inr (stored, u))" using c by (cases su) simp
    note d = this refresh_check_InrD[OF this]
    from d(3) have "\<exists>r \<in> set (dbTokens db). trFamilyID r = rtFamilyID stored \<and> \<not> trRevoked r"
      by (auto dest: find_SomeD)
    from refresh_issue_step[OF this] show ?thesis using d(1,2) by (simp add: Refresh_def)
  qed
qed

lemma Login_step: "table_step (NewUUID (xeFamilyBytes e)) (dbTokens db) (dbTokens (fst (Login L s e req db)))"
proof -
  let ?st = "\<lambda>u. Store L (xeToken e) (xeNewID e)
      (new_token L e u (lqTenantID req) (NewUUID (xeFamilyBytes e)) (lqUserAgent req) (lqIP req)) db"
  have "fst (Login L s e req db) = db \<or> (\<exists>u. fst (Login L s e req db) = fst (?st u))"
    by (simp add: Login_def fst_case_result split: option.split sum.split) blast
  then show ?thesis using Store_step[OF new_token_sel] by (metis table_step_refl)
qed

lemma Logout_step: "table_step fam (dbTokens db) (dbTokens (fst (Logout L e req db)))"
  using revoke_step[of fam db "xeToken e"] by (simp add: Logout_def RevokeFamily_def Revoke_def split: sum.split)

lemma Register_tokens: "dbTokens (fst (AuthUseCase_Register L e req db)) = dbTokens db"
proof -
  have "dbTokens (fst (UserRepository_Create env i t u db)) = dbTokens db" for env i t u
    by (simp add: UserRepository_Create_def fst_WithTenant fst_case_result on_users_def split: prod.split)
  then show ?thesis by (auto simp: AuthUseCase_Register_def split: option.split sum.split)
qed

lemma RevokeAll_step: "table_step fam (dbTokens db) (dbTokens (fst (RevokeAllSessions env t u db)))"
  using revoke_step[of fam db env] by (simp add: RevokeAllSessions_def fst_WithTenant)

lemma SuperAdmin_db: "fst (SuperAdminLogin L s e email pw db) = db"
  by (simp add: SuperAdminLogin_def split: sum.split option.split prod.split)

lemma exec_step:
  "table_step (NewUUID (xeFamilyBytes (fst eop))) (dbTokens db) (dbTokens (auth_exec L s eop db))"
proof -
  obtain e op where eop: "eop = (e, op)" by fastforce
  show ?thesis unfolding eop
    by (cases op) (simp_all add: Login_step Refresh_step Logout_step Register_tokens RevokeAll_step SuperAdmin_db)
qed

lemma run_spent: "spent h f (dbTokens db) \<Longrightarrow> spent h f (dbTokens (auth_run L s ops db))"
  by (induction ops arbitrary: db) (simp_all add: auth_run_def spent_step[OF _ exec_step])

lemma run_dead:
  "family_dead f (dbTokens db) \<Longrightarrow> \<forall>eop \<in> set ops. NewUUID (xeFamilyBytes (fst eop)) \<noteq> f \<Longrightarrow>
   family_dead f (dbTokens (auth_run L s ops db))"
proof (induction ops arbitrary: db)
  case (Cons eop ops)
  then show ?case using family_dead_step[OF Cons.prems(1) exec_step] by (simp add: auth_run_def)
qed (simp add: auth_run_def)

text \<open>A successful refresh spends its token.\<close>

lemma Refresh_InrD:
  assumes "Refresh L s e req db = (db', Inr resp)"
  shows "\<exists>stored u. refresh_check L e req db = (db, Inr (stored, u)) \<and> refresh_issue L s e req stored u db = (db', Inr resp)"
proof -
  obtain d x where c: "refresh_check L e req db = (d, x)" by fastforce
  then obtain stored u where x: "x = Inr (stored, u)" using assms by (cases x) (auto simp: Refresh_def)
  then show ?thesis using assms c refresh_check_InrD(1)[of L e req db d stored u] by (auto simp: Refresh_def)
qed

lemma Rotate_InrD:
  assumes "Rotate L env i old t db = (db', Inr t')"
  shows "dbTokens db' = update_rows (\<lambda>r. trID r = old) (\<lambda>r. r\<lparr>trRevoked := True\<rparr>) (dbTokens db) @ [token_params L env i (Some old) t]"
proof -
  obtain rs x where q: "stmt env (SqlRotateRefreshToken (dbTenants db) old (token_params L env i (Some old) t)) (dbTokens db) = (rs, x)"
    by fastforce
  then obtain r where x: "x = Inr r" and db': "db' = db\<lparr>dbTokens := rs\<rparr>"
    using assms by (cases x) (auto simp: Rotate_def on_tokens_def)
  have "SqlRotateRefreshToken (dbTenants db) old (token_params L env i (Some old) t) (dbTokens db) = (rs, Inr r)"
    using q x by (auto simp: stmt_def split: option.splits)
  then show ?thesis using db' by (auto simp: SqlRotateRefreshToken_def split: prod.splits sum.splits)
qed

lemma find_revoked_id:
  assumes "List.find P rs = Some r" and "\<And>r. P (r\<lparr>trRevoked := True\<rparr>) = P r"
  shows "List.find P (update_rows (\<lambda>x. trID x = trID r) (\<lambda>r. r\<lparr>trRevoked := True\<rparr>) rs) = Some (r\<lparr>trRevoked := True\<rparr>)"
  using assms(1) by (induction rs) (auto simp: assms(2) split: if_splits)

lemma Refresh_spends:
  assumes "Refresh L s e req db = (db', Inr resp)" and "List.find (\<lambda>r. trTokenHash r = HashToken L (rfRefreshToken req)) (dbTokens db) = Some r"
  shows "spent (HashToken L (rfRefreshToken req)) (trFamilyID r) (dbTokens db')"
proof -
  obtain stored u where c: "refresh_check L e req db = (db, Inr (stored, u))" and i: "refresh_issue L s e req stored u db = (db', Inr resp)"
    using Refresh_InrD[OF assms(1)] by blast
  have st: "stored = row_token r" using refresh_check_InrD(2)[OF c] assms(2) by auto
  obtain t t' where "Rotate L (xeToken e) (xeNewID e) (rtID stored) t db = (db', Inr t')"
    using i by (auto simp: refresh_issue_def split: sum.splits prod.splits)
  from Rotate_InrD[OF this] show ?thesis
    using find_revoked_id[OF assms(2)] st by (simp add: spent_def)
qed

subsection \<open>Properties\<close>

lemma family_dead_refuses:
  assumes "family_dead f (dbTokens db)" and "snd (Refresh L s e q db) = Inr resp"
  shows "\<exists>r. List.find (\<lambda>r. trTokenHash r = HashToken L (rfRefreshToken q)) (dbTokens db) = Some r \<and> trFamilyID r \<noteq> f"
proof -
  obtain db' where "Refresh L s e q db = (db', Inr resp)" using assms(2) by (cases "Refresh L s e q db") simp
  then obtain stored u where "refresh_check L e q db = (db, Inr (stored, u))" using Refresh_InrD by blast
  from refresh_check_InrD(2)[OF this] show ?thesis using assms(1) by (auto simp: family_dead_def dest: find_SomeD)
qed

lemma replay_refused:
  assumes "spent (HashToken L (rfRefreshToken req)) f (dbTokens db)" and "calm (xeToken e)"
  shows "snd (Refresh L s e req db) = Inl ErrReplayDetected" and "family_dead f (dbTokens (fst (Refresh L s e req db)))"
proof -
  obtain r where r: "List.find (\<lambda>r. trTokenHash r = HashToken L (rfRefreshToken req)) (dbTokens db) = Some r" "trRevoked r" "trFamilyID r = f"
    using assms(1) by (auto simp: spent_def)
  have "FindByTokenHash (xeToken e) (HashToken L (rfRefreshToken req)) db = Inr (row_token r)"
    using r(1) assms(2) by (simp add: FindByTokenHash_def stmt_calm)
  then have "Refresh L s e req db = (fst (RevokeFamily (xeToken e) f db), Inl ErrReplayDetected)"
    using r(2,3) assms(2) by (simp add: Refresh_def refresh_check_def RevokeFamily_def on_tokens_def stmt_calm revoke_where_def)
  note ref = this
  then show "snd (Refresh L s e req db) = Inl ErrReplayDetected" by simp
  have "dbTokens (fst (RevokeFamily (xeToken e) f db)) =
      update_rows (\<lambda>r. trFamilyID r = f \<and> \<not> trRevoked r) (\<lambda>r. r\<lparr>trRevoked := True\<rparr>) (dbTokens db)"
    using assms(2) by (simp add: RevokeFamily_def on_tokens_sel stmt_calm revoke_where_def)
  moreover have "family_dead f (update_rows (\<lambda>r. trFamilyID r = f \<and> \<not> trRevoked r) (\<lambda>r. r\<lparr>trRevoked := True\<rparr>) rs)" for rs
    by (induction rs) (auto simp: family_dead_def)
  ultimately show "family_dead f (dbTokens (fst (Refresh L s e req db)))" by (simp add: ref)
qed


definition demo_auth_lib :: auth_lib where
  "demo_auth_lib = \<lparr> auIdkey = demo_idkey, auSha256 = map of_char, auJwt = demo_jwt, auFold = (\<lambda>s. s), auParseIP = (\<lambda>s. None) \<rparr>"

definition demo_auth_env :: "byte \<Rightarrow> auth_env" where
  "demo_auth_env i = \<lparr> xeUser = quiet_env\<lparr>pgPoolGuc := Some zero_uuid\<rparr>, xeToken = quiet_env, xeNow = 0, xeTokenBytes = [i],
     xeFamilyBytes = replicate 16 i, xeSalt = (\<lambda>n. Inr []), xeNewID = [i] \<rparr>"

definition demo_user :: User where
  "demo_user = \<lparr> usID = zero_uuid, usTenantID = zero_uuid, usEmail = ''a'', usPasswordHash = [], usStatus = UserStatusActive,
     usCreatedAt = 0, usUpdatedAt = 0 \<rparr>"

definition demo_token_row :: token_row where
  "demo_token_row = \<lparr> trID = [0], trUserID = zero_uuid, trTenantID = zero_uuid, trTokenHash = [116], trFamilyID = [9], trRevoked = False,
     trExpiresAt = 100, trUserAgent = None, trIP = None, trCreatedAt = 0, trLastUsedAt = None, trRotatedFrom = None \<rparr>"

definition demo_auth_db :: auth_db where
  "demo_auth_db = \<lparr> dbTenants = [zero_uuid], dbAdmins = [], dbUsers = [demo_user], dbTokens = [demo_token_row] \<rparr>"

definition demo_refresh :: RefreshRequest where
  "demo_refresh = \<lparr> rfRefreshToken = ''t'', rfUserAgent = [], rfIP = [] \<rparr>"

lemma demo_row_sel: "trID demo_token_row = [0]" "trFamilyID demo_token_row = [9]" "trRevoked demo_token_row = False"
  by (simp_all add: demo_token_row_def)

lemma demo_db_sel: "dbTokens demo_auth_db = [demo_token_row]" "dbTenants demo_auth_db = [zero_uuid]"
  by (simp_all add: demo_auth_db_def)

lemma token_params_sel: "trID (token_params L env i f t) = i" "trFamilyID (token_params L env i f t) = rtFamilyID t"
  "\<not> trRevoked (token_params L env i f t)"
  by (simp_all add: token_params_def)

lemma demo_check:
  "refresh_check demo_auth_lib (demo_auth_env i) demo_refresh demo_auth_db = (demo_auth_db, Inr (row_token demo_token_row, demo_user))"
proof -
  have "calm (quiet_env\<lparr>pgPoolGuc := g\<rparr>)" for g by (simp add: calm_def quiet_env_def)
  then show ?thesis
    by (simp add: refresh_check_def FindByTokenHash_def stmt_calm HashToken_def demo_auth_lib_def demo_auth_env_def demo_refresh_def
        demo_auth_db_def demo_token_row_def RefreshToken_IsExpired_def UserRepository_GetByID_def get_user_def WithTenant_calm
        user_sees_def rls_ok_def demo_user_def User_IsActive_def row_token_def)
qed

lemma demo_token_issued:
  "IssueAccessToken (auJwt demo_auth_lib) demo_service (xeNow (demo_auth_env i)) (session_claims demo_user zero_uuid) = Inr ''t''"
  using demo_issued by (simp add: demo_auth_lib_def demo_auth_env_def session_claims_def demo_claims_def demo_user_def)

lemma demo_issue:
  assumes "[i] \<notin> trID ` set (dbTokens db)" and "[0] \<in> trID ` set (dbTokens db)" and "dbTenants db = [zero_uuid]"
  shows "refresh_issue demo_auth_lib demo_service (demo_auth_env i) demo_refresh (row_token demo_token_row) demo_user db =
    (db\<lparr>dbTokens := update_rows (\<lambda>r. trID r = [0]) (\<lambda>r. r\<lparr>trRevoked := True\<rparr>) (dbTokens db)
        @ [token_params demo_auth_lib quiet_env [i] (Some [0])
            (new_token demo_auth_lib (demo_auth_env i) demo_user zero_uuid [9] [] [])]\<rparr>,
     Inr \<lparr> lpAccessToken = ''t'', lpRefreshToken = generateOpaqueToken [i], lpExpiresIn = 900 \<rparr>)"
proof -
  let ?n = "token_params demo_auth_lib quiet_env [i] (Some [0]) (new_token demo_auth_lib (demo_auth_env i) demo_user zero_uuid [9] [] [])"
  have n: "trID ?n = [i]" "trTenantID ?n = zero_uuid" "trRotatedFrom ?n = Some [0]"
    by (simp_all add: token_params_def new_token_def)
  have "SqlRotateRefreshToken [zero_uuid] [0] ?n (dbTokens db) =
      (update_rows (\<lambda>r. trID r = [0]) (\<lambda>r. r\<lparr>trRevoked := True\<rparr>) (dbTokens db) @ [?n], Inr ?n)"
    using assms(1,2) by (auto simp: SqlRotateRefreshToken_def insert_token_def n list_ex_iff image_iff)
  moreover have "rtTenantID (row_token demo_token_row) = zero_uuid" "rtFamilyID (row_token demo_token_row) = [9]"
    "rtID (row_token demo_token_row) = [0]" "xeToken (demo_auth_env i) = quiet_env" "xeNewID (demo_auth_env i) = [i]"
    "xeTokenBytes (demo_auth_env i) = [i]" "rfUserAgent demo_refresh = []" "rfIP demo_refresh = []"
    by (simp_all add: demo_token_row_def demo_auth_env_def demo_refresh_def)
  ultimately show ?thesis
    using demo_token_issued[of i] assms(3) by (simp add: refresh_issue_def Rotate_def on_tokens_def stmt_calm)
qed

lemma demo_refreshed:
  "\<exists>db1 resp. Refresh demo_auth_lib demo_service (demo_auth_env 1) demo_refresh demo_auth_db = (db1, Inr resp)"
  using demo_issue[of 1 demo_auth_db] demo_check[of 1]
  by (simp add: Refresh_def demo_db_sel demo_row_sel)


text \<open>Two refreshes with one token that both pass the check before either rotates both succeed.\<close>

theorem concurrent_refresh_succeeds_twice:
  "\<exists>stored u db1. refresh_check demo_auth_lib (demo_auth_env 1) demo_refresh demo_auth_db = (demo_auth_db, Inr (stored, u))
    \<and> db1 = fst (refresh_issue demo_auth_lib demo_service (demo_auth_env 1) demo_refresh stored u demo_auth_db)
    \<and> \<not> isl (snd (refresh_issue demo_auth_lib demo_service (demo_auth_env 1) demo_refresh stored u demo_auth_db))
    \<and> \<not> isl (snd (refresh_issue demo_auth_lib demo_service (demo_auth_env 2) demo_refresh stored u db1))"
proof -
  let ?i1 = "refresh_issue demo_auth_lib demo_service (demo_auth_env 1) demo_refresh (row_token demo_token_row) demo_user demo_auth_db"
  have 1: "\<not> isl (snd ?i1)" "trID ` set (dbTokens (fst ?i1)) = {[0], [1]}" "dbTenants (fst ?i1) = [zero_uuid]"
    using demo_issue[of 1 demo_auth_db] by (simp_all add: demo_db_sel demo_row_sel token_params_sel)
  then have "\<not> isl (snd (refresh_issue demo_auth_lib demo_service (demo_auth_env 2) demo_refresh (row_token demo_token_row) demo_user (fst ?i1)))"
    using demo_issue[of 2 "fst ?i1"] by simp
  then show ?thesis using 1(1) demo_check by blast
qed

text \<open>A refresh in flight when its family is revoked leaves a valid token in the family.\<close>

theorem in_flight_refresh_survives_revocation:
  "\<exists>stored u db1. refresh_check demo_auth_lib (demo_auth_env 1) demo_refresh demo_auth_db = (demo_auth_db, Inr (stored, u))
    \<and> db1 = fst (RevokeFamily quiet_env (rtFamilyID stored) demo_auth_db)
    \<and> \<not> family_dead (rtFamilyID stored)
          (dbTokens (fst (refresh_issue demo_auth_lib demo_service (demo_auth_env 1) demo_refresh stored u db1)))"
proof -
  let ?db1 = "fst (RevokeFamily quiet_env [9] demo_auth_db)"
  have "dbTokens ?db1 = [demo_token_row\<lparr>trRevoked := True\<rparr>]" "dbTenants ?db1 = [zero_uuid]"
    by (simp_all add: RevokeFamily_def on_tokens_def stmt_calm revoke_where_def demo_db_sel demo_row_sel)
  then have "\<not> family_dead [9]
      (dbTokens (fst (refresh_issue demo_auth_lib demo_service (demo_auth_env 1) demo_refresh (row_token demo_token_row) demo_user ?db1)))"
    using demo_issue[of 1 ?db1] by (simp add: demo_row_sel token_params_sel family_dead_def)
  moreover have "rtFamilyID (row_token demo_token_row) = [9]" by (simp add: demo_row_sel)
  ultimately show ?thesis using demo_check[of 1] by metis
qed

end
