(* ===== verification/Guardrails.thy ===== *)
theory Guardrails
  imports TenantTx GoText Complex_Main
begin

text \<open>
  The guardrails: the local rules of \<open>src/internal/adapter/guardrail/local.go\<close> and the
  composition with an external classifier of \<open>composite.go\<close>, with its adapter to
  \<open>domain.Guardrail\<close>. A \<open>float64\<close> is a rational. The regular expressions, Unicode lower case
  and \<open>%.2f\<close> are parameters; so is the external classifier. The order in which Go visits a
  map is a parameter too. The unexported functions of \<open>composite.go\<close> that no code calls
  (a copy of the chat tool loop) are left out.
\<close>

subsection \<open>Parameters and data\<close>

text \<open>\<open>glFind pattern text\<close> is the first match of a pattern, \<open>glReplace\<close> the replacement of
  all matches.\<close>

record guard_lib =
  glCompiles :: "string \<Rightarrow> bool"
  glFind :: "string \<Rightarrow> string \<Rightarrow> string option"
  glReplace :: "string \<Rightarrow> (string \<Rightarrow> string) \<Rightarrow> string \<Rightarrow> string"
  glLower :: "string \<Rightarrow> string"
  glFmt2 :: "rat \<Rightarrow> string"

record GuardrailViolation =
  gvID :: uuid
  gvTenantID :: uuid
  gvRequestID :: "uuid option"
  gvPhase :: string
  gvRule :: string
  gvSeverity :: string
  gvMessage :: string
  gvContext :: string
  gvCreatedAt :: time

record GuardrailRule =
  guName :: string
  guType :: string
  guPattern :: string
  guWords :: "string list"
  guSeverity :: string
  guPhase :: string

record GuardrailsConfig =
  gcEnabled :: bool
  gcEmail :: bool
  gcCreditCard :: bool
  gcSSN :: bool
  gcInjectionPatterns :: "string list"
  gcMaxInputChars :: int
  gcMaxOutputChars :: int
  gcRules :: "GuardrailRule list"

text \<open>The ids and the time drawn for a violation.\<close>

record guard_env =
  gnID :: uuid
  gnTenant :: uuid
  gnNow :: time

definition violation :: "guard_env \<Rightarrow> string \<Rightarrow> string \<Rightarrow> string \<Rightarrow> string \<Rightarrow> string \<Rightarrow> GuardrailViolation" where
  "violation e phase rule severity message ctx = \<lparr> gvID = gnID e, gvTenantID = gnTenant e, gvRequestID = None, gvPhase = phase,
     gvRule = rule, gvSeverity = severity, gvMessage = message, gvContext = ctx, gvCreatedAt = gnNow e \<rparr>"

subsection \<open>The local guardrail\<close>

definition emailPattern :: string where
  "emailPattern = ''[a-zA-Z0-9._%+-]+@[a-zA-Z0-9.-]+'' @ CHR 0x5C # ''.[a-zA-Z]{2,}''"

definition creditCardPattern :: string where
  "creditCardPattern = CHR 0x5C # ''b(?:'' @ CHR 0x5C # ''d[ -]*?){13,16}'' @ CHR 0x5C # ''b''"

definition ssnPattern :: string where
  "ssnPattern = CHR 0x5C # ''b'' @ CHR 0x5C # ''d{3}-'' @ CHR 0x5C # ''d{2}-'' @ CHR 0x5C # ''d{4}'' @ CHR 0x5C # ''b''"

definition builtinInjectionPatterns :: "string list" where
  "builtinInjectionPatterns = [''ignore previous'', ''system prompt'', ''you are now'', ''DAN'', ''jailbreak'', ''roleplay'',
     ''forget everything'', ''new instructions'', ''ignore all'', ''disregard'', ''override'', ''pretend to be'', ''act as'',
     ''you must'', ''you will'', ''do anything now'']"

record CompiledRule =
  crName :: string
  crType :: string
  crRegex :: "string option"
  crWords :: "string list"
  crSeverity :: string
  crPhase :: string

record LocalGuardrail =
  lgCfg :: GuardrailsConfig
  lgCompiled :: "CompiledRule list"
  lgInjectionPatterns :: "string list"
  lgEnabled :: bool

definition compile_rule :: "guard_lib \<Rightarrow> GuardrailRule \<Rightarrow> CompiledRule" where
  "compile_rule G r = \<lparr> crName = guName r, crType = guType r,
     crRegex = (if guType r = ''regex'' \<and> guPattern r \<noteq> [] \<and> glCompiles G (guPattern r) then Some (guPattern r) else None),
     crWords = guWords r, crSeverity = guSeverity r, crPhase = guPhase r \<rparr>"

definition NewLocalGuardrail :: "guard_lib \<Rightarrow> GuardrailsConfig \<Rightarrow> LocalGuardrail" where
  "NewLocalGuardrail G cfg = \<lparr> lgCfg = cfg, lgCompiled = map (compile_rule G) (gcRules cfg),
     lgInjectionPatterns = builtinInjectionPatterns @ gcInjectionPatterns cfg, lgEnabled = gcEnabled cfg \<rparr>"

definition checkLength :: "guard_env \<Rightarrow> string \<Rightarrow> string \<Rightarrow> int \<Rightarrow> GuardrailViolation option" where
  "checkLength e text phase maxLen =
     (if int (length text) > maxLen then Some (violation e phase ''length_limit'' ''critical''
        (phase @ '' exceeds maximum length of '' @ int_text maxLen @ '' characters'')
        (''{'' @ dq @ ''length'' @ dq @ '':'' @ int_text (int (length text)) @ '','' @ dq @ ''max'' @ dq @ '':'' @ int_text maxLen @ ''}''))
      else None)"

definition escape_quotes :: "string \<Rightarrow> string" where
  "escape_quotes s = concat (map (\<lambda>c. if c = CHR 0x22 then [CHR 0x5C, CHR 0x22] else [c]) s)"

definition json_member :: "string \<Rightarrow> string \<Rightarrow> string" where
  "json_member k v = ''{'' @ dq @ k @ dq @ '':'' @ dq @ v @ dq @ ''}''"

text \<open>What a rule matches, as the context it reports.\<close>

definition rule_match :: "guard_lib \<Rightarrow> CompiledRule \<Rightarrow> string \<Rightarrow> string option" where
  "rule_match G r text =
     (if crType r = ''regex'' then (case crRegex r of None \<Rightarrow> None
        | Some p \<Rightarrow> map_option (\<lambda>m. json_member ''matched'' (escape_quotes m)) (glFind G p text))
      else if crType r = ''wordlist'' then
        map_option (json_member ''matched_word'') (List.find (\<lambda>w. contains (glLower G text) (glLower G w)) (crWords r))
      else None)"

fun check_rules_loop :: "guard_lib \<Rightarrow> guard_env \<Rightarrow> CompiledRule list \<Rightarrow> string \<Rightarrow> string \<Rightarrow> GuardrailViolation option" where
  "check_rules_loop G e [] text phase = None"
| "check_rules_loop G e (r # rs) text phase =
     (if crPhase r \<noteq> ''both'' \<and> crPhase r \<noteq> phase then check_rules_loop G e rs text phase
      else case rule_match G r text of
        None \<Rightarrow> check_rules_loop G e rs text phase
      | Some c \<Rightarrow> Some (violation e phase (crName r) (crSeverity r) (''Guardrail rule '' @ CHR 0x27 # crName r @ CHR 0x27 # '' triggered'') c))"

definition checkRules :: "guard_lib \<Rightarrow> guard_env \<Rightarrow> LocalGuardrail \<Rightarrow> string \<Rightarrow> string \<Rightarrow> GuardrailViolation option" where
  "checkRules G e g text phase = check_rules_loop G e (lgCompiled g) text phase"

definition pii_hit :: "guard_lib \<Rightarrow> guard_env \<Rightarrow> string \<Rightarrow> string \<Rightarrow> bool \<Rightarrow> string \<Rightarrow> string \<Rightarrow> string \<Rightarrow> GuardrailViolation option" where
  "pii_hit G e text phase on pattern rule what =
     (if on then map_option (\<lambda>m. violation e phase rule (if phase = ''output'' then ''warn'' else ''critical'')
          (''PII detected: '' @ what) (json_member ''matched'' (escape_quotes m))) (glFind G pattern text)
      else None)"

definition or_else :: "'a option \<Rightarrow> 'a option \<Rightarrow> 'a option" where
  "or_else x y = (case x of None \<Rightarrow> y | Some v \<Rightarrow> Some v)"

definition checkPII :: "guard_lib \<Rightarrow> guard_env \<Rightarrow> LocalGuardrail \<Rightarrow> string \<Rightarrow> string \<Rightarrow> GuardrailViolation option" where
  "checkPII G e g text phase =
     or_else (pii_hit G e text phase (gcEmail (lgCfg g)) emailPattern ''pii.email'' ''email'')
     (or_else (pii_hit G e text phase (gcCreditCard (lgCfg g)) creditCardPattern ''pii.credit_card'' ''credit card'')
       (pii_hit G e text phase (gcSSN (lgCfg g)) ssnPattern ''pii.ssn'' ''SSN''))"

definition underscore :: "string \<Rightarrow> string" where
  "underscore s = map (\<lambda>c. if c = CHR '' '' \<or> c = CHR ''-'' then CHR ''_'' else c) s"

definition checkInjection :: "guard_lib \<Rightarrow> guard_env \<Rightarrow> LocalGuardrail \<Rightarrow> string \<Rightarrow> string \<Rightarrow> GuardrailViolation option" where
  "checkInjection G e g text phase =
     (if phase \<noteq> ''input'' then None
      else map_option (\<lambda>p. violation e phase (''injection.'' @ underscore p) ''critical'' (''Prompt injection detected: '' @ p)
          (json_member ''pattern'' p))
        (List.find (\<lambda>p. contains (glLower G text) (glLower G p)) (lgInjectionPatterns g)))"

definition pii_enabled :: "LocalGuardrail \<Rightarrow> bool" where
  "pii_enabled g = (gcEmail (lgCfg g) \<or> gcCreditCard (lgCfg g) \<or> gcSSN (lgCfg g))"

definition positive_or :: "int \<Rightarrow> int \<Rightarrow> int" where
  "positive_or n d = (if n \<le> 0 then d else n)"

definition for_tenant :: "uuid \<Rightarrow> GuardrailViolation option \<Rightarrow> GuardrailViolation option" where
  "for_tenant t v = map_option (\<lambda>v. v\<lparr>gvTenantID := t\<rparr>) v"

definition CheckInput :: "guard_lib \<Rightarrow> guard_env \<Rightarrow> LocalGuardrail \<Rightarrow> uuid \<Rightarrow> string \<Rightarrow> GuardrailViolation option" where
  "CheckInput G e g tenantID input =
     (if \<not> lgEnabled g then None
      else for_tenant tenantID
        (or_else (checkLength e input ''input'' (positive_or (gcMaxInputChars (lgCfg g)) 100000))
        (or_else (checkRules G e g input ''input'')
        (or_else (if pii_enabled g then checkPII G e g input ''input'' else None)
          (checkInjection G e g input ''input'')))))"

definition CheckOutput :: "guard_lib \<Rightarrow> guard_env \<Rightarrow> LocalGuardrail \<Rightarrow> uuid \<Rightarrow> string \<Rightarrow> GuardrailViolation option" where
  "CheckOutput G e g tenantID output =
     (if \<not> lgEnabled g then None
      else for_tenant tenantID
        (or_else (checkLength e output ''output'' (positive_or (gcMaxOutputChars (lgCfg g)) 200000))
        (or_else (checkRules G e g output ''output'')
          (if pii_enabled g then checkPII G e g output ''output'' else None))))"

definition mask_email :: "string \<Rightarrow> string" where
  "mask_email m = (case split_on (CHR ''@'') m of
     [user, host] \<Rightarrow> take (min 3 (length user)) user @ ''***@'' @ host
   | _ \<Rightarrow> ''***@***'')"

definition SanitizeOutput :: "guard_lib \<Rightarrow> LocalGuardrail \<Rightarrow> string \<Rightarrow> string" where
  "SanitizeOutput G g output =
     (let o1 = (if gcEmail (lgCfg g) then glReplace G emailPattern mask_email output else output);
          o2 = (if gcCreditCard (lgCfg g) then glReplace G creditCardPattern (\<lambda>_. ''XXXX-XXXX-XXXX-XXXX'') o1 else o1)
      in if \<not> pii_enabled g then output
         else if gcSSN (lgCfg g) then glReplace G ssnPattern (\<lambda>_. ''XXX-XX-XXXX'') o2 else o2)"

subsection \<open>Classification\<close>

record CategoryResult =
  ctCategory :: string
  ctDetected :: bool
  ctConfidence :: rat
  ctThreshold :: rat

record ClassificationResult =
  csViolated :: bool
  csCategories :: "CategoryResult list"
  csProvider :: string
  csModel :: string
  csLatencyMs :: int

definition violationToClassification :: "GuardrailViolation option \<Rightarrow> string \<Rightarrow> ClassificationResult" where
  "violationToClassification v provider = (case v of
     None \<Rightarrow> \<lparr> csViolated = False, csCategories = [], csProvider = provider, csModel = [], csLatencyMs = 0 \<rparr>
   | Some v \<Rightarrow>
       let severity = (if gvSeverity v = [] then ''warn'' else gvSeverity v);
           confidence = (if severity = ''critical'' then 95 / 100 else if severity = ''warn'' then 7 / 10 else 9 / 10)
       in \<lparr> csViolated = True, csCategories = [\<lparr> ctCategory = gvRule v, ctDetected = True, ctConfidence = confidence, ctThreshold = 7 / 10 \<rparr>],
            csProvider = provider, csModel = ''local'', csLatencyMs = 0 \<rparr>)"

text \<open>\<open>ClassifyInput\<close> and \<open>ClassifyOutput\<close> of the local guardrail, with the tenant id they draw.\<close>

definition local_classify :: "guard_lib \<Rightarrow> guard_env \<Rightarrow> LocalGuardrail \<Rightarrow> bool \<Rightarrow> string \<Rightarrow> ClassificationResult result" where
  "local_classify G e g isInput text =
     Inr (violationToClassification ((if isInput then CheckInput else CheckOutput) G e g (gnTenant e) text) ''local'')"

subsection \<open>The composite\<close>

record CompositeConfig =
  cpMode :: string
  cpFailBehavior :: string
  cpMergeLogic :: string
  cpParallelBudgetMs :: int
  cpSendContentExternal :: bool
  cpThresholds :: "(string \<rightharpoonup> rat) option"

definition default_thresholds :: "string \<rightharpoonup> rat" where
  "default_thresholds = [''sexual'' \<mapsto> 7/10, ''hate'' \<mapsto> 8/10, ''violence'' \<mapsto> 7/10, ''self-harm'' \<mapsto> 9/10, ''harassment'' \<mapsto> 7/10]"

definition DefaultCompositeConfig :: CompositeConfig where
  "DefaultCompositeConfig = \<lparr> cpMode = ''sequential'', cpFailBehavior = ''fallback_local'', cpMergeLogic = ''any_violation'',
     cpParallelBudgetMs = 500, cpSendContentExternal = True, cpThresholds = Some default_thresholds \<rparr>"

type_synonym classifier = "bool \<Rightarrow> string \<Rightarrow> ClassificationResult result"

record CompositeGuardrail =
  cgLocal :: "classifier option"
  cgExternal :: "classifier option"
  cgConfig :: CompositeConfig

definition NewCompositeGuardrail :: "classifier option \<Rightarrow> classifier option \<Rightarrow> CompositeConfig \<Rightarrow> CompositeGuardrail" where
  "NewCompositeGuardrail loc ext cfg = \<lparr> cgLocal = loc, cgExternal = ext, cgConfig = cfg\<lparr>
     cpMode := (if cpMode cfg = [] then ''sequential'' else cpMode cfg),
     cpFailBehavior := (if cpFailBehavior cfg = [] then ''fallback_local'' else cpFailBehavior cfg),
     cpMergeLogic := (if cpMergeLogic cfg = [] then ''any_violation'' else cpMergeLogic cfg),
     cpParallelBudgetMs := (if cpParallelBudgetMs cfg = 0 then 500 else cpParallelBudgetMs cfg),
     cpThresholds := (case cpThresholds cfg of None \<Rightarrow> Some default_thresholds | Some m \<Rightarrow> Some m)\<rparr> \<rparr>"

definition zero_cat :: CategoryResult where
  "zero_cat = \<lparr> ctCategory = [], ctDetected = False, ctConfidence = 0, ctThreshold = 0 \<rparr>"

definition best_step :: "CategoryResult \<Rightarrow> CategoryResult \<Rightarrow> CategoryResult" where
  "best_step b d = (if ctDetected d \<and> (ctCategory b = [] \<or> ctConfidence d > ctConfidence b) then d else b)"

definition weigh_step :: "rat \<times> CategoryResult \<Rightarrow> CategoryResult \<Rightarrow> rat \<times> CategoryResult" where
  "weigh_step mb d = (if ctDetected d \<and> ctConfidence d > fst mb then (ctConfidence d, d) else mb)"

text \<open>The verdict on one category: whether it counts as detected and its best result.\<close>

definition judge :: "string \<Rightarrow> bool \<Rightarrow> bool \<Rightarrow> CategoryResult list \<Rightarrow> CategoryResult list \<Rightarrow> bool \<times> CategoryResult" where
  "judge logic localRan extRan loc ext =
     (let dets = loc @ ext; best = foldl best_step zero_cat dets in
      if logic = ''any_violation'' then (list_ex ctDetected dets, best)
      else if logic = ''all_violation'' then
        (list_all ctDetected dets \<and> \<not> (localRan \<and> loc = []) \<and> \<not> (extRan \<and> ext = []), best)
      else if logic = ''weighted'' then
        (let mb = foldl weigh_step (-1, zero_cat) dets in (fst mb \<ge> 0, snd mb))
      else (False, best))"

definition of_cat :: "string \<Rightarrow> CategoryResult list \<Rightarrow> CategoryResult list" where
  "of_cat k cs = filter (\<lambda>c. ctCategory c = k) cs"

definition categories :: "ClassificationResult \<Rightarrow> ClassificationResult \<Rightarrow> string list" where
  "categories loc ext = remdups (map ctCategory (csCategories loc @ csCategories ext))"

definition judge_cat :: "CompositeConfig \<Rightarrow> ClassificationResult \<Rightarrow> ClassificationResult \<Rightarrow> string \<Rightarrow> bool \<times> CategoryResult" where
  "judge_cat cfg loc ext k = judge (cpMergeLogic cfg) (csProvider loc \<noteq> []) (csProvider ext \<noteq> [])
     (of_cat k (csCategories loc)) (of_cat k (csCategories ext))"

definition highest :: "CategoryResult list \<Rightarrow> CategoryResult" where
  "highest dets = foldl (\<lambda>b d. if ctConfidence d > ctConfidence b then d else b) (hd dets) dets"

text \<open>\<open>ord1\<close> and \<open>ord2\<close> are the orders in which the two loops visit the map.\<close>

definition mergeResults ::
  "CompositeConfig \<Rightarrow> (string list \<Rightarrow> string list) \<Rightarrow> (string list \<Rightarrow> string list) \<Rightarrow>
   ClassificationResult \<Rightarrow> ClassificationResult \<Rightarrow> ClassificationResult" where
  "mergeResults cfg ord1 ord2 loc ext =
     (let ks = categories loc ext;
          found = map (snd \<circ> judge_cat cfg loc ext) (filter (fst \<circ> judge_cat cfg loc ext) (ord1 ks));
          rest = fold (\<lambda>k cs. if k \<in> set (map ctCategory cs) then cs
             else cs @ [highest (of_cat k (csCategories loc @ csCategories ext))]) (ord2 ks) found
      in \<lparr> csViolated = (filter (fst \<circ> judge_cat cfg loc ext) (ord1 ks) \<noteq> []), csCategories = rest,
           csProvider = [], csModel = [], csLatencyMs = 0 \<rparr>)"

definition ErrExternalClassifierUnavailable :: go_error where
  "ErrExternalClassifierUnavailable = Errorf ''external classifier unavailable''"

definition ErrNoClassifiersConfigured :: go_error where
  "ErrNoClassifiersConfigured = Errorf ''no classifiers configured''"

definition no_violation :: ClassificationResult where
  "no_violation = \<lparr> csViolated = False, csCategories = [], csProvider = ''composite'', csModel = [], csLatencyMs = 0 \<rparr>"

text \<open>The outcome when the external classifier failed, given the local result if there is one.\<close>

definition on_external_failure :: "CompositeConfig \<Rightarrow> ClassificationResult option \<Rightarrow> ClassificationResult result" where
  "on_external_failure cfg loc =
     (if cpFailBehavior cfg = ''fail_open'' then Inr no_violation
      else if cpFailBehavior cfg = ''fail_closed'' then Inl ErrExternalClassifierUnavailable
      else case loc of None \<Rightarrow> Inl ErrExternalClassifierUnavailable | Some r \<Rightarrow> Inr (r\<lparr>csProvider := ''composite''\<rparr>))"

record classify_env =
  ceOrd1 :: "string list \<Rightarrow> string list"
  ceOrd2 :: "string list \<Rightarrow> string list"
  ceLatencyMs :: int

definition classify :: "classify_env \<Rightarrow> CompositeGuardrail \<Rightarrow> string \<Rightarrow> bool \<Rightarrow> ClassificationResult result" where
  "classify ce c text isInput =
     (let loc = (case cgLocal c of None \<Rightarrow> None | Some f \<Rightarrow> (case f isInput text of Inl _ \<Rightarrow> None | Inr r \<Rightarrow> Some r));
          ext = (if cpSendContentExternal (cgConfig c) then map_option (\<lambda>f. f isInput text) (cgExternal c) else None);
          merged = (case (loc, ext) of
             (Some l, Some (Inr x)) \<Rightarrow> Inr ((mergeResults (cgConfig c) (ceOrd1 ce) (ceOrd2 ce) l x)\<lparr>csProvider := ''composite''\<rparr>)
           | (_, Some (Inl _)) \<Rightarrow> on_external_failure (cgConfig c) loc
           | (Some l, None) \<Rightarrow> Inr (l\<lparr>csProvider := ''composite''\<rparr>)
           | (None, Some (Inr x)) \<Rightarrow> Inr (x\<lparr>csProvider := ''composite''\<rparr>)
           | (None, None) \<Rightarrow> Inl ErrNoClassifiersConfigured)
      in map_sum id (\<lambda>m. m\<lparr>csLatencyMs := ceLatencyMs ce\<rparr>) merged)"

subsection \<open>The adapter\<close>

definition pick_step :: "CategoryResult \<Rightarrow> CategoryResult \<Rightarrow> CategoryResult" where
  "pick_step b c = (if ctDetected c \<and> ctConfidence c > ctConfidence b then c else b)"

definition pick_best :: "CategoryResult list \<Rightarrow> CategoryResult" where
  "pick_best cs = foldl pick_step zero_cat cs"

definition classificationToViolation ::
  "guard_lib \<Rightarrow> guard_env \<Rightarrow> uuid \<Rightarrow> ClassificationResult \<Rightarrow> string \<Rightarrow> GuardrailViolation option" where
  "classificationToViolation G e tenantID res phase =
     (if \<not> csViolated res \<or> csCategories res = [] then None
      else let b = pick_best (csCategories res) in
        if ctCategory b = [] then None
        else Some \<lparr> gvID = gnID e, gvTenantID = tenantID, gvRequestID = None, gvPhase = phase, gvRule = ctCategory b,
          gvSeverity = (if ctConfidence b \<ge> ctThreshold b then ''critical'' else ''warn''),
          gvMessage = ''External classifier '' @ CHR 0x27 # csProvider res @ CHR 0x27 # '' detected violation: '' @ ctCategory b,
          gvContext = ''{'' @ dq @ ''category'' @ dq @ '':'' @ dq @ ctCategory b @ dq @ '','' @ dq @ ''confidence'' @ dq @ '':'' @ glFmt2 G (ctConfidence b)
            @ '','' @ dq @ ''threshold'' @ dq @ '':'' @ glFmt2 G (ctThreshold b) @ '','' @ dq @ ''provider'' @ dq @ '':'' @ dq @ csProvider res @ dq @ ''}'',
          gvCreatedAt = gnNow e \<rparr>)"

definition adapter_check ::
  "guard_lib \<Rightarrow> classify_env \<Rightarrow> guard_env \<Rightarrow> CompositeGuardrail \<Rightarrow> bool \<Rightarrow> uuid \<Rightarrow> string \<Rightarrow> GuardrailViolation option result" where
  "adapter_check G ce e c isInput tenantID text = map_sum id
     (\<lambda>res. classificationToViolation G e tenantID res (if isInput then ''input'' else ''output'')) (classify ce c text isInput)"

text \<open>The wiring of \<open>cmd/gateway/main.go\<close>: the local guardrail and an external classifier that
  may be absent.\<close>

definition gateway_guardrail :: "guard_lib \<Rightarrow> guard_env \<Rightarrow> GuardrailsConfig \<Rightarrow> classifier option \<Rightarrow> CompositeConfig \<Rightarrow> CompositeGuardrail" where
  "gateway_guardrail G e cfg ext ccfg = NewCompositeGuardrail (Some (local_classify G e (NewLocalGuardrail G cfg))) ext ccfg"

subsection \<open>Stored violations\<close>

text \<open>\<open>adapter/postgres/guardrail_repository.go\<close> over the table of migration 0012. \<open>jsonb\<close> is
  the database's reading of a JSON text, None when it is not JSON. The gateway wires no such
  repository.\<close>

definition violation_error :: "(string \<Rightarrow> string option) \<Rightarrow> GuardrailViolation \<Rightarrow> go_error option" where
  "violation_error jsonb v =
     (if jsonb (gvContext v) = None then Some (PgError ''22P02'' ''invalid input syntax for type json'')
      else if gvPhase v \<notin> set [''input'', ''output''] then Some (PgError ''23514'' ''guardrail_violations_direction_check'')
      else if gvSeverity v \<notin> set [''info'', ''warn'', ''critical''] then Some (PgError ''23514'' ''guardrail_violations_severity_check'')
      else None)"

definition SqlCreateGuardrailViolation ::
  "(string \<Rightarrow> string option) \<Rightarrow> pg_env \<Rightarrow> uuid list \<Rightarrow> uuid \<Rightarrow> GuardrailViolation \<Rightarrow> (GuardrailViolation list, GuardrailViolation) db_call" where
  "SqlCreateGuardrailViolation jsonb env tenants newID v rs =
     (case violation_error jsonb v of
        Some e \<Rightarrow> (rs, Inl e)
      | None \<Rightarrow>
          let row = v\<lparr>gvID := newID, gvContext := the (jsonb (gvContext v)), gvCreatedAt := pgNow env\<rparr> in
          if \<not> rls_ok env (pgPoolGuc env) (gvTenantID v) then (rs, Inl (PgError ''42501'' ''row-level security''))
          else if list_ex (\<lambda>r. gvID r = newID \<and> gvTenantID r = gvTenantID v) rs then (rs, Inl (PgError ''23505'' ''duplicate key''))
          else if gvTenantID v \<notin> set tenants then (rs, Inl (PgError ''23503'' ''foreign key''))
          else (rs @ [row], Inr row))"

definition GuardrailViolationRepository_Create ::
  "(string \<Rightarrow> string option) \<Rightarrow> pg_env \<Rightarrow> uuid list \<Rightarrow> uuid \<Rightarrow> GuardrailViolation \<Rightarrow> (GuardrailViolation list, GuardrailViolation) db_call" where
  "GuardrailViolationRepository_Create jsonb env tenants newID v = WithTenant env (gvTenantID v) (\<lambda>rs.
     case stmt env (SqlCreateGuardrailViolation jsonb env tenants newID
            (v\<lparr>gvContext := (if gvContext v = [] then ''{}'' else gvContext v)\<rparr>)) rs of
       (rs', Inl e) \<Rightarrow> (rs', Inl e)
     | (rs', Inr r) \<Rightarrow> (rs', Inr (v\<lparr>gvID := gvID r, gvCreatedAt := gvCreatedAt r\<rparr>)))"

definition GuardrailViolationRepository_GetByID ::
  "pg_env \<Rightarrow> uuid \<Rightarrow> uuid \<Rightarrow> (GuardrailViolation list, GuardrailViolation) db_call" where
  "GuardrailViolationRepository_GetByID env tenantID i = WithTenant env tenantID (\<lambda>rs.
     case stmt env (\<lambda>rs. (rs, case List.find (\<lambda>r. rls_ok env (pgPoolGuc env) (gvTenantID r) \<and> gvTenantID r = tenantID \<and> gvID r = i) rs of
            None \<Rightarrow> Inl (pgNoRows env) | Some r \<Rightarrow> Inr r)) rs of
       (rs', Inl e) \<Rightarrow> (rs', Inl (if e = SqlErrNoRows then ErrNotFound else e))
     | (rs', Inr r) \<Rightarrow> (rs', Inr r))"

record GuardrailViolationFilter =
  gfTenantID :: uuid
  gfDirection :: string
  gfRuleID :: string
  gfSeverity :: string
  gfRequestID :: "uuid option"
  gfLimit :: int
  gfOffset :: int

definition violation_matches :: "GuardrailViolationFilter \<Rightarrow> GuardrailViolation \<Rightarrow> bool" where
  "violation_matches f r = (gvTenantID r = gfTenantID f
     \<and> (gfDirection f = [] \<or> gvPhase r = gfDirection f) \<and> (gfRuleID f = [] \<or> gvRule r = gfRuleID f)
     \<and> (gfSeverity f = [] \<or> gvSeverity r = gfSeverity f)
     \<and> (case gfRequestID f of None \<Rightarrow> True | Some i \<Rightarrow> i = zero_uuid \<or> gvRequestID r = Some i))"

text \<open>Limit and offset are converted to 32 bits; Postgres refuses negative ones.\<close>

definition GuardrailViolationRepository_List ::
  "pg_env \<Rightarrow> GuardrailViolationFilter \<Rightarrow> (GuardrailViolation list, GuardrailViolation list) db_call" where
  "GuardrailViolationRepository_List env f = WithTenant env (gfTenantID f) (stmt env (\<lambda>rs.
     let lim = sint (word_of_int (gfLimit f) :: 32 word); off = sint (word_of_int (gfOffset f) :: 32 word) in
     (rs, if lim < 0 \<or> off < 0 then Inl (PgError ''2201W'' ''LIMIT must not be negative'')
          else Inr (take (nat lim) (drop (nat off) (sort_key (\<lambda>r. - gvCreatedAt r)
            (filter (\<lambda>r. rls_ok env (pgPoolGuc env) (gvTenantID r) \<and> violation_matches f r) rs)))))))"

lemma list_violations_sound:
  "snd (GuardrailViolationRepository_List env f rs) = Inr vs \<Longrightarrow> v \<in> set vs \<Longrightarrow> v \<in> set rs \<and> violation_matches f v"
  by (auto simp: GuardrailViolationRepository_List_def Let_def dest!: WithTenant_InrD stmt_InrD in_set_takeD in_set_dropD split: if_splits)

subsection \<open>What the local rules flag\<close>

definition pii_flagged :: "guard_lib \<Rightarrow> LocalGuardrail \<Rightarrow> string \<Rightarrow> bool" where
  "pii_flagged G g text = (gcEmail (lgCfg g) \<and> glFind G emailPattern text \<noteq> None
     \<or> gcCreditCard (lgCfg g) \<and> glFind G creditCardPattern text \<noteq> None
     \<or> gcSSN (lgCfg g) \<and> glFind G ssnPattern text \<noteq> None)"

definition rule_flagged :: "guard_lib \<Rightarrow> LocalGuardrail \<Rightarrow> string \<Rightarrow> string \<Rightarrow> bool" where
  "rule_flagged G g phase text =
     (\<exists>r \<in> set (lgCompiled g). (crPhase r = ''both'' \<or> crPhase r = phase) \<and> rule_match G r text \<noteq> None)"

definition input_flagged :: "guard_lib \<Rightarrow> LocalGuardrail \<Rightarrow> string \<Rightarrow> bool" where
  "input_flagged G g text = (lgEnabled g \<and>
     (int (length text) > positive_or (gcMaxInputChars (lgCfg g)) 100000
      \<or> rule_flagged G g ''input'' text \<or> pii_flagged G g text
      \<or> (\<exists>p \<in> set (lgInjectionPatterns g). contains (glLower G text) (glLower G p))))"

lemma or_else_None [simp]: "(or_else x y = None) = (x = None \<and> y = None)"
  by (simp add: or_else_def split: option.split)

lemma or_else_SomeD: "or_else x y = Some v \<Longrightarrow> x = Some v \<or> y = Some v"
  by (simp add: or_else_def split: option.splits)

lemma check_rules_None: "(check_rules_loop G e rs text phase = None) =
  (\<forall>r \<in> set rs. (crPhase r = ''both'' \<or> crPhase r = phase) \<longrightarrow> rule_match G r text = None)"
  by (induction rs) (auto split: option.split)

lemma check_rules_name: "check_rules_loop G e rs text phase = Some v \<Longrightarrow> \<exists>r \<in> set rs. gvRule v = crName r"
  by (induction rs) (auto simp: violation_def split: if_splits option.splits)

lemma checkPII_None: "(checkPII G e g text phase = None) = (\<not> pii_flagged G g text)"
  by (auto simp: checkPII_def pii_hit_def pii_flagged_def)

lemma find_None_iff_all: "(List.find P xs = None) = (\<forall>x \<in> set xs. \<not> P x)"
  by (auto simp: find_None_iff)

lemma CheckInput_None: "(CheckInput G e g t text = None) = (\<not> input_flagged G g text)"
  by (auto simp: CheckInput_def for_tenant_def input_flagged_def checkLength_def checkRules_def check_rules_None rule_flagged_def
      checkPII_None checkInjection_def find_None_iff_all pii_enabled_def pii_flagged_def)

definition rules_named :: "GuardrailsConfig \<Rightarrow> bool" where
  "rules_named cfg = list_all (\<lambda>r. guName r \<noteq> []) (gcRules cfg)"

lemma CheckInput_named:
  assumes "rules_named cfg" and "CheckInput G e (NewLocalGuardrail G cfg) t text = Some v"
  shows "gvRule v \<noteq> []"
proof -
  let ?g = "NewLocalGuardrail G cfg"
  obtain v0 where v: "gvRule v = gvRule v0" and
    ov: "or_else (checkLength e text ''input'' (positive_or (gcMaxInputChars (lgCfg ?g)) 100000))
        (or_else (checkRules G e ?g text ''input'')
        (or_else (if pii_enabled ?g then checkPII G e ?g text ''input'' else None)
          (checkInjection G e ?g text ''input''))) = Some v0"
    using assms(2) by (auto simp: CheckInput_def for_tenant_def split: if_splits)
  have len: "checkLength e text p m = Some v0 \<Longrightarrow> gvRule v0 \<noteq> []" for p m
    by (auto simp: checkLength_def violation_def split: if_splits)
  have rule: "checkRules G e ?g text p = Some v0 \<Longrightarrow> gvRule v0 \<noteq> []" for p
    using assms(1) check_rules_name[of G e "lgCompiled ?g" "text" p v0]
    by (auto simp: checkRules_def NewLocalGuardrail_def compile_rule_def rules_named_def list_all_iff)
  have pii: "checkPII G e ?g text p = Some v0 \<Longrightarrow> gvRule v0 \<noteq> []" for p
    by (auto simp: checkPII_def pii_hit_def violation_def dest!: or_else_SomeD split: if_splits)
  have inj: "checkInjection G e ?g text p = Some v0 \<Longrightarrow> gvRule v0 \<noteq> []" for p
    by (auto simp: checkInjection_def violation_def split: if_splits)
  show ?thesis
    unfolding v using ov len rule pii inj by (fastforce dest: or_else_SomeD split: if_splits)
qed

subsection \<open>The verdict of the composite\<close>

lemma weigh_fst: "fst (foldl weigh_step mb dets) \<ge> 0 \<longleftrightarrow> fst mb \<ge> 0 \<or> (\<exists>d \<in> set dets. ctDetected d \<and> ctConfidence d \<ge> 0)"
proof (induction dets arbitrary: mb)
  case (Cons d ds)
  then show ?case by (auto simp: weigh_step_def)
qed simp

text \<open>What a merge logic asks of the results of one category.\<close>

definition category_violated :: "string \<Rightarrow> CategoryResult list \<Rightarrow> CategoryResult list \<Rightarrow> bool" where
  "category_violated logic loc ext =
     (if logic = ''any_violation'' then \<exists>d \<in> set (loc @ ext). ctDetected d
      else if logic = ''all_violation'' then loc \<noteq> [] \<and> ext \<noteq> [] \<and> (\<forall>d \<in> set (loc @ ext). ctDetected d)
      else logic = ''weighted'' \<and> (\<exists>d \<in> set (loc @ ext). ctDetected d \<and> ctConfidence d \<ge> 0))"

lemma judge_violated: "fst (judge logic True True loc ext) = category_violated logic loc ext"
  using weigh_fst[of "(-1, zero_cat)" "loc @ ext"]
  by (auto simp: judge_def category_violated_def Let_def list_ex_iff list_all_iff)

lemma best_fold:
  assumes "\<forall>x \<in> set dets. ctCategory x \<noteq> []" and "b = zero_cat \<or> ctDetected b \<and> ctCategory b \<noteq> []"
  shows "(foldl best_step b dets = b \<or> foldl best_step b dets \<in> set dets)
    \<and> (foldl best_step b dets = zero_cat \<or> ctDetected (foldl best_step b dets) \<and> ctCategory (foldl best_step b dets) \<noteq> [])
    \<and> (\<forall>d \<in> set dets \<union> {b}. ctDetected d \<longrightarrow> ctDetected (foldl best_step b dets) \<and> ctConfidence d \<le> ctConfidence (foldl best_step b dets))"
  using assms
proof (induction dets arbitrary: b)
  case (Cons d ds)
  let ?b = "best_step b d"
  have b: "?b = zero_cat \<or> ctDetected ?b \<and> ctCategory ?b \<noteq> []" "?b = b \<or> ?b = d" using Cons.prems by (auto simp: best_step_def)
  have ge: "\<forall>x \<in> {b, d}. ctDetected x \<longrightarrow> ctDetected ?b \<and> ctConfidence x \<le> ctConfidence ?b"
    using Cons.prems(2) by (auto simp: best_step_def zero_cat_def)
  note ih = Cons.IH[OF _ b(1)]
  have "\<forall>x \<in> set (d # ds) \<union> {b}. ctDetected x \<longrightarrow> ctDetected (foldl best_step ?b ds) \<and> ctConfidence x \<le> ctConfidence (foldl best_step ?b ds)"
    using ih ge Cons.prems(1) by (auto intro: order_trans)
  then show ?case using ih b(2) Cons.prems(1) by auto
qed auto

lemma pick_fold_in: "foldl pick_step b cs \<in> insert b (set cs)"
proof (induction cs arbitrary: b)
  case (Cons c cs)
  have "pick_step b c \<in> {b, c}" by (simp add: pick_step_def)
  then show ?case using Cons[of "pick_step b c"] by auto
qed simp

lemma pick_fold:
  "\<exists>c \<in> set cs. ctDetected c \<and> ctConfidence c > ctConfidence b \<Longrightarrow> foldl pick_step b cs \<in> set cs"
proof (induction cs arbitrary: b)
  case (Cons c cs)
  show ?case
  proof (cases "ctDetected c \<and> ctConfidence c > ctConfidence b")
    case True
    then have "pick_step b c = c" by (simp add: pick_step_def)
    then show ?thesis using pick_fold_in[of c cs] by simp
  next
    case False
    then have "pick_step b c = b" by (auto simp: pick_step_def)
    then show ?thesis using Cons False by auto
  qed
qed simp

text \<open>A result with a detected, named category of positive confidence becomes a violation.\<close>

lemma violation_reported:
  assumes "csViolated res" and "\<forall>c \<in> set (csCategories res). ctCategory c \<noteq> []"
    and "c \<in> set (csCategories res)" and "ctDetected c" and "0 < ctConfidence c"
  shows "\<exists>v. classificationToViolation G e t res phase = Some v"
proof -
  have "pick_best (csCategories res) \<in> set (csCategories res)"
    unfolding pick_best_def using assms(3-5) by (intro pick_fold) (auto simp: zero_cat_def)
  then show ?thesis using assms(1-3) by (auto simp: classificationToViolation_def Let_def)
qed

lemma highest_in:
  assumes "dets \<noteq> []"
  shows "highest dets \<in> set dets"
proof -
  have "foldl (\<lambda>b d. if ctConfidence d > ctConfidence b then d else b) b xs \<in> insert b (set xs)" for b and xs :: "CategoryResult list"
    by (induction xs arbitrary: b) auto
  from this[of "hd dets" dets] show ?thesis using hd_in_set[OF assms] by (auto simp: highest_def)
qed

lemma fold_append_mono:
  assumes "\<And>k cs. set cs \<subseteq> set (f k cs)" and "\<And>k cs. k \<in> set ks \<Longrightarrow> set (f k cs) \<subseteq> set cs \<union> B"
  shows "set cs \<subseteq> set (fold f ks cs) \<and> set (fold f ks cs) \<subseteq> set cs \<union> B"
  using assms(2)
proof (induction ks arbitrary: cs)
  case (Cons k ks)
  have "set cs \<subseteq> set (f k cs)" "set (f k cs) \<subseteq> set cs \<union> B" using assms(1) Cons.prems by auto
  moreover have "set (f k cs) \<subseteq> set (fold f ks (f k cs)) \<and> set (fold f ks (f k cs)) \<subseteq> set (f k cs) \<union> B"
    using Cons by simp
  ultimately show ?case by auto
qed simp

lemma merged_categories:
  assumes "set (ord2 (categories loc ext)) = set (categories loc ext)"
  shows "set (map (snd \<circ> judge_cat cfg loc ext) (filter (fst \<circ> judge_cat cfg loc ext) (ord1 (categories loc ext))))
      \<subseteq> set (csCategories (mergeResults cfg ord1 ord2 loc ext))"
    and "set (csCategories (mergeResults cfg ord1 ord2 loc ext)) \<subseteq>
      set (map (snd \<circ> judge_cat cfg loc ext) (filter (fst \<circ> judge_cat cfg loc ext) (ord1 (categories loc ext))))
      \<union> set (csCategories loc @ csCategories ext)"
proof -
  let ?all = "csCategories loc @ csCategories ext"
  let ?f = "\<lambda>k cs. if k \<in> set (map ctCategory cs) then cs else cs @ [highest (of_cat k ?all)]"
  have "set (?f k cs) \<subseteq> set cs \<union> set ?all" if "k \<in> set (ord2 (categories loc ext))" for k cs
  proof -
    have "k \<in> ctCategory ` set ?all" using that assms by (auto simp: categories_def)
    then have "of_cat k ?all \<noteq> []" unfolding of_cat_def by (metis (mono_tags) filter_empty_conv imageE)
    then have "highest (of_cat k ?all) \<in> set (of_cat k ?all)" by (rule highest_in)
    then have "highest (of_cat k ?all) \<in> set ?all" by (simp only: of_cat_def set_filter mem_Collect_eq)
    then show ?thesis by auto
  qed
  then have m: "set cs \<subseteq> set (fold ?f (ord2 (categories loc ext)) cs) \<and> set (fold ?f (ord2 (categories loc ext)) cs) \<subseteq> set cs \<union> set ?all" for cs
    by (intro fold_append_mono) auto
  have cs: "csCategories (mergeResults cfg ord1 ord2 loc ext) = fold ?f (ord2 (categories loc ext))
      (map (snd \<circ> judge_cat cfg loc ext) (filter (fst \<circ> judge_cat cfg loc ext) (ord1 (categories loc ext))))"
    by (simp add: mergeResults_def Let_def)
  show "set (map (snd \<circ> judge_cat cfg loc ext) (filter (fst \<circ> judge_cat cfg loc ext) (ord1 (categories loc ext))))
      \<subseteq> set (csCategories (mergeResults cfg ord1 ord2 loc ext))"
    unfolding cs using m by blast
  show "set (csCategories (mergeResults cfg ord1 ord2 loc ext)) \<subseteq>
      set (map (snd \<circ> judge_cat cfg loc ext) (filter (fst \<circ> judge_cat cfg loc ext) (ord1 (categories loc ext)))) \<union> set ?all"
    unfolding cs using m by blast
qed

lemma local_category:
  assumes "CheckInput G e g t text = Some v"
  shows "csViolated (violationToClassification (Some v) p)" "csProvider (violationToClassification (Some v) p) = p"
    "\<exists>c. csCategories (violationToClassification (Some v) p) = [c] \<and> ctDetected c \<and> 0 < ctConfidence c \<and> ctCategory c = gvRule v"
  by (simp_all add: violationToClassification_def Let_def)

subsection \<open>Properties\<close>

text \<open>With no external classifier the composite blocks an input exactly when the local rules
  flag it: too long, matching a rule of the phase, containing enabled personal data or one of the
  injection phrases. It never fails.\<close>

theorem input_guardrail_exact:
  assumes "rules_named cfg"
  shows "if input_flagged G (NewLocalGuardrail G cfg) input
    then \<exists>v. adapter_check G ce e (gateway_guardrail G e cfg None ccfg) True t input = Inr (Some v) \<and> gvTenantID v = t
    else adapter_check G ce e (gateway_guardrail G e cfg None ccfg) True t input = Inr None"
proof -
  let ?g = "NewLocalGuardrail G cfg"
  let ?res = "(violationToClassification (CheckInput G e ?g (gnTenant e) input) ''local'')\<lparr>csProvider := ''composite'', csLatencyMs := ceLatencyMs ce\<rparr>"
  have adapter: "adapter_check G ce e (gateway_guardrail G e cfg None ccfg) True t input = Inr (classificationToViolation G e t ?res ''input'')"
    by (simp add: adapter_check_def classify_def gateway_guardrail_def NewCompositeGuardrail_def local_classify_def Let_def)
  show ?thesis
  proof (cases "CheckInput G e ?g (gnTenant e) input")
    case None
    then show ?thesis
      using CheckInput_None[of G e ?g "gnTenant e" input]
      by (simp add: adapter violationToClassification_def classificationToViolation_def)
  next
    case (Some v)
    have "gvRule v \<noteq> []" using CheckInput_named[OF assms Some] .
    moreover obtain c where "csCategories (violationToClassification (Some v) ''local'') = [c]" "ctDetected c" "0 < ctConfidence c"
      "ctCategory c = gvRule v" using local_category(3)[OF Some] by blast
    ultimately have "\<exists>v'. classificationToViolation G e t ?res ''input'' = Some v'"
      using local_category(1)[OF Some, of "''local''"] unfolding Some by (intro violation_reported[where c = c]) simp_all
    moreover have "classificationToViolation G e t ?res ''input'' = Some v' \<Longrightarrow> gvTenantID v' = t" for v'
      by (auto simp: classificationToViolation_def Let_def split: if_splits)
    ultimately show ?thesis
      using CheckInput_None[of G e ?g "gnTenant e" input] Some by (auto simp: adapter)
  qed
qed

definition plain_guard_lib :: guard_lib where
  "plain_guard_lib = \<lparr> glCompiles = (\<lambda>p. True), glFind = (\<lambda>p s. if contains s p then Some p else None),
     glReplace = (\<lambda>p f s. s), glLower = (\<lambda>s. s), glFmt2 = (\<lambda>x. ''0.70'') \<rparr>"

definition demo_guard_cfg :: GuardrailsConfig where
  "demo_guard_cfg = \<lparr> gcEnabled = True, gcEmail = False, gcCreditCard = False, gcSSN = False, gcInjectionPatterns = [],
     gcMaxInputChars = 0, gcMaxOutputChars = 0,
     gcRules = [\<lparr> guName = ''bomb'', guType = ''wordlist'', guPattern = [], guWords = [''bomb''], guSeverity = ''warn'', guPhase = ''both'' \<rparr>] \<rparr>"

definition demo_guard_env :: guard_env where
  "demo_guard_env = \<lparr> gnID = zero_uuid, gnTenant = zero_uuid, gnNow = 0 \<rparr>"

definition demo_classify_env :: classify_env where
  "demo_classify_env = \<lparr> ceOrd1 = (\<lambda>ks. ks), ceOrd2 = (\<lambda>ks. ks), ceLatencyMs = 0 \<rparr>"

lemma demo_flagged: "input_flagged plain_guard_lib (NewLocalGuardrail plain_guard_lib demo_guard_cfg) ''a bomb''"
  by (simp add: input_flagged_def rule_flagged_def NewLocalGuardrail_def demo_guard_cfg_def compile_rule_def rule_match_def
      plain_guard_lib_def contains_def findSubstring_def upt_rec)

theorem input_guardrail_exact_witness:
  "\<exists>v. adapter_check plain_guard_lib demo_classify_env demo_guard_env
     (gateway_guardrail plain_guard_lib demo_guard_env demo_guard_cfg None DefaultCompositeConfig) True zero_uuid ''a bomb'' = Inr (Some v)"
proof -
  have "rules_named demo_guard_cfg" by (simp add: rules_named_def demo_guard_cfg_def)
  from input_guardrail_exact[OF this, of plain_guard_lib "''a bomb''" demo_classify_env demo_guard_env DefaultCompositeConfig zero_uuid]
  show ?thesis using demo_flagged by auto
qed

text \<open>The verdict of a merge depends on the configured logic and the results of the two
  classifiers only, not on the order in which the map of categories is visited: some category is
  detected by one of them (\<open>any_violation\<close>), reported and detected by both (\<open>all_violation\<close>), or
  detected with a confidence that is not negative (\<open>weighted\<close>); any other logic never blocks.\<close>

theorem merge_verdict:
  assumes "csProvider loc \<noteq> []" and "csProvider ext \<noteq> []" and "\<And>ks. set (ord1 ks) = set ks"
  shows "csViolated (mergeResults cfg ord1 ord2 loc ext) \<longleftrightarrow>
    (\<exists>k. category_violated (cpMergeLogic cfg) (of_cat k (csCategories loc)) (of_cat k (csCategories ext)))"
proof -
  have j: "fst (judge_cat cfg loc ext k) = category_violated (cpMergeLogic cfg) (of_cat k (csCategories loc)) (of_cat k (csCategories ext))" for k
    using assms(1,2) by (simp add: judge_cat_def judge_violated)
  have "k \<in> set (categories loc ext)"
    if "category_violated (cpMergeLogic cfg) (of_cat k (csCategories loc)) (of_cat k (csCategories ext))" for k
    using that by (auto simp: category_violated_def categories_def of_cat_def filter_empty_conv split: if_splits)
  then show ?thesis
    using assms(3) j by (auto simp: mergeResults_def Let_def filter_empty_conv)
qed

definition demo_ext :: ClassificationResult where
  "demo_ext = \<lparr> csViolated = False, csCategories = [\<lparr> ctCategory = ''hate'', ctDetected = True, ctConfidence = 1/2, ctThreshold = 8/10 \<rparr>],
     csProvider = ''openai'', csModel = [], csLatencyMs = 0 \<rparr>"

theorem merge_verdict_witness:
  "csViolated (mergeResults DefaultCompositeConfig rev id (violationToClassification None ''local'') demo_ext)"
proof -
  have "category_violated (cpMergeLogic DefaultCompositeConfig) (of_cat ''hate'' (csCategories (violationToClassification None ''local'')))
      (of_cat ''hate'' (csCategories demo_ext))"
    by (simp add: category_violated_def DefaultCompositeConfig_def of_cat_def demo_ext_def)
  moreover have "csProvider (violationToClassification None ''local'') \<noteq> []" "csProvider demo_ext \<noteq> []"
    by (simp_all add: violationToClassification_def demo_ext_def)
  ultimately show ?thesis
    using merge_verdict[of "violationToClassification None ''local''" demo_ext rev DefaultCompositeConfig id] by auto
qed

end
