(* ===== verification/Middleware.thy ===== *)
theory Middleware
  imports DelegationMiddleware RateLimit AuditLog Sessions Guardrails
begin

text \<open>
  The other middlewares of \<open>src/internal/middleware\<close> (\<open>auth.go\<close>, \<open>tenant.go\<close>, \<open>audit.go\<close>,
  \<open>guardrails.go\<close>, \<open>hitl.go\<close>) and the chain of \<open>src/internal/api/router.go\<close> in which they stand
  before the chat handler, with the wiring of \<open>src/cmd/gateway/main.go\<close>. A handler is a
  function that acts on the gateway's state and answers with calls of its response writer.
\<close>

subsection \<open>Authentication\<close>

text \<open>\<open>strings.SplitN(s, " ", 2)\<close> with two parts, and \<open>strings.EqualFold\<close> with a text whose
  letters fold only to themselves.\<close>

definition split_space :: "string \<Rightarrow> (string \<times> string) option" where
  "split_space s = (let a = takeWhile (\<lambda>c. c \<noteq> CHR '' '') s in
     if length a = length s then None else Some (a, drop (Suc (length a)) s))"

definition ascii_lower :: "char \<Rightarrow> char" where
  "ascii_lower c = (let n = of_char c :: nat in if 65 \<le> n \<and> n \<le> 90 then char_of (n + 32) else c)"

definition equal_fold :: "string \<Rightarrow> string \<Rightarrow> bool" where
  "equal_fold a b = (map ascii_lower a = map ascii_lower b)"

record auth_ctx =
  axClaims :: "Claims option"
  axUserID :: "uuid option"
  axTenantID :: "uuid option"
  axRole :: "string option"
  axScopes :: "string list option"

definition empty_ctx :: auth_ctx where
  "empty_ctx = \<lparr> axClaims = None, axUserID = None, axTenantID = None, axRole = None, axScopes = None \<rparr>"

text \<open>A middleware passes the request on with a context, answers it with \<open>WriteError\<close>, or panics.\<close>

datatype 'c mw_result = Pass 'c | Reject nat go_error | Panic

definition claims_ctx :: "Claims \<Rightarrow> uuid \<Rightarrow> uuid \<Rightarrow> auth_ctx \<Rightarrow> auth_ctx" where
  "claims_ctx c userID tenantID ctx = ctx\<lparr>axClaims := Some c, axUserID := Some userID,
     axTenantID := (if clTenantID c \<noteq> [] then Some tenantID else axTenantID ctx),
     axRole := Some (clRole c), axScopes := Some (clScopes c)\<rparr>"

definition NewAuth :: "jwt_lib \<Rightarrow> AuthService option \<Rightarrow> time \<Rightarrow> string \<Rightarrow> auth_ctx \<Rightarrow> auth_ctx mw_result" where
  "NewAuth J svc now authHeader ctx =
     (if authHeader = [] then Reject 401 ErrUnauthorized
      else case split_space authHeader of
        None \<Rightarrow> Reject 401 ErrUnauthorized
      | Some (scheme, tokenString) \<Rightarrow>
          if \<not> equal_fold scheme ''Bearer'' then Reject 401 ErrUnauthorized
          else case svc of
            None \<Rightarrow> Panic
          | Some s \<Rightarrow> (case ParseAccessToken J s now tokenString of
              Inl _ \<Rightarrow> Reject 401 ErrUnauthorized
            | Inr c \<Rightarrow> (case ParseUUID (clUserID c) of
                Inl _ \<Rightarrow> Reject 401 ErrInvalidToken
              | Inr userID \<Rightarrow>
                  if clTenantID c \<noteq> [] then (case ParseUUID (clTenantID c) of
                    Inl _ \<Rightarrow> Reject 401 ErrInvalidToken
                  | Inr tenantID \<Rightarrow> Pass (claims_ctx c userID tenantID ctx))
                  else Pass (claims_ctx c userID zero_uuid ctx))))"

definition GetUserID :: "auth_ctx \<Rightarrow> uuid \<times> bool" where
  "GetUserID ctx = (case axUserID ctx of None \<Rightarrow> (zero_uuid, False) | Some u \<Rightarrow> (u, True))"

definition GetTenantID :: "auth_ctx \<Rightarrow> uuid \<times> bool" where
  "GetTenantID ctx = (case axTenantID ctx of None \<Rightarrow> (zero_uuid, False) | Some t \<Rightarrow> (t, True))"

subsection \<open>Tenant\<close>

text \<open>The query runs on the pool with the background context; the registry of tenants has no
  row-level security.\<close>

type_synonym tenant_table = "(uuid \<times> string) list"

definition tenant_status :: "pg_env \<Rightarrow> uuid \<Rightarrow> tenant_table \<Rightarrow> string result" where
  "tenant_status env tenantID ts = snd (stmt (env\<lparr>pgCtxErr := None\<rparr>) (\<lambda>ts. (ts, case map_of ts tenantID of
     None \<Rightarrow> Inl (pgNoRows env) | Some s \<Rightarrow> Inr s)) ts)"

definition NewTenant :: "pg_env \<Rightarrow> tenant_table \<Rightarrow> auth_ctx \<Rightarrow> auth_ctx mw_result" where
  "NewTenant env ts ctx = (case axTenantID ctx of
     None \<Rightarrow> Reject 401 ErrUnauthorized
   | Some tenantID \<Rightarrow> (case tenant_status env tenantID ts of
       Inl _ \<Rightarrow> Reject 404 ErrNotFound
     | Inr status \<Rightarrow> if status \<noteq> ''active'' then Reject 403 ErrForbidden
         else Pass (ctx\<lparr>axTenantID := Some tenantID\<rparr>)))"

subsection \<open>Human review\<close>

definition isHITLEndpoint :: "string \<Rightarrow> bool" where
  "isHITLEndpoint path = (length path \<ge> 9 \<and> take 9 path = ''/v1/reviews'')"

text \<open>The middleware logs, and passes every request on.\<close>

definition NewHITL :: "string \<Rightarrow> 'c \<Rightarrow> 'c mw_result" where
  "NewHITL path ctx = Pass ctx"

definition ExtractReviewToken :: "string \<Rightarrow> string \<Rightarrow> (string \<times> bool)" where
  "ExtractReviewToken header query = (if header \<noteq> [] then (header, True) else if query \<noteq> [] then (query, True) else ([], False))"

definition ValidateReviewToken :: "string \<Rightarrow> string \<Rightarrow> bool" where
  "ValidateReviewToken storedHash presentedToken = (\<not> length presentedToken < 32)"

text \<open>Nine characters never equal eleven: no path is recognised.\<close>

theorem no_hitl_endpoint: "\<not> isHITLEndpoint path"
proof -
  have "length (take 9 path) \<noteq> length ''/v1/reviews''" by simp
  then show ?thesis unfolding isHITLEndpoint_def by metis
qed

subsection \<open>Responses\<close>

text \<open>The calls a handler makes on its response writer; the status is the first one set, 200 if
  a body is written first or nothing at all.\<close>

datatype resp_call = WriteHeader nat | Write string

fun resp_status :: "resp_call list \<Rightarrow> nat" where
  "resp_status [] = 200"
| "resp_status (WriteHeader n # cs) = n"
| "resp_status (Write p # cs) = 200"

text \<open>\<open>auditResponseWriter\<close> remembers the last status that was set.\<close>

fun captured_status :: "nat \<Rightarrow> resp_call list \<Rightarrow> nat" where
  "captured_status n [] = n"
| "captured_status n (WriteHeader m # cs) = captured_status m cs"
| "captured_status n (Write p # cs) = captured_status n cs"

definition WriteError :: "nat \<Rightarrow> go_error \<Rightarrow> resp_call list" where
  "WriteError status err = [WriteHeader status, Write (''{'' @ dq @ ''error'' @ dq @ '':'' @ dq @ error_text err @ dq @ ''}'')]"

subsection \<open>Audit\<close>

record audit_mw_env =
  amPre :: pg_env
  amPost :: pg_env
  amPreID :: uuid
  amPostID :: uuid
  amStart :: time
  amEnd :: time
  amDurationMs :: int

definition http_event :: "uuid \<Rightarrow> uuid \<Rightarrow> string \<Rightarrow> string \<Rightarrow> string \<Rightarrow> string \<Rightarrow> time \<Rightarrow> string \<Rightarrow> AuditEvent" where
  "http_event tenantID userID meth path entity severity createdAt payload = \<lparr> aeID = zero_uuid, aeTenantID = tenantID, aeSeq = 0,
     aePrevHash = [], aeChainHash = [], aeActorUserID = Some userID, aeAction = meth @ '' '' @ path, aeEntityType = entity,
     aeEntityID = None, aePayload = payload, aeSeverity = severity, aeCreatedAt = createdAt \<rparr>"

definition status_severity :: "nat \<Rightarrow> string" where
  "status_severity n = (if n \<ge> 500 then AuditSeverityCritical else if n \<ge> 400 then AuditSeverityWarn else AuditSeverityInfo)"

definition response_payload :: "nat \<Rightarrow> int \<Rightarrow> string" where
  "response_payload status ms = ''{'' @ dq @ ''duration_ms'' @ dq @ '':'' @ int_text ms @ '','' @ dq @ ''status_code'' @ dq @ '':'' @ int_text (int status) @ ''}''"

text \<open>The state of the gateway the middlewares act on.\<close>

record gw_state =
  gsTenants :: tenant_table
  gsWorld :: world
  gsTats :: tat_store
  gsAudit :: audit_table
  gsViolations :: "GuardrailViolation list"

text \<open>A handler: None is a panic, which leaves the rest of every middleware around it out.\<close>

type_synonym 'x handler = "'x gw_state_scheme \<Rightarrow> 'x gw_state_scheme \<times> resp_call list option"

text \<open>An append with the background context whose error is only logged.\<close>

definition append_event :: "audit_lib \<Rightarrow> pg_env \<Rightarrow> uuid \<Rightarrow> AuditEvent \<Rightarrow> 'x gw_state_scheme \<Rightarrow> 'x gw_state_scheme" where
  "append_event L env i ev st = st\<lparr>gsAudit := fst (Append L (env\<lparr>pgCtxErr := None\<rparr>) i ev (gsAudit st))\<rparr>"

definition NewAudit :: "audit_lib \<Rightarrow> audit_mw_env \<Rightarrow> string \<Rightarrow> string \<Rightarrow> auth_ctx \<Rightarrow> 'x handler \<Rightarrow> 'x handler" where
  "NewAudit L e meth path ctx nxt st =
     (let tenantID = fst (GetTenantID ctx); userID = fst (GetUserID ctx);
          st1 = append_event L (amPre e) (amPreID e)
            (http_event tenantID userID meth path ''http_request'' AuditSeverityInfo (amStart e) ''{}'') st
      in case nxt st1 of
           (st2, None) \<Rightarrow> (st2, None)
         | (st2, Some calls) \<Rightarrow>
             let status = captured_status 200 calls in
             (append_event L (amPost e) (amPostID e)
                (http_event tenantID userID meth path ''http_response'' (status_severity status) (amEnd e)
                   (response_payload status (amDurationMs e))) st2,
              Some calls))"

subsection \<open>Guardrails\<close>

text \<open>The checker of the configuration, the repositories, and the encodings of a violation in
  the audit payload and in the answer.\<close>

record guard_mw =
  gmChecker :: "(bool \<Rightarrow> uuid \<Rightarrow> string \<Rightarrow> GuardrailViolation option result) option"
  gmViolationRepo :: "(GuardrailViolation \<Rightarrow> (GuardrailViolation list, GuardrailViolation) db_call) option"
  gmAuditRepo :: "audit_lib option"
  gmAuditEnv :: pg_env
  gmAuditID :: uuid
  gmPayload :: "GuardrailViolation \<Rightarrow> string"
  gmErrorBody :: "GuardrailViolation \<Rightarrow> string"

definition emitGuardrailAudit :: "guard_mw \<Rightarrow> uuid \<Rightarrow> GuardrailViolation \<Rightarrow> 'x gw_state_scheme \<Rightarrow> 'x gw_state_scheme" where
  "emitGuardrailAudit m tenantID v st = (case gmAuditRepo m of
     None \<Rightarrow> st
   | Some L \<Rightarrow> append_event L (gmAuditEnv m) (gmAuditID m) \<lparr> aeID = zero_uuid, aeTenantID = tenantID, aeSeq = 0, aePrevHash = [],
       aeChainHash = [], aeActorUserID = None, aeAction = ''guardrail.violation'', aeEntityType = ''guardrail_violation'',
       aeEntityID = None, aePayload = gmPayload m v,
       aeSeverity = (if gvSeverity v = ''critical'' then AuditSeverityCritical else AuditSeverityWarn),
       aeCreatedAt = gvCreatedAt v \<rparr> st)"

definition store_violation :: "guard_mw \<Rightarrow> GuardrailViolation \<Rightarrow> 'x gw_state_scheme \<Rightarrow> 'x gw_state_scheme \<times> GuardrailViolation" where
  "store_violation m v st = (case gmViolationRepo m of
     None \<Rightarrow> (st, v)
   | Some create \<Rightarrow> (case create v (gsViolations st) of
       (vs, Inl _) \<Rightarrow> (st\<lparr>gsViolations := vs\<rparr>, v)
     | (vs, Inr v') \<Rightarrow> (st\<lparr>gsViolations := vs\<rparr>, v')))"

text \<open>\<open>flushGuardrails\<close>: the texts that were checked, and the audit events.\<close>

definition flushGuardrails :: "guard_mw \<Rightarrow> uuid \<Rightarrow> string \<Rightarrow> 'x gw_state_scheme \<Rightarrow> 'x gw_state_scheme \<times> string list" where
  "flushGuardrails m tenantID output st = (case gmChecker m of
     None \<Rightarrow> (st, [])
   | Some check \<Rightarrow>
       if output = [] then (st, [])
       else (case check False tenantID output of
           Inl _ \<Rightarrow> (st, [output])
         | Inr None \<Rightarrow> (st, [output])
         | Inr (Some v) \<Rightarrow> (emitGuardrailAudit m tenantID (v\<lparr>gvTenantID := tenantID\<rparr>) st, [output])))"

text \<open>\<open>guardrailResponseWriter\<close>: the check runs when the status is written, on what was written
  before it. Every call goes on to the writer below unchanged.\<close>

fun guarded_writes :: "guard_mw \<Rightarrow> uuid \<Rightarrow> string \<Rightarrow> resp_call list \<Rightarrow> 'x gw_state_scheme \<Rightarrow> 'x gw_state_scheme \<times> string list" where
  "guarded_writes m tenantID body [] st = (st, [])"
| "guarded_writes m tenantID body (Write p # cs) st = guarded_writes m tenantID (body @ p) cs st"
| "guarded_writes m tenantID body (WriteHeader n # cs) st =
     (case flushGuardrails m tenantID body st of (st', checked) \<Rightarrow>
        apsnd (\<lambda>more. checked @ more) (guarded_writes m tenantID body cs st'))"

definition writeGuardrailError :: "guard_mw \<Rightarrow> GuardrailViolation \<Rightarrow> resp_call list" where
  "writeGuardrailError m v = [WriteHeader 400, Write (gmErrorBody m v)]"

text \<open>The middleware, given what reading the body yields.\<close>

definition NewGuardrails :: "guard_mw \<Rightarrow> string \<Rightarrow> auth_ctx \<Rightarrow> string result \<Rightarrow> 'x handler \<Rightarrow> 'x handler" where
  "NewGuardrails m path ctx body nxt st =
     (if path \<noteq> ''/v1/chat/completions'' then nxt st
      else case axTenantID ctx of
        None \<Rightarrow> nxt st
      | Some tenantID \<Rightarrow> (case body of
          Inl _ \<Rightarrow> nxt st
        | Inr input \<Rightarrow>
            let forward = (case nxt st of
                  (st', None) \<Rightarrow> (st', None)
                | (st', Some calls) \<Rightarrow> (fst (guarded_writes m tenantID [] calls st'), Some calls))
            in case gmChecker m of
                 None \<Rightarrow> forward
               | Some check \<Rightarrow> (case check True tenantID input of
                   Inl _ \<Rightarrow> forward
                 | Inr None \<Rightarrow> forward
                 | Inr (Some v) \<Rightarrow> (case store_violation m (v\<lparr>gvTenantID := tenantID\<rparr>) st of
                     (st', v') \<Rightarrow> (emitGuardrailAudit m tenantID v' st', Some (writeGuardrailError m v'))))))"

text \<open>The audit event of a flush takes effect where the status is written; the model runs the
  flushes after the handler, which matters only to the order of the audit events.\<close>

subsection \<open>The chain\<close>

text \<open>What a request is, and everything it meets on its way.\<close>

record http_request =
  hqAuthorization :: string
  hqMethod :: string
  hqPath :: string
  hqBody :: "string result"
  hqNow :: time

record gw_env =
  geJwt :: jwt_lib
  geService :: AuthService
  geTenantEnv :: pg_env
  geDelegationEnv :: pg_env
  geLink :: redis_link
  geFailOpen :: bool
  geRlEnvs :: "nat \<Rightarrow> rl_env"
  geQuotaEnvs :: "nat \<Rightarrow> quota_env"
  geQuotas :: quota_table
  geAuditLib :: audit_lib
  geAuditEnv :: audit_mw_env
  geGuard :: guard_mw

text \<open>Nothing before the delegation middleware puts a grant into the context.\<close>

definition delegation_ctx :: "auth_ctx \<Rightarrow> req_ctx" where
  "delegation_ctx ctx = \<lparr> cxTenantID = axTenantID ctx, cxUserID = axUserID ctx, cxScopes = axScopes ctx,
     cxGrant = None, cxRootGrant = None, cxAncestors = None \<rparr>"

definition rate_limit :: "gw_env \<Rightarrow> auth_ctx \<Rightarrow> 'x gw_state_scheme \<Rightarrow> tat_store \<times> rl_outcome" where
  "rate_limit e ctx st = NewRateLimit (gateway_ratelimit (geFailOpen e) (geRlEnvs e) (geQuotaEnvs e) (geQuotas e))
     (axTenantID ctx) (axUserID ctx) (gsTats st)"

definition after_limit :: "gw_env \<Rightarrow> http_request \<Rightarrow> auth_ctx \<Rightarrow> (auth_ctx \<Rightarrow> 'x handler) \<Rightarrow> 'x handler" where
  "after_limit e rq ctx h =
     NewAudit (geAuditLib e) (geAuditEnv e) (hqMethod rq) (hqPath rq) ctx
       (NewGuardrails (geGuard e) (hqPath rq) ctx (hqBody rq)
         (\<lambda>st. case NewHITL (hqPath rq) ctx of Pass c \<Rightarrow> h c st | Reject n err \<Rightarrow> (st, Some (WriteError n err)) | Panic \<Rightarrow> (st, None)))"

definition after_tenant :: "gw_env \<Rightarrow> http_request \<Rightarrow> auth_ctx \<Rightarrow> (auth_ctx \<Rightarrow> 'x handler) \<Rightarrow> 'x handler" where
  "after_tenant e rq ctx h st =
     (case gateway_delegation \<lparr> rqEnv = geDelegationEnv e, rqLink = geLink e, rqNow = hqNow rq, rqCtx = delegation_ctx ctx \<rparr> (gsWorld st) of
        (w, Error n err) \<Rightarrow> (st\<lparr>gsWorld := w\<rparr>, Some (WriteError n err))
      | (w, Next _) \<Rightarrow> (case rate_limit e ctx st of
          (tats, RL_error n err _) \<Rightarrow> (st\<lparr>gsWorld := w, gsTats := tats\<rparr>, Some (WriteError (nat n) err))
        | (tats, RL_next _) \<Rightarrow> after_limit e rq ctx h (st\<lparr>gsWorld := w, gsTats := tats\<rparr>)))"

definition chain :: "gw_env \<Rightarrow> http_request \<Rightarrow> (auth_ctx \<Rightarrow> 'x handler) \<Rightarrow> 'x handler" where
  "chain e rq h st = (case NewAuth (geJwt e) (Some (geService e)) (hqNow rq) (hqAuthorization rq) empty_ctx of
     Panic \<Rightarrow> (st, None)
   | Reject n err \<Rightarrow> (st, Some (WriteError n err))
   | Pass ctx \<Rightarrow> (case NewTenant (geTenantEnv e) (gsTenants st) ctx of
       Panic \<Rightarrow> (st, None)
     | Reject n err \<Rightarrow> (st, Some (WriteError n err))
     | Pass ctx' \<Rightarrow> after_tenant e rq ctx' h st))"

subsection \<open>What reaches a handler\<close>

lemma delegation_idle:
  "gateway_delegation \<lparr> rqEnv = env, rqLink = l, rqNow = now, rqCtx = delegation_ctx ctx \<rparr> w = (w, Next (delegation_ctx ctx))"
  by (simp add: gateway_delegation_def delegation_handler_def delegation_ctx_def split: option.split)

definition bearer :: "string \<Rightarrow> string option" where
  "bearer header = (case split_space header of
     None \<Rightarrow> None | Some (scheme, tok) \<Rightarrow> if equal_fold scheme ''Bearer'' then Some tok else None)"

lemma NewAuth_Pass:
  "NewAuth J (Some s) now header empty_ctx = Pass ctx \<longleftrightarrow>
   (\<exists>tok c u. bearer header = Some tok \<and> ParseAccessToken J s now tok = Inr c \<and> ParseUUID (clUserID c) = Inr u
     \<and> (if clTenantID c = [] then ctx = claims_ctx c u zero_uuid empty_ctx
        else \<exists>t. ParseUUID (clTenantID c) = Inr t \<and> ctx = claims_ctx c u t empty_ctx))"
proof -
  have "header = [] \<Longrightarrow> split_space header = None" by (simp add: split_space_def)
  then show ?thesis
    by (auto simp: NewAuth_def bearer_def split: option.splits sum.splits if_splits prod.splits)
qed

lemma NewAuth_no_panic: "NewAuth J (Some s) now header ctx \<noteq> Panic"
  by (auto simp: NewAuth_def split: option.splits sum.splits if_splits prod.splits)

text \<open>The conditions under which a request is let through.\<close>

definition identified :: "gw_env \<Rightarrow> http_request \<Rightarrow> Claims \<Rightarrow> uuid \<Rightarrow> uuid \<Rightarrow> bool" where
  "identified e rq c u t = (\<exists>tok. bearer (hqAuthorization rq) = Some tok
     \<and> ParseAccessToken (geJwt e) (geService e) (hqNow rq) tok = Inr c
     \<and> ParseUUID (clUserID c) = Inr u \<and> clTenantID c \<noteq> [] \<and> ParseUUID (clTenantID c) = Inr t)"

definition within_limits :: "gw_env \<Rightarrow> auth_ctx \<Rightarrow> 'x gw_state_scheme \<Rightarrow> bool" where
  "within_limits e ctx st = (case snd (rate_limit e ctx st) of RL_next _ \<Rightarrow> True | RL_error _ _ _ \<Rightarrow> False)"

definition input_blocked :: "gw_env \<Rightarrow> http_request \<Rightarrow> uuid \<Rightarrow> bool" where
  "input_blocked e rq t = (hqPath rq = ''/v1/chat/completions'' \<and> (case (gmChecker (geGuard e), hqBody rq) of
     (Some check, Inr input) \<Rightarrow> (case check True t input of Inr (Some _) \<Rightarrow> True | _ \<Rightarrow> False)
   | _ \<Rightarrow> False))"

definition request_admitted :: "gw_env \<Rightarrow> http_request \<Rightarrow> Claims \<Rightarrow> uuid \<Rightarrow> uuid \<Rightarrow> 'x gw_state_scheme \<Rightarrow> bool" where
  "request_admitted e rq c u t st = (identified e rq c u t
     \<and> tenant_status (geTenantEnv e) t (gsTenants st) = Inr ''active''
     \<and> within_limits e (claims_ctx c u t empty_ctx) st
     \<and> \<not> input_blocked e rq t)"

lemma claims_ctx_sel [simp]:
  "axTenantID (claims_ctx c u t empty_ctx) = (if clTenantID c \<noteq> [] then Some t else None)"
  "axUserID (claims_ctx c u t ctx) = Some u"
  by (simp_all add: claims_ctx_def empty_ctx_def)

lemma NewTenant_Pass:
  "NewTenant env ts ctx = Pass ctx' \<longleftrightarrow> ctx' = ctx \<and> (\<exists>t. axTenantID ctx = Some t \<and> tenant_status env t ts = Inr ''active'')"
  by (cases ctx) (auto simp: NewTenant_def split: option.splits sum.splits if_splits)

lemma chain_unidentified:
  assumes "\<nexists>c u t. identified e rq c u t \<and> tenant_status (geTenantEnv e) t (gsTenants st) = Inr ''active''"
  shows "chain e rq h st = chain e rq h' st"
proof (cases "NewAuth (geJwt e) (Some (geService e)) (hqNow rq) (hqAuthorization rq) empty_ctx")
  case (Pass ctx)
  then obtain tok c u where a: "bearer (hqAuthorization rq) = Some tok"
    "ParseAccessToken (geJwt e) (geService e) (hqNow rq) tok = Inr c" "ParseUUID (clUserID c) = Inr u"
    "if clTenantID c = [] then ctx = claims_ctx c u zero_uuid empty_ctx
     else \<exists>t. ParseUUID (clTenantID c) = Inr t \<and> ctx = claims_ctx c u t empty_ctx"
    using NewAuth_Pass by blast
  have "NewTenant (geTenantEnv e) (gsTenants st) ctx \<noteq> Pass ctx'" for ctx'
    using assms a by (auto simp: NewTenant_Pass identified_def split: if_splits)
  then show ?thesis using Pass by (simp add: chain_def split: mw_result.split)
qed (simp_all add: chain_def)

lemma identified_unique:
  "identified e rq c u t \<Longrightarrow> identified e rq c' u' t' \<Longrightarrow> c' = c \<and> u' = u \<and> t' = t"
  by (auto simp: identified_def)

lemma chain_identified:
  assumes "identified e rq c u t" and "tenant_status (geTenantEnv e) t (gsTenants st) = Inr ''active''"
  shows "chain e rq h st = (case rate_limit e (claims_ctx c u t empty_ctx) st of
     (tats, RL_error n err _) \<Rightarrow> (st\<lparr>gsTats := tats\<rparr>, Some (WriteError (nat n) err))
   | (tats, RL_next _) \<Rightarrow> after_limit e rq (claims_ctx c u t empty_ctx) h (st\<lparr>gsTats := tats\<rparr>))"
proof -
  have "NewAuth (geJwt e) (Some (geService e)) (hqNow rq) (hqAuthorization rq) empty_ctx = Pass (claims_ctx c u t empty_ctx)"
    using assms(1) by (auto simp: NewAuth_Pass identified_def)
  moreover have "NewTenant (geTenantEnv e) (gsTenants st) (claims_ctx c u t empty_ctx) = Pass (claims_ctx c u t empty_ctx)"
    using assms by (auto simp: NewTenant_Pass identified_def)
  moreover have "st\<lparr>gsWorld := gsWorld st, gsTats := x\<rparr> = st\<lparr>gsTats := x\<rparr>" for x by simp
  ultimately show ?thesis by (simp add: chain_def after_tenant_def delegation_idle)
qed

lemma append_event_frame [simp]:
  "gsWorld (append_event L env i ev st) = gsWorld st" "gsTenants (append_event L env i ev st) = gsTenants st"
  "gsTats (append_event L env i ev st) = gsTats st" "gw_state.more (append_event L env i ev st) = gw_state.more st"
  "gsViolations (append_event L env i ev st) = gsViolations st"
  by (simp_all add: append_event_def)

lemma snd_NewAudit: "\<exists>st1. gsWorld st1 = gsWorld st \<and> gsTenants st1 = gsTenants st \<and> gsTats st1 = gsTats st
    \<and> gw_state.more st1 = gw_state.more st \<and> snd (NewAudit L e meth path ctx nxt st) = snd (nxt st1)"
proof -
  let ?st1 = "append_event L (amPre e) (amPreID e)
    (http_event (fst (GetTenantID ctx)) (fst (GetUserID ctx)) meth path ''http_request'' AuditSeverityInfo (amStart e) ''{}'') st"
  have "snd (NewAudit L e meth path ctx nxt st) = snd (nxt ?st1)"
    by (simp add: NewAudit_def Let_def split: prod.split option.split)
  then show ?thesis by (intro exI[of _ ?st1]) simp
qed

lemma snd_NewGuardrails:
  assumes "axTenantID ctx = Some t"
  shows "snd (NewGuardrails (geGuard e) (hqPath rq) ctx (hqBody rq) nxt st) =
    (if input_blocked e rq t then Some (writeGuardrailError (geGuard e)
        (snd (store_violation (geGuard e) ((the (projr (the (gmChecker (geGuard e)) True t (projr (hqBody rq)))))\<lparr>gvTenantID := t\<rparr>) st)))
     else snd (nxt st))"
  using assms by (auto simp: NewGuardrails_def input_blocked_def Let_def split: sum.split option.split prod.split)

lemma NewGuardrails_blocked:
  assumes "axTenantID ctx = Some t" and "input_blocked e rq t"
  shows "NewGuardrails (geGuard e) (hqPath rq) ctx (hqBody rq) nxt = NewGuardrails (geGuard e) (hqPath rq) ctx (hqBody rq) nxt'"
  using assms by (auto simp: NewGuardrails_def input_blocked_def Let_def fun_eq_iff split: sum.splits option.splits)

lemma after_limit_blocked:
  assumes "axTenantID ctx = Some t" and "input_blocked e rq t"
  shows "after_limit e rq ctx h = after_limit e rq ctx h'"
  unfolding after_limit_def by (rule arg_cong[OF NewGuardrails_blocked[OF assms]])

lemma after_limit_answer:
  assumes "axTenantID ctx = Some t"
  shows "if input_blocked e rq t then \<exists>calls. snd (after_limit e rq ctx h st) = Some calls \<and> resp_status calls = 400
         else \<exists>st1. gsWorld st1 = gsWorld st \<and> gsTats st1 = gsTats st \<and> gw_state.more st1 = gw_state.more st \<and> snd (after_limit e rq ctx h st) = snd (h ctx st1)"
proof -
  obtain st1 where "gsWorld st1 = gsWorld st" "gsTats st1 = gsTats st" "gw_state.more st1 = gw_state.more st"
    "snd (after_limit e rq ctx h st) = snd (NewGuardrails (geGuard e) (hqPath rq) ctx (hqBody rq) (\<lambda>st. h ctx st) st1)"
    unfolding after_limit_def NewHITL_def mw_result.case using snd_NewAudit by blast
  then show ?thesis
    by (cases "input_blocked e rq t") (auto simp: snd_NewGuardrails[OF assms] writeGuardrailError_def)
qed

lemma check_loop_codes:
  "snd (check_loop cfg t cost ds bs st) = RL_error n err hs \<Longrightarrow> n = 500 \<or> n = 429"
  by (induction cfg t cost ds bs st rule: check_loop.induct)
     (auto split: if_splits sum.splits prod.splits simp: Let_def)

lemma rate_limit_codes: "snd (rate_limit e ctx st) = RL_error n err hs \<Longrightarrow> n \<in> {401, 429, 500}"
  by (auto simp: rate_limit_def NewRateLimit_def Let_def dest: check_loop_codes split: option.splits if_splits)

lemma NewAuth_Reject: "NewAuth J s now header ctx = Reject n err \<Longrightarrow> n = 401"
  by (auto simp: NewAuth_def split: option.splits sum.splits if_splits prod.splits)

lemma NewTenant_Reject: "NewTenant env ts ctx = Reject n err \<Longrightarrow> n \<in> {401, 403, 404}"
  by (auto simp: NewTenant_def split: option.splits sum.splits if_splits)

lemma NewTenant_no_panic: "NewTenant env ts ctx \<noteq> Panic"
  by (auto simp: NewTenant_def split: option.splits sum.splits if_splits)

lemma resp_status_WriteError [simp]: "resp_status (WriteError n err) = n"
  by (simp add: WriteError_def)

lemma chain_unidentified_status:
  assumes "\<nexists>c u t. identified e rq c u t \<and> tenant_status (geTenantEnv e) t (gsTenants st) = Inr ''active''"
  shows "\<exists>calls. chain e rq h st = (st, Some calls) \<and> resp_status calls \<in> {401, 403, 404}"
proof (cases "NewAuth (geJwt e) (Some (geService e)) (hqNow rq) (hqAuthorization rq) empty_ctx")
  case (Pass ctx)
  show ?thesis
  proof (cases "NewTenant (geTenantEnv e) (gsTenants st) ctx")
    case pass: (Pass ctx')
    then have t: "ctx' = ctx" "\<exists>t. axTenantID ctx = Some t \<and> tenant_status (geTenantEnv e) t (gsTenants st) = Inr ''active''"
      using NewTenant_Pass by blast+
    obtain tok c u where a: "bearer (hqAuthorization rq) = Some tok"
      "ParseAccessToken (geJwt e) (geService e) (hqNow rq) tok = Inr c" "ParseUUID (clUserID c) = Inr u"
      "if clTenantID c = [] then ctx = claims_ctx c u zero_uuid empty_ctx
       else \<exists>t. ParseUUID (clTenantID c) = Inr t \<and> ctx = claims_ctx c u t empty_ctx"
      using Pass NewAuth_Pass by blast
    then show ?thesis using assms t(2) by (auto simp: identified_def split: if_splits)
  next
    case (Reject n err)
    then show ?thesis using Pass NewTenant_Reject[OF Reject] by (simp add: chain_def)
  qed (simp add: NewTenant_no_panic)
qed (auto simp: chain_def NewAuth_no_panic dest: NewAuth_Reject)

lemma admission_identified:
  assumes i: "identified e rq c u t" "tenant_status (geTenantEnv e) t (gsTenants st) = Inr ''active''"
  shows "if request_admitted e rq c u t st
   then \<exists>st1. gsWorld st1 = gsWorld st \<and> gsTats st1 = fst (rate_limit e (claims_ctx c u t empty_ctx) st) \<and> gw_state.more st1 = gw_state.more st
     \<and> snd (chain e rq h st) = snd (h (claims_ctx c u t empty_ctx) st1)
   else (\<forall>h'. chain e rq h' st = chain e rq h st)
     \<and> (\<exists>calls. snd (chain e rq h st) = Some calls \<and> resp_status calls \<in> {400, 401, 403, 404, 429, 500})"
proof -
  let ?ctx = "claims_ctx c u t empty_ctx"
  have tn: "axTenantID ?ctx = Some t" using i(1) by (auto simp: identified_def)
  obtain tats o1 where rl: "rate_limit e ?ctx st = (tats, o1)" by fastforce
  show ?thesis
  proof (cases o1)
    case (RL_error n err hs)
    then have "n \<in> {401, 429, 500}" using rl rate_limit_codes[of e ?ctx st n err hs] by simp
    moreover have "\<not> request_admitted e rq c u t st" using rl RL_error by (simp add: request_admitted_def within_limits_def)
    ultimately show ?thesis using rl RL_error chain_identified[OF i] by auto
  next
    case (RL_next hs)
    then have eq: "chain e rq h' st = after_limit e rq ?ctx h' (st\<lparr>gsTats := tats\<rparr>)" for h'
      using rl chain_identified[OF i] by simp
    have a: "request_admitted e rq c u t st \<longleftrightarrow> \<not> input_blocked e rq t"
      using i rl RL_next by (simp add: request_admitted_def within_limits_def)
    note ans = after_limit_answer[OF tn, of e rq h "st\<lparr>gsTats := tats\<rparr>"]
    show ?thesis
    proof (cases "input_blocked e rq t")
      case True
      have "chain e rq h' st = chain e rq h st" for h' unfolding eq using after_limit_blocked[OF tn True] by metis
      then show ?thesis using ans True eq a by auto
    next
      case False
      then show ?thesis using ans eq a rl by auto
    qed
  qed
qed

text \<open>C3: The whole chain before the chat handler, in the order of the router, decides as its
  conditions say. A request whose bearer token is accepted at this moment and names a user and an
  active tenant, which is within its rate limits and whose body no guardrail blocks, gets the
  answer of the handler, run with the token's identity. Any other request gets an error answer, and what it is answered and does
  to the state does not depend on the handler: the handler is not run.\<close>

theorem request_admission:
  "if \<exists>c u t. request_admitted e rq c u t st
   then \<exists>c u t st1. request_admitted e rq c u t st \<and> gsWorld st1 = gsWorld st
     \<and> gsTats st1 = fst (rate_limit e (claims_ctx c u t empty_ctx) st) \<and> gw_state.more st1 = gw_state.more st
     \<and> snd (chain e rq h st) = snd (h (claims_ctx c u t empty_ctx) st1)
   else (\<forall>h'. chain e rq h' st = chain e rq h st)
     \<and> (\<exists>calls. snd (chain e rq h st) = Some calls \<and> resp_status calls \<in> {400, 401, 403, 404, 429, 500})"
proof (cases "\<exists>c u t. identified e rq c u t \<and> tenant_status (geTenantEnv e) t (gsTenants st) = Inr ''active''")
  case False
  have no: "\<nexists>c u t. request_admitted e rq c u t st" using False by (auto simp: request_admitted_def)
  show ?thesis
    unfolding if_not_P[OF no] using chain_unidentified[OF False] chain_unidentified_status[OF False, of h]
    by fastforce
next
  case True
  then obtain c u t where i: "identified e rq c u t" "tenant_status (geTenantEnv e) t (gsTenants st) = Inr ''active''"
    by blast
  note here = admission_identified[OF i, of h]
  show ?thesis
  proof (cases "request_admitted e rq c u t st")
    case True
    then show ?thesis using here by auto
  next
    case False
    have "\<nexists>c u t. request_admitted e rq c u t st"
    proof
      assume "\<exists>c u t. request_admitted e rq c u t st"
      then obtain c' u' t' where a: "request_admitted e rq c' u' t' st" by blast
      then have "c' = c" "u' = u" "t' = t" using identified_unique[OF i(1), of c' u' t'] by (simp_all add: request_admitted_def)
      then show False using a False by simp
    qed
    then show ?thesis using here False by simp
  qed
qed

text \<open>The response of a handler that writes its status before its body passes the output
  guardrail unseen: nothing is checked and nothing is recorded, whatever the checker.\<close>

lemma guarded_writes_body: "guarded_writes m t body (map Write ws) st = (st, [])"
  by (induction ws arbitrary: body) auto

theorem output_guardrail_inert: "guarded_writes m t [] (map WriteHeader hs @ map Write ws) st = (st, [])"
  by (induction hs arbitrary: st) (auto simp: flushGuardrails_def guarded_writes_body split: option.split)

text \<open>With \<open>fail_closed\<close> an unavailable external classifier turns the check into an error, on
  which the middleware forwards the request: even one the local guardrail flags.\<close>

theorem fail_closed_lets_through:
  assumes "cpFailBehavior ccfg = ''fail_closed''" and "cpSendContentExternal ccfg" and "isl (ext True input)"
    and "gmChecker m = Some (\<lambda>isInput t x. adapter_check G ce g (gateway_guardrail G g cfg (Some ext) ccfg) isInput t x)"
  shows "snd (NewGuardrails m path ctx (Inr input) nxt st) = snd (nxt st)"
proof -
  obtain x where x: "ext True input = Inl x" using assms(3) by (auto simp: isl_def)
  have "adapter_check G ce g (gateway_guardrail G g cfg (Some ext) ccfg) True t input = Inl ErrExternalClassifierUnavailable" for t
    using assms(1,2) x by (simp add: adapter_check_def classify_def gateway_guardrail_def NewCompositeGuardrail_def
        on_external_failure_def local_classify_def Let_def)
  then show ?thesis
    using assms(4) by (simp add: NewGuardrails_def Let_def split: option.split prod.split)
qed

text \<open>Handlers that register the authentication middleware without a service panic on every
  bearer token.\<close>

theorem unconfigured_auth_panics:
  "NewAuth J None now ''Bearer x'' ctx = Panic"
  by (simp add: NewAuth_def split_space_def equal_fold_def)

subsection \<open>Stopped or handled\<close>

text \<open>What the chain does to the part of the state that is the handler's own.\<close>

lemma more_emit [simp]: "gw_state.more (emitGuardrailAudit m t v st) = gw_state.more st"
  by (simp add: emitGuardrailAudit_def split: option.split)

lemma more_flush [simp]: "gw_state.more (fst (flushGuardrails m t out st)) = gw_state.more st"
  by (simp add: flushGuardrails_def split: option.split sum.split)

lemma more_writes [simp]: "gw_state.more (fst (guarded_writes m t body cs st)) = gw_state.more st"
proof (induction cs arbitrary: body st)
  case (Cons c cs)
  show ?case
  proof (cases c)
    case (WriteHeader n)
    obtain st1 out where f: "flushGuardrails m t body st = (st1, out)" by fastforce
    then have "gw_state.more st1 = gw_state.more st" using more_flush[of m t body st] by simp
    then show ?thesis using Cons WriteHeader f by simp
  qed (simp add: Cons)
qed simp

lemma more_NewGuardrails:
  "(snd (NewGuardrails m path ctx body nxt st) \<noteq> None \<and> resp_status (the (snd (NewGuardrails m path ctx body nxt st))) = 400
      \<and> gw_state.more (fst (NewGuardrails m path ctx body nxt st)) = gw_state.more st)
   \<or> (snd (NewGuardrails m path ctx body nxt st) = snd (nxt st)
      \<and> gw_state.more (fst (NewGuardrails m path ctx body nxt st)) = gw_state.more (fst (nxt st)))"
proof -
  have "gw_state.more (fst (store_violation m v st)) = gw_state.more st" for v
    by (simp add: store_violation_def split: option.split prod.split sum.split)
  then show ?thesis
    by (simp add: NewGuardrails_def Let_def case_prod_beta writeGuardrailError_def split: option.split sum.split)
qed

lemma more_NewAudit:
  "\<exists>st1. gw_state.more st1 = gw_state.more st \<and> snd (NewAudit L e meth path ctx nxt st) = snd (nxt st1)
     \<and> gw_state.more (fst (NewAudit L e meth path ctx nxt st)) = gw_state.more (fst (nxt st1))"
proof -
  let ?st1 = "append_event L (amPre e) (amPreID e)
    (http_event (fst (GetTenantID ctx)) (fst (GetUserID ctx)) meth path ''http_request'' AuditSeverityInfo (amStart e) ''{}'') st"
  have "snd (NewAudit L e meth path ctx nxt st) = snd (nxt ?st1)"
    "gw_state.more (fst (NewAudit L e meth path ctx nxt st)) = gw_state.more (fst (nxt ?st1))"
    by (simp_all add: NewAudit_def Let_def split: prod.split option.split)
  then show ?thesis by (intro exI[of _ ?st1]) simp
qed

text \<open>A request either stops in the chain, or has the outcome of its handler.\<close>

definition stopped :: "'x gw_state_scheme \<Rightarrow> 'x gw_state_scheme \<times> resp_call list option \<Rightarrow> bool" where
  "stopped st out = (gw_state.more (fst out) = gw_state.more st
     \<and> (\<exists>calls. snd out = Some calls \<and> resp_status calls \<in> {400, 401, 403, 404, 429, 500}))"

definition handled :: "'x gw_state_scheme \<Rightarrow> (auth_ctx \<Rightarrow> 'x handler) \<Rightarrow> 'x gw_state_scheme \<times> resp_call list option \<Rightarrow> bool" where
  "handled st h out = (\<exists>ctx st1. gw_state.more st1 = gw_state.more st \<and> snd out = snd (h ctx st1)
     \<and> gw_state.more (fst out) = gw_state.more (fst (h ctx st1)))"

lemma after_limit_outcome: "stopped st (after_limit e rq ctx h st) \<or> handled st h (after_limit e rq ctx h st)"
proof -
  let ?g = "NewGuardrails (geGuard e) (hqPath rq) ctx (hqBody rq) (\<lambda>st. h ctx st)"
  obtain st1 where st1: "gw_state.more st1 = gw_state.more st" "snd (after_limit e rq ctx h st) = snd (?g st1)"
    "gw_state.more (fst (after_limit e rq ctx h st)) = gw_state.more (fst (?g st1))"
    unfolding after_limit_def NewHITL_def mw_result.case using more_NewAudit by blast
  from more_NewGuardrails[of "geGuard e" "hqPath rq" ctx "hqBody rq" "\<lambda>st. h ctx st" st1] show ?thesis
  proof
    assume "snd (?g st1) \<noteq> None \<and> resp_status (the (snd (?g st1))) = 400 \<and> gw_state.more (fst (?g st1)) = gw_state.more st1"
    then show ?thesis using st1 by (auto simp: stopped_def)
  next
    assume "snd (?g st1) = snd (h ctx st1) \<and> gw_state.more (fst (?g st1)) = gw_state.more (fst (h ctx st1))"
    then show ?thesis using st1 unfolding handled_def by metis
  qed
qed

lemma chain_outcome: "stopped st (chain e rq h st) \<or> handled st h (chain e rq h st)"
proof (cases "\<exists>c u t. identified e rq c u t \<and> tenant_status (geTenantEnv e) t (gsTenants st) = Inr ''active''")
  case False
  then show ?thesis using chain_unidentified_status[OF False, of h] by (auto simp: stopped_def)
next
  case True
  then obtain c u t where i: "identified e rq c u t" "tenant_status (geTenantEnv e) t (gsTenants st) = Inr ''active''" by blast
  obtain tats o1 where rl: "rate_limit e (claims_ctx c u t empty_ctx) st = (tats, o1)" by fastforce
  show ?thesis
  proof (cases o1)
    case (RL_error n err hs)
    then have "n \<in> {401, 429, 500}" using rl rate_limit_codes[of e "claims_ctx c u t empty_ctx" st n err hs] by simp
    then show ?thesis using chain_identified[OF i, of h] rl RL_error by (auto simp: stopped_def)
  next
    case (RL_next hs)
    then show ?thesis
      using chain_identified[OF i, of h] rl after_limit_outcome[of "st\<lparr>gsTats := tats\<rparr>" e rq "claims_ctx c u t empty_ctx" h]
      by (simp add: stopped_def handled_def)
  qed
qed

subsection \<open>The audit log under traffic\<close>

text \<open>The gateway serves requests, each in its own circumstances and with its own handler.\<close>

definition serve :: "(gw_env \<times> http_request \<times> (auth_ctx \<Rightarrow> 'x handler)) list \<Rightarrow> 'x gw_state_scheme \<Rightarrow> 'x gw_state_scheme" where
  "serve rs st = fold (\<lambda>(e, rq, h) st. fst (chain e rq h st)) rs st"

definition keeps_log :: "audit_lib \<Rightarrow> 'x handler \<Rightarrow> bool" where
  "keeps_log L h = (\<forall>st. audit_ok L (gsAudit st) \<longrightarrow> audit_ok L (gsAudit (fst (h st))))"

lemma keeps_logD: "keeps_log L h \<Longrightarrow> audit_ok L (gsAudit st) \<Longrightarrow> audit_ok L (gsAudit (fst (h st)))"
  by (simp add: keeps_log_def)

lemma append_event_ok: "json_stable L \<Longrightarrow> audit_ok L (gsAudit st) \<Longrightarrow> audit_ok L (gsAudit (append_event L env i ev st))"
  by (simp add: append_event_def audit_ok_Append)

lemma NewAudit_keeps_log:
  assumes "json_stable L" and "keeps_log L nxt"
  shows "keeps_log L (NewAudit L e meth path ctx nxt)"
  unfolding keeps_log_def
proof (intro allI impI)
  fix st :: "'a gw_state_scheme" assume ok: "audit_ok L (gsAudit st)"
  let ?st1 = "append_event L (amPre e) (amPreID e)
    (http_event (fst (GetTenantID ctx)) (fst (GetUserID ctx)) meth path ''http_request'' AuditSeverityInfo (amStart e) ''{}'') st"
  obtain st2 r where n: "nxt ?st1 = (st2, r)" by fastforce
  have "audit_ok L (gsAudit ?st1)" using assms(1) ok by (rule append_event_ok)
  then have "audit_ok L (gsAudit (fst (nxt ?st1)))" by (rule keeps_logD[OF assms(2)])
  then show "audit_ok L (gsAudit (fst (NewAudit L e meth path ctx nxt st)))"
    using n append_event_ok[OF assms(1)] by (cases r) (simp_all add: NewAudit_def Let_def)
qed

lemma emit_keeps_log:
  assumes "json_stable L" and "gmAuditRepo m \<in> {None, Some L}" and "audit_ok L (gsAudit st)"
  shows "audit_ok L (gsAudit (emitGuardrailAudit m t v st))"
  using assms by (auto simp: emitGuardrailAudit_def append_event_ok)

lemma flush_keeps_log:
  assumes "json_stable L" and "gmAuditRepo m \<in> {None, Some L}" and "audit_ok L (gsAudit st)"
  shows "audit_ok L (gsAudit (fst (flushGuardrails m t out st)))"
  using assms(3) emit_keeps_log[OF assms] by (simp add: flushGuardrails_def split: option.split sum.split)

lemma guarded_writes_keep_log:
  assumes "json_stable L" and "gmAuditRepo m \<in> {None, Some L}"
  shows "audit_ok L (gsAudit st) \<Longrightarrow> audit_ok L (gsAudit (fst (guarded_writes m t body cs st)))"
proof (induction cs arbitrary: body st)
  case (Cons c cs)
  show ?case
  proof (cases c)
    case (WriteHeader n)
    obtain st1 out where f: "flushGuardrails m t body st = (st1, out)" by fastforce
    then have "audit_ok L (gsAudit st1)" using flush_keeps_log[OF assms Cons.prems, of t body] by simp
    then show ?thesis using Cons.IH[of st1 body] WriteHeader f by simp
  qed (simp add: Cons)
qed simp

lemma NewGuardrails_keeps_log:
  assumes "json_stable L" and "gmAuditRepo m \<in> {None, Some L}" and "keeps_log L nxt"
  shows "keeps_log L (NewGuardrails m path ctx body nxt)"
  unfolding keeps_log_def
proof (intro allI impI)
  fix st :: "'a gw_state_scheme" assume ok: "audit_ok L (gsAudit st)"
  obtain st1 r where n: "nxt st = (st1, r)" by fastforce
  have st1: "audit_ok L (gsAudit st1)" using keeps_logD[OF assms(3) ok] n by simp
  note writes = guarded_writes_keep_log[OF assms(1,2) st1]
  have stored: "audit_ok L (gsAudit (fst (store_violation m v st)))" for v
    using ok by (simp add: store_violation_def split: option.split prod.split sum.split)
  have "audit_ok L (gsAudit (emitGuardrailAudit m t w (fst (store_violation m v st))))" for t v w
    using stored by (rule emit_keeps_log[OF assms(1,2)])
  then show "audit_ok L (gsAudit (fst (NewGuardrails m path ctx body nxt st)))"
    using n st1 writes by (simp add: NewGuardrails_def Let_def case_prod_beta split: option.split sum.split)
qed

lemma chain_keeps_log:
  assumes "json_stable L" and "geAuditLib e = L" and "gmAuditRepo (geGuard e) \<in> {None, Some L}" and "\<And>ctx. keeps_log L (h ctx)"
  shows "keeps_log L (chain e rq h)"
proof -
  have l: "keeps_log L (after_limit e rq ctx h)" for ctx
    unfolding after_limit_def assms(2)
    by (intro NewAudit_keeps_log NewGuardrails_keeps_log assms(1,3)) (simp add: NewHITL_def assms(4))
  have "keeps_log L (after_tenant e rq ctx h)" for ctx
    unfolding keeps_log_def after_tenant_def delegation_idle
    using keeps_logD[OF l] by (auto split: prod.split rl_outcome.split)
  then show ?thesis
    by (auto simp: keeps_log_def chain_def split: mw_result.split)
qed


subsection \<open>A request served\<close>

definition demo_guard_mw :: guard_mw where
  "demo_guard_mw = \<lparr> gmChecker = Some (\<lambda>isInput t x. Inr None), gmViolationRepo = None, gmAuditRepo = Some short_lib, gmAuditEnv = quiet_env,
     gmAuditID = zero_uuid, gmPayload = (\<lambda>v. ''{}''), gmErrorBody = (\<lambda>v. ''{}'') \<rparr>"

definition demo_gw_env :: gw_env where
  "demo_gw_env = \<lparr> geJwt = demo_jwt, geService = demo_service, geTenantEnv = quiet_env, geDelegationEnv = quiet_env, geLink = Link_up,
     geFailOpen = False, geRlEnvs = (\<lambda>i. demo_rl_env), geQuotaEnvs = (\<lambda>i. demo_quota_env), geQuotas = [],
     geAuditLib = short_lib, geAuditEnv = \<lparr> amPre = quiet_env, amPost = quiet_env, amPreID = zero_uuid, amPostID = zero_uuid,
       amStart = 0, amEnd = 1, amDurationMs = 0 \<rparr>, geGuard = demo_guard_mw \<rparr>"

definition demo_http_request :: http_request where
  "demo_http_request = \<lparr> hqAuthorization = ''Bearer t'', hqMethod = ''POST'', hqPath = ''/v1/chat/completions'', hqBody = Inr ''hi'', hqNow = 5 * sec \<rparr>"

definition demo_handler :: "auth_ctx \<Rightarrow> 'x handler" where
  "demo_handler ctx st = (st, Some [WriteHeader 200, Write ''ok''])"

definition demo_gw_state :: gw_state where
  "demo_gw_state = \<lparr> gsTenants = [(zero_uuid, ''active'')], gsWorld = \<lparr> wdGrants = [], wdBudgets = Map.empty \<rparr>, gsTats = Map.empty,
     gsAudit = [], gsViolations = [] \<rparr>"

lemma demo_serve_ok:
  "geAuditLib demo_gw_env = short_lib" "gmAuditRepo (geGuard demo_gw_env) = Some short_lib" "keeps_log L (demo_handler ctx)"
  "gsAudit demo_gw_state = []"
  by (simp_all add: demo_gw_env_def demo_guard_mw_def keeps_log_def demo_handler_def demo_gw_state_def)

abbreviation demo_registered :: Claims where
  "demo_registered \<equiv> registered demo_service 0 demo_claims"

lemma demo_claims_sel: "clUserID demo_registered = UUID_String zero_uuid" "clTenantID demo_registered = UUID_String zero_uuid"
  by (simp_all add: registered_def demo_claims_def user_claims_def)

lemma demo_parsed: "ParseAccessToken demo_jwt demo_service (5 * sec) ''t'' = Inr demo_registered"
  by (simp add: ParseAccessToken_def demo_jwt_def key_func_def demo_service_def NewAuthService_def GetVerificationKey_def NewKeyStore_def
      is_hmac_def claims_ok_def registered_def demo_claims_def user_claims_def NewNumericDate_def access_ttl_def sec_def)

lemma demo_bearer: "bearer ''Bearer t'' = Some ''t''"
  by (simp add: bearer_def split_space_def equal_fold_def)

lemma UUID_String_nonempty: "UUID_String u \<noteq> []"
  by (simp add: UUID_String_def)

lemma demo_identified: "identified demo_gw_env demo_http_request demo_registered zero_uuid zero_uuid"
  using demo_bearer demo_parsed by (simp add: identified_def demo_http_request_def demo_gw_env_def demo_claims_sel parse_string wf_uuid_def zero_uuid_def UUID_String_nonempty)

lemma demo_limits:
  "next_outcome (snd (NewRateLimit (gateway_ratelimit False (\<lambda>i. demo_rl_env) (\<lambda>i. demo_quota_env) []) (Some zero_uuid) (Some zero_uuid) Map.empty))"
proof -
  let ?c = "(\<lambda>i::nat. demo_rl_env, \<lambda>i::nat. demo_quota_env, Some zero_uuid)"
  have c: "burst_call [] zero_uuid 5 60 10000 30 ?c" using demo_burst_call by (simp add: burst_call_def)
  have "list_all (admits zero_uuid request_cost 5 Map.empty) (request_buckets 60 10000 30)"
    by (simp add: request_buckets_def minute_bucket_def admits_def level_def get_tat_def emission_def one_minute_def second_ns_def
        bucket_cost_def request_cost_def estimateTokenCost_def bucket_defs)
  then show ?thesis using burst_step[OF c _ _ _ prod.collapse[symmetric], of False Map.empty] by simp
qed

lemma demo_log:
  assumes "axTenantID ctx = Some zero_uuid" and "axUserID ctx = Some zero_uuid"
  shows "map (\<lambda>r. (auTenantID r, auEntityType r)) (gsAudit (fst (after_limit demo_gw_env demo_http_request ctx demo_handler (demo_gw_state\<lparr>gsTats := x\<rparr>))))
    = [(zero_uuid, Some ''http_request''), (zero_uuid, Some ''http_response'')]"
  using assms by (simp add: after_limit_def demo_gw_env_def demo_http_request_def NewAudit_def GetTenantID_def GetUserID_def NewGuardrails_def
      demo_guard_mw_def demo_handler_def NewHITL_def flushGuardrails_def Let_def) code_simp

lemma demo_served: "map (\<lambda>r. (auTenantID r, auEntityType r)) (gsAudit (serve [(demo_gw_env, demo_http_request, demo_handler)] demo_gw_state))
    = [(zero_uuid, Some ''http_request''), (zero_uuid, Some ''http_response'')]"
proof -
  let ?ctx = "claims_ctx demo_registered zero_uuid zero_uuid empty_ctx"
  have ax: "axTenantID ?ctx = Some zero_uuid" "axUserID ?ctx = Some zero_uuid" by (simp_all add: demo_claims_sel UUID_String_nonempty)
  have "tenant_status (geTenantEnv demo_gw_env) zero_uuid (gsTenants demo_gw_state) = Inr ''active''"
    by (simp add: tenant_status_def demo_gw_env_def demo_gw_state_def stmt_def quiet_env_def)
  note ch = chain_identified[OF demo_identified this, of demo_handler]
  have "next_outcome (snd (rate_limit demo_gw_env ?ctx demo_gw_state))"
    using demo_limits ax by (simp add: rate_limit_def demo_gw_env_def demo_gw_state_def)
  then have "\<exists>tats. fst (chain demo_gw_env demo_http_request demo_handler demo_gw_state)
      = fst (after_limit demo_gw_env demo_http_request ?ctx demo_handler (demo_gw_state\<lparr>gsTats := tats\<rparr>))"
    unfolding ch by (auto simp: next_outcome_def split: prod.split rl_outcome.splits)
  then show ?thesis using demo_log[OF ax] by (auto simp: serve_def)
qed


end
