(* ===== verification/ChatHandler.thy ===== *)
theory ChatHandler
  imports Middleware Orchestrator ToolStore
begin

text \<open>
  \<open>src/internal/api/handlers/chat.go\<close>: the handler of \<open>/v1/chat/completions\<close>, which decodes the
  request, validates the tools it declares against the registry, runs the chat use case and
  answers; and the whole endpoint, with the middleware chain of \<open>Middleware\<close> before it. Other
  requests change the tool registry and its cache while this one runs, so the store each lookup
  meets is an argument.
\<close>

subsection \<open>Requests and responses\<close>

text \<open>A \<open>json.RawMessage\<close> is its text, empty when the member is missing.\<close>

record ChatMessage =
  cmRole :: string
  cmContent :: string
  cmToolCalls :: string
  cmToolCallID :: string
  cmName :: string

record ChatCompletionRequest =
  ccModel :: string
  ccMessages :: "ChatMessage list"
  ccTemperature :: "float64 option"
  ccMaxTokens :: "int option"
  ccStream :: "bool option"
  ccTools :: string
  ccToolChoice :: "json option"
  ccUser :: string

record ChatCompletionChoice =
  cxIndex :: int
  cxMessage :: ChatMessage
  cxFinishReason :: string

record ChatCompletionResponse =
  crID :: string
  crObject :: string
  crCreated :: int
  crModel :: string
  crChoices :: "ChatCompletionChoice list"
  crUsage :: Usage
  crProvider :: string
  crCostUSD :: rat
  crLatencyMs :: int
  crRetried :: bool

text \<open>\<open>encoding/json\<close> on the types of this file. A nil and an empty list of tool calls are not
  told apart. \<open>hjTools\<close> is what unmarshalling leaves in the
  variable, whether or not it reports an error.\<close>

record chat_lib =
  hjDecode :: "string \<Rightarrow> ChatCompletionRequest option"
  hjTools :: "string \<Rightarrow> Tool list"
  hjCalls :: "string \<Rightarrow> ToolCall list option"
  hjParams :: "json option \<Rightarrow> string"
  hjMarshalCalls :: "ToolCall list \<Rightarrow> string"
  hjEncode :: "ChatCompletionResponse \<Rightarrow> string"
  hjError :: "string \<Rightarrow> string"

record 'c ChatHandlers =
  chLib :: chat_lib
  chToolLib :: tool_lib
  chUsecase :: ChatUsecase
  chToolRepo :: "'c cache_ops option"

text \<open>What one request meets: the servers and the store at the i-th lookup of the validation and
  at the k-th tool call, the model providers and the executor, and the time it takes.\<close>

record 'c chat_call =
  ccLookupEnv :: "nat \<Rightarrow> tool_env"
  ccLookupStore :: "nat \<Rightarrow> 'c tool_state"
  ccCallEnv :: "nat \<Rightarrow> tool_env"
  ccCallStore :: "nat \<Rightarrow> 'c tool_state"
  ccEnv :: chat_env
  ccLatency :: int

subsection \<open>Tool validation\<close>

definition parseToolCalls :: "chat_lib \<Rightarrow> string \<Rightarrow> ToolCall list" where
  "parseToolCalls J raw = (if raw = [] then [] else case hjCalls J raw of None \<Rightarrow> [] | Some calls \<Rightarrow> calls)"

definition request_hash :: "chat_lib \<Rightarrow> tool_lib \<Rightarrow> FunctionDef \<Rightarrow> string" where
  "request_hash J L fn = ComputeHash L (fdName fn) (fdDescription fn) (Some (hjParams J (fdParameters fn)))"

definition validated_tool :: "ToolDefinition \<Rightarrow> ValidatedTool" where
  "validated_tool def = \<lparr> vtName = tdName def, vtDescription = tdDescription def, vtInputSchema = tdInputSchema def,
     vtGrants = tdGrants def, vtExecutionTimeoutMs = tdExecutionTimeoutMs def, vtMemoryPages = tdMemoryPages def, vtHash = tdHash def \<rparr>"

definition validate_tool ::
  "chat_lib \<Rightarrow> tool_lib \<Rightarrow> (string \<Rightarrow> ToolDefinition result) \<Rightarrow> FunctionDef \<Rightarrow> ValidatedTool result" where
  "validate_tool J L lookup fn = (case lookup (fdName fn) of
     Inl err \<Rightarrow> if errors_is err ErrToolRepository then Inl err else Inl ErrToolNotFound
   | Inr def \<Rightarrow>
       if \<not> tdIsActive def then Inl ErrToolNotFound
       else if request_hash J L fn \<noteq> tdHash def then Inl ErrToolDefinitionMismatch
       else Inr (validated_tool def))"

text \<open>The loop; \<open>k\<close> numbers the lookups, \<open>acc\<close> is the slice built so far.\<close>

fun validate_loop ::
  "chat_lib \<Rightarrow> tool_lib \<Rightarrow> (nat \<Rightarrow> string \<Rightarrow> ToolDefinition result) \<Rightarrow> nat \<Rightarrow> ValidatedTool list \<Rightarrow> Tool list \<Rightarrow> ValidatedTool list result"
where
  "validate_loop J L lookup k acc [] = Inr acc"
| "validate_loop J L lookup k acc (t # ts) =
     (if tlType t \<noteq> ''function'' then validate_loop J L lookup k acc ts
      else case validate_tool J L (lookup k) (tlFunction t) of
        Inl err \<Rightarrow> Inl err
      | Inr vt \<Rightarrow> validate_loop J L lookup (Suc k) (acc @ [vt]) ts)"

definition validateTools ::
  "chat_lib \<Rightarrow> tool_lib \<Rightarrow> 'c cache_ops \<Rightarrow> 'c chat_call \<Rightarrow> uuid \<Rightarrow> Tool list \<Rightarrow> ValidatedTool list result" where
  "validateTools J L ops e tenantID tools =
     validate_loop J L (\<lambda>k name. snd (GetByName ops (ccLookupEnv e k) tenantID name (ccLookupStore e k))) 0 [] tools"

definition request_message :: "chat_lib \<Rightarrow> ChatMessage \<Rightarrow> Message" where
  "request_message J m = \<lparr> msRole = cmRole m, msContent = cmContent m, msToolCalls = parseToolCalls J (cmToolCalls m),
     msToolCallID = cmToolCallID m, msName = cmName m \<rparr>"

definition request_tools :: "chat_lib \<Rightarrow> ChatCompletionRequest \<Rightarrow> Tool list" where
  "request_tools J req = (if ccTools req = [] then [] else hjTools J (ccTools req))"

definition convertToUsecaseRequest ::
  "'c ChatHandlers \<Rightarrow> 'c chat_call \<Rightarrow> ChatCompletionRequest \<Rightarrow> uuid \<Rightarrow> uuid \<Rightarrow> UsecaseRequest result" where
  "convertToUsecaseRequest h e req tenantID userID =
     (let J = chLib h; tools = request_tools J req;
          build = (\<lambda>vts. \<lparr> urModel = ccModel req, urMessages = map (request_message J) (ccMessages req),
            urTemperature = ccTemperature req, urMaxTokens = ccMaxTokens req, urStream = (ccStream req = Some True),
            urTools = tools, urValidatedTools = vts, urToolChoice = ccToolChoice req,
            urUser = UUID_String userID, urTenantID = tenantID \<rparr>)
      in case chToolRepo h of
           None \<Rightarrow> Inr (build [])
         | Some ops \<Rightarrow> if tools = [] then Inr (build [])
             else (case validateTools J (chToolLib h) ops e tenantID tools of
               Inl err \<Rightarrow> Inl err | Inr vts \<Rightarrow> Inr (build vts)))"

subsection \<open>Answers\<close>

definition marshalToolCalls :: "chat_lib \<Rightarrow> ToolCall list \<Rightarrow> string" where
  "marshalToolCalls J calls = (if calls = [] then [] else hjMarshalCalls J calls)"

definition response_choice :: "chat_lib \<Rightarrow> Choice \<Rightarrow> ChatCompletionChoice" where
  "response_choice J c = \<lparr> cxIndex = chIndex c, cxMessage = \<lparr> cmRole = msRole (chMessage c), cmContent = msContent (chMessage c),
     cmToolCalls = marshalToolCalls J (msToolCalls (chMessage c)), cmToolCallID = msToolCallID (chMessage c), cmName = msName (chMessage c) \<rparr>,
     cxFinishReason = chFinishReason c \<rparr>"

text \<open>The zero value of a completion, for a response without one.\<close>

definition zero_response :: ModelResponse where
  "zero_response = \<lparr> rsID = [], rsObject = [], rsCreated = 0, rsModel = [], rsChoices = [],
     rsUsage = \<lparr> usPromptTokens = 0, usCompletionTokens = 0, usTotalTokens = 0 \<rparr>, rsSystemFingerprint = [] \<rparr>"

definition convertFromUsecaseResponse :: "chat_lib \<Rightarrow> int \<Rightarrow> UsecaseResponse \<Rightarrow> ChatCompletionResponse" where
  "convertFromUsecaseResponse J latency resp =
     (let r = (case upCompletion resp of None \<Rightarrow> zero_response | Some c \<Rightarrow> cpResponse c) in
      \<lparr> crID = rsID r, crObject = rsObject r, crCreated = rsCreated r, crModel = rsModel r,
        crChoices = map (response_choice J) (rsChoices r), crUsage = rsUsage r,
        crProvider = upProvider resp, crCostUSD = upCostUSD resp, crLatencyMs = latency, crRetried = upRetried resp \<rparr>)"

text \<open>\<open>mapError\<close> compares with \<open>==\<close>: a wrapped error is none of these.\<close>

definition mapError :: "go_error \<Rightarrow> nat" where
  "mapError err =
     (if err = ErrValidation then 400 else if err = ErrUnauthorized then 401 else if err = ErrForbidden then 403
      else if err = ErrNotFound then 404 else if err = ErrToolNotFound then 400 else if err = ErrToolDefinitionMismatch then 400
      else if err = ErrToolRepository then 503 else if err = ErrProviderRateLimited then 429
      else if err = ErrProviderTimeout then 504 else if err = ErrProviderUnavailable \<or> err = ErrNoHealthyProvider then 503
      else 500)"

definition writeError :: "chat_lib \<Rightarrow> nat \<Rightarrow> go_error \<Rightarrow> resp_call list" where
  "writeError J status err = [WriteHeader status, Write (hjError J (error_text err))]"

definition writeJSON :: "chat_lib \<Rightarrow> nat \<Rightarrow> ChatCompletionResponse \<Rightarrow> resp_call list" where
  "writeJSON J status resp = [WriteHeader status, Write (hjEncode J resp)]"

subsection \<open>The handler\<close>

text \<open>The gateway's state with the registry of model providers.\<close>

record chat_state = gw_state +
  ctRegistry :: ProviderRegistry

text \<open>During the tool loop the registry is asked again at every tool call.\<close>

definition usecase_env :: "'c ChatHandlers \<Rightarrow> 'c chat_call \<Rightarrow> chat_env" where
  "usecase_env h e = (ccEnv e)\<lparr>ceGetByName := (\<lambda>k tenantID name. case chToolRepo h of
     None \<Rightarrow> Inl ErrToolNotFound
   | Some ops \<Rightarrow> snd (GetByName ops (ccCallEnv e k) tenantID name (ccCallStore e k)))\<rparr>"

definition decode_request :: "'c ChatHandlers \<Rightarrow> string result \<Rightarrow> ChatCompletionRequest option" where
  "decode_request h body = (case body of Inl _ \<Rightarrow> None | Inr b \<Rightarrow> hjDecode (chLib h) b)"

text \<open>Everything before the use case: the request it gets, or the status and error answered.\<close>

definition prepare :: "'c ChatHandlers \<Rightarrow> 'c chat_call \<Rightarrow> string result \<Rightarrow> auth_ctx \<Rightarrow> (nat \<times> go_error) + UsecaseRequest" where
  "prepare h e body ctx = (case decode_request h body of
     None \<Rightarrow> Inl (400, ErrValidation)
   | Some req \<Rightarrow>
       if ccModel req = [] then Inl (400, ErrValidation)
       else if ccMessages req = [] then Inl (400, ErrValidation)
       else (case axTenantID ctx of
         None \<Rightarrow> Inl (401, ErrUnauthorized)
       | Some tenantID \<Rightarrow> (case convertToUsecaseRequest h e req tenantID (fst (GetUserID ctx)) of
           Inl err \<Rightarrow> Inl (mapError err, err)
         | Inr ureq \<Rightarrow> Inr ureq)))"

definition ChatCompletions :: "'c ChatHandlers \<Rightarrow> 'c chat_call \<Rightarrow> string result \<Rightarrow> auth_ctx \<Rightarrow> chat_state \<Rightarrow> chat_state \<times> resp_call list option" where
  "ChatCompletions h e body ctx st = (case prepare h e body ctx of
     Inl (status, err) \<Rightarrow> (st, Some (writeError (chLib h) status err))
   | Inr ureq \<Rightarrow> (case Complete (chUsecase h) (usecase_env h e) ureq (ctRegistry st) of
       None \<Rightarrow> (st, None)
     | Some (r, Inl err) \<Rightarrow> (st\<lparr>ctRegistry := r\<rparr>, Some (writeError (chLib h) (mapError err) err))
     | Some (r, Inr resp) \<Rightarrow> (st\<lparr>ctRegistry := r\<rparr>,
         Some (writeJSON (chLib h) 200 (convertFromUsecaseResponse (chLib h) (ccLatency e) resp)))))"

text \<open>The endpoint: the chain, then the handler on the body that was read.\<close>

definition chat_endpoint :: "gw_env \<Rightarrow> http_request \<Rightarrow> 'c ChatHandlers \<Rightarrow> 'c chat_call \<Rightarrow> chat_state \<Rightarrow> chat_state \<times> resp_call list option" where
  "chat_endpoint e rq h c = chain e rq (ChatCompletions h c (hqBody rq))"

subsection \<open>What a lookup answers\<close>

text \<open>Whatever fails on the way, a definition that a lookup yields is the active one of the table,
  if the cache holds nothing stale.\<close>

lemma db_lookup_active:
  assumes "db_lookup env t n s = (s', Inr d)"
  shows "active_def t n (tbTools (tsDb s)) = Some d"
proof -
  have "snd (WithTenantTx env t (GetByNameTx env t n) (tsDb s)) = Inr d"
    using assms by (auto simp: db_lookup_def in_tx_def split: prod.splits)
  then obtain db where "GetByNameTx env t n (Some t) (tsDb s) = (db, Inr d)"
    by (auto simp: WithTenantTx_def split: option.splits prod.splits sum.splits)
  then have "map_sum id convertSQLCToolDefinition (SqlGetToolDefinitionByName env (Some t) t n (tbTools (tsDb s))) = Inr d"
    by (auto simp: GetByNameTx_def stmt_def split: option.splits prod.splits sum.splits if_splits)
  moreover have "(\<lambda>r. tool_sees env (Some t) r \<and> named t n r \<and> toIsActive r) = (\<lambda>r. named t n r \<and> toIsActive r)"
    by (auto simp: tool_sees_def named_def rls_ok_def)
  ultimately show ?thesis
    by (auto simp: SqlGetToolDefinitionByName_def active_def_def split: option.splits)
qed

lemma GetByName_active:
  assumes "lawful_cache ops entries" and "coherent entries s" and "snd (GetByName ops e t n s) = Inr d"
  shows "active_def t n (tbTools (tsDb s)) = Some d"
proof -
  obtain s1 c where l: "cache_lookup ops (teNow e) t n s = (s1, c)" by fastforce
  note k = cache_lookup_coherent[OF assms(1,2) l]
  show ?thesis
  proof (cases c)
    case (Some x)
    then show ?thesis using k(3)[OF Some] assms(3) by (simp add: GetByName_def l)
  next
    case None
    then obtain s2 where "db_lookup (teRead e) t n s1 = (s2, Inr d)"
      using assms(3) by (auto simp: GetByName_def l split: prod.splits sum.splits)
    from db_lookup_active[OF this] show ?thesis using k(2) by simp
  qed
qed

subsection \<open>Which tools are validated\<close>

text \<open>The request declares the tool the way an active definition of the registry does.\<close>

definition declared ::
  "chat_lib \<Rightarrow> tool_lib \<Rightarrow> (nat \<Rightarrow> string \<Rightarrow> ToolDefinition result) \<Rightarrow> Tool list \<Rightarrow> ValidatedTool \<Rightarrow> bool" where
  "declared J L lookup ts vt = (\<exists>t \<in> set ts. \<exists>k def. tlType t = ''function'' \<and> lookup k (fdName (tlFunction t)) = Inr def
     \<and> tdIsActive def \<and> request_hash J L (tlFunction t) = tdHash def \<and> vt = validated_tool def)"

lemma validate_tool_Inr:
  "validate_tool J L look fn = Inr vt \<longleftrightarrow>
   (\<exists>def. look (fdName fn) = Inr def \<and> tdIsActive def \<and> request_hash J L fn = tdHash def \<and> vt = validated_tool def)"
  by (auto simp: validate_tool_def split: sum.splits if_splits)

lemma validate_loop_declared:
  "validate_loop J L lookup k acc ts = Inr vts \<Longrightarrow> vt \<in> set vts \<Longrightarrow> vt \<in> set acc \<or> declared J L lookup ts vt"
proof (induction ts arbitrary: k acc)
  case (Cons t ts)
  have mono: "declared J L lookup ts vt \<Longrightarrow> declared J L lookup (t # ts) vt" by (auto simp: declared_def)
  show ?case
  proof (cases "tlType t = ''function''")
    case False
    then show ?thesis using Cons.IH[of k acc] Cons.prems mono by auto
  next
    case True
    then obtain v where v: "validate_tool J L (lookup k) (tlFunction t) = Inr v"
      "validate_loop J L lookup (Suc k) (acc @ [v]) ts = Inr vts"
      using Cons.prems(1) by (auto split: sum.splits)
    have "vt = v \<Longrightarrow> declared J L lookup (t # ts) vt"
      using v(1) True by (auto simp: validate_tool_Inr declared_def)
    then show ?thesis using Cons.IH[OF v(2) Cons.prems(2)] mono by auto
  qed
qed simp

lemma convert_validated:
  assumes "convertToUsecaseRequest h e req t u = Inr ureq" and "vt \<in> set (urValidatedTools ureq)"
  shows "\<exists>ops. chToolRepo h = Some ops \<and> declared (chLib h) (chToolLib h)
    (\<lambda>k name. snd (GetByName ops (ccLookupEnv e k) t name (ccLookupStore e k))) (request_tools (chLib h) req) vt"
proof -
  obtain ops vts where v: "chToolRepo h = Some ops" "urValidatedTools ureq = vts"
    "validateTools (chLib h) (chToolLib h) ops e t (request_tools (chLib h) req) = Inr vts"
    using assms by (auto simp: convertToUsecaseRequest_def Let_def split: option.splits if_splits sum.splits)
  then show ?thesis
    using validate_loop_declared[of "chLib h" "chToolLib h" _ 0 "[]"] assms(2) by (fastforce simp: validateTools_def)
qed

lemma convert_tenant: "convertToUsecaseRequest h e req t u = Inr ureq \<Longrightarrow> urTenantID ureq = t"
  by (auto simp: convertToUsecaseRequest_def Let_def split: option.splits if_splits sum.splits)

text \<open>The tool calls one request makes the executor run.\<close>

definition executed_tools :: "ChatUsecase \<Rightarrow> chat_env \<Rightarrow> UsecaseRequest \<Rightarrow> ProviderRegistry \<Rightarrow> (nat \<times> ValidatedTool \<times> ExecCall) list" where
  "executed_tools uc env ureq r =
     (case ExecuteWithFallback (cuFallbackChain uc) (ceAttempts env 0) (domain_request ureq) r of
        Some (r1, result, None) \<Rightarrow> (case executeToolLoop uc env ureq (domain_request ureq) result r1 of
          Some (s, _) \<Rightarrow> lsExecuted s | None \<Rightarrow> [])
      | _ \<Rightarrow> [])"

lemma executed_safe:
  assumes "registry_ok r" and "x \<in> set (executed_tools uc env ureq r)"
  shows "safe_execution uc env ureq x"
proof -
  obtain r1 result err where f: "ExecuteWithFallback (cuFallbackChain uc) (ceAttempts env 0) (domain_request ureq) r = Some (r1, result, err)"
    "registry_ok r1"
    using ExecuteWithFallback_returns[OF assms(1)] by blast
  have err: "err = None" using assms(2) f(1) by (cases err) (simp_all add: executed_tools_def)
  obtain s err where l: "executeToolLoop uc env ureq (domain_request ureq) result r1 = Some (s, err)"
    "list_all (safe_execution uc env ureq) (lsExecuted s)"
    using executeToolLoop_returns[OF f(2)] unfolding loop_ok_def by blast
  then show ?thesis using assms(2) f(1) err by (auto simp: executed_tools_def list_all_iff)
qed

lemma active_def_fields:
  "active_def t n rs = Some d \<Longrightarrow> tdTenantID d = t \<and> tdName d = n \<and> tdIsActive d"
  by (auto simp: active_def_def find_Some_iff named_def convertSQLCToolDefinition_def)

lemma prepare_Inr:
  assumes "prepare h e body ctx = Inr ureq"
  shows "\<exists>req t. decode_request h body = Some req \<and> axTenantID ctx = Some t
    \<and> convertToUsecaseRequest h e req t (fst (GetUserID ctx)) = Inr ureq"
  using assms by (auto simp: prepare_def split: option.splits if_splits sum.splits)


text \<open>A registry with one tool, a request that declares it, and a model that asks for it.\<close>

definition demo_function :: FunctionDef where
  "demo_function = \<lparr> fdName = ''calc'', fdDescription = ''adds'', fdParameters = None \<rparr>"

definition demo_chat_lib :: chat_lib where
  "demo_chat_lib = \<lparr> hjDecode = (\<lambda>b. Some \<lparr> ccModel = ''m1'', ccMessages = [\<lparr> cmRole = ''user'', cmContent = b, cmToolCalls = [], cmToolCallID = [], cmName = [] \<rparr>],
       ccTemperature = None, ccMaxTokens = None, ccStream = None, ccTools = (if b = ''hi'' then [] else ''t''), ccToolChoice = None, ccUser = [] \<rparr>),
     hjTools = (\<lambda>s. [\<lparr> tlType = ''function'', tlFunction = demo_function \<rparr>]), hjCalls = (\<lambda>s. None), hjParams = (\<lambda>p. ''null''),
     hjMarshalCalls = (\<lambda>cs. ''[]''), hjEncode = (\<lambda>r. ''{}''), hjError = (\<lambda>s. s) \<rparr>"

definition demo_calc_row :: tool_row where
  "demo_calc_row = \<lparr> toID = 1, toTenantID = zero_uuid, toName = ''calc'', toDescription = ''adds'', toInputSchema = ''null'', toGrants = ''[]'',
     toExecutionTimeoutMs = 1000, toMemoryPages = 16, toHash = request_hash demo_chat_lib demo_tool_lib demo_function,
     toIsActive = True, toCreatedAt = 0, toUpdatedAt = 0 \<rparr>"

definition demo_store :: "(cacheKey \<rightharpoonup> ToolDefinition) tool_state" where
  "demo_store = \<lparr> tsDb = \<lparr> tbTools = [demo_calc_row], tbAudit = [] \<rparr>, tsCache = Map.empty \<rparr>"

definition demo_calc_reply :: Completion where
  "demo_calc_reply = demo_completion\<lparr>cpResponse := (cpResponse demo_completion)\<lparr>rsChoices := [
     \<lparr> chIndex = 0, chMessage = \<lparr> msRole = ''assistant'', msContent = [],
        msToolCalls = [\<lparr> tcID = ''c1'', tcType = ''function'', tcFunction = \<lparr> fnName = ''calc'', fnArguments = [] \<rparr> \<rparr>],
        msToolCallID = [], msName = [] \<rparr>, chFinishReason = ''tool_calls'' \<rparr>]\<rparr>\<rparr>"

definition demo_chat_call :: "Completion \<Rightarrow> (cacheKey \<rightharpoonup> ToolDefinition) chat_call" where
  "demo_chat_call reply = \<lparr> ccLookupEnv = (\<lambda>k. demo_tool_env 0), ccLookupStore = (\<lambda>k. demo_store), ccCallEnv = (\<lambda>k. demo_tool_env 0),
     ccCallStore = (\<lambda>k. demo_store),
     ccEnv = demo_chat_env\<lparr>ceAttempts := (\<lambda>n. demo_attempts\<lparr>aeComplete := (\<lambda>n name req. Inr reply)\<rparr>)\<rparr>, ccLatency = 3 \<rparr>"

definition demo_handlers :: "(cacheKey \<rightharpoonup> ToolDefinition) ChatHandlers" where
  "demo_handlers = \<lparr> chLib = demo_chat_lib, chToolLib = demo_tool_lib, chUsecase = demo_usecase, chToolRepo = Some map_cache \<rparr>"

definition demo_chat_ctx :: auth_ctx where
  "demo_chat_ctx = empty_ctx\<lparr>axTenantID := Some zero_uuid, axUserID := Some zero_uuid\<rparr>"

definition demo_chat_run :: "(nat \<times> string) list option" where
  "demo_chat_run = (case prepare demo_handlers (demo_chat_call demo_calc_reply) (Inr ''call'') demo_chat_ctx of
     Inl _ \<Rightarrow> None
   | Inr ureq \<Rightarrow> Some (map (\<lambda>(k, vt, call). (k, xcName call))
       (executed_tools demo_usecase (usecase_env demo_handlers (demo_chat_call demo_calc_reply)) ureq demo_registry)))"

lemma demo_chat_run: "demo_chat_run = Some [(0, ''calc''), (1, ''calc'')]"
  by code_simp

lemma demo_coherent: "coherent id demo_store"
  by (simp add: coherent_def demo_store_def)


subsection \<open>Every request is answered\<close>

lemma mapError_range: "mapError err \<in> {400, 401, 403, 404, 429, 500, 503, 504}"
  by (simp add: mapError_def)

lemma prepare_status: "prepare h e body ctx = Inl (n, err) \<Longrightarrow> n \<in> {400, 401, 403, 404, 429, 500, 503, 504}"
  using mapError_range by (auto simp: prepare_def split: option.splits if_splits sum.splits)

lemma ChatCompletions_answers:
  assumes "registry_ok (ctRegistry st)"
  shows "\<exists>calls st'. ChatCompletions h e body ctx st = (st', Some calls) \<and> registry_ok (ctRegistry st')
    \<and> gsAudit st' = gsAudit st \<and> resp_status calls \<in> {200, 400, 401, 403, 404, 429, 500, 503, 504}"
proof (cases "prepare h e body ctx")
  case (Inl x)
  then show ?thesis
    using assms prepare_status[of h e body ctx "fst x" "snd x"] by (cases x) (auto simp: ChatCompletions_def writeError_def)
next
  case (Inr ureq)
  obtain r res where "Complete (chUsecase h) (usecase_env h e) ureq (ctRegistry st) = Some (r, res)" "registry_ok r"
    using Complete_returns[OF assms] by blast
  then show ?thesis
    using Inr mapError_range by (cases res) (auto simp: ChatCompletions_def writeError_def writeJSON_def)
qed

lemma more_ctRegistry: "gw_state.more st = gw_state.more st' \<Longrightarrow> ctRegistry st = ctRegistry st'" for st st' :: chat_state
  by (cases st; cases st') simp

text \<open>The gateway serves chat requests one after the other.\<close>

type_synonym 'c chat_request = "gw_env \<times> http_request \<times> 'c ChatHandlers \<times> 'c chat_call"

primrec chat_serve :: "'c chat_request list \<Rightarrow> chat_state \<Rightarrow> chat_state \<times> resp_call list option list" where
  "chat_serve [] st = (st, [])"
| "chat_serve (r # rs) st = (case r of (e, rq, h, c) \<Rightarrow> (case chat_endpoint e rq h c st of (st1, out) \<Rightarrow>
     apsnd (\<lambda>outs. out # outs) (chat_serve rs st1)))"

definition answered :: "resp_call list option \<Rightarrow> bool" where
  "answered out = (\<exists>calls. out = Some calls \<and> resp_status calls \<in> {200, 400, 401, 403, 404, 429, 500, 503, 504})"

lemma chat_endpoint_answers:
  assumes "registry_ok (ctRegistry st)"
  shows "answered (snd (chat_endpoint e rq h c st)) \<and> registry_ok (ctRegistry (fst (chat_endpoint e rq h c st)))"
proof -
  let ?h = "ChatCompletions h c (hqBody rq)"
  let ?out = "chain e rq ?h st"
  from chain_outcome[of st e rq ?h] have "answered (snd ?out) \<and> registry_ok (ctRegistry (fst ?out))"
  proof
    assume stop: "stopped st ?out"
    then have "ctRegistry (fst ?out) = ctRegistry st" unfolding stopped_def by (intro more_ctRegistry) simp
    moreover have "answered (snd ?out)" using stop unfolding stopped_def answered_def by blast
    ultimately show ?thesis using assms by simp
  next
    assume "handled st ?h ?out"
    then obtain ctx st1 where m: "gw_state.more st1 = gw_state.more st" "snd ?out = snd (?h ctx st1)"
      "gw_state.more (fst ?out) = gw_state.more (fst (?h ctx st1))"
      unfolding handled_def by blast
    have "registry_ok (ctRegistry st1)" using more_ctRegistry[OF m(1)] assms by simp
    then obtain calls st' where "?h ctx st1 = (st', Some calls)" "registry_ok (ctRegistry st')"
      "resp_status calls \<in> {200, 400, 401, 403, 404, 429, 500, 503, 504}"
      using ChatCompletions_answers by blast
    then show ?thesis using m(2) more_ctRegistry[OF m(3)] by (simp add: answered_def)
  qed
  then show ?thesis by (simp add: chat_endpoint_def)
qed

text \<open>C7: Every chat request is answered. Whatever requests come, with whatever tokens and bodies,
  and however databases, caches, classifiers, providers and tools behave, no request runs into a
  panic: each gets a response with one of nine statuses, and the registry of providers stays well
  formed for the next one.\<close>

theorem chat_traffic_answered:
  assumes "registry_ok (ctRegistry st)"
  shows "list_all answered (snd (chat_serve rs st)) \<and> length (snd (chat_serve rs st)) = length rs
    \<and> registry_ok (ctRegistry (fst (chat_serve rs st)))"
  using assms
proof (induction rs arbitrary: st)
  case (Cons r rs)
  obtain e rq h c where r: "r = (e, rq, h, c)" by (cases r)
  obtain st1 out where s: "chat_endpoint e rq h c st = (st1, out)" by fastforce
  then have "answered out" "registry_ok (ctRegistry st1)"
    using chat_endpoint_answers[OF Cons.prems, of e rq h c] by simp_all
  then show ?case using Cons.IH[of st1] r s by simp
qed simp

subsection \<open>A request that succeeds\<close>

lemma quiet_loop:
  assumes "frCompletion result = Some c" and "\<forall>ch \<in> set (rsChoices (cpResponse c)). msToolCalls (chMessage ch) = []"
  shows "\<exists>s. executeToolLoop uc env ureq dreq result r = Some (s, None)"
proof -
  have "tool_loop uc env ureq dreq n \<lparr> lsRegistry = r, lsResult = result, lsIterations = 0, lsToolCalls = 0, lsExecuted = [] \<rparr>
      = Some (\<lparr> lsRegistry = r, lsResult = result, lsIterations = 0, lsToolCalls = 0, lsExecuted = [] \<rparr>, None)" for n
    using assms by (cases n) (auto simp: choices_of_def Let_def split: list.split)
  then show ?thesis by (simp add: executeToolLoop_def Let_def)
qed

text \<open>A provider that serves the model, whose breaker is closed and that answers every call.\<close>

definition serving :: "attempt_env \<Rightarrow> string \<Rightarrow> string \<Rightarrow> ProviderRegistry \<Rightarrow> bool" where
  "serving env model name r = (\<exists>p. prProviders r name = Some p \<and> pcEnabled (rgConfig p) \<and> model \<in> set (pcModels (rgConfig p))
     \<and> cbState (rgCircuitBreaker p) = StateClosed \<and> (\<forall>n req. \<exists>c. aeComplete env n name req = Inr c))"

definition no_tool_replies :: "attempt_env \<Rightarrow> bool" where
  "no_tool_replies env = (\<forall>n name req c. aeComplete env n name req = Inr c \<longrightarrow>
     (\<forall>ch \<in> set (rsChoices (cpResponse c)). msToolCalls (chMessage ch) = []))"

lemma Complete_serves:
  assumes "registry_ok r" and "serving (ceAttempts env 0) (urModel ureq) name r" and "no_tool_replies (ceAttempts env 0)"
    and "\<forall>n. aeCancelled (ceAttempts env 0) n = None" and "cuFallbackChain uc = NewFallbackChain cfg"
  shows "\<exists>r' resp. Complete uc env ureq r = Some (r', Inr resp)"
proof -
  have model: "mrModel (domain_request ureq) = urModel ureq" by (simp add: domain_request_def)
  obtain p where p: "prProviders r name = Some p" "pcEnabled (rgConfig p)" "mrModel (domain_request ureq) \<in> set (pcModels (rgConfig p))"
    "cbState (rgCircuitBreaker p) = StateClosed" "\<forall>n. \<exists>c. aeComplete (ceAttempts env 0) n name (domain_request ureq) = Inr c"
    using assms(2) unfolding serving_def model by blast
  obtain r1 res where f: "ExecuteWithFallback (cuFallbackChain uc) (ceAttempts env 0) (domain_request ureq) r = Some (r1, res, None)"
    using working_provider_serves[OF assms(1) p assms(4,5)] by blast
  obtain n c where c: "frCompletion res = Some c" "aeComplete (ceAttempts env 0) (frAttempt res) n (domain_request ureq) = Inr c"
    using success_is_answer[OF assms(1) f] by blast
  obtain s where "executeToolLoop uc env ureq (domain_request ureq) res r1 = Some (s, None)"
    using quiet_loop[OF c(1)] assms(3) c(2) unfolding no_tool_replies_def by blast
  then show ?thesis using f by (simp add: Complete_def Let_def split: prod.split)
qed

lemma convert_no_tools:
  "ccTools req = [] \<Longrightarrow> \<exists>ureq. convertToUsecaseRequest h e req t u = Inr ureq \<and> urModel ureq = ccModel req"
  by (cases "chToolRepo h") (simp_all add: convertToUsecaseRequest_def request_tools_def)


text \<open>While the database is down, tools that exist are reported as unknown, with status 400: no
  lookup ever fails with \<open>ErrToolRepository\<close>.\<close>

theorem tool_outage_reported_as_missing:
  assumes "snd (GetByName ops (ccLookupEnv e 0) t (fdName (tlFunction x)) (ccLookupStore e 0)) = Inl err" and "\<not> errors_is err ErrToolRepository"
    and "tlType x = ''function''"
  shows "validateTools J L ops e t (x # ts) = Inl ErrToolNotFound" and "mapError ErrToolNotFound = 400"
  using assms by (simp_all add: validateTools_def validate_tool_def mapError_def)

definition demo_chat_state :: chat_state where
  "demo_chat_state = gw_state.extend demo_gw_state \<lparr> ctRegistry = demo_registry \<rparr>"

lemma demo_chat_state_sel:
  "gsTenants demo_chat_state = gsTenants demo_gw_state" "gsTats demo_chat_state = gsTats demo_gw_state"
  "ctRegistry demo_chat_state = demo_registry"
  by (simp_all add: demo_chat_state_def gw_state.defs demo_gw_state_def)

theorem chat_traffic_answered_witness:
  "list_all answered (snd (chat_serve [(demo_gw_env, demo_http_request, demo_handlers, demo_chat_call demo_completion)] demo_chat_state))"
proof -
  have "registry_ok (ctRegistry demo_chat_state)" by (simp add: demo_chat_state_sel demo_registry_ok)
  from chat_traffic_answered[OF this, of "[(demo_gw_env, demo_http_request, demo_handlers, demo_chat_call demo_completion)]"]
  show ?thesis by blast
qed

lemma demo_chat_admitted: "request_admitted demo_gw_env demo_http_request demo_registered zero_uuid zero_uuid demo_chat_state"
proof -
  let ?ctx = "claims_ctx demo_registered zero_uuid zero_uuid empty_ctx"
  have "axTenantID ?ctx = Some zero_uuid" "axUserID ?ctx = Some zero_uuid" by (simp_all add: demo_claims_sel UUID_String_nonempty)
  then have "within_limits demo_gw_env ?ctx demo_chat_state"
    using demo_limits
    by (simp add: within_limits_def rate_limit_def demo_chat_state_sel demo_gw_env_def demo_gw_state_def next_outcome_def)
  moreover have "tenant_status (geTenantEnv demo_gw_env) zero_uuid (gsTenants demo_chat_state) = Inr ''active''"
    by (simp add: tenant_status_def demo_gw_env_def demo_chat_state_sel demo_gw_state_def stmt_def quiet_env_def)
  moreover have "\<not> input_blocked demo_gw_env demo_http_request zero_uuid"
    by (simp add: input_blocked_def demo_gw_env_def demo_guard_mw_def demo_http_request_def)
  ultimately show ?thesis using demo_identified by (simp add: request_admitted_def)
qed

lemma demo_serving: "serving (ceAttempts (ccEnv (demo_chat_call demo_completion)) 0) ''m1'' ''a'' demo_registry"
proof -
  have "map_option (\<lambda>p. (pcEnabled (rgConfig p), pcModels (rgConfig p), cbState (rgCircuitBreaker p)))
      (prProviders demo_registry ''a'') = Some (True, [''m1''], StateClosed)" by code_simp
  then show ?thesis by (auto simp: serving_def demo_chat_call_def)
qed


end
