(* ===== verification/Catalog.thy ===== *)
theory Catalog
  imports Sessions
begin

text \<open>
  The catalogs of the platform: tenants and roles. \<open>src/internal/domain/tenant.go\<close>, \<open>role.go\<close> and
  \<open>permission.go\<close>, \<open>adapter/postgres/tenant_repository.go\<close> and \<open>role_repository.go\<close> (queries of
  \<open>queries/tenant.sql\<close> and \<open>queries/role.sql\<close>) and the use cases \<open>usecase/tenant\<close> and
  \<open>usecase/role\<close>, over the tables of migrations 0003, 0004 and 0006. Tenants and roles are global
  tables without row-level security; the permissions of a role in a tenant are under it, and their
  queries run on the pool.
\<close>

subsection \<open>The domain\<close>

type_synonym tenant_status_text = string

definition TenantStatusActive :: tenant_status_text where "TenantStatusActive = ''active''"
definition TenantStatusSuspended :: tenant_status_text where "TenantStatusSuspended = ''suspended''"

record Tenant =
  tnID :: uuid
  tnName :: string
  tnStatus :: tenant_status_text
  tnCreatedAt :: time

definition Tenant_IsActive :: "Tenant \<Rightarrow> bool" where
  "Tenant_IsActive t = (tnStatus t = TenantStatusActive)"

record Role =
  rlID :: uuid
  rlName :: string
  rlDescription :: string
  rlCreatedAt :: time

record Permission =
  pnID :: uuid
  pnResource :: string
  pnAction :: string
  pnDescription :: string
  pnCreatedAt :: time

definition Permission_String :: "Permission \<Rightarrow> string" where
  "Permission_String p = pnResource p @ '':'' @ pnAction p"

text \<open>The whole text becomes the resource.\<close>

definition ParsePermission :: "string \<Rightarrow> Permission result" where
  "ParsePermission s = Inr \<lparr> pnID = zero_uuid, pnResource = s, pnAction = [], pnDescription = [], pnCreatedAt = 0 \<rparr>"

subsection \<open>The tables\<close>

text \<open>Rows of \<open>tenants\<close> have the fields of \<^typ>\<open>Tenant\<close>; the description of a role may be NULL.\<close>

record role_row =
  roID :: uuid
  roName :: string
  roDescription :: "string option"
  roCreatedAt :: time

record perm_row =
  pmRoleID :: uuid
  pmTenantID :: uuid
  pmPermission :: string

record catalog_db =
  cdTenants :: "Tenant list"
  cdRoles :: "role_row list"
  cdPerms :: "perm_row list"

text \<open>\<open>err == sql.ErrNoRows\<close>, as the repositories compare it.\<close>

definition no_rows_to_not_found :: "go_error \<Rightarrow> go_error" where
  "no_rows_to_not_found e = (if e = SqlErrNoRows then ErrNotFound else e)"

subsection \<open>The tenant repository\<close>

definition SqlCreateTenant :: "pg_env \<Rightarrow> uuid \<Rightarrow> string \<Rightarrow> (catalog_db, Tenant) db_call" where
  "SqlCreateTenant env newID name db =
     (if list_ex (\<lambda>t. tnID t = newID) (cdTenants db) \<or> list_ex (\<lambda>t. tnName t = name) (cdTenants db) then (db, Inl unique_key)
      else let row = \<lparr> tnID = newID, tnName = name, tnStatus = ''active'', tnCreatedAt = pgNow env \<rparr>
           in (db\<lparr>cdTenants := cdTenants db @ [row]\<rparr>, Inr row))"

definition TenantRepository_Create :: "pg_env \<Rightarrow> uuid \<Rightarrow> Tenant \<Rightarrow> (catalog_db, Tenant) db_call" where
  "TenantRepository_Create env newID tenant db = (case stmt env (SqlCreateTenant env newID (tnName tenant)) db of
     (db', Inl e) \<Rightarrow> (db', Inl e)
   | (db', Inr r) \<Rightarrow> (db', Inr (tenant\<lparr>tnID := tnID r, tnCreatedAt := tnCreatedAt r\<rparr>)))"

text \<open>A \<open>SELECT\<close> for one tenant.\<close>

definition find_tenant :: "pg_env \<Rightarrow> (Tenant \<Rightarrow> bool) \<Rightarrow> catalog_db \<Rightarrow> Tenant result" where
  "find_tenant env P db = (case snd (stmt env (\<lambda>db. (db, case List.find P (cdTenants db) of
       None \<Rightarrow> Inl (pgNoRows env) | Some t \<Rightarrow> Inr t)) db) of
     Inl e \<Rightarrow> Inl (no_rows_to_not_found e) | Inr t \<Rightarrow> Inr t)"

definition TenantRepository_GetByID :: "pg_env \<Rightarrow> uuid \<Rightarrow> catalog_db \<Rightarrow> Tenant result" where
  "TenantRepository_GetByID env i = find_tenant env (\<lambda>t. tnID t = i)"

definition TenantRepository_GetByName :: "pg_env \<Rightarrow> string \<Rightarrow> catalog_db \<Rightarrow> Tenant result" where
  "TenantRepository_GetByName env name = find_tenant env (\<lambda>t. tnName t = name)"

definition TenantRepository_UpdateStatus :: "pg_env \<Rightarrow> uuid \<Rightarrow> string \<Rightarrow> (catalog_db, unit) db_call" where
  "TenantRepository_UpdateStatus env i status = stmt env (\<lambda>db.
     if \<not> list_ex (\<lambda>t. tnID t = i) (cdTenants db) then (db, Inl (pgNoRows env))
     else if status \<noteq> ''active'' \<and> status \<noteq> ''suspended'' then (db, Inl (PgError ''23514'' ''tenants_status_check''))
     else (db\<lparr>cdTenants := update_rows (\<lambda>t. tnID t = i) (\<lambda>t. t\<lparr>tnStatus := status\<rparr>) (cdTenants db)\<rparr>, Inr ()))"

text \<open>Limit and offset are converted to 32 bits; a negative one is an error of the server.\<close>

definition ListTenants :: "pg_env \<Rightarrow> int \<Rightarrow> int \<Rightarrow> catalog_db \<Rightarrow> Tenant list result" where
  "ListTenants env limit offset db =
     (let l = sint (word_of_int limit :: 32 word); k = sint (word_of_int offset :: 32 word) in
      snd (stmt env (\<lambda>db. (db,
        if l < 0 then Inl (PgError ''2201W'' ''LIMIT must not be negative'')
        else if k < 0 then Inl (PgError ''2201X'' ''OFFSET must not be negative'')
        else Inr (take (nat l) (drop (nat k) (sort_key (\<lambda>t. - tnCreatedAt t) (cdTenants db)))))) db))"

subsection \<open>The role repository\<close>

definition perm_sees :: "pg_env \<Rightarrow> perm_row \<Rightarrow> bool" where
  "perm_sees env r = rls_ok env (pgPoolGuc env) (pmTenantID r)"

definition row_role :: "role_row \<Rightarrow> Role" where
  "row_role r = \<lparr> rlID = roID r, rlName = roName r, rlDescription = (case roDescription r of None \<Rightarrow> [] | Some d \<Rightarrow> d),
     rlCreatedAt = roCreatedAt r \<rparr>"

definition SqlCreateRole :: "pg_env \<Rightarrow> uuid \<Rightarrow> string \<Rightarrow> string option \<Rightarrow> (catalog_db, role_row) db_call" where
  "SqlCreateRole env newID name description db =
     (if list_ex (\<lambda>r. roID r = newID) (cdRoles db) \<or> list_ex (\<lambda>r. roName r = name) (cdRoles db) then (db, Inl unique_key)
      else let row = \<lparr> roID = newID, roName = name, roDescription = description, roCreatedAt = pgNow env \<rparr>
           in (db\<lparr>cdRoles := cdRoles db @ [row]\<rparr>, Inr row))"

definition RoleRepository_Create :: "pg_env \<Rightarrow> uuid \<Rightarrow> Role \<Rightarrow> (catalog_db, Role) db_call" where
  "RoleRepository_Create env newID role db =
     (case stmt env (SqlCreateRole env newID (rlName role) (if rlDescription role \<noteq> [] then Some (rlDescription role) else None)) db of
        (db', Inl e) \<Rightarrow> (db', Inl e)
      | (db', Inr r) \<Rightarrow> (db', Inr (role\<lparr>rlID := roID r, rlCreatedAt := roCreatedAt r\<rparr>)))"

definition RoleRepository_GetByID :: "pg_env \<Rightarrow> uuid \<Rightarrow> catalog_db \<Rightarrow> Role result" where
  "RoleRepository_GetByID env i db = (case snd (stmt env (\<lambda>db. (db, case List.find (\<lambda>r. roID r = i) (cdRoles db) of
       None \<Rightarrow> Inl (pgNoRows env) | Some r \<Rightarrow> Inr r)) db) of
     Inl e \<Rightarrow> Inl (no_rows_to_not_found e) | Inr r \<Rightarrow> Inr (row_role r))"

text \<open>The join of roles and permissions, grouped, by name.\<close>

definition RoleRepository_ListByTenant :: "pg_env \<Rightarrow> uuid \<Rightarrow> (catalog_db, Role list) db_call" where
  "RoleRepository_ListByTenant env tenantID = WithTenant env tenantID (stmt env (\<lambda>db. (db, Inr (map row_role
     (sort_key roName (filter (\<lambda>r. list_ex (\<lambda>p. perm_sees env p \<and> pmTenantID p = tenantID \<and> pmRoleID p = roID r) (cdPerms db))
        (cdRoles db)))))))"

text \<open>\<open>INSERT ... SELECT unnest(...) ON CONFLICT DO NOTHING\<close>: one row for each permission that is
  not there yet.\<close>

fun insert_perms :: "uuid \<Rightarrow> uuid \<Rightarrow> string list \<Rightarrow> perm_row list \<Rightarrow> perm_row list" where
  "insert_perms roleID tenantID [] ps = ps"
| "insert_perms roleID tenantID (p # qs) ps =
     (let row = \<lparr> pmRoleID = roleID, pmTenantID = tenantID, pmPermission = p \<rparr>
      in insert_perms roleID tenantID qs (if row \<in> set ps then ps else ps @ [row]))"

definition RoleRepository_AssignPermissions :: "pg_env \<Rightarrow> uuid \<Rightarrow> uuid \<Rightarrow> string list \<Rightarrow> (catalog_db, unit) db_call" where
  "RoleRepository_AssignPermissions env tenantID roleID permissions = WithTenant env tenantID (stmt env (\<lambda>db.
     if permissions = [] then (db, Inr ())
     else if \<not> rls_ok env (pgPoolGuc env) tenantID then (db, Inl (PgError ''42501'' ''row-level security''))
     else if \<not> list_ex (\<lambda>r. roID r = roleID) (cdRoles db) \<or> \<not> list_ex (\<lambda>t. tnID t = tenantID) (cdTenants db)
       then (db, Inl foreign_key)
     else (db\<lparr>cdPerms := insert_perms roleID tenantID permissions (cdPerms db)\<rparr>, Inr ())))"

definition RoleRepository_GetPermissions :: "pg_env \<Rightarrow> uuid \<Rightarrow> uuid \<Rightarrow> (catalog_db, string list) db_call" where
  "RoleRepository_GetPermissions env tenantID roleID = WithTenant env tenantID (stmt env (\<lambda>db. (db, Inr
     (sort (map pmPermission (filter (\<lambda>p. perm_sees env p \<and> pmRoleID p = roleID \<and> pmTenantID p = tenantID) (cdPerms db)))))))"

text \<open>Deleting a role deletes its permissions, in every tenant.\<close>

definition RoleRepository_Delete :: "pg_env \<Rightarrow> uuid \<Rightarrow> (catalog_db, unit) db_call" where
  "RoleRepository_Delete env i = stmt env (\<lambda>db. (db\<lparr>cdRoles := filter (\<lambda>r. roID r \<noteq> i) (cdRoles db),
     cdPerms := filter (\<lambda>p. pmRoleID p \<noteq> i) (cdPerms db)\<rparr>, Inr ()))"

definition RoleRepository_RevokePermissions :: "pg_env \<Rightarrow> uuid \<Rightarrow> uuid \<Rightarrow> (catalog_db, unit) db_call" where
  "RoleRepository_RevokePermissions env tenantID roleID = WithTenant env tenantID (stmt env (\<lambda>db.
     (db\<lparr>cdPerms := filter (\<lambda>p. \<not> (perm_sees env p \<and> pmRoleID p = roleID \<and> pmTenantID p = tenantID)) (cdPerms db)\<rparr>, Inr ())))"

subsection \<open>The tenant use case\<close>

text \<open>\<open>Create\<close> looks the name up and then inserts; other calls may run between the two, so that it
  comes in two parts. An error of the lookup counts as absence.\<close>

definition tenant_absent :: "pg_env \<Rightarrow> string \<Rightarrow> catalog_db \<Rightarrow> bool" where
  "tenant_absent env name db = isl (TenantRepository_GetByName env name db)"

definition tenant_insert :: "pg_env \<Rightarrow> uuid \<Rightarrow> uuid \<Rightarrow> time \<Rightarrow> string \<Rightarrow> (catalog_db, Tenant) db_call" where
  "tenant_insert env newID drawn now name = TenantRepository_Create env newID
     \<lparr> tnID = drawn, tnName = name, tnStatus = TenantStatusActive, tnCreatedAt = now \<rparr>"

definition TenantUseCase_Create :: "pg_env \<Rightarrow> pg_env \<Rightarrow> uuid \<Rightarrow> uuid \<Rightarrow> time \<Rightarrow> string \<Rightarrow> (catalog_db, Tenant) db_call" where
  "TenantUseCase_Create env1 env2 newID drawn now name db =
     (if \<not> tenant_absent env1 name db then (db, Inl ErrConflict) else tenant_insert env2 newID drawn now name db)"

definition TenantUseCase_Get :: "pg_env \<Rightarrow> uuid \<Rightarrow> catalog_db \<Rightarrow> Tenant result" where
  "TenantUseCase_Get env i db = TenantRepository_GetByID env i db"

definition page :: "int \<Rightarrow> int \<Rightarrow> int \<times> int" where
  "page limit offset =
     (let limit = (if limit \<le> 0 then 50 else limit);
          limit = (if limit > 100 then 100 else limit)
      in (limit, if offset < 0 then 0 else offset))"

definition TenantUseCase_List :: "pg_env \<Rightarrow> int \<Rightarrow> int \<Rightarrow> catalog_db \<Rightarrow> Tenant list result" where
  "TenantUseCase_List env limit offset db = (case page limit offset of (l, k) \<Rightarrow> ListTenants env l k db)"

definition TenantUseCase_UpdateStatus :: "pg_env \<Rightarrow> pg_env \<Rightarrow> uuid \<Rightarrow> string \<Rightarrow> (catalog_db, Tenant) db_call" where
  "TenantUseCase_UpdateStatus env1 env2 i status db = (case TenantRepository_GetByID env1 i db of
     Inl e \<Rightarrow> (db, Inl e)
   | Inr t \<Rightarrow> (case TenantRepository_UpdateStatus env2 i status db of
       (db', Inl e) \<Rightarrow> (db', Inl e)
     | (db', Inr _) \<Rightarrow> (db', Inr (t\<lparr>tnStatus := status\<rparr>))))"

definition TenantUseCase_Delete :: "pg_env \<Rightarrow> uuid \<Rightarrow> (catalog_db, unit) db_call" where
  "TenantUseCase_Delete env i db = (case TenantRepository_GetByID env i db of
     Inl e \<Rightarrow> (db, Inl e) | Inr _ \<Rightarrow> (db, Inl ErrNotImplemented))"

subsection \<open>The role use case\<close>

definition RoleUseCase_Create :: "pg_env \<Rightarrow> uuid \<Rightarrow> uuid \<Rightarrow> time \<Rightarrow> string \<Rightarrow> string \<Rightarrow> (catalog_db, Role) db_call" where
  "RoleUseCase_Create env newID drawn now name description = RoleRepository_Create env newID
     \<lparr> rlID = drawn, rlName = name, rlDescription = description, rlCreatedAt = now \<rparr>"

definition RoleUseCase_AssignPermissions :: "pg_env \<Rightarrow> pg_env \<Rightarrow> uuid \<Rightarrow> uuid \<Rightarrow> string list \<Rightarrow> (catalog_db, unit) db_call" where
  "RoleUseCase_AssignPermissions env1 env2 tenantID roleID permissions db = (case RoleRepository_GetByID env1 roleID db of
     Inl e \<Rightarrow> (db, Inl e)
   | Inr _ \<Rightarrow> RoleRepository_AssignPermissions env2 tenantID roleID permissions db)"

definition RoleUseCase_GetByID :: "pg_env \<Rightarrow> uuid \<Rightarrow> catalog_db \<Rightarrow> Role result" where
  "RoleUseCase_GetByID env i db = RoleRepository_GetByID env i db"

definition RoleUseCase_ListByTenant :: "pg_env \<Rightarrow> uuid \<Rightarrow> (catalog_db, Role list) db_call" where
  "RoleUseCase_ListByTenant env tenantID = RoleRepository_ListByTenant env tenantID"

definition RoleUseCase_GetPermissions :: "pg_env \<Rightarrow> uuid \<Rightarrow> uuid \<Rightarrow> (catalog_db, string list) db_call" where
  "RoleUseCase_GetPermissions env tenantID roleID = RoleRepository_GetPermissions env tenantID roleID"

definition RoleUseCase_RevokePermissions :: "pg_env \<Rightarrow> uuid \<Rightarrow> uuid \<Rightarrow> (catalog_db, unit) db_call" where
  "RoleUseCase_RevokePermissions env tenantID roleID = RoleRepository_RevokePermissions env tenantID roleID"

definition RoleUseCase_Delete :: "pg_env \<Rightarrow> uuid \<Rightarrow> (catalog_db, unit) db_call" where
  "RoleUseCase_Delete env i = RoleRepository_Delete env i"

subsection \<open>Well-formed catalogs\<close>

text \<open>The constraints of the three tables: primary keys, unique names, the check on the status and the
  two foreign keys of a permission.\<close>

definition known_status :: "string \<Rightarrow> bool" where
  "known_status s = (s = TenantStatusActive \<or> s = TenantStatusSuspended)"

definition tenants_ok :: "Tenant list \<Rightarrow> bool" where
  "tenants_ok ts = (distinct (map tnID ts) \<and> distinct (map tnName ts)
     \<and> list_all (\<lambda>t. known_status (tnStatus t)) ts)"

definition roles_ok :: "role_row list \<Rightarrow> bool" where
  "roles_ok rs = (distinct (map roID rs) \<and> distinct (map roName rs))"

definition perms_ok :: "catalog_db \<Rightarrow> bool" where
  "perms_ok db = (distinct (cdPerms db)
     \<and> (\<forall>p \<in> set (cdPerms db). pmRoleID p \<in> roID ` set (cdRoles db) \<and> pmTenantID p \<in> tnID ` set (cdTenants db)))"

definition catalog_ok :: "catalog_db \<Rightarrow> bool" where
  "catalog_ok db = (tenants_ok (cdTenants db) \<and> roles_ok (cdRoles db) \<and> perms_ok db)"

lemmas catalog_defs = catalog_ok_def tenants_ok_def roles_ok_def perms_ok_def

text \<open>The frame of the two wrappers: what holds before and after the statement holds of the call.\<close>

lemma catalog_ok_stmt: "catalog_ok (fst (run db)) \<Longrightarrow> catalog_ok db \<Longrightarrow> catalog_ok (fst (stmt env run db))"
  using stmt_db_cases[of env run db] by metis

lemma catalog_ok_WithTenant: "catalog_ok (fst (fn db)) \<Longrightarrow> catalog_ok db \<Longrightarrow> catalog_ok (fst (WithTenant env t fn db))"
  using WithTenant_db_cases[of env t fn db] by metis

lemma catalog_ok_CreateTenant: "catalog_ok db \<Longrightarrow> catalog_ok (fst (SqlCreateTenant env i name db))"
  by (auto simp: SqlCreateTenant_def catalog_defs known_status_def TenantStatusActive_def list_ex_iff Let_def)

lemma catalog_ok_tenant_create: "catalog_ok db \<Longrightarrow> catalog_ok (fst (TenantRepository_Create env i t db))"
  unfolding TenantRepository_Create_def fst_case_result by (rule catalog_ok_stmt[OF catalog_ok_CreateTenant])

lemma catalog_ok_tenant_status: "catalog_ok db \<Longrightarrow> catalog_ok (fst (TenantRepository_UpdateStatus env i status db))"
proof -
  assume ok: "catalog_ok db"
  let ?run = "\<lambda>db. if \<not> list_ex (\<lambda>t. tnID t = i) (cdTenants db) then (db, Inl (pgNoRows env))
     else if status \<noteq> ''active'' \<and> status \<noteq> ''suspended'' then (db, Inl (PgError ''23514'' ''tenants_status_check''))
     else (db\<lparr>cdTenants := update_rows (\<lambda>t. tnID t = i) (\<lambda>t. t\<lparr>tnStatus := status\<rparr>) (cdTenants db)\<rparr>, Inr ())"
  let ?ts = "update_rows (\<lambda>t. tnID t = i) (\<lambda>t. t\<lparr>tnStatus := status\<rparr>) (cdTenants db)"
  have k: "map tnID ?ts = map tnID (cdTenants db)" "map tnName ?ts = map tnName (cdTenants db)" by (simp_all add: map_update_rows)
  have i: "tnID ` set ?ts = tnID ` set (cdTenants db)" using k(1) by (metis set_map)
  have s: "list_all (\<lambda>t. known_status (tnStatus t)) ?ts"
    if "known_status status"
    using ok that by (auto simp: catalog_defs list_all_iff in_update_rows)
  have "status = ''active'' \<or> status = ''suspended'' \<Longrightarrow> known_status status"
    by (simp add: known_status_def TenantStatusActive_def TenantStatusSuspended_def)
  then have "catalog_ok (fst (?run db))" using ok k i s by (auto simp: catalog_defs)
  then show ?thesis unfolding TenantRepository_UpdateStatus_def using ok by (intro catalog_ok_stmt)
qed

lemma catalog_ok_role_create: "catalog_ok db \<Longrightarrow> catalog_ok (fst (RoleRepository_Create env i r db))"
  unfolding RoleRepository_Create_def fst_case_result
  by (rule catalog_ok_stmt) (auto simp: SqlCreateRole_def catalog_defs list_ex_iff Let_def)

lemma insert_perms_spec:
  "set (insert_perms r t qs ps) = set ps \<union> (\<lambda>q. \<lparr> pmRoleID = r, pmTenantID = t, pmPermission = q \<rparr>) ` set qs"
  "distinct ps \<Longrightarrow> distinct (insert_perms r t qs ps)"
  by (induction r t qs ps rule: insert_perms.induct) (auto simp: Let_def)

lemma catalog_ok_assign: "catalog_ok db \<Longrightarrow> catalog_ok (fst (RoleRepository_AssignPermissions env t r ps db))"
  unfolding RoleRepository_AssignPermissions_def
  by (intro catalog_ok_WithTenant catalog_ok_stmt) (auto simp: catalog_defs insert_perms_spec list_ex_iff)

lemma catalog_ok_role_delete: "catalog_ok db \<Longrightarrow> catalog_ok (fst (RoleRepository_Delete env i db))"
  unfolding RoleRepository_Delete_def
  by (intro catalog_ok_stmt) (auto simp: catalog_defs distinct_map_filter)

lemma catalog_ok_revoke: "catalog_ok db \<Longrightarrow> catalog_ok (fst (RoleRepository_RevokePermissions env t r db))"
  unfolding RoleRepository_RevokePermissions_def
  by (intro catalog_ok_WithTenant catalog_ok_stmt) (auto simp: catalog_defs)

end
