(* ===== verification/HttpReply.thy ===== *)
theory HttpReply
  imports Middleware
begin

text \<open>
  The replies of the handlers in \<open>src/internal/api/handlers\<close>: a status and the value that is handed
  to the JSON encoder. The functions \<open>writeJSON\<close> and \<open>writeError\<close> are the same in every handler
  type.
\<close>

datatype 'a body = NoBody | ErrorBody string | Data 'a

type_synonym 'a reply = "nat \<times> 'a body"

definition reply_json :: "nat \<Rightarrow> 'a \<Rightarrow> 'a reply" where
  "reply_json status x = (status, Data x)"

definition reply_error :: "nat \<Rightarrow> go_error \<Rightarrow> 'a reply" where
  "reply_error status err = (status, ErrorBody (error_text err))"

text \<open>What a reply becomes on the response writer, given the encoder.\<close>

definition write_reply :: "('a \<Rightarrow> string) \<Rightarrow> 'a reply \<Rightarrow> resp_call list" where
  "write_reply enc r = (case r of
     (status, NoBody) \<Rightarrow> [WriteHeader status]
   | (status, ErrorBody e) \<Rightarrow> [WriteHeader status, Write (''{'' @ dq @ ''error'' @ dq @ '':'' @ dq @ e @ dq @ ''}'')]
   | (status, Data x) \<Rightarrow> [WriteHeader status, Write (enc x)])"

lemma write_reply_status [simp]: "resp_status (write_reply enc r) = fst r"
  by (cases r; cases "snd r") (auto simp: write_reply_def)

lemma reply_error_sel [simp]: "fst (reply_error n e) = n" "reply_error n e = (m, d) \<longleftrightarrow> n = m \<and> d = ErrorBody (error_text e)"
  by (auto simp: reply_error_def)

end
