(* ===== verification/AdminApi.thy ===== *)
theory AdminApi
  imports Catalog HttpReply
begin

text \<open>
  The administration handlers of \<open>src/internal/api/handlers\<close> for tenants, roles, users and quotas
  (\<open>admin_tenants.go\<close>, \<open>admin_roles.go\<close>, \<open>admin_users.go\<close>, \<open>admin_quotas.go\<close>) with the use cases
  \<open>usecase/user\<close> and \<open>usecase/quota\<close>. A handler takes what it reads of the request: the parameters
  of the path, the body after decoding (None: it does not decode) and the context of the
  authentication middleware. It answers with a status and the value it hands to the JSON encoder.
\<close>

subsection \<open>Replies\<close>

text \<open>\<open>writeError\<close>, the same in the four handlers; the comparison is by identity, so a wrapped
  error is an internal one.\<close>

definition admin_error :: "go_error \<Rightarrow> 'a reply" where
  "admin_error err = reply_error (case err of
     ErrNotFound \<Rightarrow> 404 | ErrConflict \<Rightarrow> 409 | ErrValidation \<Rightarrow> 400 | ErrUnauthorized \<Rightarrow> 401 | ErrForbidden \<Rightarrow> 403 | _ \<Rightarrow> 500) err"

text \<open>The end of a handler: the error of the use case, or its result.\<close>

definition answer :: "nat \<Rightarrow> ('b \<Rightarrow> 'a) \<Rightarrow> 'db \<times> 'b result \<Rightarrow> 'db \<times> 'a reply" where
  "answer status f x = (case x of (db', Inl e) \<Rightarrow> (db', admin_error e) | (db', Inr y) \<Rightarrow> (db', reply_json status (f y)))"

definition answer_no_content :: "'db \<times> unit result \<Rightarrow> 'db \<times> 'a reply" where
  "answer_no_content x = (case x of (db', Inl e) \<Rightarrow> (db', admin_error e) | (db', Inr _) \<Rightarrow> (db', (204, NoBody)))"

text \<open>The servers of up to two statements, the identifier the database draws, the one the use case
  draws, and its clock.\<close>

record admin_env =
  avFirst :: pg_env
  avSecond :: pg_env
  avNewID :: uuid
  avDrawn :: uuid
  avNow :: time

subsection \<open>Tenants\<close>

datatype tenant_data = ATenant Tenant | ATenants "Tenant list"

definition AdminTenants_Create :: "admin_env \<Rightarrow> string option \<Rightarrow> catalog_db \<Rightarrow> catalog_db \<times> tenant_data reply" where
  "AdminTenants_Create e req db = (case req of
     None \<Rightarrow> (db, admin_error ErrValidation)
   | Some name \<Rightarrow>
       if name = [] then (db, admin_error ErrValidation)
       else answer 201 ATenant (TenantUseCase_Create (avFirst e) (avSecond e) (avNewID e) (avDrawn e) (avNow e) name db))"

definition AdminTenants_List :: "admin_env \<Rightarrow> catalog_db \<Rightarrow> catalog_db \<times> tenant_data reply" where
  "AdminTenants_List e db = answer 200 ATenants (db, TenantUseCase_List (avFirst e) 50 0 db)"

definition AdminTenants_Get :: "admin_env \<Rightarrow> string \<Rightarrow> catalog_db \<Rightarrow> catalog_db \<times> tenant_data reply" where
  "AdminTenants_Get e idStr db = (case ParseUUID idStr of
     Inl _ \<Rightarrow> (db, admin_error ErrValidation)
   | Inr i \<Rightarrow> answer 200 ATenant (db, TenantUseCase_Get (avFirst e) i db))"

definition AdminTenants_Update :: "admin_env \<Rightarrow> string \<Rightarrow> string option \<Rightarrow> catalog_db \<Rightarrow> catalog_db \<times> tenant_data reply" where
  "AdminTenants_Update e idStr req db = (case ParseUUID idStr of
     Inl _ \<Rightarrow> (db, admin_error ErrValidation)
   | Inr i \<Rightarrow> (case req of
       None \<Rightarrow> (db, admin_error ErrValidation)
     | Some status \<Rightarrow>
         if status \<noteq> TenantStatusActive \<and> status \<noteq> TenantStatusSuspended then (db, admin_error ErrValidation)
         else answer 200 ATenant (TenantUseCase_UpdateStatus (avFirst e) (avSecond e) i status db)))"

definition AdminTenants_Delete :: "admin_env \<Rightarrow> string \<Rightarrow> catalog_db \<Rightarrow> catalog_db \<times> tenant_data reply" where
  "AdminTenants_Delete e idStr db = (case ParseUUID idStr of
     Inl _ \<Rightarrow> (db, admin_error ErrValidation)
   | Inr i \<Rightarrow> answer_no_content (TenantUseCase_Delete (avFirst e) i db))"

subsection \<open>Roles\<close>

datatype role_data = ARole Role | ARoles "Role list" | APermissions "string list"

record role_body =
  rbName :: string
  rbDescription :: string

record assign_body =
  abTenantID :: string
  abPermissions :: "string list"

definition AdminRoles_List :: "admin_env \<Rightarrow> auth_ctx \<Rightarrow> catalog_db \<Rightarrow> catalog_db \<times> role_data reply" where
  "AdminRoles_List e ctx db = (case GetTenantID ctx of (tenantID, ok) \<Rightarrow>
     if \<not> ok then (db, admin_error ErrUnauthorized)
     else answer 200 ARoles (RoleUseCase_ListByTenant (avFirst e) tenantID db))"

definition AdminRoles_Create :: "admin_env \<Rightarrow> role_body option \<Rightarrow> catalog_db \<Rightarrow> catalog_db \<times> role_data reply" where
  "AdminRoles_Create e req db = (case req of
     None \<Rightarrow> (db, admin_error ErrValidation)
   | Some b \<Rightarrow>
       if rbName b = [] then (db, admin_error ErrValidation)
       else answer 201 ARole (RoleUseCase_Create (avFirst e) (avNewID e) (avDrawn e) (avNow e) (rbName b) (rbDescription b) db))"

definition AdminRoles_Get :: "admin_env \<Rightarrow> string \<Rightarrow> catalog_db \<Rightarrow> catalog_db \<times> role_data reply" where
  "AdminRoles_Get e idStr db = (case ParseUUID idStr of
     Inl _ \<Rightarrow> (db, admin_error ErrValidation)
   | Inr i \<Rightarrow> answer 200 ARole (db, RoleUseCase_GetByID (avFirst e) i db))"

text \<open>The changed role is never stored.\<close>

definition AdminRoles_Update :: "admin_env \<Rightarrow> string \<Rightarrow> role_body option \<Rightarrow> catalog_db \<Rightarrow> catalog_db \<times> role_data reply" where
  "AdminRoles_Update e idStr req db = (case ParseUUID idStr of
     Inl _ \<Rightarrow> (db, admin_error ErrValidation)
   | Inr i \<Rightarrow> (case req of
       None \<Rightarrow> (db, admin_error ErrValidation)
     | Some b \<Rightarrow> (case RoleUseCase_GetByID (avFirst e) i db of
         Inl err \<Rightarrow> (db, admin_error err)
       | Inr _ \<Rightarrow> (db, admin_error ErrNotImplemented))))"

definition AdminRoles_Delete :: "admin_env \<Rightarrow> string \<Rightarrow> catalog_db \<Rightarrow> catalog_db \<times> role_data reply" where
  "AdminRoles_Delete e idStr db = (case ParseUUID idStr of
     Inl _ \<Rightarrow> (db, admin_error ErrValidation)
   | Inr i \<Rightarrow> answer_no_content (RoleUseCase_Delete (avFirst e) i db))"

text \<open>The tenant is the one the body names.\<close>

definition AdminRoles_AssignPermissions :: "admin_env \<Rightarrow> string \<Rightarrow> assign_body option \<Rightarrow> catalog_db \<Rightarrow> catalog_db \<times> role_data reply" where
  "AdminRoles_AssignPermissions e idStr req db = (case ParseUUID idStr of
     Inl _ \<Rightarrow> (db, admin_error ErrValidation)
   | Inr i \<Rightarrow> (case req of
       None \<Rightarrow> (db, admin_error ErrValidation)
     | Some b \<Rightarrow>
         if abTenantID b = [] \<or> abPermissions b = [] then (db, admin_error ErrValidation)
         else (case ParseUUID (abTenantID b) of
           Inl _ \<Rightarrow> (db, admin_error ErrValidation)
         | Inr tenantID \<Rightarrow> answer_no_content
             (RoleUseCase_AssignPermissions (avFirst e) (avSecond e) tenantID i (abPermissions b) db))))"

text \<open>\<open>tenantParam\<close> is \<open>chi.URLParam(r, "tenant_id")\<close>.\<close>

definition AdminRoles_GetPermissions :: "admin_env \<Rightarrow> string \<Rightarrow> string \<Rightarrow> catalog_db \<Rightarrow> catalog_db \<times> role_data reply" where
  "AdminRoles_GetPermissions e idStr tenantParam db = (case ParseUUID idStr of
     Inl _ \<Rightarrow> (db, admin_error ErrValidation)
   | Inr i \<Rightarrow>
       if tenantParam = [] then (db, admin_error ErrValidation)
       else (case ParseUUID tenantParam of
         Inl _ \<Rightarrow> (db, admin_error ErrValidation)
       | Inr tenantID \<Rightarrow> answer 200 APermissions (RoleUseCase_GetPermissions (avFirst e) tenantID i db)))"

definition AdminRoles_RevokePermissions :: "admin_env \<Rightarrow> string \<Rightarrow> string \<Rightarrow> catalog_db \<Rightarrow> catalog_db \<times> role_data reply" where
  "AdminRoles_RevokePermissions e idStr tenantParam db = (case ParseUUID idStr of
     Inl _ \<Rightarrow> (db, admin_error ErrValidation)
   | Inr i \<Rightarrow>
       if tenantParam = [] then (db, admin_error ErrValidation)
       else (case ParseUUID tenantParam of
         Inl _ \<Rightarrow> (db, admin_error ErrValidation)
       | Inr tenantID \<Rightarrow> answer_no_content (RoleUseCase_RevokePermissions (avFirst e) tenantID i db)))"

subsection \<open>Users\<close>

text \<open>The use case. \<open>Create\<close> stores an empty password hash; no handler calls it.\<close>

definition UserUseCase_Create :: "auth_lib \<Rightarrow> admin_env \<Rightarrow> uuid \<Rightarrow> string \<Rightarrow> (auth_db, User) db_call" where
  "UserUseCase_Create L e tenantID email db =
     (if \<not> isl (snd (GetByEmail L (avFirst e) tenantID email db)) then (db, Inl ErrConflict)
      else UserRepository_Create (avSecond e) (avNewID e) tenantID
        \<lparr> usID = avDrawn e, usTenantID = tenantID, usEmail = email, usPasswordHash = [], usStatus = UserStatusActive,
          usCreatedAt = avNow e, usUpdatedAt = avNow e \<rparr> db)"

definition UserUseCase_GetByID :: "pg_env \<Rightarrow> uuid \<Rightarrow> uuid \<Rightarrow> (auth_db, User) db_call" where
  "UserUseCase_GetByID env tenantID i = UserRepository_GetByID env tenantID i"

definition UserUseCase_Update :: "pg_env \<Rightarrow> time \<Rightarrow> uuid \<Rightarrow> User \<Rightarrow> (auth_db, User) db_call" where
  "UserUseCase_Update env now tenantID u = UserRepository_Update env tenantID (u\<lparr>usUpdatedAt := now\<rparr>)"

definition UserUseCase_Delete :: "pg_env \<Rightarrow> uuid \<Rightarrow> uuid \<Rightarrow> (auth_db, unit) db_call" where
  "UserUseCase_Delete env tenantID i db = (case UserRepository_GetByID env tenantID i db of
     (db', Inl e) \<Rightarrow> (db', Inl e) | (db', Inr _) \<Rightarrow> (db', Inl ErrNotImplemented))"

text \<open>The encoder leaves the password hash of a user out.\<close>

record user_body =
  ubEmail :: string
  ubPassword :: string
  ubStatus :: string

definition AdminUsers_List :: "auth_ctx \<Rightarrow> auth_db \<Rightarrow> auth_db \<times> User reply" where
  "AdminUsers_List ctx db = (db, if \<not> snd (GetTenantID ctx) then admin_error ErrUnauthorized else admin_error ErrNotImplemented)"

definition AdminUsers_Create :: "auth_ctx \<Rightarrow> user_body option \<Rightarrow> auth_db \<Rightarrow> auth_db \<times> User reply" where
  "AdminUsers_Create ctx req db = (db,
     if \<not> snd (GetTenantID ctx) then admin_error ErrUnauthorized
     else case req of
       None \<Rightarrow> admin_error ErrValidation
     | Some b \<Rightarrow> if ubEmail b = [] \<or> ubPassword b = [] then admin_error ErrValidation else admin_error ErrNotImplemented)"

definition AdminUsers_Get :: "admin_env \<Rightarrow> auth_ctx \<Rightarrow> string \<Rightarrow> auth_db \<Rightarrow> auth_db \<times> User reply" where
  "AdminUsers_Get e ctx idStr db = (case GetTenantID ctx of (tenantID, ok) \<Rightarrow>
     if \<not> ok then (db, admin_error ErrUnauthorized)
     else (case ParseUUID idStr of
       Inl _ \<Rightarrow> (db, admin_error ErrValidation)
     | Inr i \<Rightarrow> answer 200 id (UserUseCase_GetByID (avFirst e) tenantID i db)))"

definition AdminUsers_Update :: "admin_env \<Rightarrow> auth_ctx \<Rightarrow> string \<Rightarrow> user_body option \<Rightarrow> auth_db \<Rightarrow> auth_db \<times> User reply" where
  "AdminUsers_Update e ctx idStr req db = (case GetTenantID ctx of (tenantID, ok) \<Rightarrow>
     if \<not> ok then (db, admin_error ErrUnauthorized)
     else (case ParseUUID idStr of
       Inl _ \<Rightarrow> (db, admin_error ErrValidation)
     | Inr i \<Rightarrow> (case req of
         None \<Rightarrow> (db, admin_error ErrValidation)
       | Some b \<Rightarrow> (case UserUseCase_GetByID (avFirst e) tenantID i db of
           (db', Inl err) \<Rightarrow> (db', admin_error err)
         | (db', Inr u) \<Rightarrow>
             let u = (if ubEmail b \<noteq> [] then u\<lparr>usEmail := ubEmail b\<rparr> else u);
                 u = (if ubStatus b \<noteq> [] then u\<lparr>usStatus := ubStatus b\<rparr> else u)
             in answer 200 id (UserUseCase_Update (avSecond e) (avNow e) tenantID u db')))))"

definition AdminUsers_Delete :: "admin_env \<Rightarrow> auth_ctx \<Rightarrow> string \<Rightarrow> auth_db \<Rightarrow> auth_db \<times> User reply" where
  "AdminUsers_Delete e ctx idStr db = (case GetTenantID ctx of (tenantID, ok) \<Rightarrow>
     if \<not> ok then (db, admin_error ErrUnauthorized)
     else (case ParseUUID idStr of
       Inl _ \<Rightarrow> (db, admin_error ErrValidation)
     | Inr i \<Rightarrow> answer_no_content (UserUseCase_Delete (avFirst e) tenantID i db)))"

subsection \<open>Quotas\<close>

datatype quota_data = AQuota Quota | AQuotas "Quota list"

record quota_body =
  qbScope :: string
  qbScopeID :: string
  qbRequestsPerMin :: int
  qbTokensPerMin :: int
  qbToolExecsPerMin :: int

text \<open>The use case; an error of the lookup counts as absence.\<close>

definition QuotaUseCase_Create :: "admin_env \<Rightarrow> uuid \<Rightarrow> string \<Rightarrow> uuid \<Rightarrow> int \<Rightarrow> int \<Rightarrow> int \<Rightarrow> (quota_table, Quota) db_call" where
  "QuotaUseCase_Create e tenantID scope scopeID rpm tpm xpm tbl =
     (if \<not> isl (snd (GetByScope (avFirst e) tenantID scope scopeID tbl)) then (tbl, Inl ErrConflict)
      else QuotaRepository_Create (avSecond e) (avNewID e) tenantID
        \<lparr> quID = avDrawn e, quTenantID = tenantID, quScope = scope, quScopeID = scopeID, quRequestsPerMin = rpm,
          quTokensPerMin = tpm, quToolExecsPerMin = xpm, quCreatedAt = avNow e, quUpdatedAt = avNow e \<rparr> tbl)"

definition QuotaUseCase_GetByScope :: "pg_env \<Rightarrow> uuid \<Rightarrow> string \<Rightarrow> uuid \<Rightarrow> (quota_table, Quota) db_call" where
  "QuotaUseCase_GetByScope env tenantID scope scopeID = GetByScope env tenantID scope scopeID"

definition QuotaUseCase_ListByTenant :: "pg_env \<Rightarrow> uuid \<Rightarrow> (quota_table, Quota list) db_call" where
  "QuotaUseCase_ListByTenant env tenantID = ListByTenant env tenantID"

definition QuotaUseCase_Update :: "admin_env \<Rightarrow> uuid \<Rightarrow> string \<Rightarrow> uuid \<Rightarrow> int \<Rightarrow> int \<Rightarrow> int \<Rightarrow> (quota_table, Quota) db_call" where
  "QuotaUseCase_Update e tenantID scope scopeID rpm tpm xpm tbl = (case GetByScope (avFirst e) tenantID scope scopeID tbl of
     (tbl', Inl err) \<Rightarrow> (tbl', Inl err)
   | (tbl', Inr q) \<Rightarrow> QuotaRepository_Update (avSecond e) tenantID
       (q\<lparr>quRequestsPerMin := rpm, quTokensPerMin := tpm, quToolExecsPerMin := xpm, quUpdatedAt := avNow e\<rparr>) tbl')"

definition QuotaUseCase_Delete :: "pg_env \<Rightarrow> uuid \<Rightarrow> string \<Rightarrow> uuid \<Rightarrow> (quota_table, unit) db_call" where
  "QuotaUseCase_Delete env tenantID scope scopeID = QuotaRepository_Delete env tenantID scope scopeID"

definition AdminQuotas_List :: "admin_env \<Rightarrow> auth_ctx \<Rightarrow> quota_table \<Rightarrow> quota_table \<times> quota_data reply" where
  "AdminQuotas_List e ctx tbl = (case GetTenantID ctx of (tenantID, ok) \<Rightarrow>
     if \<not> ok then (tbl, admin_error ErrUnauthorized)
     else answer 200 AQuotas (QuotaUseCase_ListByTenant (avFirst e) tenantID tbl))"

definition positive_limits :: "quota_body \<Rightarrow> bool" where
  "positive_limits b = (\<not> (qbRequestsPerMin b \<le> 0 \<or> qbTokensPerMin b \<le> 0 \<or> qbToolExecsPerMin b \<le> 0))"

definition AdminQuotas_Create :: "admin_env \<Rightarrow> auth_ctx \<Rightarrow> quota_body option \<Rightarrow> quota_table \<Rightarrow> quota_table \<times> quota_data reply" where
  "AdminQuotas_Create e ctx req tbl = (case GetTenantID ctx of (tenantID, ok) \<Rightarrow>
     if \<not> ok then (tbl, admin_error ErrUnauthorized)
     else (case req of
       None \<Rightarrow> (tbl, admin_error ErrValidation)
     | Some b \<Rightarrow> (case ParseUUID (qbScopeID b) of
         Inl _ \<Rightarrow> (tbl, admin_error ErrValidation)
       | Inr scopeID \<Rightarrow>
           if \<not> positive_limits b then (tbl, admin_error ErrValidation)
           else answer 201 AQuota (QuotaUseCase_Create e tenantID (qbScope b) scopeID
                  (qbRequestsPerMin b) (qbTokensPerMin b) (qbToolExecsPerMin b) tbl))))"

text \<open>The scope is the parameter \<open>id\<close> of the path; \<open>scopeParam\<close> is \<open>chi.URLParam(r, "scope_id")\<close>.\<close>

definition AdminQuotas_Get :: "admin_env \<Rightarrow> auth_ctx \<Rightarrow> string \<Rightarrow> string \<Rightarrow> quota_table \<Rightarrow> quota_table \<times> quota_data reply" where
  "AdminQuotas_Get e ctx scope scopeParam tbl = (case GetTenantID ctx of (tenantID, ok) \<Rightarrow>
     if \<not> ok then (tbl, admin_error ErrUnauthorized)
     else if scopeParam = [] then (tbl, admin_error ErrValidation)
     else (case ParseUUID scopeParam of
       Inl _ \<Rightarrow> (tbl, admin_error ErrValidation)
     | Inr scopeID \<Rightarrow> answer 200 AQuota (QuotaUseCase_GetByScope (avFirst e) tenantID scope scopeID tbl)))"

definition AdminQuotas_Update :: "admin_env \<Rightarrow> auth_ctx \<Rightarrow> string \<Rightarrow> string \<Rightarrow> quota_body option \<Rightarrow> quota_table \<Rightarrow> quota_table \<times> quota_data reply" where
  "AdminQuotas_Update e ctx scope scopeParam req tbl = (case GetTenantID ctx of (tenantID, ok) \<Rightarrow>
     if \<not> ok then (tbl, admin_error ErrUnauthorized)
     else if scopeParam = [] then (tbl, admin_error ErrValidation)
     else (case ParseUUID scopeParam of
       Inl _ \<Rightarrow> (tbl, admin_error ErrValidation)
     | Inr scopeID \<Rightarrow> (case req of
         None \<Rightarrow> (tbl, admin_error ErrValidation)
       | Some b \<Rightarrow>
           if \<not> positive_limits b then (tbl, admin_error ErrValidation)
           else answer 200 AQuota (QuotaUseCase_Update e tenantID scope scopeID
                  (qbRequestsPerMin b) (qbTokensPerMin b) (qbToolExecsPerMin b) tbl))))"

definition AdminQuotas_Delete :: "admin_env \<Rightarrow> auth_ctx \<Rightarrow> string \<Rightarrow> string \<Rightarrow> quota_table \<Rightarrow> quota_table \<times> quota_data reply" where
  "AdminQuotas_Delete e ctx scope scopeParam tbl = (case GetTenantID ctx of (tenantID, ok) \<Rightarrow>
     if \<not> ok then (tbl, admin_error ErrUnauthorized)
     else if scopeParam = [] then (tbl, admin_error ErrValidation)
     else (case ParseUUID scopeParam of
       Inl _ \<Rightarrow> (tbl, admin_error ErrValidation)
     | Inr scopeID \<Rightarrow> answer_no_content (QuotaUseCase_Delete (avFirst e) tenantID scope scopeID tbl)))"

subsection \<open>The catalog under any traffic\<close>

text \<open>The requests on tenants and roles. A request that looks something up and then writes may find
  the tables changed in between; its second half at a later state is a step of its own.\<close>

datatype catalog_step =
    TenantCreate "string option" | TenantList | TenantGet string | TenantUpdate string "string option" | TenantDelete string
  | RoleList auth_ctx | RoleCreate "role_body option" | RoleGet string | RoleUpdate string "role_body option" | RoleDelete string
  | RoleAssign string "assign_body option" | RolePermissions string string | RoleRevoke string string
  | LateInsert string | LateStatus uuid string | LateAssign uuid uuid "string list"

fun catalog_exec :: "admin_env \<times> catalog_step \<Rightarrow> catalog_db \<Rightarrow> catalog_db" where
  "catalog_exec (e, TenantCreate req) db = fst (AdminTenants_Create e req db)"
| "catalog_exec (e, TenantList) db = fst (AdminTenants_List e db)"
| "catalog_exec (e, TenantGet i) db = fst (AdminTenants_Get e i db)"
| "catalog_exec (e, TenantUpdate i req) db = fst (AdminTenants_Update e i req db)"
| "catalog_exec (e, TenantDelete i) db = fst (AdminTenants_Delete e i db)"
| "catalog_exec (e, RoleList ctx) db = fst (AdminRoles_List e ctx db)"
| "catalog_exec (e, RoleCreate req) db = fst (AdminRoles_Create e req db)"
| "catalog_exec (e, RoleGet i) db = fst (AdminRoles_Get e i db)"
| "catalog_exec (e, RoleUpdate i req) db = fst (AdminRoles_Update e i req db)"
| "catalog_exec (e, RoleDelete i) db = fst (AdminRoles_Delete e i db)"
| "catalog_exec (e, RoleAssign i req) db = fst (AdminRoles_AssignPermissions e i req db)"
| "catalog_exec (e, RolePermissions i t) db = fst (AdminRoles_GetPermissions e i t db)"
| "catalog_exec (e, RoleRevoke i t) db = fst (AdminRoles_RevokePermissions e i t db)"
| "catalog_exec (e, LateInsert name) db = fst (tenant_insert (avSecond e) (avNewID e) (avDrawn e) (avNow e) name db)"
| "catalog_exec (e, LateStatus i status) db = fst (TenantRepository_UpdateStatus (avSecond e) i status db)"
| "catalog_exec (e, LateAssign t r ps) db = fst (RoleRepository_AssignPermissions (avSecond e) t r ps db)"

definition catalog_run :: "(admin_env \<times> catalog_step) list \<Rightarrow> catalog_db \<Rightarrow> catalog_db" where
  "catalog_run ss db = fold catalog_exec ss db"

lemma fst_answer [simp]: "fst (answer n f x) = fst x"
  by (cases x; cases "snd x") (auto simp: answer_def)

lemma admin_error_not_ok [simp]: "admin_error e \<noteq> (200, d)" "admin_error e \<noteq> (201, d)" "admin_error e \<noteq> (204, d)"
  by (cases e; simp add: admin_error_def)+

lemma answer_ok: "answer n f x = (db', (n, d)) \<Longrightarrow> n \<in> {200, 201} \<Longrightarrow> \<exists>y. x = (db', Inr y) \<and> d = Data (f y)"
  by (cases x; cases "snd x") (auto simp: answer_def reply_json_def)

lemma fst_answer_no_content [simp]: "fst (answer_no_content x) = fst x"
  by (cases x; cases "snd x") (auto simp: answer_no_content_def)

lemma fst_read [simp]:
  "fst (RoleRepository_ListByTenant env t db) = db" "fst (RoleRepository_GetPermissions env t r db) = db"
  by (simp_all add: RoleRepository_ListByTenant_def RoleRepository_GetPermissions_def fst_WithTenant fst_stmt)

lemmas catalog_ok_repo = catalog_ok_tenant_create catalog_ok_tenant_status catalog_ok_role_create catalog_ok_assign
  catalog_ok_role_delete catalog_ok_revoke

lemmas catalog_handlers = AdminTenants_Create_def AdminTenants_List_def AdminTenants_Get_def AdminTenants_Update_def
  AdminTenants_Delete_def AdminRoles_List_def AdminRoles_Create_def AdminRoles_Get_def AdminRoles_Update_def AdminRoles_Delete_def
  AdminRoles_AssignPermissions_def AdminRoles_GetPermissions_def AdminRoles_RevokePermissions_def

lemmas catalog_usecases = TenantUseCase_Create_def tenant_insert_def TenantUseCase_UpdateStatus_def TenantUseCase_Delete_def
  RoleUseCase_Create_def RoleUseCase_AssignPermissions_def RoleUseCase_ListByTenant_def RoleUseCase_GetPermissions_def
  RoleUseCase_RevokePermissions_def RoleUseCase_Delete_def

lemma catalog_ok_exec: "catalog_ok db \<Longrightarrow> catalog_ok (catalog_exec x db)"
  by (cases "(x, db)" rule: catalog_exec.cases)
    (auto simp: catalog_handlers catalog_usecases catalog_ok_repo fst_case_result split: option.split sum.split prod.split)

text \<open>What identifies a tenant never changes, and no tenant disappears.\<close>

definition tenant_key :: "Tenant \<Rightarrow> uuid \<times> string \<times> time" where
  "tenant_key t = (tnID t, tnName t, tnCreatedAt t)"

definition extends :: "catalog_db \<Rightarrow> catalog_db \<Rightarrow> bool" where
  "extends db db' = prefix (map tenant_key (cdTenants db)) (map tenant_key (cdTenants db'))"

lemma extends_refl [simp]: "extends db db"
  by (simp add: extends_def)

lemma extends_same: "cdTenants db' = cdTenants db \<Longrightarrow> extends db db'"
  by (simp add: extends_def)

lemma extends_stmt: "extends db (fst (run db)) \<Longrightarrow> extends db (fst (stmt env run db))"
  using stmt_db_cases[of env run db] by auto

lemma extends_WithTenant: "extends db (fst (fn db)) \<Longrightarrow> extends db (fst (WithTenant env t fn db))"
  using WithTenant_db_cases[of env t fn db] by auto

lemma extends_tenant_create: "extends db (fst (TenantRepository_Create env i t db))"
  unfolding TenantRepository_Create_def fst_case_result
  by (rule extends_stmt) (auto simp: SqlCreateTenant_def extends_def Let_def)

lemma extends_tenant_status: "extends db (fst (TenantRepository_UpdateStatus env i status db))"
  unfolding TenantRepository_UpdateStatus_def
  by (rule extends_stmt) (auto simp: extends_def map_update_rows tenant_key_def)

lemma extends_role_create: "extends db (fst (RoleRepository_Create env i r db))"
  unfolding RoleRepository_Create_def fst_case_result
  by (rule extends_stmt) (auto simp: SqlCreateRole_def extends_same Let_def)

lemma extends_assign: "extends db (fst (RoleRepository_AssignPermissions env t r ps db))"
  unfolding RoleRepository_AssignPermissions_def by (intro extends_WithTenant extends_stmt) (simp add: extends_same)

lemma extends_role_delete: "extends db (fst (RoleRepository_Delete env i db))"
  unfolding RoleRepository_Delete_def by (intro extends_stmt) (simp add: extends_same)

lemma extends_revoke: "extends db (fst (RoleRepository_RevokePermissions env t r db))"
  unfolding RoleRepository_RevokePermissions_def by (intro extends_WithTenant extends_stmt) (simp add: extends_same)

lemmas extends_repo = extends_tenant_create extends_tenant_status extends_role_create extends_assign extends_role_delete extends_revoke

lemma extends_exec: "extends db (catalog_exec x db)"
  by (cases "(x, db)" rule: catalog_exec.cases)
    (auto simp: catalog_handlers catalog_usecases extends_repo fst_case_result split: option.split sum.split prod.split)


subsection \<open>Suspending a tenant\<close>

text \<open>The registry as the tenant middleware reads it.\<close>

definition tenant_view :: "catalog_db \<Rightarrow> tenant_table" where
  "tenant_view db = map (\<lambda>t. (tnID t, tnStatus t)) (cdTenants db)"

lemma map_of_tenant_view: "map_of (tenant_view db) i = map_option tnStatus (List.find (\<lambda>t. tnID t = i) (cdTenants db))"
proof -
  have "map_of (map (\<lambda>t. (tnID t, tnStatus t)) ts) i = map_option tnStatus (List.find (\<lambda>t. tnID t = i) ts)" for ts
    by (induction ts) auto
  then show ?thesis by (simp add: tenant_view_def)
qed

lemma status_updated:
  assumes "snd (TenantRepository_UpdateStatus env i status db) = Inr ()"
  shows "map_of (tenant_view (fst (TenantRepository_UpdateStatus env i status db))) j =
    (if j = i then Some status else map_of (tenant_view db) j)"
proof -
  let ?db = "fst (TenantRepository_UpdateStatus env i status db)"
  have u: "cdTenants ?db = update_rows (\<lambda>t. tnID t = i) (\<lambda>t. t\<lparr>tnStatus := status\<rparr>) (cdTenants db)"
    and ex: "list_ex (\<lambda>t. tnID t = i) (cdTenants db)"
    using assms unfolding TenantRepository_UpdateStatus_def stmt_def by (auto split: option.splits if_splits)
  obtain t where t: "List.find (\<lambda>t. tnID t = i) (cdTenants db) = Some t"
    using ex by (cases "List.find (\<lambda>t. tnID t = i) (cdTenants db)") (auto simp: find_None_iff list_ex_iff)
  have f: "List.find (\<lambda>t. tnID t = j) (cdTenants ?db) =
      map_option (\<lambda>t. if tnID t = i then t\<lparr>tnStatus := status\<rparr> else t) (List.find (\<lambda>t. tnID t = j) (cdTenants db))"
    unfolding u by (rule find_update_rows) simp
  show ?thesis
  proof (cases "List.find (\<lambda>t. tnID t = j) (cdTenants db)")
    case None
    then show ?thesis using f t by (auto simp: map_of_tenant_view)
  next
    case (Some r)
    have "tnID r = j" using find_SomeD[OF Some] by simp
    then show ?thesis using f Some by (simp add: map_of_tenant_view)
  qed
qed

lemma update_answered:
  assumes "AdminTenants_Update e idStr (Some status) db = (db', (200, d))" and "ParseUUID idStr = Inr i"
  shows "snd (TenantRepository_UpdateStatus (avSecond e) i status db) = Inr ()
    \<and> db' = fst (TenantRepository_UpdateStatus (avSecond e) i status db)"
  using assms
  by (auto simp: AdminTenants_Update_def TenantUseCase_UpdateStatus_def answer_def admin_error_def reply_json_def
      split: if_splits sum.splits prod.splits go_error.splits)

lemma NewTenant_known:
  assumes "axTenantID ctx = Some i" and "map_of ts i = Some status" and "pgStmtErr env = None"
  shows "NewTenant env ts ctx = (if status \<noteq> ''active'' then Reject 403 ErrForbidden else Pass ctx)"
  using assms by (cases ctx) (simp add: NewTenant_def tenant_status_def stmt_def)

text \<open>C15: Suspending a tenant takes effect: once the request has been answered with 200, every request
  that carries a token of this tenant is refused with 403 before any handler runs, whatever it asks
  for and whoever in the tenant sends it, as long as the registry can be read; activating the tenant
  lets its requests reach the delegation middleware again; and the registry is the same for every
  other tenant.\<close>

theorem suspension_takes_effect:
  assumes "AdminTenants_Update e idStr (Some status) db = (db', (200, d))" and "ParseUUID idStr = Inr i"
    and "gsTenants st = tenant_view db'"
    and "identified ge rq c u i" and "pgStmtErr (geTenantEnv ge) = None"
  shows "chain ge rq h st = (if status = ''suspended'' then (st, Some (WriteError 403 ErrForbidden))
      else after_tenant ge rq (claims_ctx c u i empty_ctx) h st)
    \<and> (\<forall>j. j \<noteq> i \<longrightarrow> map_of (tenant_view db') j = map_of (tenant_view db) j)"
proof -
  have u: "snd (TenantRepository_UpdateStatus (avSecond e) i status db) = Inr ()"
    "db' = fst (TenantRepository_UpdateStatus (avSecond e) i status db)"
    using update_answered[OF assms(1,2)] by simp_all
  note m = status_updated[OF u(1), folded u(2)]
  have s: "status = ''active'' \<or> status = ''suspended''"
    using u(1) unfolding TenantRepository_UpdateStatus_def stmt_def by (auto split: option.splits if_splits)
  have ax: "axTenantID (claims_ctx c u i empty_ctx) = Some i" using assms(4) unfolding identified_def by auto
  have "NewAuth (geJwt ge) (Some (geService ge)) (hqNow rq) (hqAuthorization rq) empty_ctx = Pass (claims_ctx c u i empty_ctx)"
    using assms(4) unfolding identified_def NewAuth_Pass by auto
  moreover have "NewTenant (geTenantEnv ge) (gsTenants st) (claims_ctx c u i empty_ctx) =
      (if status \<noteq> ''active'' then Reject 403 ErrForbidden else Pass (claims_ctx c u i empty_ctx))"
    using NewTenant_known[OF ax _ assms(5), of "gsTenants st" status] m[of i] assms(3) by simp
  ultimately show ?thesis using s m by (auto simp: chain_def)
qed

text \<open>The routes under \<open>/v1/admin/tenants\<close>: the authentication middleware and the handler.\<close>

definition tenants_endpoint ::
  "jwt_lib \<Rightarrow> AuthService \<Rightarrow> time \<Rightarrow> string \<Rightarrow> (catalog_db \<Rightarrow> catalog_db \<times> tenant_data reply) \<Rightarrow> catalog_db \<Rightarrow> catalog_db \<times> tenant_data reply option" where
  "tenants_endpoint J s now header h db = (case NewAuth J (Some s) now header empty_ctx of
     Panic \<Rightarrow> (db, None)
   | Reject n err \<Rightarrow> (db, Some (n, ErrorBody (error_text err)))
   | Pass _ \<Rightarrow> apsnd Some (h db))"

text \<open>Nothing but a valid token is asked for: any user of any tenant can create, suspend and activate
  tenants.\<close>

theorem any_token_administers_tenants:
  assumes "bearer header = Some tok" and "ParseAccessToken J s now tok = Inr c" and "ParseUUID (clUserID c) = Inr u"
    and "ParseUUID (clTenantID c) = Inr t"
  shows "tenants_endpoint J s now header h db = apsnd Some (h db)"
proof -
  have "\<exists>ctx. NewAuth J (Some s) now header empty_ctx = Pass ctx"
    using assms by (auto simp: NewAuth_Pass)
  then show ?thesis by (auto simp: tenants_endpoint_def)
qed

text \<open>A request that loses the race for a name after its lookup is an internal error, where the lookup
  alone would have made it a conflict.\<close>

theorem lost_race_is_internal:
  assumes "calm env" and "list_ex (\<lambda>t. tnName t = name) (cdTenants db)"
  shows "answer 201 ATenant (tenant_insert env newID drawn now name db) = (db, (500, ErrorBody (error_text unique_key)))"
  using assms by (simp add: tenant_insert_def TenantRepository_Create_def stmt_calm SqlCreateTenant_def answer_def admin_error_def unique_key_def)

subsection \<open>Suspending a user\<close>

text \<open>Every row of the user, of which there is one, has a status that is not active.\<close>

definition locked :: "uuid \<Rightarrow> uuid \<Rightarrow> auth_db \<Rightarrow> bool" where
  "locked t i db = (list_ex (\<lambda>u. usTenantID u = t \<and> usID u = i) (dbUsers db)
     \<and> list_all (\<lambda>u. usTenantID u = t \<longrightarrow> usID u = i \<longrightarrow> \<not> User_IsActive u) (dbUsers db))"

lemma get_user_found:
  assumes "snd (get_user env t P db) = Inr u"
  shows "u \<in> set (dbUsers db) \<and> usTenantID u = t \<and> P u"
proof -
  have "List.find (\<lambda>r. user_sees env r \<and> usTenantID r = t \<and> P r) (dbUsers db) = Some u"
    using WithTenant_InrD[OF assms[unfolded get_user_def]]
    by (auto simp: stmt_def split: option.splits sum.splits prod.splits)
  then show ?thesis using find_SomeD by fastforce
qed

lemma locked_not_found:
  assumes "locked t i db" and "snd (get_user env t P db) = Inr u" and "usID u = i"
  shows "\<not> User_IsActive u"
  using get_user_found[OF assms(2)] assms(1,3) unfolding locked_def list_all_iff by blast

lemma locked_refresh:
  assumes "locked t i db" and "snd (refresh_check L e req db) = Inr (stored, u)"
  shows "\<not> (rtTenantID stored = t \<and> rtUserID stored = i)"
proof
  assume s: "rtTenantID stored = t \<and> rtUserID stored = i"
  have "snd (UserRepository_GetByID (xeUser e) (rtTenantID stored) (rtUserID stored) db) = Inr u" and a: "User_IsActive u"
    using assms(2) unfolding refresh_check_def by (auto split: sum.splits if_splits prod.splits)
  then have g: "snd (get_user (xeUser e) t (\<lambda>r. usID r = i) db) = Inr u" using s unfolding UserRepository_GetByID_def by simp
  show False using locked_not_found[OF assms(1) g] get_user_found[OF g] a by blast
qed

lemma locked_login:
  assumes "locked t i db" and "login_user L e req db = Some (Inr u)" and "lqTenantID req = t"
  shows "usID u \<noteq> i"
proof
  assume i: "usID u = i"
  have g: "snd (get_user (xeUser e) t (\<lambda>r. auFold L (usEmail r) = auFold L (lqEmail req)) db) = Inr u" and a: "User_IsActive u"
    using assms(2,3) unfolding login_user_def GetByEmail_def by (auto split: sum.splits option.splits if_splits)
  show False using locked_not_found[OF assms(1) g i] a by blast
qed

text \<open>The authentication operations never touch the row of an existing user.\<close>

lemma users_on_tokens [simp]: "dbUsers (fst (on_tokens f db)) = dbUsers db"
  by (simp add: on_tokens_def split: prod.split)

lemma locked_users: "dbUsers db' = dbUsers db \<Longrightarrow> locked t i db' = locked t i db"
  by (simp add: locked_def)

lemma users_Store [simp]: "dbUsers (fst (Store L env n tok db)) = dbUsers db"
  by (simp add: Store_def fst_case_result)

lemma users_Rotate [simp]: "dbUsers (fst (Rotate L env n i tok db)) = dbUsers db"
  by (simp add: Rotate_def fst_case_result)

lemma users_RevokeFamily [simp]: "dbUsers (fst (RevokeFamily env f db)) = dbUsers db"
  by (simp add: RevokeFamily_def)

lemma users_kept:
  "Store L env n tok db = (db', r) \<Longrightarrow> dbUsers db' = dbUsers db"
  "Rotate L env n i tok db = (db', r) \<Longrightarrow> dbUsers db' = dbUsers db"
  "RevokeFamily env f db = (db', r') \<Longrightarrow> dbUsers db' = dbUsers db"
  using users_Store[of L env n tok db] users_Rotate[of L env n i tok db] users_RevokeFamily[of env f db] by simp_all

lemma users_Login: "dbUsers (fst (Login L s e req db)) = dbUsers db"
  by (auto simp: Login_def users_kept(1) split: option.split sum.split prod.split)

lemma users_refresh_check: "dbUsers (fst (refresh_check L e req db)) = dbUsers db"
  by (auto simp: refresh_check_def users_kept(3) split: option.split sum.split prod.split)

lemma users_refresh_issue: "dbUsers (fst (refresh_issue L s e req stored u db)) = dbUsers db"
  by (auto simp: refresh_issue_def users_kept(2) split: option.split sum.split prod.split)

lemma users_Refresh: "dbUsers (fst (Refresh L s e req db)) = dbUsers db"
  using users_refresh_check[of L e req db] users_refresh_issue
  by (auto simp: Refresh_def split: sum.split prod.split)

lemma users_Logout: "dbUsers (fst (Logout L e req db)) = dbUsers db"
  by (simp add: Logout_def Revoke_def split: sum.split)

lemma users_RevokeAll: "dbUsers (fst (RevokeAllSessions env t u db)) = dbUsers db"
  by (simp add: RevokeAllSessions_def fst_WithTenant)

lemma users_SuperAdmin: "dbUsers (fst (SuperAdminLogin L s e m pw db)) = dbUsers db"
  by (simp add: SuperAdminLogin_def split: sum.split option.split prod.split)

lemma locked_Create:
  assumes "locked t i db"
  shows "locked t i (fst (UserRepository_Create env n t' u db))"
proof -
  let ?run = "stmt env (SqlCreateUser env (dbTenants db) n t' u)"
  let ?db = "db\<lparr>dbUsers := fst (?run (dbUsers db))\<rparr>"
  have "locked t i ?db"
    using stmt_db_cases[of env "SqlCreateUser env (dbTenants db) n t' u" "dbUsers db"] assms
    by (auto simp: locked_def SqlCreateUser_def Let_def list_ex_iff split: if_splits)
  moreover have "fst (UserRepository_Create env n t' u db) = db \<or> fst (UserRepository_Create env n t' u db) = ?db"
    using WithTenant_db_cases[of env t' "\<lambda>db. case on_users (stmt env (SqlCreateUser env (dbTenants db) n t' u)) db of
       (db', Inl e) \<Rightarrow> (db', Inl e)
     | (db', Inr r) \<Rightarrow> (db', Inr (u\<lparr>usID := usID r, usTenantID := usTenantID r, usCreatedAt := usCreatedAt r, usUpdatedAt := usUpdatedAt r\<rparr>))" db]
    unfolding UserRepository_Create_def fst_case_result by (simp add: on_users_def split: prod.splits)
  ultimately show ?thesis using assms by metis
qed

lemma locked_Register: "locked t i db \<Longrightarrow> locked t i (fst (AuthUseCase_Register L e req db))"
  by (simp add: AuthUseCase_Register_def locked_Create split: option.split sum.split)

lemma locked_exec: "locked t i db \<Longrightarrow> locked t i (auth_exec L s x db)"
  by (cases "(L, s, x, db)" rule: auth_exec.cases)
    (simp_all add: locked_Register locked_users[OF users_Login] locked_users[OF users_Refresh] locked_users[OF users_Logout]
      locked_users[OF users_RevokeAll] locked_users[OF users_SuperAdmin])

lemma locked_run: "locked t i db \<Longrightarrow> locked t i (auth_run L s ops db)"
  unfolding auth_run_def by (induction ops arbitrary: db) (simp_all add: locked_exec)

lemma SqlUpdateUser_locks:
  assumes "snd (SqlUpdateUser env t u rs) = Inr r" and "\<not> User_IsActive u"
  shows "list_ex (\<lambda>u'. usTenantID u' = t \<and> usID u' = usID u) (fst (SqlUpdateUser env t u rs))
    \<and> list_all (\<lambda>u'. usTenantID u' = t \<longrightarrow> usID u' = usID u \<longrightarrow> \<not> User_IsActive u') (fst (SqlUpdateUser env t u rs))"
proof -
  let ?Q = "\<lambda>r. user_sees env r \<and> usTenantID r = t \<and> usID r = usID u"
  let ?f = "\<lambda>r. r\<lparr>usEmail := usEmail u, usPasswordHash := usPasswordHash u, usStatus := usStatus u, usUpdatedAt := pgNow env\<rparr>"
  obtain x where x: "List.find ?Q rs = Some x" and f: "fst (SqlUpdateUser env t u rs) = update_rows ?Q ?f rs"
    using assms(1) unfolding SqlUpdateUser_def Let_def by (auto split: option.splits if_splits)
  have "x \<in> set rs" "?Q x" using find_SomeD[OF x] by simp_all
  then have vis: "user_sees env y" if "usTenantID y = t" for y using that by (simp add: user_sees_def rls_ok_def)
  have "?f x \<in> set (update_rows ?Q ?f rs)" unfolding in_update_rows using \<open>x \<in> set rs\<close> \<open>?Q x\<close> by force
  moreover have "\<not> User_IsActive y" if y: "y \<in> set (update_rows ?Q ?f rs)" "usTenantID y = t" "usID y = usID u" for y
  proof -
    obtain z where z: "z \<in> set rs" "y = (if ?Q z then ?f z else z)" using y(1) unfolding in_update_rows by blast
    then have "?Q z" using y(2,3) vis by (auto split: if_splits)
    then show ?thesis using z(2) assms(2) by (simp add: User_IsActive_def)
  qed
  moreover have "\<exists>y \<in> set (update_rows ?Q ?f rs). usTenantID y = t \<and> usID y = usID u"
    by (rule bexI[of _ "?f x"]) (use calculation(1) \<open>?Q x\<close> in simp_all)
  ultimately show ?thesis unfolding f list_ex_iff list_all_iff by blast
qed

lemma user_update_answered:
  assumes "AdminUsers_Update e ctx idStr (Some b) db = (db', (200, d))" and "GetTenantID ctx = (t, True)" and "ParseUUID idStr = Inr i"
    and "ubStatus b \<noteq> []"
  obtains u r where "UserUseCase_GetByID (avFirst e) t i db = (fst (UserUseCase_GetByID (avFirst e) t i db), Inr u)"
    and "UserRepository_Update (avSecond e) t ((if ubEmail b \<noteq> [] then u\<lparr>usEmail := ubEmail b\<rparr> else u)\<lparr>usStatus := ubStatus b, usUpdatedAt := avNow e\<rparr>)
      (fst (UserUseCase_GetByID (avFirst e) t i db)) = (db', Inr r)"
proof (cases "UserUseCase_GetByID (avFirst e) t i db")
  case (Pair db1 y)
  show thesis
  proof (cases y)
    case (Inl err)
    then have "admin_error err = (200, d)" using assms Pair by (simp add: AdminUsers_Update_def)
    then show ?thesis by simp
  next
    case (Inr u)
    let ?u = "if ubEmail b \<noteq> [] then u\<lparr>usEmail := ubEmail b\<rparr> else u"
    have "answer 200 id (UserUseCase_Update (avSecond e) (avNow e) t (?u\<lparr>usStatus := ubStatus b\<rparr>) db1) = (db', (200, d))"
      using assms Pair Inr by (simp add: AdminUsers_Update_def Let_def)
    from answer_ok[OF this] obtain r where "UserUseCase_Update (avSecond e) (avNow e) t (?u\<lparr>usStatus := ubStatus b\<rparr>) db1 = (db', Inr r)" by auto
    then show ?thesis using that[of u r] Pair Inr by (simp add: UserUseCase_Update_def)
  qed
qed

lemma Update_answered:
  assumes "UserRepository_Update env t u db = (db', Inr r)"
  shows "(\<exists>r'. snd (SqlUpdateUser env t u (dbUsers db)) = Inr r') \<and> dbUsers db' = fst (SqlUpdateUser env t u (dbUsers db))"
proof -
  let ?fn = "\<lambda>db. case on_users (stmt env (SqlUpdateUser env t u)) db of
       (db', Inl e) \<Rightarrow> (db', Inl e) | (db', Inr r) \<Rightarrow> (db', Inr (u\<lparr>usUpdatedAt := usUpdatedAt r\<rparr>))"
  have w: "WithTenant env t ?fn db = (db', Inr r)" using assms unfolding UserRepository_Update_def .
  then have a: "pgCtxErr env = None \<and> pgBeginErr env = None \<and> pgGucErr env = None \<and> snd (?fn db) = Inr r"
    using WithTenant_answered[of env t ?fn db r] by simp
  then have f: "db' = fst (?fn db)" using fst_WithTenant[of env t ?fn db] w by simp
  obtain r' where r': "snd (stmt env (SqlUpdateUser env t u) (dbUsers db)) = Inr r'"
    using a by (auto simp: on_users_def split: prod.splits sum.splits)
  have "pgStmtErr env = None" using stmt_answered[OF r'] by simp
  then have s: "stmt env (SqlUpdateUser env t u) (dbUsers db) = SqlUpdateUser env t u (dbUsers db)" using a by (simp add: stmt_def)
  have "dbUsers (fst (?fn db)) = fst (stmt env (SqlUpdateUser env t u) (dbUsers db))"
    unfolding fst_case_result by (simp add: on_users_def split: prod.split)
  then show ?thesis using f r' s by auto
qed

lemma user_update_locks:
  assumes "AdminUsers_Update e ctx idStr (Some b) db = (db', (200, d))" and "GetTenantID ctx = (t, True)" and "ParseUUID idStr = Inr i"
    and "ubStatus b \<noteq> []" and "ubStatus b \<noteq> UserStatusActive"
  shows "locked t i db'"
proof -
  obtain u r where g: "UserUseCase_GetByID (avFirst e) t i db = (fst (UserUseCase_GetByID (avFirst e) t i db), Inr u)"
    and up: "UserRepository_Update (avSecond e) t ((if ubEmail b \<noteq> [] then u\<lparr>usEmail := ubEmail b\<rparr> else u)\<lparr>usStatus := ubStatus b, usUpdatedAt := avNow e\<rparr>)
      (fst (UserUseCase_GetByID (avFirst e) t i db)) = (db', Inr r)"
    using user_update_answered[OF assms(1-4)] .
  let ?u = "(if ubEmail b \<noteq> [] then u\<lparr>usEmail := ubEmail b\<rparr> else u)\<lparr>usStatus := ubStatus b, usUpdatedAt := avNow e\<rparr>"
  have "snd (get_user (avFirst e) t (\<lambda>r. usID r = i) db) = Inr u"
    using arg_cong[OF g, of snd] by (simp add: UserUseCase_GetByID_def UserRepository_GetByID_def)
  then have id: "usID ?u = i" using get_user_found[of "avFirst e" t "\<lambda>r. usID r = i" db u] by simp
  have na: "\<not> User_IsActive ?u" using assms(5) by (simp add: User_IsActive_def)
  let ?db1 = "fst (UserUseCase_GetByID (avFirst e) t i db)"
  obtain r' where r': "snd (SqlUpdateUser (avSecond e) t ?u (dbUsers ?db1)) = Inr r'"
    and d: "dbUsers db' = fst (SqlUpdateUser (avSecond e) t ?u (dbUsers ?db1))"
    using Update_answered[OF up] by blast
  show ?thesis using SqlUpdateUser_locks[OF r' na] unfolding locked_def d id .
qed

text \<open>C16: Suspending or deleting a user by the administration request locks the user out: once the
  request has been answered with 200, and after any number of further logins, refreshes, logouts and
  registrations, no refresh token of the user is exchanged and no login is one of the user, until the
  row is changed again. (Access tokens already issued are not asked about: they stay valid for their
  fifteen minutes.)\<close>

theorem user_suspension_locks_out:
  assumes "AdminUsers_Update e ctx idStr (Some b) db = (db', (200, d))" and "GetTenantID ctx = (t, True)" and "ParseUUID idStr = Inr i"
    and "ubStatus b = UserStatusSuspended \<or> ubStatus b = UserStatusDeleted"
  shows "(snd (refresh_check L e1 req (auth_run L s ops db')) = Inr (stored, u) \<longrightarrow> \<not> (rtTenantID stored = t \<and> rtUserID stored = i))
    \<and> (login_user L e2 lreq (auth_run L s ops db') = Some (Inr v) \<longrightarrow> lqTenantID lreq = t \<longrightarrow> usID v \<noteq> i)"
proof -
  have "locked t i db'"
    by (rule user_update_locks[OF assms(1-3)]) (use assms(4) in \<open>auto simp: UserStatusSuspended_def UserStatusDeleted_def UserStatusActive_def\<close>)
  then have l: "locked t i (auth_run L s ops db')" by (rule locked_run)
  show ?thesis using locked_refresh[OF l] locked_login[OF l] by blast
qed

subsection \<open>Quotas take effect\<close>

definition body_limit :: "quota_body \<Rightarrow> string \<Rightarrow> int" where
  "body_limit b bucket = (if bucket = BucketTypeRequests then qbRequestsPerMin b else if bucket = BucketTypeTokens then qbTokensPerMin b
     else qbToolExecsPerMin b)"

definition fits_int32 :: "quota_body \<Rightarrow> bool" where
  "fits_int32 b = (qbRequestsPerMin b < 2 ^ 31 \<and> qbTokensPerMin b < 2 ^ 31 \<and> qbToolExecsPerMin b < 2 ^ 31)"

lemma sint_limit: "0 \<le> n \<Longrightarrow> n < 2 ^ 31 \<Longrightarrow> sint (word_of_int n :: 32 word) = n"
  by (rule sint_word_of_int32) (simp add: int32_range_def)

lemma quota_create_answered:
  assumes "AdminQuotas_Create e ctx (Some b) tbl = (tbl', (201, d))" and "GetTenantID ctx = (t, True)" and "ParseUUID (qbScopeID b) = Inr sid"
  obtains q q' where "QuotaRepository_Create (avSecond e) (avNewID e) t q tbl = (tbl', Inr q')" and "positive_limits b"
    and "quScope q = qbScope b" and "quScopeID q = sid" and "quRequestsPerMin q = qbRequestsPerMin b"
    and "quTokensPerMin q = qbTokensPerMin b" and "quToolExecsPerMin q = qbToolExecsPerMin b"
proof -
  let ?q = "\<lparr> quID = avDrawn e, quTenantID = t, quScope = qbScope b, quScopeID = sid, quRequestsPerMin = qbRequestsPerMin b,
          quTokensPerMin = qbTokensPerMin b, quToolExecsPerMin = qbToolExecsPerMin b, quCreatedAt = avNow e, quUpdatedAt = avNow e \<rparr>"
  have p: "positive_limits b" using assms by (auto simp: AdminQuotas_Create_def split: if_splits)
  then have "answer 201 AQuota (QuotaUseCase_Create e t (qbScope b) sid (qbRequestsPerMin b) (qbTokensPerMin b) (qbToolExecsPerMin b) tbl) = (tbl', (201, d))"
    using assms by (simp add: AdminQuotas_Create_def)
  from answer_ok[OF this] obtain y where
    "QuotaUseCase_Create e t (qbScope b) sid (qbRequestsPerMin b) (qbTokensPerMin b) (qbToolExecsPerMin b) tbl = (tbl', Inr y)" by auto
  then have "QuotaRepository_Create (avSecond e) (avNewID e) t ?q tbl = (tbl', Inr y)"
    by (simp add: QuotaUseCase_Create_def split: if_splits)
  then show thesis using that[of ?q y] p by simp
qed

text \<open>A quota created for a user takes effect: once the request has been answered with 201, the limit
  the rate limiter resolves for this user is, in each of the three buckets, at least the one that was
  asked for, as far as the numbers fit the 32-bit columns and the lookup of the user's quota is served
  on a connection that sees the tenant's rows.\<close>

theorem user_quota_takes_effect:
  assumes "AdminQuotas_Create e ctx (Some b) tbl = (tbl', (201, d))" and "GetTenantID ctx = (t, True)" and "ParseUUID (qbScopeID b) = Inr u"
    and "qbScope b = QuotaScopeUser" and "\<not> IsZero u" and "fits_int32 b"
    and "calm (avSecond e)" and "calm (qeUser env)" and "pgRls (qeUser env) \<longrightarrow> pgPoolGuc (qeUser env) = Some t"
    and "bucket \<in> {BucketTypeRequests, BucketTypeTokens, BucketTypeToolExecs}"
  shows "\<exists>limit. GetEffectiveLimit env tbl' t u r bucket = Inr (limit, one_minute) \<and> body_limit b bucket \<le> limit"
proof -
  obtain q q' where c: "QuotaRepository_Create (avSecond e) (avNewID e) t q tbl = (tbl', Inr q')" and p: "positive_limits b"
    and q: "quScope q = qbScope b" "quScopeID q = u" "quRequestsPerMin q = qbRequestsPerMin b"
      "quTokensPerMin q = qbTokensPerMin b" "quToolExecsPerMin q = qbToolExecsPerMin b"
    using quota_create_answered[OF assms(1-3)] .
  obtain row where row: "snd (GetByScope (qeUser env) t QuotaScopeUser u tbl') = Inr (row_to_quota row)"
    "qrRequestsPerMin row = word_of_int (qbRequestsPerMin b)" "qrTokensPerMin row = word_of_int (qbTokensPerMin b)"
    "qrToolExecsPerMin row = word_of_int (qbToolExecsPerMin b)"
    using quota_create_get[OF assms(7,8,9) c] q assms(4) by auto
  have lim: "getBucketLimit (row_to_quota row) bucket = body_limit b bucket" and pos: "0 < body_limit b bucket"
    using p assms(6,10) row(2-4)
    by (auto simp: getBucketLimit_def row_to_quota_def body_limit_def positive_limits_def fits_int32_def bucket_defs sint_limit)
  define m0 where "m0 = raise_limit bucket (snd (GetByScope (qeTenant env) t QuotaScopeTenant zero_uuid tbl')) 0"
  define m1 where "m1 = raise_limit bucket (Inr (row_to_quota row)) m0"
  define m2 where "m2 = (if IsZero r then m1 else raise_limit bucket (snd (GetByScope (qeRole env) t QuotaScopeRole r tbl')) m1)"
  have "body_limit b bucket \<le> m1" using raise_limit_quota[of "row_to_quota row" bucket m0] lim by (simp add: m1_def)
  also have "m1 \<le> m2" using raise_limit_ge[of m1 bucket] by (simp add: m2_def)
  finally have "body_limit b bucket \<le> m2" .
  moreover have "GetEffectiveLimit env tbl' t u r bucket = Inr (if m2 = 0 then getBucketLimit DefaultQuotas bucket else m2, one_minute)"
    using assms(5) row(1) by (simp add: GetEffectiveLimit_def Let_def m0_def m1_def m2_def)
  ultimately show ?thesis using pos by auto
qed

text \<open>The paths of the single quotas, and of the permissions of a role, have no parameter of the name
  the handlers ask for, so that the parameter is empty and the requests are refused.\<close>

theorem quota_paths_refused:
  assumes "GetTenantID ctx = (t, True)"
  shows "AdminQuotas_Get e ctx scope [] tbl = (tbl, (400, ErrorBody ''validation failed''))"
    and "AdminQuotas_Update e ctx scope [] req tbl = (tbl, (400, ErrorBody ''validation failed''))"
    and "AdminQuotas_Delete e ctx scope [] tbl = (tbl, (400, ErrorBody ''validation failed''))"
    and "fst (snd (AdminRoles_GetPermissions e idStr [] db)) = 400" and "fst (snd (AdminRoles_RevokePermissions e idStr [] db)) = 400"
  using assms by (simp_all add: AdminQuotas_Get_def AdminQuotas_Update_def AdminQuotas_Delete_def AdminRoles_GetPermissions_def
      AdminRoles_RevokePermissions_def admin_error_def split: sum.split)

subsection \<open>Examples\<close>

text \<open>A server whose pool connections carry the setting of the nil tenant.\<close>

definition nil_env :: pg_env where
  "nil_env = quiet_env\<lparr>pgPoolGuc := Some zero_uuid\<rparr>"

lemma nil_env_calm [simp]: "calm nil_env"
  by (simp add: nil_env_def calm_def quiet_env_def)

definition demo_admin_env :: admin_env where
  "demo_admin_env = \<lparr> avFirst = nil_env, avSecond = nil_env, avNewID = zero_uuid, avDrawn = zero_uuid, avNow = 7 \<rparr>"

definition demo_admin_ctx :: auth_ctx where
  "demo_admin_ctx = empty_ctx\<lparr>axTenantID := Some zero_uuid\<rparr>"

lemma demo_admin_tenant: "GetTenantID demo_admin_ctx = (zero_uuid, True)"
  by (simp add: demo_admin_ctx_def GetTenantID_def)

lemma parse_nil: "ParseUUID (UUID_String zero_uuid) = Inr zero_uuid"
  by (simp add: parse_string wf_uuid_def zero_uuid_def)

definition demo_catalog :: catalog_db where
  "demo_catalog = \<lparr> cdTenants = [\<lparr> tnID = zero_uuid, tnName = ''acme'', tnStatus = ''active'', tnCreatedAt = 1 \<rparr>], cdRoles = [], cdPerms = [] \<rparr>"

definition demo_suspended :: catalog_db where
  "demo_suspended = demo_catalog\<lparr>cdTenants := [\<lparr> tnID = zero_uuid, tnName = ''acme'', tnStatus = ''suspended'', tnCreatedAt = 1 \<rparr>]\<rparr>"

lemma demo_suspend: "AdminTenants_Update demo_admin_env (UUID_String zero_uuid) (Some ''suspended'') demo_catalog
    = (demo_suspended, (200, Data (ATenant \<lparr> tnID = zero_uuid, tnName = ''acme'', tnStatus = ''suspended'', tnCreatedAt = 1 \<rparr>)))"
  by (simp add: AdminTenants_Update_def parse_nil TenantStatusActive_def TenantStatusSuspended_def TenantUseCase_UpdateStatus_def
      TenantRepository_GetByID_def find_tenant_def demo_admin_env_def stmt_calm TenantRepository_UpdateStatus_def demo_catalog_def
      demo_suspended_def answer_def reply_json_def)


theorem suspension_takes_effect_witness:
  "chain demo_gw_env demo_http_request demo_handler (demo_gw_state\<lparr>gsTenants := tenant_view demo_suspended\<rparr>)
     = (demo_gw_state\<lparr>gsTenants := tenant_view demo_suspended\<rparr>, Some (WriteError 403 ErrForbidden))"
proof -
  have "pgStmtErr (geTenantEnv demo_gw_env) = None" by (simp add: demo_gw_env_def quiet_env_def)
  from suspension_takes_effect[OF demo_suspend parse_nil _ demo_identified this,
      of "demo_gw_state\<lparr>gsTenants := tenant_view demo_suspended\<rparr>" demo_handler]
  show ?thesis by simp
qed

definition demo_user_body :: user_body where
  "demo_user_body = \<lparr> ubEmail = [], ubPassword = [], ubStatus = ''suspended'' \<rparr>"

definition demo_locked_user :: User where
  "demo_locked_user = demo_user\<lparr>usStatus := ''suspended'', usUpdatedAt := 50\<rparr>"

lemma demo_user_suspend:
  "AdminUsers_Update demo_admin_env demo_admin_ctx (UUID_String zero_uuid) (Some demo_user_body) demo_auth_db
    = (demo_auth_db\<lparr>dbUsers := [demo_locked_user]\<rparr>, (200, Data demo_locked_user))"
proof -
  have now: "pgNow nil_env = 50" "pgPoolGuc nil_env = Some zero_uuid" by (simp_all add: nil_env_def quiet_env_def)
  show ?thesis
    by (simp add: AdminUsers_Update_def demo_admin_tenant parse_nil UserUseCase_GetByID_def UserRepository_GetByID_def get_user_def
        demo_admin_env_def WithTenant_calm stmt_calm demo_auth_db_def user_sees_def rls_ok_def now demo_user_def demo_user_body_def
        UserUseCase_Update_def UserRepository_Update_def on_users_def SqlUpdateUser_def Let_def UserStatusSuspended_def
        answer_def reply_json_def demo_locked_user_def)
qed

theorem user_suspension_locks_out_witness:
  "snd (refresh_check demo_auth_lib (demo_auth_env 1) demo_refresh demo_auth_db) = Inr (row_token demo_token_row, demo_user)
   \<and> snd (refresh_check demo_auth_lib (demo_auth_env 1) demo_refresh (demo_auth_db\<lparr>dbUsers := [demo_locked_user]\<rparr>))
     \<noteq> Inr (row_token demo_token_row, demo_locked_user)"
proof -
  have "ubStatus demo_user_body = UserStatusSuspended \<or> ubStatus demo_user_body = UserStatusDeleted"
    by (simp add: demo_user_body_def UserStatusSuspended_def)
  from user_suspension_locks_out[OF demo_user_suspend demo_admin_tenant parse_nil this,
      of demo_auth_lib "demo_auth_env 1" demo_refresh demo_service "[]" "row_token demo_token_row" demo_locked_user]
  show ?thesis by (simp add: demo_check auth_run_def row_token_def demo_token_row_def)
qed

definition demo_quota_body :: quota_body where
  "demo_quota_body = \<lparr> qbScope = ''user'', qbScopeID = UUID_String (replicate 16 1), qbRequestsPerMin = 120, qbTokensPerMin = 9, qbToolExecsPerMin = 7 \<rparr>"

definition nil_quota_env :: quota_env where
  "nil_quota_env = \<lparr> qeTenant = nil_env, qeUser = nil_env, qeRole = nil_env \<rparr>"

lemma demo_quota_sel: "qbScope demo_quota_body = ''user''" "qbRequestsPerMin demo_quota_body = 120" "qbTokensPerMin demo_quota_body = 9"
  "qbToolExecsPerMin demo_quota_body = 7"
  by (simp_all add: demo_quota_body_def)

lemma demo_scope_id: "ParseUUID (qbScopeID demo_quota_body) = Inr (replicate 16 1)"
  by (simp add: demo_quota_body_def parse_string wf_uuid_def)

lemma demo_quota_created:
  "\<exists>tbl' d. AdminQuotas_Create demo_admin_env demo_admin_ctx (Some demo_quota_body) [] = (tbl', (201, d))"
proof -
  have g: "pgPoolGuc nil_env = Some zero_uuid" by (simp add: nil_env_def)
  have "isl (snd (GetByScope nil_env zero_uuid scope sid []))" for scope sid
    by (simp add: GetByScope_def WithTenantBackground_def stmt_def nil_env_def quiet_env_def Let_def)
  then show ?thesis
    by (simp add: AdminQuotas_Create_def demo_admin_tenant demo_scope_id positive_limits_def demo_quota_sel QuotaUseCase_Create_def
        demo_admin_env_def QuotaRepository_Create_def WithTenant_calm stmt_calm Let_def quota_sees_def rls_ok_def g answer_def reply_json_def)
qed

theorem user_quota_takes_effect_witness:
  "\<exists>tbl' d limit. AdminQuotas_Create demo_admin_env demo_admin_ctx (Some demo_quota_body) [] = (tbl', (201, d))
     \<and> GetEffectiveLimit nil_quota_env tbl' zero_uuid (replicate 16 1) zero_uuid BucketTypeRequests = Inr (limit, one_minute) \<and> 120 \<le> limit"
proof -
  obtain tbl' d where c: "AdminQuotas_Create demo_admin_env demo_admin_ctx (Some demo_quota_body) [] = (tbl', (201, d))"
    using demo_quota_created by blast
  have p: "qbScope demo_quota_body = QuotaScopeUser" "\<not> IsZero (replicate 16 1)" "fits_int32 demo_quota_body" "calm (avSecond demo_admin_env)"
    "calm (qeUser nil_quota_env)" "pgRls (qeUser nil_quota_env) \<longrightarrow> pgPoolGuc (qeUser nil_quota_env) = Some zero_uuid"
    "BucketTypeRequests \<in> {BucketTypeRequests, BucketTypeTokens, BucketTypeToolExecs}"
    "body_limit demo_quota_body BucketTypeRequests = 120"
    by (simp_all add: demo_quota_sel QuotaScopeUser_def IsZero_def zero_uuid_def fits_int32_def demo_admin_env_def nil_quota_env_def
        nil_env_def quiet_env_def calm_def body_limit_def numeral_eq_Suc)
  show ?thesis
    using user_quota_takes_effect[OF c demo_admin_tenant demo_scope_id p(1-7), of zero_uuid] c p(8) by auto
qed

end
