(* ===== verification/ReviewApi.thy ===== *)
theory ReviewApi
  imports Review HttpReply
begin

text \<open>
  \<open>src/internal/api/handlers/review.go\<close>: the handlers of the review endpoints, the tickets of the
  event streams and the registry of the open streams. A handler takes the context of the
  authentication middleware, the parameters of the path and the body after decoding (None: it does
  not decode); it answers with a status and the value for the encoder.
\<close>

subsection \<open>Handlers\<close>

datatype review_data =
    AReview ReviewRequest
  | AReviewToken ReviewRequest string
  | AReviewList
  | AReviewStatus uuid review_status time "time option"

record create_body =
  cbAction :: string
  cbPayload :: "(string \<times> json) list"
  cbReviewerID :: string
  cbTTLSeconds :: int

record decide_body =
  dbToken :: string
  dbDecisionReason :: string

text \<open>\<open>time.Duration(n) * time.Second\<close> in 64 bits.\<close>

definition ttl_duration :: "int \<Rightarrow> duration" where
  "ttl_duration n = (if n > 0 then sint (word_of_int (n * 1000000000) :: 64 word) else 0)"

definition create_input :: "uuid \<Rightarrow> uuid \<Rightarrow> create_body \<Rightarrow> uuid option \<Rightarrow> CreateReviewInput" where
  "create_input tenantID userID b reviewerID = \<lparr> ciTenantID = tenantID, ciRequesterID = userID, ciAction = cbAction b,
     ciPayload = cbPayload b, ciReviewerID = reviewerID, ciTTL = ttl_duration (cbTTLSeconds b) \<rparr>"

definition parse_reviewer :: "string \<Rightarrow> uuid option result" where
  "parse_reviewer s = (if s = [] then Inr None else case ParseUUID s of Inl e \<Rightarrow> Inl e | Inr i \<Rightarrow> Inr (Some i))"

definition ReviewHandlers_CreateReview ::
  "hitl_lib \<Rightarrow> duration \<Rightarrow> hitl_env \<Rightarrow> auth_ctx \<Rightarrow> create_body option \<Rightarrow> hitl_state \<Rightarrow> hitl_state \<times> review_data reply" where
  "ReviewHandlers_CreateReview L defaultTTL e ctx req s =
     (if \<not> snd (GetUserID ctx) then (s, reply_error 401 ErrUnauthorized)
      else if \<not> snd (GetTenantID ctx) then (s, reply_error 401 ErrUnauthorized)
      else case req of
        None \<Rightarrow> (s, reply_error 400 ErrValidation)
      | Some b \<Rightarrow>
          if cbAction b = [] then (s, reply_error 400 ErrValidation)
          else (case parse_reviewer (cbReviewerID b) of
            Inl _ \<Rightarrow> (s, reply_error 400 ErrValidation)
          | Inr reviewerID \<Rightarrow>
              (case CreateReview L defaultTTL e (create_input (fst (GetTenantID ctx)) (fst (GetUserID ctx)) b reviewerID) s of
                 (s', Inl err) \<Rightarrow> (s', reply_error 500 err)
               | (s', Inr (review, token)) \<Rightarrow> (s', reply_json 201 (AReviewToken review token)))))"

definition ReviewHandlers_ListReviews :: "auth_ctx \<Rightarrow> review_data reply" where
  "ReviewHandlers_ListReviews ctx = (if \<not> snd (GetTenantID ctx) then reply_error 401 ErrUnauthorized else reply_json 200 AReviewList)"

text \<open>The two reads share everything but what they show of the review.\<close>

definition read_review ::
  "hitl_lib \<Rightarrow> pg_env \<Rightarrow> auth_ctx \<Rightarrow> string \<Rightarrow> (ReviewRequest \<Rightarrow> review_data) \<Rightarrow> hitl_state \<Rightarrow> hitl_state \<times> review_data reply" where
  "read_review L env ctx idStr show s = (case GetTenantID ctx of (tenantID, ok) \<Rightarrow>
     if \<not> ok then (s, reply_error 401 ErrUnauthorized)
     else (case ParseUUID idStr of
       Inl _ \<Rightarrow> (s, reply_error 400 ErrValidation)
     | Inr reviewID \<Rightarrow> (case GetStatus L env tenantID reviewID s of
         (s', Inl err) \<Rightarrow> (s', if err = ErrNotFound then reply_error 404 ErrNotFound else reply_error 500 err)
       | (s', Inr review) \<Rightarrow> (s', reply_json 200 (show review)))))"

definition ReviewHandlers_GetReview ::
  "hitl_lib \<Rightarrow> pg_env \<Rightarrow> auth_ctx \<Rightarrow> string \<Rightarrow> hitl_state \<Rightarrow> hitl_state \<times> review_data reply" where
  "ReviewHandlers_GetReview L env ctx idStr = read_review L env ctx idStr (\<lambda>r. AReview (r\<lparr>rrTokenHash := []\<rparr>))"

definition ReviewHandlers_GetReviewStatus ::
  "hitl_lib \<Rightarrow> pg_env \<Rightarrow> auth_ctx \<Rightarrow> string \<Rightarrow> hitl_state \<Rightarrow> hitl_state \<times> review_data reply" where
  "ReviewHandlers_GetReviewStatus L env ctx idStr =
     read_review L env ctx idStr (\<lambda>r. AReviewStatus (rrID r) (rrStatus r) (rrExpiresAt r) (rrDecidedAt r))"

text \<open>A decision returns the notification it makes: the text of the review's identifier and the
  type of the event.\<close>

type_synonym notification = "(string \<times> string) option"

definition approve_error :: "go_error \<Rightarrow> 'a reply" where
  "approve_error err = reply_error (case err of
     ErrInvalidToken \<Rightarrow> 403 | ErrReviewNotPending \<Rightarrow> 409 | ErrExpired \<Rightarrow> 410 | ErrValidation \<Rightarrow> 400 | _ \<Rightarrow> 500) err"

definition reject_error :: "go_error \<Rightarrow> 'a reply" where
  "reject_error err = reply_error (case err of
     ErrInvalidToken \<Rightarrow> 403 | ErrReviewNotPending \<Rightarrow> 409 | ErrExpired \<Rightarrow> 410 | _ \<Rightarrow> 500) err"

text \<open>The identifier of the path is not read.\<close>

definition ReviewHandlers_ApproveReview ::
  "hitl_lib \<Rightarrow> hitl_env \<Rightarrow> auth_ctx \<Rightarrow> string \<Rightarrow> decide_body option \<Rightarrow> hitl_state \<Rightarrow> hitl_state \<times> review_data reply \<times> notification" where
  "ReviewHandlers_ApproveReview L e ctx idStr req s = (case GetUserID ctx of (userID, ok) \<Rightarrow>
     if \<not> ok then (s, reply_error 401 ErrUnauthorized, None)
     else (case req of
       None \<Rightarrow> (s, reply_error 400 ErrValidation, None)
     | Some b \<Rightarrow>
         if dbToken b = [] then (s, reply_error 400 ErrValidation, None)
         else (case Approve L e (dbToken b) userID (dbDecisionReason b) s of
           (s', Inl err) \<Rightarrow> (s', approve_error err, None)
         | (s', Inr review) \<Rightarrow> (s', reply_json 200 (AReview review), Some (UUID_String (rrID review), ''status:APPROVED'')))))"

definition ReviewHandlers_RejectReview ::
  "hitl_lib \<Rightarrow> hitl_env \<Rightarrow> auth_ctx \<Rightarrow> string \<Rightarrow> decide_body option \<Rightarrow> hitl_state \<Rightarrow> hitl_state \<times> review_data reply \<times> notification" where
  "ReviewHandlers_RejectReview L e ctx idStr req s = (case GetUserID ctx of (userID, ok) \<Rightarrow>
     if \<not> ok then (s, reply_error 401 ErrUnauthorized, None)
     else (case req of
       None \<Rightarrow> (s, reply_error 400 ErrValidation, None)
     | Some b \<Rightarrow>
         if dbToken b = [] then (s, reply_error 400 ErrValidation, None)
         else (case Review.Reject L e (dbToken b) userID (dbDecisionReason b) s of
           (s', Inl err) \<Rightarrow> (s', reject_error err, None)
         | (s', Inr review) \<Rightarrow> (s', reply_json 200 (AReview review), Some (UUID_String (rrID review), ''status:REJECTED'')))))"

definition ReviewHandlers_ExecuteReview ::
  "hitl_lib \<Rightarrow> hitl_env \<Rightarrow> auth_ctx \<Rightarrow> string \<Rightarrow> hitl_state \<Rightarrow> hitl_state \<times> review_data reply \<times> notification" where
  "ReviewHandlers_ExecuteReview L e ctx idStr s =
     (if \<not> snd (GetUserID ctx) then (s, reply_error 401 ErrUnauthorized, None)
      else if \<not> snd (GetTenantID ctx) then (s, reply_error 401 ErrUnauthorized, None)
      else case ParseUUID idStr of
        Inl _ \<Rightarrow> (s, reply_error 400 ErrValidation, None)
      | Inr reviewID \<Rightarrow> (case Execute L e (fst (GetTenantID ctx)) reviewID (fst (GetUserID ctx)) s of
          (s', Inl err) \<Rightarrow> (s', reply_error (if err = ErrReviewNotPending then 409 else if err = ErrNotFound then 404 else 500) err, None)
        | (s', Inr review) \<Rightarrow> (s', reply_json 200 (AReview review), Some (UUID_String (rrID review), ''status:EXECUTED''))))"

subsection \<open>Stream tickets\<close>

record TicketClaims =
  tkReviewID :: string
  tkTenantID :: string
  tkExpiresAt :: "int option"
  tkIssuedAt :: "int option"
  tkNotBefore :: "int option"
  tkIssuer :: string
  tkSubject :: string

definition ticket_valid :: "time \<Rightarrow> TicketClaims \<Rightarrow> bool" where
  "ticket_valid now c = ((case tkExpiresAt c of None \<Rightarrow> True | Some x \<Rightarrow> now < x * sec)
     \<and> (case tkNotBefore c of None \<Rightarrow> True | Some n \<Rightarrow> n * sec \<le> now))"

text \<open>The signing library on these claims, as for the access tokens: what was signed parses to its
  claims while they are valid, and what parses was signed with a method and key the key function
  accepts.\<close>

record ticket_lib =
  tlSign :: "jwt_alg \<Rightarrow> string \<Rightarrow> TicketClaims \<Rightarrow> string result"
  tlParse :: "time \<Rightarrow> (jwt_alg \<Rightarrow> string result) \<Rightarrow> string \<Rightarrow> TicketClaims result"

definition ticket_lawful :: "ticket_lib \<Rightarrow> bool" where
  "ticket_lawful T =
     ((\<forall>alg key c tok now kf. tlSign T alg key c = Inr tok \<longrightarrow> kf alg = Inr key \<longrightarrow>
         (if ticket_valid now c then tlParse T now kf tok = Inr c else isl (tlParse T now kf tok))))"

definition ticket_key_func :: "string \<Rightarrow> jwt_alg \<Rightarrow> string result" where
  "ticket_key_func jwtSecret alg = (if \<not> is_hmac alg then Inl (Errorf ''unexpected signing method'') else Inr jwtSecret)"

definition GenerateStreamTicket :: "ticket_lib \<Rightarrow> string \<Rightarrow> time \<Rightarrow> uuid \<Rightarrow> uuid \<Rightarrow> duration \<Rightarrow> string result" where
  "GenerateStreamTicket T jwtSecret now tenantID reviewID ttl0 =
     (let ttl = (if ttl0 = 0 then 5 * 60 * sec else ttl0) in
      tlSign T HS256 jwtSecret \<lparr> tkReviewID = UUID_String reviewID, tkTenantID = UUID_String tenantID,
        tkExpiresAt = NewNumericDate (now + ttl), tkIssuedAt = NewNumericDate now, tkNotBefore = NewNumericDate now,
        tkIssuer = ''agent-gateway'', tkSubject = ''sse-stream'' \<rparr>)"

text \<open>What \<open>StreamReview\<close> checks before it streams: None lets the stream begin.\<close>

definition stream_refused :: "ticket_lib \<Rightarrow> string \<Rightarrow> time \<Rightarrow> string \<Rightarrow> string \<Rightarrow> review_data reply option" where
  "stream_refused T jwtSecret now idStr ticket = (case ParseUUID idStr of
     Inl _ \<Rightarrow> Some (reply_error 400 ErrValidation)
   | Inr reviewID \<Rightarrow>
       if ticket = [] then Some (reply_error 401 ErrUnauthorized)
       else (case tlParse T now (ticket_key_func jwtSecret) ticket of
         Inl _ \<Rightarrow> Some (reply_error 401 ErrUnauthorized)
       | Inr claims \<Rightarrow>
           if tkReviewID claims \<noteq> UUID_String reviewID then Some (reply_error 403 ErrForbidden) else None))"

subsection \<open>Event streams\<close>

definition newline :: string where "newline = [char_of (10 :: nat)]"

text \<open>\<open>json.Marshal\<close> of a map of strings: the pairs in the order of their keys, which is the order
  they are given in here.\<close>

fun json_members :: "(string \<times> string) list \<Rightarrow> string" where
  "json_members [] = []"
| "json_members [(k, v)] = json_pair k v"
| "json_members ((k, v) # kvs) = json_pair k v @ '','' @ json_members kvs"

definition formatSSEEvent :: "string \<Rightarrow> (string \<times> string) list \<Rightarrow> string" where
  "formatSSEEvent eventType data =
     ''event: '' @ eventType @ newline @ ''data: {'' @ json_members data @ ''}'' @ newline @ newline"

text \<open>\<open>strings.TrimPrefix(eventType, "status:")\<close>.\<close>

definition trim_status :: "string \<Rightarrow> string" where
  "trim_status t = (if take 7 t = ''status:'' then drop 7 t else t)"

definition update_event :: "string \<Rightarrow> string \<Rightarrow> string" where
  "update_event reviewID eventType =
     formatSSEEvent eventType [(''review_id'', reviewID), (''status'', trim_status eventType)]"

text \<open>The registry: the channels of each review, what each channel holds (its capacity is ten) and
  whether it is closed. A channel is known by its number.\<close>

record hub =
  hbConns :: "string \<rightharpoonup> nat list"
  hbQueue :: "nat \<Rightarrow> string list"
  hbClosed :: "nat \<Rightarrow> bool"

definition registerConnection :: "string \<Rightarrow> nat \<Rightarrow> hub \<Rightarrow> hub" where
  "registerConnection reviewID ch h =
     (let conns = (case hbConns h reviewID of None \<Rightarrow> [] | Some cs \<Rightarrow> cs)
      in h\<lparr>hbConns := (hbConns h)(reviewID \<mapsto> (if ch \<in> set conns then conns else conns @ [ch]))\<rparr>)"

text \<open>Closing a closed channel panics.\<close>

definition unregisterConnection :: "string \<Rightarrow> nat \<Rightarrow> hub \<Rightarrow> hub option" where
  "unregisterConnection reviewID ch h =
     (let h' = (case hbConns h reviewID of
          None \<Rightarrow> h
        | Some cs \<Rightarrow> let cs' = filter (\<lambda>c. c \<noteq> ch) cs
            in h\<lparr>hbConns := (if cs' = [] then (hbConns h)(reviewID := None) else (hbConns h)(reviewID \<mapsto> cs'))\<rparr>)
      in if hbClosed h' ch then None else Some (h'\<lparr>hbClosed := (hbClosed h')(ch := True)\<rparr>))"

text \<open>The \<open>select\<close> of a notification: a send on a closed channel panics, a full one is skipped.\<close>

definition send_event :: "string \<Rightarrow> nat \<Rightarrow> hub \<Rightarrow> hub option" where
  "send_event eventData ch h =
     (if hbClosed h ch then None
      else if length (hbQueue h ch) < 10 then Some (h\<lparr>hbQueue := (hbQueue h)(ch := hbQueue h ch @ [eventData])\<rparr>)
      else Some h)"

fun send_all :: "string \<Rightarrow> nat list \<Rightarrow> hub \<Rightarrow> hub option" where
  "send_all eventData [] h = Some h"
| "send_all eventData (ch # chs) h = (case send_event eventData ch h of None \<Rightarrow> None | Some h' \<Rightarrow> send_all eventData chs h')"

definition notifyReviewUpdate :: "string \<Rightarrow> string \<Rightarrow> hub \<Rightarrow> hub option" where
  "notifyReviewUpdate reviewID eventType h = (case hbConns h reviewID of
     None \<Rightarrow> Some h
   | Some conns \<Rightarrow> send_all (update_event reviewID eventType) conns h)"

text \<open>What a new stream writes first; the status is not read from anywhere.\<close>

definition stream_prologue :: "string \<Rightarrow> string list" where
  "stream_prologue reviewID =
     [formatSSEEvent ''connected'' [(''review_id'', reviewID)], formatSSEEvent ''status'' [(''status'', ''PENDING'')] ]"

subsection \<open>Streams and notifications that overlap\<close>

text \<open>Streams that are open, by channel, and notifications under way: each has read the map of its
  review and walks over it without the lock, so that its next channel is chosen in one step and
  the event is sent in another.\<close>

datatype notifying = Walking string string "nat list" | Holding string string "nat list" nat

record stream_state =
  ssHub :: hub
  ssStreams :: "nat \<rightharpoonup> string"
  ssUsed :: "nat set"
  ssNotify :: "nat \<rightharpoonup> notifying"
  ssWritten :: "(nat \<times> string) list"
  ssPanics :: nat

definition take_event :: "nat \<Rightarrow> hub \<Rightarrow> hub" where
  "take_event ch h = h\<lparr>hbQueue := (hbQueue h)(ch := tl (hbQueue h ch))\<rparr>"

text \<open>A stream opens and writes its prologue, sends heartbeats, writes what its channel holds (a
  write that fails ends it), and ends when its client leaves.\<close>

inductive stream_step :: "stream_state \<Rightarrow> stream_state \<Rightarrow> bool" where
  connect: "ch \<notin> ssUsed s \<Longrightarrow> stream_step s (s\<lparr>ssHub := registerConnection i ch (ssHub s), ssStreams := (ssStreams s)(ch \<mapsto> i), ssUsed := insert ch (ssUsed s),
      ssWritten := ssWritten s @ map (Pair ch) (stream_prologue i)\<rparr>)"
| heartbeat: "ssStreams s ch = Some i \<Longrightarrow>
    stream_step s (s\<lparr>ssWritten := ssWritten s @ [(ch, formatSSEEvent ''heartbeat'' [(''time'', now)])]\<rparr>)"
| receive: "ssStreams s ch = Some i \<Longrightarrow> hbQueue (ssHub s) ch \<noteq> [] \<Longrightarrow>
    stream_step s (s\<lparr>ssHub := take_event ch (ssHub s), ssWritten := ssWritten s @ [(ch, hd (hbQueue (ssHub s) ch))]\<rparr>)"
| receive_fails: "ssStreams s ch = Some i \<Longrightarrow> hbQueue (ssHub s) ch \<noteq> [] \<Longrightarrow>
    unregisterConnection i ch (take_event ch (ssHub s)) = Some h \<Longrightarrow>
    stream_step s (s\<lparr>ssHub := h, ssStreams := (ssStreams s)(ch := None)\<rparr>)"
| disconnect: "ssStreams s ch = Some i \<Longrightarrow> unregisterConnection i ch (ssHub s) = Some h \<Longrightarrow>
    stream_step s (s\<lparr>ssHub := h, ssStreams := (ssStreams s)(ch := None)\<rparr>)"
| disconnect_panics: "ssStreams s ch = Some i \<Longrightarrow> unregisterConnection i ch (ssHub s) = None \<Longrightarrow>
    stream_step s (s\<lparr>ssStreams := (ssStreams s)(ch := None), ssPanics := Suc (ssPanics s)\<rparr>)"
| notify: "ssNotify s k = None \<Longrightarrow> stream_step s (s\<lparr>ssNotify := (ssNotify s)(k \<mapsto> Walking i ev [])\<rparr>)"
| pick: "ssNotify s k = Some (Walking i ev seen) \<Longrightarrow> hbConns (ssHub s) i = Some cs \<Longrightarrow> ch \<in> set cs \<Longrightarrow> ch \<notin> set seen \<Longrightarrow>
    stream_step s (s\<lparr>ssNotify := (ssNotify s)(k \<mapsto> Holding i ev seen ch)\<rparr>)"
| send: "ssNotify s k = Some (Holding i ev seen ch) \<Longrightarrow> send_event (update_event i ev) ch (ssHub s) = Some h \<Longrightarrow>
    stream_step s (s\<lparr>ssHub := h, ssNotify := (ssNotify s)(k \<mapsto> Walking i ev (ch # seen))\<rparr>)"
| send_panics: "ssNotify s k = Some (Holding i ev seen ch) \<Longrightarrow> send_event (update_event i ev) ch (ssHub s) = None \<Longrightarrow>
    stream_step s (s\<lparr>ssNotify := (ssNotify s)(k := None), ssPanics := Suc (ssPanics s)\<rparr>)"
| finish: "ssNotify s k = Some (Walking i ev seen) \<Longrightarrow> stream_step s (s\<lparr>ssNotify := (ssNotify s)(k := None)\<rparr>)"

definition no_streams :: stream_state where
  "no_streams = \<lparr> ssHub = \<lparr> hbConns = Map.empty, hbQueue = (\<lambda>_. []), hbClosed = (\<lambda>_. False) \<rparr>, ssStreams = Map.empty, ssUsed = {},
     ssNotify = Map.empty, ssWritten = [], ssPanics = 0 \<rparr>"

text \<open>The invariant: the registry lists the open streams under their reviews and nothing else, their
  channels are open and hold at most ten events, and channels are never used again.\<close>

definition hub_ok :: "hub \<Rightarrow> (nat \<rightharpoonup> string) \<Rightarrow> bool" where
  "hub_ok h streams =
     ((\<forall>i cs. hbConns h i = Some cs \<longrightarrow> cs \<noteq> [] \<and> distinct cs \<and> set cs = {ch. streams ch = Some i})
      \<and> (\<forall>i. hbConns h i = None \<longrightarrow> {ch. streams ch = Some i} = {})
      \<and> (\<forall>ch i. streams ch = Some i \<longrightarrow> \<not> hbClosed h ch)
      \<and> (\<forall>ch. length (hbQueue h ch) \<le> 10))"

definition streams_ok :: "stream_state \<Rightarrow> bool" where
  "streams_ok s = (hub_ok (ssHub s) (ssStreams s) \<and> dom (ssStreams s) \<subseteq> ssUsed s \<and> (\<forall>ch. hbClosed (ssHub s) ch \<longrightarrow> ch \<in> ssUsed s))"

lemma hub_okI:
  assumes "\<And>i cs. hbConns h i = Some cs \<Longrightarrow> cs \<noteq> [] \<and> distinct cs \<and> set cs = {ch. streams ch = Some i}"
    and "\<And>i ch. hbConns h i = None \<Longrightarrow> streams ch \<noteq> Some i"
    and "\<And>ch i. streams ch = Some i \<Longrightarrow> \<not> hbClosed h ch" and "\<And>ch. length (hbQueue h ch) \<le> 10"
  shows "hub_ok h streams"
  unfolding hub_ok_def using assms by simp

lemma hub_okD:
  assumes "hub_ok h streams"
  shows "hbConns h i = Some cs \<Longrightarrow> cs \<noteq> []" "hbConns h i = Some cs \<Longrightarrow> distinct cs"
    "hbConns h i = Some cs \<Longrightarrow> ch \<in> set cs \<longleftrightarrow> streams ch = Some i"
    "hbConns h i = None \<Longrightarrow> streams ch \<noteq> Some i"
    "streams ch = Some i \<Longrightarrow> \<not> hbClosed h ch" "length (hbQueue h ch) \<le> 10"
  using assms by (auto simp: hub_ok_def)

lemma hub_conns: "hub_ok h streams \<Longrightarrow> hbConns h i = Some cs \<Longrightarrow> cs \<noteq> [] \<and> distinct cs \<and> set cs = {ch. streams ch = Some i}"
  by (simp add: hub_ok_def)

lemma registerConnection_keeps [simp]: "hbClosed (registerConnection i ch h) = hbClosed h" "hbQueue (registerConnection i ch h) = hbQueue h"
  by (simp_all add: registerConnection_def Let_def)

lemma hub_ok_register:
  assumes ok: "hub_ok h streams" and ch: "streams ch = None" "\<not> hbClosed h ch"
  shows "hub_ok (registerConnection i ch h) (streams(ch \<mapsto> i))"
proof (rule hub_okI)
  fix j cs assume cs: "hbConns (registerConnection i ch h) j = Some cs"
  show "cs \<noteq> [] \<and> distinct cs \<and> set cs = {c. (streams(ch \<mapsto> i)) c = Some j}"
  proof (cases "j = i")
    case True
    show ?thesis
    proof (cases "hbConns h i")
      case None
      have "{c. streams c = Some i} = {}" using hub_okD(4)[OF ok None] by blast
      then have "{c. (streams(ch \<mapsto> i)) c = Some i} = {ch}" by auto
      moreover have "cs = [ch]" using cs None True by (simp add: registerConnection_def Let_def)
      ultimately show ?thesis using True by simp
    next
      case (Some ds)
      have "ch \<notin> set ds" using hub_okD(3)[OF ok Some, of ch] ch by simp
      then have "cs = ds @ [ch]" using cs Some True by (simp add: registerConnection_def Let_def)
      moreover have "{c. (streams(ch \<mapsto> i)) c = Some i} = insert ch {c. streams c = Some i}" by auto
      ultimately show ?thesis using True hub_conns[OF ok Some] \<open>ch \<notin> set ds\<close> by simp
    qed
  next
    case False
    then have "{c. (streams(ch \<mapsto> i)) c = Some j} = {c. streams c = Some j}" using ch by auto
    then show ?thesis using False cs hub_conns[OF ok, of j cs] by (simp add: registerConnection_def Let_def)
  qed
next
  fix j c assume "hbConns (registerConnection i ch h) j = None"
  then show "(streams(ch \<mapsto> i)) c \<noteq> Some j" using hub_okD(4)[OF ok, of j c]
    by (simp add: registerConnection_def Let_def split: if_splits)
next
  fix c j assume "(streams(ch \<mapsto> i)) c = Some j"
  then show "\<not> hbClosed (registerConnection i ch h) c" using ch hub_okD(5)[OF ok, of c j] by (simp split: if_splits)
qed (simp add: hub_okD(6)[OF ok])

lemma hub_ok_unregister:
  assumes ok: "hub_ok h streams" and ch: "streams ch = Some i"
  obtains h' where "unregisterConnection i ch h = Some h'" "hub_ok h' (streams(ch := None))"
    "hbClosed h' = (hbClosed h)(ch := True)"
proof -
  obtain cs where cs: "hbConns h i = Some cs" "ch \<in> set cs"
    using ch hub_okD(3,4)[OF ok] by (cases "hbConns h i") auto
  define cs' where "cs' = filter (\<lambda>c. c \<noteq> ch) cs"
  define h' where "h' = h\<lparr>hbConns := (hbConns h)(i := if cs' = [] then None else Some cs'), hbClosed := (hbClosed h)(ch := True)\<rparr>"
  have "unregisterConnection i ch h = Some h'"
    using cs hub_okD(5)[OF ok ch] by (simp add: unregisterConnection_def h'_def cs'_def Let_def)
  moreover have "hub_ok h' (streams(ch := None))"
  proof (rule hub_okI)
    fix j ds assume ds: "hbConns h' j = Some ds"
    show "ds \<noteq> [] \<and> distinct ds \<and> set ds = {c. (streams(ch := None)) c = Some j}"
    proof (cases "j = i")
      case True
      then have "ds = cs'" "cs' \<noteq> []" using ds by (simp_all add: h'_def split: if_splits)
      moreover have "{c. (streams(ch := None)) c = Some i} = {c. streams c = Some i} - {ch}" by auto
      ultimately show ?thesis using True hub_conns[OF ok cs(1)] by (simp add: cs'_def set_diff_eq)
    next
      case False
      then have "{c. (streams(ch := None)) c = Some j} = {c. streams c = Some j}" using ch by auto
      then show ?thesis using False ds hub_conns[OF ok, of j ds] by (simp add: h'_def)
    qed
  next
    fix j c assume "hbConns h' j = None"
    then show "(streams(ch := None)) c \<noteq> Some j"
      using hub_okD(3)[OF ok cs(1), of c] hub_okD(4)[OF ok, of j c]
      by (auto simp: h'_def cs'_def filter_empty_conv split: if_splits)
  next
    fix c j assume "(streams(ch := None)) c = Some j"
    then show "\<not> hbClosed h' c" using hub_okD(5)[OF ok, of c j] by (simp add: h'_def split: if_splits)
  qed (simp add: h'_def hub_okD(6)[OF ok])
  ultimately show ?thesis using that by (simp add: h'_def)
qed

lemma hub_ok_take:
  assumes ok: "hub_ok h streams"
  shows "hub_ok (take_event ch h) streams" "hbClosed (take_event ch h) = hbClosed h"
proof -
  have "length (tl (hbQueue h ch)) \<le> 10" using hub_okD(6)[OF ok, of ch] by simp
  then show "hub_ok (take_event ch h) streams" using ok by (simp add: take_event_def hub_ok_def)
qed (simp add: take_event_def)

lemma hub_ok_send:
  assumes "hub_ok h streams" "send_event x ch h = Some h'"
  shows "hub_ok h' streams" "hbConns h' = hbConns h" "hbClosed h' = hbClosed h"
proof -
  have q: "hbConns h' = hbConns h" "hbClosed h' = hbClosed h" "length (hbQueue h' c) \<le> max 10 (length (hbQueue h c))" for c
    using assms(2) by (auto simp: send_event_def split: if_splits)
  then show "hbConns h' = hbConns h" "hbClosed h' = hbClosed h" by simp_all
  show "hub_ok h' streams"
  proof (rule hub_okI, goal_cases)
    case (1 i cs)
    then show ?case using hub_conns[OF assms(1), of i cs] by (simp add: q)
  next
    case (2 i ch)
    then show ?case using hub_okD(4)[OF assms(1), of i ch] by (simp add: q)
  next
    case (3 ch i)
    then show ?case using hub_okD(5)[OF assms(1), of ch i] by (simp add: q)
  next
    case (4 c)
    then show ?case using q(3)[of c] hub_okD(6)[OF assms(1), of c] by simp
  qed
qed

lemma send_all_some:
  assumes "hub_ok h streams" "\<forall>ch\<in>set chs. streams ch \<noteq> None" "distinct chs"
  obtains h' where "send_all x chs h = Some h'"
    "\<And>ch. hbQueue h' ch = (if ch \<in> set chs \<and> length (hbQueue h ch) < 10 then hbQueue h ch @ [x] else hbQueue h ch)"
  using assms
proof (induction chs arbitrary: h thesis)
  case Nil
  then show ?case by simp
next
  case (Cons c chs)
  then have "\<not> hbClosed h c" using hub_okD(5)[OF Cons.prems(2)] by auto
  then obtain h1 where h1: "send_event x c h = Some h1"
    and q: "hbQueue h1 = (if length (hbQueue h c) < 10 then (hbQueue h)(c := hbQueue h c @ [x]) else hbQueue h)"
    by (cases "length (hbQueue h c) < 10") (auto simp: send_event_def)
  note ok1 = hub_ok_send(1)[OF Cons.prems(2) h1]
  show ?case
  proof (rule Cons.IH[OF _ ok1])
    fix h' assume h': "send_all x chs h1 = Some h'"
      "\<And>ch. hbQueue h' ch = (if ch \<in> set chs \<and> length (hbQueue h1 ch) < 10 then hbQueue h1 ch @ [x] else hbQueue h1 ch)"
    show thesis using Cons.prems(4) h'(1) h1 by (intro Cons.prems(1)[of h']) (auto simp: h'(2) q)
  qed (use Cons.prems in auto)
qed

lemma notifyReviewUpdate_some:
  assumes ok: "hub_ok h streams"
  shows "\<exists>h'. notifyReviewUpdate i ev h = Some h' \<and> (\<forall>ch. hbQueue h' ch =
     (if streams ch = Some i \<and> length (hbQueue h ch) < 10 then hbQueue h ch @ [update_event i ev] else hbQueue h ch))"
proof (cases "hbConns h i")
  case None
  then show ?thesis using hub_okD(4)[OF ok None] by (simp add: notifyReviewUpdate_def)
next
  case (Some cs)
  obtain h' where "send_all (update_event i ev) cs h = Some h'"
    "\<And>ch. hbQueue h' ch = (if ch \<in> set cs \<and> length (hbQueue h ch) < 10 then hbQueue h ch @ [update_event i ev] else hbQueue h ch)"
    by (rule send_all_some[OF ok, of cs]) (use hub_okD(2,3)[OF ok Some] in auto)
  then show ?thesis using Some hub_okD(3)[OF ok Some] by (simp add: notifyReviewUpdate_def)
qed

lemma streams_ok_leave:
  assumes "streams_ok s" "ssStreams s ch = Some i" "hub_ok g (ssStreams s)" "hbClosed g = hbClosed (ssHub s)"
    and "unregisterConnection i ch g = Some h"
  shows "streams_ok (s\<lparr>ssHub := h, ssStreams := (ssStreams s)(ch := None)\<rparr>)"
proof -
  obtain h' where h': "unregisterConnection i ch g = Some h'"
    "hub_ok h' ((ssStreams s)(ch := None))" "hbClosed h' = (hbClosed g)(ch := True)"
    using hub_ok_unregister[OF assms(3,2)] .
  then have "h = h'" using assms(5) by simp
  moreover have "ch \<in> ssUsed s" using assms(1,2) by (auto simp: streams_ok_def)
  ultimately show ?thesis using h'(2,3) assms(1,4) by (simp add: streams_ok_def subset_iff)
qed

lemma streams_ok_step: "stream_step s s' \<Longrightarrow> streams_ok s \<Longrightarrow> streams_ok s'"
proof (induction rule: stream_step.induct)
  case (connect ch s i)
  then have ok: "hub_ok (ssHub s) (ssStreams s)" and "dom (ssStreams s) \<subseteq> ssUsed s"
    and c: "\<forall>c. hbClosed (ssHub s) c \<longrightarrow> c \<in> ssUsed s" by (simp_all add: streams_ok_def)
  moreover have "ssStreams s ch = None" using calculation connect(1) by blast
  moreover have "\<not> hbClosed (ssHub s) ch" using c connect(1) by blast
  ultimately show ?case using hub_ok_register[OF ok, of ch i] by (simp add: streams_ok_def subset_insertI2)
next
  case (receive s ch i)
  then show ?case using hub_ok_take[of "ssHub s" "ssStreams s" ch] by (simp add: streams_ok_def)
next
  case (receive_fails s ch i h)
  then have "hub_ok (take_event ch (ssHub s)) (ssStreams s)" by (simp add: streams_ok_def hub_ok_take)
  then show ?case by (rule streams_ok_leave[OF receive_fails(4,1) _ _ receive_fails(3)]) (simp add: take_event_def)
next
  case (disconnect s ch i h)
  then show ?case using streams_ok_leave[OF disconnect(3,1) _ _ disconnect(2)] by (simp add: streams_ok_def)
next
  case (disconnect_panics s ch i)
  then have "hub_ok (ssHub s) (ssStreams s)" by (simp add: streams_ok_def)
  from hub_ok_unregister[OF this disconnect_panics(1)] disconnect_panics(2) show ?case by (metis option.distinct(1))
next
  case (send s k i ev seen ch h)
  then have "hub_ok (ssHub s) (ssStreams s)" by (simp add: streams_ok_def)
  from hub_ok_send[OF this send(2)] send(3) show ?case by (simp add: streams_ok_def)
qed (simp_all add: streams_ok_def)

lemma streams_ok_reachable: "stream_step\<^sup>*\<^sup>* no_streams s \<Longrightarrow> streams_ok s"
proof (induction rule: rtranclp_induct)
  case base
  show ?case by (simp add: no_streams_def streams_ok_def hub_ok_def)
qed (rule streams_ok_step)

subsection \<open>Tickets and decisions\<close>

lemma numeric_date_bounds: "t div sec * sec \<le> t" "t < t div sec * sec + sec"
  by (simp_all add: sec_def)

lemma stream_refused_issued:
  assumes "ticket_lawful T" "GenerateStreamTicket T secret now tenantID reviewID ttl = Inr ticket" "ticket \<noteq> []"
    and "now \<le> now'" and "wf_uuid reviewID" and "ParseUUID idStr = Inr i"
  shows "stream_refused T secret now' idStr ticket =
    (if now' < (now + (if ttl = 0 then 5 * 60 * sec else ttl)) div sec * sec
     then if i = reviewID then None else Some (reply_error 403 ErrForbidden)
     else Some (reply_error 401 ErrUnauthorized))"
proof -
  let ?ttl = "if ttl = 0 then 5 * 60 * sec else ttl"
  let ?c = "\<lparr> tkReviewID = UUID_String reviewID, tkTenantID = UUID_String tenantID,
        tkExpiresAt = NewNumericDate (now + ?ttl), tkIssuedAt = NewNumericDate now, tkNotBefore = NewNumericDate now,
        tkIssuer = ''agent-gateway'', tkSubject = ''sse-stream'' \<rparr>"
  have s: "tlSign T HS256 secret ?c = Inr ticket" using assms(2) by (simp add: GenerateStreamTicket_def Let_def)
  have k: "ticket_key_func secret HS256 = Inr secret" by (simp add: ticket_key_func_def is_hmac_def)
  have p: "if ticket_valid now' ?c then tlParse T now' (ticket_key_func secret) ticket = Inr ?c
      else isl (tlParse T now' (ticket_key_func secret) ticket)"
    using assms(1) s k unfolding ticket_lawful_def by blast
  have v: "ticket_valid now' ?c \<longleftrightarrow> now' < (now + ?ttl) div sec * sec"
    using numeric_date_bounds(1)[of now] assms(4) by (simp add: ticket_valid_def NewNumericDate_def)
  have i: "UUID_String reviewID = UUID_String i \<longleftrightarrow> i = reviewID"
    using UUID_String_inj[OF assms(5) ParseUUID_wf[OF assms(6)]] by blast
  show ?thesis
  proof (cases "ticket_valid now' ?c")
    case True
    then show ?thesis using p v assms(3,6) by (simp add: stream_refused_def i)
  next
    case False
    then obtain err where "tlParse T now' (ticket_key_func secret) ticket = Inl err" using p by (auto simp: isl_def)
    then show ?thesis using False v assms(3,6) by (simp add: stream_refused_def)
  qed
qed

lemma approve_error_status [simp]: "fst (approve_error err) = 200 \<longleftrightarrow> False" "fst (reject_error err) = 200 \<longleftrightarrow> False"
  by (auto simp: approve_error_def reject_error_def split: go_error.splits)

lemma ApproveReview_200:
  assumes "ReviewHandlers_ApproveReview L e ctx idStr req s = (s', (200, d), n)"
  obtains b review where "req = Some b" "Approve L e (dbToken b) (fst (GetUserID ctx)) (dbDecisionReason b) s = (s', Inr review)"
    "snd (GetUserID ctx)" "d = Data (AReview review)" "n = Some (UUID_String (rrID review), ''status:APPROVED'')"
proof -
  obtain b where ok: "snd (GetUserID ctx)" and b: "req = Some b" "dbToken b \<noteq> []"
    using assms by (auto simp: ReviewHandlers_ApproveReview_def split: prod.splits if_splits option.splits)
  obtain s1 r where a: "Approve L e (dbToken b) (fst (GetUserID ctx)) (dbDecisionReason b) s = (s1, r)" by fastforce
  have h: "ReviewHandlers_ApproveReview L e ctx idStr req s = (case r of
      Inl err \<Rightarrow> (s1, approve_error err, None)
    | Inr review \<Rightarrow> (s1, reply_json 200 (AReview review), Some (UUID_String (rrID review), ''status:APPROVED'')))"
    using ok b a by (simp add: ReviewHandlers_ApproveReview_def split_beta)
  show thesis
  proof (cases r)
    case (Inl err)
    then have "(200, d) = (approve_error err :: review_data reply)" using h assms by simp
    then have "fst (approve_error err :: review_data reply) = 200" by (metis fst_conv)
    then show thesis by simp
  next
    case (Inr review)
    then show thesis using that[of b review] h assms a b ok by (simp add: reply_json_def)
  qed
qed

lemma GetByID_names:
  "snd (ReviewRepository_GetByID L env t i tbl) = Inr out \<Longrightarrow> rrID out = i \<and> rrTenantID out = t"
  by (auto simp: ReviewRepository_GetByID_def WithTenant_def stmt_def find_Some_iff convertSQLCReviewRequest_def
      split: option.splits prod.splits sum.splits if_splits)

lemma settle_names:
  assumes "snd (settle L e review status verb verbed u reason s) = Inr out"
  shows "rrID out = rrID review" "rrTenantID out = rrTenantID review"
proof -
  let ?x = "on_reviews (ReviewRepository_UpdateStatus (background (heUpdate e)) (rrTenantID review) (rrID review) status u) s"
  obtain s' y where x: "?x = (s', y)" by fastforce
  have "snd (ReviewRepository_GetByID L (background (heReload e)) (rrTenantID review) (rrID review) (hsReviews s')) = Inr out"
    using assms by (auto simp: settle_def x split: sum.splits)
  from GetByID_names[OF this] show "rrID out = rrID review" "rrTenantID out = rrTenantID review" by simp_all
qed

text \<open>What a review that came back from an approval says of the row its token opened.\<close>

definition opened_by :: "hitl_lib \<Rightarrow> hitl_env \<Rightarrow> string \<Rightarrow> review_row \<Rightarrow> ReviewRequest \<Rightarrow> bool" where
  "opened_by L e token r review = (rvTokenHash r = hashToken L token \<and> rvStatus r = ReviewStatusPending
     \<and> heNow e \<le> rvExpiresAt r \<and> rrID review = rvID r \<and> rrTenantID review = rvTenantID r)"

lemma Approve_opens:
  assumes "snd (Approve L e token u reason s) = Inr out"
  shows "\<exists>r\<in>set (hsReviews s). opened_by L e token r out"
proof -
  let ?h = "hashToken L token"
  obtain review where g: "snd (GetByTokenHash (background (heFirst e)) ?h (hsReviews s)) = Inr review"
    using assms by (auto simp: Approve_def Let_def split: sum.splits)
  then obtain r where f: "List.find (\<lambda>r. pool_sees (background (heFirst e)) r \<and> rvTokenHash r = ?h) (hsReviews s) = Some r"
    and rv: "review = scan_review r" using GetByTokenHash_InrD by blast
  have r: "r \<in> set (hsReviews s)" "rvTokenHash r = ?h" using f by (auto simp: find_Some_iff)
  have c: "rvStatus r = ReviewStatusPending" "\<not> Review_IsExpired (heNow e) (scan_review r)"
    and a: "Approve L e token u reason s = settle L e (scan_review r) ReviewStatusApproved ''approve'' ''approved'' u reason s"
    using assms g by (auto simp: Approve_def Let_def rv r(2) revalidateResourceIDs_def split: if_splits option.splits)
  from assms have "snd (settle L e (scan_review r) ReviewStatusApproved ''approve'' ''approved'' u reason s) = Inr out"
    by (simp only: a)
  from settle_names[OF this] show ?thesis using r c
    by (intro bexI[of _ r]) (simp_all add: opened_by_def Review_IsExpired_def)
qed

subsection \<open>Where the handlers fall short\<close>

text \<open>The review named by the path plays no part in a decision: the token alone chooses it.\<close>

lemma decisions_ignore_path:
  "ReviewHandlers_ApproveReview L e ctx a = ReviewHandlers_ApproveReview L e ctx b"
  "ReviewHandlers_RejectReview L e ctx a = ReviewHandlers_RejectReview L e ctx b"
  by (simp_all add: fun_eq_iff ReviewHandlers_ApproveReview_def ReviewHandlers_RejectReview_def)

text \<open>A lifetime of 584 years, in seconds, becomes less than a third of a second.\<close>

lemma ttl_wraps: "ttl_duration 18446744074 = 290448384"
  by code_simp

text \<open>A notification walks over the channels of its review without the lock. If the stream whose
  channel it is about to send on ends first, the send is on a closed channel.\<close>

lemma notification_may_panic: "\<exists>s. stream_step\<^sup>*\<^sup>* no_streams s \<and> ssPanics s = 1"
proof -
  define s1 where "s1 = no_streams\<lparr>ssHub := registerConnection ''r'' 0 (ssHub no_streams), ssStreams := (ssStreams no_streams)(0 \<mapsto> ''r''),
    ssUsed := insert 0 (ssUsed no_streams), ssWritten := ssWritten no_streams @ map (Pair 0) (stream_prologue ''r'')\<rparr>"
  define s2 where "s2 = s1\<lparr>ssNotify := (ssNotify s1)(0 \<mapsto> Walking ''r'' ''status:APPROVED'' [])\<rparr>"
  define s3 where "s3 = s2\<lparr>ssNotify := (ssNotify s2)(0 \<mapsto> Holding ''r'' ''status:APPROVED'' [] 0)\<rparr>"
  define h where "h = the (unregisterConnection ''r'' 0 (ssHub s3))"
  define s4 where "s4 = s3\<lparr>ssHub := h, ssStreams := (ssStreams s3)(0 := None)\<rparr>"
  define s5 where "s5 = s4\<lparr>ssNotify := (ssNotify s4)(0 := None), ssPanics := Suc (ssPanics s4)\<rparr>"
  note d = s1_def s2_def s3_def s4_def s5_def h_def no_streams_def registerConnection_def unregisterConnection_def Let_def
  have "stream_step no_streams s1" unfolding s1_def by (rule stream_step.connect) (simp add: no_streams_def)
  moreover have "stream_step s1 s2" unfolding s2_def by (rule stream_step.notify) (simp add: d)
  moreover have "stream_step s2 s3" unfolding s3_def by (rule stream_step.pick[where cs = "[0]"]) (simp_all add: d)
  moreover have "stream_step s3 s4" unfolding s4_def by (rule stream_step.disconnect[where i = "''r''"]) (simp_all add: d)
  moreover have "stream_step s4 s5" unfolding s5_def by (rule stream_step.send_panics) (simp_all add: d send_event_def)
  moreover have "ssPanics s5 = 1" by (simp add: d)
  ultimately show ?thesis by (meson converse_rtranclp_into_rtranclp rtranclp.rtrancl_refl)
qed

subsection \<open>Properties\<close>

text \<open>The streams of a review that have room for one more event get it; nothing else changes.\<close>

definition delivered :: "stream_state \<Rightarrow> string \<Rightarrow> string \<Rightarrow> nat \<Rightarrow> string list" where
  "delivered t i eventData ch = hbQueue (ssHub t) ch @
     (if ssStreams t ch = Some i \<and> length (hbQueue (ssHub t) ch) < 10 then [eventData] else [])"

lemma notify_delivers:
  assumes "stream_step\<^sup>*\<^sup>* no_streams t"
  shows "\<exists>h. notifyReviewUpdate i ev (ssHub t) = Some h \<and> hbQueue h = delivered t i (update_event i ev)"
proof -
  have "hub_ok (ssHub t) (ssStreams t)" using streams_ok_reachable[OF assms] by (simp add: streams_ok_def)
  from notifyReviewUpdate_some[OF this, of i ev] show ?thesis by (auto simp: delivered_def fun_eq_iff)
qed


definition demo_reviewer :: auth_ctx where
  "demo_reviewer = empty_ctx\<lparr>axUserID := Some zero_uuid, axTenantID := Some zero_uuid\<rparr>"

definition demo_decision :: decide_body where
  "demo_decision = \<lparr> dbToken = ''010203'', dbDecisionReason = [] \<rparr>"

text \<open>One stream, on channel 7.\<close>

definition demo_streams :: stream_state where
  "demo_streams = no_streams\<lparr>ssHub := registerConnection (UUID_String zero_uuid) 7 (ssHub no_streams),
     ssStreams := [7 \<mapsto> UUID_String zero_uuid], ssUsed := {7},
     ssWritten := map (Pair 7) (stream_prologue (UUID_String zero_uuid))\<rparr>"

lemma demo_streams_reachable: "stream_step\<^sup>*\<^sup>* no_streams demo_streams"
  using stream_step.connect[of 7 no_streams "UUID_String zero_uuid"] by (auto simp: demo_streams_def no_streams_def)

lemma demo_approved_http:
  "let s = fst (CreateReview demo_hitl 0 demo_call demo_input empty_state);
       (s', r, n) = ReviewHandlers_ApproveReview demo_hitl demo_call demo_reviewer [] (Some demo_decision) s
   in fst r = 200 \<and> n = Some (UUID_String zero_uuid, ''status:APPROVED'')"
  by code_simp


text \<open>The ticket a stream is opened with: until the second it expires it opens the stream of its
  review, is refused with 403 on the stream of any other review, and from then on with 401
  everywhere.\<close>

theorem stream_ticket_binds:
  assumes "ticket_lawful T" and "GenerateStreamTicket T secret now tenantID reviewID ttl = Inr ticket" and "ticket \<noteq> []"
    and "now \<le> now'" and "wf_uuid reviewID" and "ParseUUID idStr = Inr i"
  shows "stream_refused T secret now' idStr ticket =
    (if now' < (now + (if ttl = 0 then 5 * 60 * sec else ttl)) div sec * sec
     then if i = reviewID then None else Some (reply_error 403 ErrForbidden)
     else Some (reply_error 401 ErrUnauthorized))"
  by (rule stream_refused_issued[OF assms])

definition demo_ticket :: TicketClaims where
  "demo_ticket = \<lparr> tkReviewID = UUID_String zero_uuid, tkTenantID = UUID_String zero_uuid, tkExpiresAt = Some 300,
     tkIssuedAt = Some 0, tkNotBefore = Some 0, tkIssuer = ''agent-gateway'', tkSubject = ''sse-stream'' \<rparr>"

definition demo_tickets :: ticket_lib where
  "demo_tickets = \<lparr>
     tlSign = (\<lambda>alg key c. if alg = HS256 \<and> key = ''s'' \<and> c = demo_ticket then Inr ''t'' else Inl ErrInvalidToken),
     tlParse = (\<lambda>now kf tok. if tok = ''t'' \<and> kf HS256 = Inr ''s'' \<and> ticket_valid now demo_ticket then Inr demo_ticket
       else Inl ErrInvalidToken) \<rparr>"

lemma demo_tickets_lawful: "ticket_lawful demo_tickets"
  by (auto simp: ticket_lawful_def demo_tickets_def Let_def split: if_splits)

lemma demo_ticket_issued: "GenerateStreamTicket demo_tickets ''s'' 0 zero_uuid zero_uuid 0 = Inr ''t''"
  by (simp add: GenerateStreamTicket_def demo_tickets_def demo_ticket_def NewNumericDate_def sec_def)

theorem stream_ticket_binds_witness:
  "stream_refused demo_tickets ''s'' (299 * sec) ''00000000-0000-0000-0000-000000000000'' ''t'' = None
   \<and> stream_refused demo_tickets ''s'' (299 * sec) ''00000000-0000-0000-0000-000000000001'' ''t'' = Some (reply_error 403 ErrForbidden)
   \<and> stream_refused demo_tickets ''s'' (300 * sec) ''00000000-0000-0000-0000-000000000000'' ''t'' = Some (reply_error 401 ErrUnauthorized)"
proof -
  have p: "ParseUUID ''00000000-0000-0000-0000-000000000000'' = Inr zero_uuid"
    "ParseUUID ''00000000-0000-0000-0000-000000000001'' = Inr (replicate 15 0 @ [1])" by code_simp+
  have w: "wf_uuid zero_uuid" "replicate 15 0 @ [1] \<noteq> zero_uuid" by code_simp+
  show ?thesis
    using stream_ticket_binds[OF demo_tickets_lawful demo_ticket_issued _ _ w(1) p(1), of "299 * sec"]
      stream_ticket_binds[OF demo_tickets_lawful demo_ticket_issued _ _ w(1) p(2), of "299 * sec"]
      stream_ticket_binds[OF demo_tickets_lawful demo_ticket_issued _ _ w(1) p(1), of "300 * sec"] w(2)
    by (simp add: sec_def)
qed

end
