(* ===== verification/AuthApi.thy ===== *)
theory AuthApi
  imports Sessions HttpReply
begin

text \<open>
  \<open>src/internal/api/handlers/handlers.go\<close>: the handlers of login, refresh, registration, logout and
  sessions. A handler takes the body after decoding (None: it does not decode), the user agent and
  the address of the client where it passes them on, and the context of the authentication
  middleware where it reads it. The second component of the result is None when the handler
  panics, which it does when the password hash does.
\<close>

subsection \<open>Handlers\<close>

datatype auth_data =
    ATokens LoginResponse
  | AUser User
  | AMessage string
  | ASessions "Session list"

record login_body =
  ybEmail :: string
  ybPassword :: string
  ybTenantID :: string

record register_body = login_body +
  ybRole :: string

record client =
  kUserAgent :: string
  kRemoteAddr :: string

type_synonym auth_handler = "auth_db \<Rightarrow> auth_db \<times> auth_data reply option"

text \<open>How a handler answers for a use case that may panic.\<close>

definition auth_answer :: "nat \<Rightarrow> ('a \<Rightarrow> auth_data) \<Rightarrow> (go_error \<Rightarrow> auth_data reply) \<Rightarrow> auth_db \<times> 'a result option \<Rightarrow> auth_db \<times> auth_data reply option" where
  "auth_answer status show refuse x = (case x of
     (db, None) \<Rightarrow> (db, None)
   | (db, Some (Inl err)) \<Rightarrow> (db, Some (refuse err))
   | (db, Some (Inr y)) \<Rightarrow> (db, Some (reply_json status (show y))))"

definition AuthHandlers_Login :: "auth_lib \<Rightarrow> AuthService \<Rightarrow> auth_env \<Rightarrow> client \<Rightarrow> login_body option \<Rightarrow> auth_handler" where
  "AuthHandlers_Login L s e k req db = (case req of
     None \<Rightarrow> (db, Some (reply_error 400 ErrValidation))
   | Some b \<Rightarrow> (case ParseUUID (ybTenantID b) of
       Inl _ \<Rightarrow> (db, Some (reply_error 400 ErrValidation))
     | Inr tenantID \<Rightarrow>
         auth_answer 200 ATokens (\<lambda>_. reply_error 401 ErrInvalidCredentials)
           (Login L s e \<lparr> lqEmail = ybEmail b, lqPassword = ybPassword b, lqTenantID = tenantID,
              lqUserAgent = kUserAgent k, lqIP = kRemoteAddr k \<rparr> db)))"

definition AuthHandlers_SuperAdminLogin :: "auth_lib \<Rightarrow> AuthService \<Rightarrow> auth_env \<Rightarrow> (string \<times> string) option \<Rightarrow> auth_handler" where
  "AuthHandlers_SuperAdminLogin L s e req db = (case req of
     None \<Rightarrow> (db, Some (reply_error 400 ErrValidation))
   | Some (email, password) \<Rightarrow>
       auth_answer 200 ATokens (\<lambda>_. reply_error 401 ErrInvalidCredentials) (SuperAdminLogin L s e email password db))"

definition AuthHandlers_Refresh :: "auth_lib \<Rightarrow> AuthService \<Rightarrow> auth_env \<Rightarrow> client \<Rightarrow> string option \<Rightarrow> auth_handler" where
  "AuthHandlers_Refresh L s e k req db = (case req of
     None \<Rightarrow> (db, Some (reply_error 400 ErrValidation))
   | Some token \<Rightarrow> auth_answer 200 ATokens (reply_error 401)
       (apsnd Some (Refresh L s e \<lparr> rfRefreshToken = token, rfUserAgent = kUserAgent k, rfIP = kRemoteAddr k \<rparr> db)))"

definition AuthHandlers_Register :: "auth_lib \<Rightarrow> auth_env \<Rightarrow> register_body option \<Rightarrow> auth_handler" where
  "AuthHandlers_Register L e req db = (case req of
     None \<Rightarrow> (db, Some (reply_error 400 ErrValidation))
   | Some b \<Rightarrow> (case ParseUUID (ybTenantID b) of
       Inl _ \<Rightarrow> (db, Some (reply_error 400 ErrValidation))
     | Inr tenantID \<Rightarrow> auth_answer 201 AUser (reply_error 409)
         (AuthUseCase_Register L e \<lparr> rgEmail = ybEmail b, rgPassword = ybPassword b, rgTenantID = tenantID, rgRole = ybRole b \<rparr> db)))"

definition AuthHandlers_Logout :: "auth_lib \<Rightarrow> auth_env \<Rightarrow> LogoutRequest option \<Rightarrow> auth_handler" where
  "AuthHandlers_Logout L e req db = (case req of
     None \<Rightarrow> (db, Some (reply_error 400 ErrValidation))
   | Some q \<Rightarrow> auth_answer 200 (\<lambda>_. AMessage ''logged out'') (reply_error 401) (apsnd Some (Logout L e q db)))"

definition AuthHandlers_ListSessions :: "pg_env \<Rightarrow> auth_ctx \<Rightarrow> auth_handler" where
  "AuthHandlers_ListSessions env ctx db =
     (if \<not> snd (GetUserID ctx) then (db, Some (reply_error 401 ErrUnauthorized))
      else if \<not> snd (GetTenantID ctx) then (db, Some (reply_error 401 ErrUnauthorized))
      else auth_answer 200 ASessions (reply_error 500)
        (apsnd Some (ListSessions env (fst (GetTenantID ctx)) (fst (GetUserID ctx)) db)))"

definition AuthHandlers_RevokeAllSessions :: "pg_env \<Rightarrow> auth_ctx \<Rightarrow> auth_handler" where
  "AuthHandlers_RevokeAllSessions env ctx db =
     (if \<not> snd (GetUserID ctx) then (db, Some (reply_error 401 ErrUnauthorized))
      else if \<not> snd (GetTenantID ctx) then (db, Some (reply_error 401 ErrUnauthorized))
      else auth_answer 200 (\<lambda>_. AMessage ''all sessions revoked'') (reply_error 500)
        (apsnd Some (RevokeAllSessions env (fst (GetTenantID ctx)) (fst (GetUserID ctx)) db)))"

definition AuthHandlers_RevokeUserSessions :: "pg_env \<Rightarrow> auth_ctx \<Rightarrow> string \<Rightarrow> auth_handler" where
  "AuthHandlers_RevokeUserSessions env ctx idStr db = (case ParseUUID idStr of
     Inl _ \<Rightarrow> (db, Some (reply_error 400 ErrValidation))
   | Inr userID \<Rightarrow>
       if \<not> snd (GetTenantID ctx) then (db, Some (reply_error 401 ErrUnauthorized))
       else auth_answer 200 (\<lambda>_. AMessage ''user sessions revoked'') (reply_error 500)
         (apsnd Some (RevokeAllSessions env (fst (GetTenantID ctx)) userID db)))"

subsection \<open>Traffic\<close>

datatype auth_http =
    HLogin client "login_body option"
  | HSuperAdminLogin "(string \<times> string) option"
  | HRefresh client "string option"
  | HRegister "register_body option"
  | HLogout "LogoutRequest option"
  | HListSessions auth_ctx
  | HRevokeAllSessions auth_ctx
  | HRevokeUserSessions auth_ctx string

fun auth_serve :: "auth_lib \<Rightarrow> AuthService \<Rightarrow> auth_env \<Rightarrow> auth_http \<Rightarrow> auth_handler" where
  "auth_serve L s e (HLogin k b) = AuthHandlers_Login L s e k b"
| "auth_serve L s e (HSuperAdminLogin b) = AuthHandlers_SuperAdminLogin L s e b"
| "auth_serve L s e (HRefresh k b) = AuthHandlers_Refresh L s e k b"
| "auth_serve L s e (HRegister b) = AuthHandlers_Register L e b"
| "auth_serve L s e (HLogout b) = AuthHandlers_Logout L e b"
| "auth_serve L s e (HListSessions ctx) = AuthHandlers_ListSessions (xeUser e) ctx"
| "auth_serve L s e (HRevokeAllSessions ctx) = AuthHandlers_RevokeAllSessions (xeToken e) ctx"
| "auth_serve L s e (HRevokeUserSessions ctx i) = AuthHandlers_RevokeUserSessions (xeToken e) ctx i"

definition auth_traffic :: "auth_lib \<Rightarrow> AuthService \<Rightarrow> (auth_env \<times> auth_http) list \<Rightarrow> auth_db \<Rightarrow> auth_db" where
  "auth_traffic L s qs db = fold (\<lambda>(e, q) db. fst (auth_serve L s e q db)) qs db"

lemma fst_auth_answer [simp]: "fst (auth_answer n f g x) = fst x"
  by (auto simp: auth_answer_def split: prod.splits option.splits sum.splits)

lemma snd_auth_answer [simp]:
  "snd (auth_answer n f g x) = map_option (\<lambda>r. case r of Inl err \<Rightarrow> g err | Inr y \<Rightarrow> reply_json n (f y)) (snd x)"
  by (auto simp: auth_answer_def split: prod.splits option.splits sum.splits)

lemma ListSessions_pure [simp]: "fst (ListSessions env t u db) = db"
  by (simp add: ListSessions_def fst_WithTenant fst_stmt)

text \<open>A request runs one call of the use case on the database, or none.\<close>

lemma auth_serve_exec:
  "fst (auth_serve L s e q db) = db \<or> (\<exists>op. fst (auth_serve L s e q db) = auth_exec L s (e, op) db)"
proof (cases q)
  case (HLogin k b)
  then show ?thesis
    by (auto simp: AuthHandlers_Login_def split: option.splits sum.splits intro!: exI[of _ "OpLogin _"])
next
  case (HSuperAdminLogin b)
  then show ?thesis by (auto simp: AuthHandlers_SuperAdminLogin_def SuperAdmin_db split: option.splits)
next
  case (HRefresh k b)
  then show ?thesis
    by (auto simp: AuthHandlers_Refresh_def split: option.splits intro!: exI[of _ "OpRefresh _"])
next
  case (HRegister b)
  then show ?thesis
    by (auto simp: AuthHandlers_Register_def split: option.splits sum.splits intro!: exI[of _ "OpRegister _"])
next
  case (HLogout b)
  then show ?thesis
    by (auto simp: AuthHandlers_Logout_def split: option.splits intro!: exI[of _ "OpLogout _"])
next
  case (HListSessions ctx)
  then show ?thesis by (simp add: AuthHandlers_ListSessions_def)
next
  case (HRevokeAllSessions ctx)
  then show ?thesis
    by (auto simp: AuthHandlers_RevokeAllSessions_def intro!: exI[of _ "OpRevokeAll _ _"])
next
  case (HRevokeUserSessions ctx i)
  then show ?thesis
    by (auto simp: AuthHandlers_RevokeUserSessions_def split: sum.splits intro!: exI[of _ "OpRevokeAll _ _"])
qed

lemma traffic_spent: "spent h f (dbTokens db) \<Longrightarrow> spent h f (dbTokens (auth_traffic L s qs db))"
proof (induction qs arbitrary: db)
  case (Cons q qs)
  obtain e p where q: "q = (e, p)" by fastforce
  have "spent h f (dbTokens (fst (auth_serve L s e p db)))"
    using auth_serve_exec[of L s e p db] Cons.prems spent_step[OF Cons.prems exec_step[of "(e, _)"]] by auto
  from Cons.IH[OF this] show ?case by (simp add: auth_traffic_def q)
qed (simp add: auth_traffic_def)

subsection \<open>Revoked sessions\<close>

lemma RevokeAllSessions_answered:
  assumes "snd (RevokeAllSessions env t u db) = Inr ()"
  shows "dbTokens (fst (RevokeAllSessions env t u db)) =
    update_rows (\<lambda>r. trUserID r = u \<and> trTenantID r = t \<and> \<not> trRevoked r) (\<lambda>r. r\<lparr>trRevoked := True\<rparr>) (dbTokens db)"
proof -
  let ?f = "on_tokens (stmt env (revoke_where (\<lambda>r. trUserID r = u \<and> trTenantID r = t \<and> \<not> trRevoked r)))"
  have w: "pgCtxErr env = None" "pgBeginErr env = None" "pgGucErr env = None" "snd (?f db) = Inr ()"
    using WithTenant_answered[OF assms[unfolded RevokeAllSessions_def]] by simp_all
  then have "pgStmtErr env = None"
    using stmt_answered[of env "revoke_where (\<lambda>r. trUserID r = u \<and> trTenantID r = t \<and> \<not> trRevoked r)" "dbTokens db" "()"]
    by (simp add: on_tokens_sel)
  then show ?thesis using w(1-3) by (simp add: RevokeAllSessions_def fst_WithTenant on_tokens_sel fst_stmt revoke_where_def)
qed

lemma revoked_spent:
  assumes "snd (RevokeAllSessions env t u db) = Inr ()" and "List.find (\<lambda>r. trTokenHash r = h) (dbTokens db) = Some r"
    and "trUserID r = u" and "trTenantID r = t"
  shows "spent h (trFamilyID r) (dbTokens (fst (RevokeAllSessions env t u db)))"
  using assms(2-4) by (simp add: RevokeAllSessions_answered[OF assms(1)] spent_def find_update_rows)

lemma spent_Refresh: "spent (HashToken L (rfRefreshToken q)) f (dbTokens db) \<Longrightarrow> \<exists>err. snd (Refresh L s e q db) = Inl err"
proof (rule ccontr)
  assume sp: "spent (HashToken L (rfRefreshToken q)) f (dbTokens db)" and "\<nexists>err. snd (Refresh L s e q db) = Inl err"
  then obtain resp where "snd (Refresh L s e q db) = Inr resp" by (cases "snd (Refresh L s e q db)") auto
  then obtain db' where "Refresh L s e q db = (db', Inr resp)" by (cases "Refresh L s e q db") simp
  then obtain stored u where "refresh_check L e q db = (db, Inr (stored, u))" using Refresh_InrD by blast
  from refresh_check_InrD(2)[OF this] show False using sp by (auto simp: spent_def)
qed

lemma RevokeUserSessions_200:
  assumes "AuthHandlers_RevokeUserSessions env ctx idStr db = (db1, Some (200, d))"
  obtains u where "ParseUUID idStr = Inr u" "snd (GetTenantID ctx)"
    "snd (RevokeAllSessions env (fst (GetTenantID ctx)) u db) = Inr ()" "db1 = fst (RevokeAllSessions env (fst (GetTenantID ctx)) u db)"
proof -
  obtain u where u: "ParseUUID idStr = Inr u" "snd (GetTenantID ctx)"
    using assms by (auto simp: AuthHandlers_RevokeUserSessions_def split: sum.splits if_splits)
  let ?x = "RevokeAllSessions env (fst (GetTenantID ctx)) u db"
  have h: "AuthHandlers_RevokeUserSessions env ctx idStr db =
      auth_answer 200 (\<lambda>_. AMessage ''user sessions revoked'') (reply_error 500) (apsnd Some ?x)"
    using u by (simp add: AuthHandlers_RevokeUserSessions_def)
  have "snd ?x = Inr ()"
  proof (cases "snd ?x")
    case (Inl err)
    then have "snd (AuthHandlers_RevokeUserSessions env ctx idStr db) = Some (reply_error 500 err)" unfolding h by simp
    then show ?thesis using assms by (simp add: reply_error_def)
  qed simp
  moreover have "db1 = fst ?x" using h assms by (metis fst_apsnd fst_auth_answer fst_conv)
  ultimately show thesis using that u by blast
qed

text \<open>C23: When an administrator has revoked the sessions of a user and was answered 200, every refresh
  token that user had in the tenant is refused with 401 for ever, whatever requests are served in
  between and whatever fails.\<close>

theorem revoked_sessions_stay_out:
  assumes "AuthHandlers_RevokeUserSessions env ctx idStr db = (db1, Some (200, d))"
    and "List.find (\<lambda>r. trTokenHash r = HashToken L token) (dbTokens db) = Some r"
    and "ParseUUID idStr = Inr (trUserID r)" and "fst (GetTenantID ctx) = trTenantID r"
  shows "\<exists>err. snd (AuthHandlers_Refresh L s e k (Some token) (auth_traffic L s qs db1)) = Some (reply_error 401 err)"
proof -
  obtain u where u: "ParseUUID idStr = Inr u" "snd (RevokeAllSessions env (fst (GetTenantID ctx)) u db) = Inr ()"
    and db1: "db1 = fst (RevokeAllSessions env (fst (GetTenantID ctx)) u db)"
    using RevokeUserSessions_200[OF assms(1)] by metis
  have "spent (HashToken L token) (trFamilyID r) (dbTokens db1)"
    unfolding db1 by (rule revoked_spent[OF u(2) assms(2)]) (use assms(3,4) u(1) in simp_all)
  from traffic_spent[OF this, of L s qs]
  have "spent (HashToken L (rfRefreshToken \<lparr> rfRefreshToken = token, rfUserAgent = kUserAgent k, rfIP = kRemoteAddr k \<rparr>))
      (trFamilyID r) (dbTokens (auth_traffic L s qs db1))" by simp
  from spent_Refresh[OF this, of s e] show ?thesis by (auto simp: AuthHandlers_Refresh_def)
qed

theorem revoked_sessions_stay_out_witness:
  "\<exists>db1 err. AuthHandlers_RevokeUserSessions quiet_env (empty_ctx\<lparr>axTenantID := Some zero_uuid\<rparr>) ''00000000000000000000000000000000'' demo_auth_db
       = (db1, Some (200, Data (AMessage ''user sessions revoked'')))
     \<and> snd (AuthHandlers_Refresh demo_auth_lib demo_service (demo_auth_env 2) \<lparr> kUserAgent = [], kRemoteAddr = [] \<rparr> (Some ''t'') db1)
       = Some (reply_error 401 err)"
proof -
  let ?ctx = "empty_ctx\<lparr>axTenantID := Some zero_uuid\<rparr>" and ?i = "''00000000000000000000000000000000''"
  have i: "ParseUUID ?i = Inr zero_uuid" by code_simp
  obtain db1 where r: "AuthHandlers_RevokeUserSessions quiet_env ?ctx ?i demo_auth_db = (db1, Some (200, Data (AMessage ''user sessions revoked'')))"
    by (simp add: AuthHandlers_RevokeUserSessions_def i GetTenantID_def RevokeAllSessions_def WithTenant_calm
        on_tokens_def stmt_calm revoke_where_def auth_answer_def reply_json_def)
  have "List.find (\<lambda>r. trTokenHash r = HashToken demo_auth_lib ''t'') (dbTokens demo_auth_db) = Some demo_token_row"
    by (simp add: demo_auth_db_def demo_auth_lib_def HashToken_def demo_token_row_def)
  from revoked_sessions_stay_out[OF r this, of demo_service "demo_auth_env 2" "\<lparr> kUserAgent = [], kRemoteAddr = [] \<rparr>" "[]"] r i
  show ?thesis by (simp add: auth_traffic_def demo_token_row_def GetTenantID_def)
qed

subsection \<open>What a login tells\<close>

text \<open>The answer to a login that is not let in.\<close>

definition refused_login :: "login_body option \<Rightarrow> auth_data reply" where
  "refused_login req = (case req of
     None \<Rightarrow> reply_error 400 ErrValidation
   | Some b \<Rightarrow> if isl (ParseUUID (ybTenantID b)) then reply_error 400 ErrValidation else reply_error 401 ErrInvalidCredentials)"

definition login_request :: "client \<Rightarrow> login_body \<Rightarrow> uuid \<Rightarrow> LoginRequest" where
  "login_request k b t = \<lparr> lqEmail = ybEmail b, lqPassword = ybPassword b, lqTenantID = t,
     lqUserAgent = kUserAgent k, lqIP = kRemoteAddr k \<rparr>"

lemma login_answer_cases:
  assumes "snd (AuthHandlers_Login L s e k req db) = Some r"
  obtains "r = refused_login req" "fst r \<noteq> 200"
    | b t db' resp where "req = Some b" "ParseUUID (ybTenantID b) = Inr t"
      "Login L s e (login_request k b t) db = (db', Some (Inr resp))" "r = (200, Data (ATokens resp))"
proof (cases req)
  case None
  then show thesis using that(1) assms by (auto simp: AuthHandlers_Login_def refused_login_def)
next
  case (Some b)
  show thesis
  proof (cases "ParseUUID (ybTenantID b)")
    case (Inl err)
    then show thesis using that(1) assms Some by (auto simp: AuthHandlers_Login_def refused_login_def)
  next
    case (Inr t)
    obtain db' x where l: "Login L s e (login_request k b t) db = (db', x)" by fastforce
    have a: "snd (AuthHandlers_Login L s e k req db) = map_option (\<lambda>r. case r of Inl err \<Rightarrow> reply_error 401 ErrInvalidCredentials
        | Inr y \<Rightarrow> reply_json 200 (ATokens y)) x" using l Inr Some by (simp add: AuthHandlers_Login_def login_request_def)
    then obtain y where y: "x = Some y" using assms by (cases x) auto
    show thesis
    proof (cases y)
      case (Inl err)
      then have "r = reply_error 401 ErrInvalidCredentials" using a assms y by simp
      then show thesis using that(1) Some Inr by (simp add: refused_login_def)
    next
      case (Inr resp)
      then have "r = (200, Data (ATokens resp))" using a assms y by (simp add: reply_json_def)
      then show thesis using that(2)[OF Some \<open>ParseUUID (ybTenantID b) = Inr t\<close>] l y Inr by simp
    qed
  qed
qed

text \<open>The tokens of a 200 are for a user of the tenant with the address given, whose stored hash the
  password verifies and whose status is active.\<close>

definition may_log_in :: "auth_lib \<Rightarrow> login_body \<Rightarrow> User \<Rightarrow> bool" where
  "may_log_in L b u = (auFold L (usEmail u) = auFold L (ybEmail b) \<and> VerifyPassword (auIdkey L) (ybPassword b) (usPasswordHash u) = Some None
     \<and> ParseUUID (ybTenantID b) = Inr (usTenantID u) \<and> User_IsActive u)"

lemma get_user_InrD: "snd (get_user env t P db) = Inr u \<Longrightarrow> u \<in> set (dbUsers db) \<and> usTenantID u = t \<and> P u"
  by (auto simp: get_user_def WithTenant_def stmt_def find_Some_iff split: option.splits sum.splits prod.splits if_splits)

lemma Login_admits:
  assumes "Login L s e req db = (db', Some (Inr resp))"
  obtains u where "login_user L e req db = Some (Inr u)"
    "IssueAccessToken (auJwt L) s (xeNow e) (session_claims u (lqTenantID req)) = Inr (lpAccessToken resp)"
proof -
  obtain u where u: "login_user L e req db = Some (Inr u)" using assms by (auto simp: Login_def split: option.splits sum.splits)
  obtain a where a: "IssueAccessToken (auJwt L) s (xeNow e) (session_claims u (lqTenantID req)) = Inr a"
    using assms by (auto simp: Login_def u split: sum.splits)
  have "lpAccessToken resp = a" using assms by (auto simp: Login_def u a split: sum.splits prod.splits)
  then show thesis using that u a by simp
qed

lemma login_user_may:
  assumes "login_user L e \<lparr> lqEmail = ybEmail b, lqPassword = ybPassword b, lqTenantID = t, lqUserAgent = ua, lqIP = ip \<rparr> db = Some (Inr u)"
    and "ParseUUID (ybTenantID b) = Inr t"
  shows "u \<in> set (dbUsers db)" "may_log_in L b u"
proof -
  have g: "snd (GetByEmail L (xeUser e) t (ybEmail b) db) = Inr u" "VerifyPassword (auIdkey L) (ybPassword b) (usPasswordHash u) = Some None" "User_IsActive u"
    using assms(1) by (auto simp: login_user_def split: sum.splits option.splits if_splits)
  show "u \<in> set (dbUsers db)" "may_log_in L b u"
    using get_user_InrD[OF g(1)[unfolded GetByEmail_def]] g(2,3) assms(2) by (simp_all add: may_log_in_def)
qed

text \<open>C24: What a login answers. Either it is let in, and then the access token is issued for a user of
  the tenant whose password it gave and who is active; or its answer depends on the request alone:
  unknown address, wrong password, suspended user and a failing database look the same.\<close>

theorem login_reveals_nothing:
  assumes "snd (AuthHandlers_Login L s e k req db) = Some r"
  shows "if fst r \<noteq> 200 then r = refused_login req
    else \<exists>b u resp. req = Some b \<and> u \<in> set (dbUsers db) \<and> may_log_in L b u \<and> r = (200, Data (ATokens resp))
      \<and> IssueAccessToken (auJwt L) s (xeNow e) (session_claims u (usTenantID u)) = Inr (lpAccessToken resp)"
proof (rule login_answer_cases[OF assms])
  fix b t db' resp
  assume b: "req = Some b" "ParseUUID (ybTenantID b) = Inr t"
    and l: "Login L s e (login_request k b t) db = (db', Some (Inr resp))" and r: "r = (200, Data (ATokens resp))"
  obtain u where u: "login_user L e (login_request k b t) db = Some (Inr u)"
    and i: "IssueAccessToken (auJwt L) s (xeNow e) (session_claims u t) = Inr (lpAccessToken resp)"
    using Login_admits[OF l] by (auto simp: login_request_def)
  note m = login_user_may[OF u[unfolded login_request_def] b(2)]
  then have "usTenantID u = t" using b(2) by (simp add: may_log_in_def)
  then show ?thesis using b(1) m r i by auto
qed simp

definition demo_login :: login_body where
  "demo_login = \<lparr> ybEmail = ''nobody'', ybPassword = ''pw'', ybTenantID = ''00000000000000000000000000000000'' \<rparr>"

theorem login_reveals_nothing_witness:
  "snd (AuthHandlers_Login demo_auth_lib demo_service (demo_auth_env 1) \<lparr> kUserAgent = [], kRemoteAddr = [] \<rparr> (Some demo_login) demo_auth_db)
     = Some (refused_login (Some demo_login))"
proof -
  let ?x = "snd (AuthHandlers_Login demo_auth_lib demo_service (demo_auth_env 1) \<lparr> kUserAgent = [], kRemoteAddr = [] \<rparr> (Some demo_login) demo_auth_db)"
  have i: "ParseUUID ''00000000000000000000000000000000'' = Inr zero_uuid" by code_simp
  have c: "calm (quiet_env\<lparr>pgPoolGuc := g\<rparr>)" for g by (simp add: calm_def quiet_env_def)
  have "login_user demo_auth_lib (demo_auth_env 1) \<lparr> lqEmail = ''nobody'', lqPassword = ''pw'', lqTenantID = zero_uuid, lqUserAgent = [], lqIP = [] \<rparr> demo_auth_db
      = Some (Inl ErrInvalidCredentials)"
    by (simp add: login_user_def GetByEmail_def get_user_def WithTenant_calm stmt_calm c demo_auth_env_def demo_auth_db_def demo_user_def demo_auth_lib_def)
  then obtain r where "?x = Some r" "fst r = 401"
    by (simp add: AuthHandlers_Login_def demo_login_def i Login_def reply_error_def)
  then show ?thesis using login_reveals_nothing[of demo_auth_lib demo_service "demo_auth_env 1"] by fastforce
qed

text \<open>Every failure of a registration is reported as a conflict.\<close>

lemma registration_outage_is_conflict:
  assumes "ParseUUID (ybTenantID b) = Inr t" and "pgStmtErr (xeUser e) = Some err" and "pgCtxErr (xeUser e) = None"
    and "HashPassword (auIdkey L) (xeSalt e) (ybPassword b) (Some DefaultParams) = Some (Inr h)"
  shows "\<exists>err. snd (AuthHandlers_Register L e (Some b) db) = Some (reply_error 409 err)"
proof -
  let ?q = "\<lparr> rgEmail = ybEmail b, rgPassword = ybPassword b, rgTenantID = t, rgRole = ybRole b \<rparr>"
  have g: "isl (snd (GetByEmail L (xeUser e) t (ybEmail b) db))" 
    using assms(2,3) by (auto simp: GetByEmail_def get_user_def WithTenant_def stmt_def split: option.splits)
  have c: "isl (snd (UserRepository_Create (xeUser e) i t u db))" for i u
    using assms(2,3) by (auto simp: UserRepository_Create_def on_users_def WithTenant_def stmt_def split: option.splits)
  have "\<exists>err. snd (AuthUseCase_Register L e ?q db) = Some (Inl err)"
    using g c assms(4) by (auto simp: AuthUseCase_Register_def isl_def)
  then show ?thesis using assms(1) by (auto simp: AuthHandlers_Register_def)
qed

end
