(* ===== verification/AuditApi.thy ===== *)
theory AuditApi
  imports Password HttpReply
begin

text \<open>
  \<open>src/internal/api/handlers/admin_audit.go\<close>: listing the audit events of a tenant with filters and
  pages, and verifying a chain. The parser of RFC 3339 times is a parameter; the empty text is a
  query parameter that is absent.
\<close>

subsection \<open>Query parameters\<close>

text \<open>\<open>strconv.Atoi\<close> in 64 bits.\<close>

definition Atoi :: "string \<Rightarrow> int option" where
  "Atoi s =
     (let neg = (take 1 s = ''-''); ds = (if take 1 s = ''-'' \<or> take 1 s = ''+'' then drop 1 s else s);
          n = (if neg then - int (digits_value ds) else int (digits_value ds))
      in if ds = [] \<or> \<not> list_all is_digit ds \<or> n < - (2 ^ 63) \<or> n \<ge> 2 ^ 63 then None else Some n)"

record audit_query =
  aqActorID :: string
  aqAction :: string
  aqEntityType :: string
  aqEntityID :: string
  aqSeverity :: string
  aqFrom :: string
  aqTo :: string
  aqLimit :: string
  aqOffset :: string

text \<open>A parameter that is absent, invalid or valid.\<close>

definition param :: "(string \<Rightarrow> 'a option) \<Rightarrow> string \<Rightarrow> 'a option option" where
  "param parse s = (if s = [] then Some None else map_option Some (parse s))"

definition parse_uuid :: "string \<Rightarrow> uuid option" where
  "parse_uuid s = (case ParseUUID s of Inl _ \<Rightarrow> None | Inr u \<Rightarrow> Some u)"

definition parse_limit :: "string \<Rightarrow> int option" where
  "parse_limit s = (if s = [] then Some 50 else case Atoi s of None \<Rightarrow> None | Some n \<Rightarrow> if n \<le> 0 then None else Some n)"

definition parse_offset :: "string \<Rightarrow> int option" where
  "parse_offset s = (if s = [] then Some 0 else case Atoi s of None \<Rightarrow> None | Some n \<Rightarrow> if n < 0 then None else Some n)"

text \<open>None: some parameter is invalid, and the handler answers 400.\<close>

definition audit_filter :: "(string \<Rightarrow> time option) \<Rightarrow> uuid \<Rightarrow> audit_query \<Rightarrow> AuditFilter option" where
  "audit_filter parseTime tenantID q =
     (case param parse_uuid (aqActorID q) of None \<Rightarrow> None | Some actorID \<Rightarrow>
     (case param parse_uuid (aqEntityID q) of None \<Rightarrow> None | Some entityID \<Rightarrow>
     (case param parseTime (aqFrom q) of None \<Rightarrow> None | Some fromTime \<Rightarrow>
     (case param parseTime (aqTo q) of None \<Rightarrow> None | Some toTime \<Rightarrow>
     (case parse_limit (aqLimit q) of None \<Rightarrow> None | Some limit \<Rightarrow>
     (case parse_offset (aqOffset q) of None \<Rightarrow> None | Some offset \<Rightarrow>
        Some \<lparr> afTenantID = tenantID, afFrom = fromTime, afTo = toTime, afAction = aqAction q, afEntityType = aqEntityType q,
          afActorID = actorID, afEntityID = entityID, afSeverity = aqSeverity q, afLimit = limit, afOffset = offset \<rparr>))))))"

subsection \<open>Handlers\<close>

datatype audit_data =
    AEvents "AuditEvent list" int int
  | AVerified bool int int int "(int \<times> string) option"

definition AdminAudit_ListAuditEvents ::
  "(string \<Rightarrow> time option) \<Rightarrow> pg_env \<Rightarrow> auth_ctx \<Rightarrow> audit_query \<Rightarrow> audit_table \<Rightarrow> audit_table \<times> audit_data reply" where
  "AdminAudit_ListAuditEvents parseTime env ctx q tbl = (case GetTenantID ctx of (tenantID, ok) \<Rightarrow>
     if \<not> ok then (tbl, reply_error 401 ErrUnauthorized)
     else (case audit_filter parseTime tenantID q of
       None \<Rightarrow> (tbl, reply_error 400 ErrValidation)
     | Some f \<Rightarrow> (case Query env f tbl of
         (tbl', Inl err) \<Rightarrow> (tbl', reply_error 500 err)
       | (tbl', Inr events) \<Rightarrow> (tbl', reply_json 200 (AEvents events (afLimit f) (afOffset f))))))"

record verify_body =
  vbTenantID :: string
  vbFromSeq :: int
  vbToSeq :: int

definition verify_target :: "uuid \<Rightarrow> verify_body \<Rightarrow> uuid result" where
  "verify_target tenantID b = (if vbTenantID b \<noteq> [] then ParseUUID (vbTenantID b) else Inr tenantID)"

text \<open>The upper end of the range; \<open>GetLastEvent\<close> on an empty chain is an error.\<close>

definition verify_upto :: "pg_env \<Rightarrow> uuid \<Rightarrow> verify_body \<Rightarrow> (audit_table, int) db_call" where
  "verify_upto env tenantID b tbl =
     (if vbToSeq b \<noteq> 0 then (tbl, Inr (vbToSeq b))
      else case GetLastEvent env tenantID tbl of
        (tbl', Inl err) \<Rightarrow> (tbl', Inl err)
      | (tbl', Inr ev) \<Rightarrow> (tbl', Inr (aeSeq ev)))"

definition verify_data :: "int \<Rightarrow> int \<Rightarrow> VerifyResult \<Rightarrow> audit_data" where
  "verify_data fromSeq toSeq r = AVerified (vrValid r) fromSeq toSeq (vrTotalSeen r)
     (if vrValid r then None else Some (vrBrokenSeq r, case vrError r of None \<Rightarrow> [] | Some err \<Rightarrow> error_text err))"

definition AdminAudit_VerifyChain ::
  "audit_lib \<Rightarrow> pg_env \<Rightarrow> pg_env \<Rightarrow> auth_ctx \<Rightarrow> verify_body option \<Rightarrow> audit_table \<Rightarrow> audit_table \<times> audit_data reply" where
  "AdminAudit_VerifyChain L env env' ctx req tbl = (case GetTenantID ctx of (tenantID, ok) \<Rightarrow>
     if \<not> ok then (tbl, reply_error 401 ErrUnauthorized)
     else (case req of
       None \<Rightarrow> (tbl, reply_error 400 ErrValidation)
     | Some b \<Rightarrow> (case verify_target tenantID b of
         Inl _ \<Rightarrow> (tbl, reply_error 400 ErrValidation)
       | Inr target \<Rightarrow>
           let fromSeq = (if vbFromSeq b = 0 then 1 else vbFromSeq b) in
           (case verify_upto env target b tbl of
              (tbl', Inl err) \<Rightarrow> (tbl', reply_error 500 err)
            | (tbl', Inr toSeq) \<Rightarrow> (case VerifyChain L env' target fromSeq toSeq tbl' of
                (tbl'', Inl err) \<Rightarrow> (tbl'', reply_error 500 err)
              | (tbl'', Inr r) \<Rightarrow> (tbl'', reply_json 200 (verify_data fromSeq toSeq r)))))))"

subsection \<open>Pages\<close>

lemma Atoi_int_text: "n < 2 ^ 63 \<Longrightarrow> Atoi (int_text (int n)) = Some (int n)"
proof -
  assume n: "n < 2 ^ 63"
  have d: "list_all is_digit (nat_text n)" using nat_text_all_digits by (simp add: list_all_iff)
  have "nat_text n \<noteq> []" by (rule nat_text_not_Nil)
  moreover from this have "hd (nat_text n) \<noteq> CHR ''-''" "hd (nat_text n) \<noteq> CHR ''+''"
    using d by (cases "nat_text n"; auto simp: is_digit_def Let_def)+
  ultimately have "take 1 (nat_text n) \<noteq> ''-''" "take 1 (nat_text n) \<noteq> ''+''" by (cases "nat_text n"; simp)+
  then show ?thesis using n d \<open>nat_text n \<noteq> []\<close> by (simp add: Atoi_def Let_def int_text_def digits_value_nat_text)
qed

lemma parse_page: "0 < n \<Longrightarrow> n < 2 ^ 63 \<Longrightarrow> parse_limit (int_text (int n)) = Some (int n)"
  "m < 2 ^ 63 \<Longrightarrow> parse_offset (int_text (int m)) = Some (int m)"
proof -
  have ne: "int_text (int k) \<noteq> []" for k using nat_text_not_Nil[of k] by (simp add: int_text_def)
  show "0 < n \<Longrightarrow> n < 2 ^ 63 \<Longrightarrow> parse_limit (int_text (int n)) = Some (int n)"
    using ne[of n] Atoi_int_text[of n] by (simp add: parse_limit_def)
  show "m < 2 ^ 63 \<Longrightarrow> parse_offset (int_text (int m)) = Some (int m)"
    using ne[of m] Atoi_int_text[of m] by (simp add: parse_offset_def)
qed

definition page_request :: "audit_query \<Rightarrow> nat \<Rightarrow> nat \<Rightarrow> audit_query" where
  "page_request q n i = q\<lparr>aqLimit := int_text (int n), aqOffset := int_text (int (n * i))\<rparr>"

lemma audit_filter_page:
  assumes "audit_filter P t q = Some f" and "0 < n" and "n < 2 ^ 63" and "n * i < 2 ^ 63"
  shows "audit_filter P t (page_request q n i) = Some (f\<lparr>afLimit := int n, afOffset := int (n * i)\<rparr>)"
proof -
  have p: "parse_limit (int_text (int n)) = Some (int n)" "parse_offset (int_text (int (n * i))) = Some (int (n * i))"
    using parse_page(1)[OF assms(2,3)] parse_page(2)[OF assms(4)] .
  show ?thesis using assms(1) by (auto simp: audit_filter_def page_request_def p simp del: of_nat_mult split: option.splits)
qed

lemma filter_matches_page [simp]: "filter_matches (f\<lparr>afLimit := l, afOffset := k\<rparr>) r = filter_matches f r"
  by (simp add: filter_matches_def)

text \<open>All events a filter lets through, newest first.\<close>

definition matching :: "AuditFilter \<Rightarrow> audit_table \<Rightarrow> AuditEvent list" where
  "matching f tbl = map convertSQLCAuditEvent (sort_key (\<lambda>r. - auCreatedAt r) (filter (filter_matches f) tbl))"

lemma page_map: "AuditLog.page l k (map g xs) = map g (AuditLog.page l k xs)"
  by (simp add: AuditLog.page_def Let_def take_map drop_map)

lemma Query_calm:
  assumes "calm env"
  shows "Query env f tbl = (tbl, Inr (AuditLog.page (afLimit f) (afOffset f) (matching f tbl)))"
proof -
  have "filter (\<lambda>r. rls_ok env (Some (afTenantID f)) (auTenantID r) \<and> filter_matches f r) tbl = filter (filter_matches f) tbl"
    by (rule filter_cong) (auto simp: rls_ok_def filter_matches_def)
  then show ?thesis using assms by (simp add: Query_def WithTenantTx_calm stmt_calm matching_def page_map)
qed

lemma pages_take:
  "0 < n \<Longrightarrow> concat (map (\<lambda>i. AuditLog.page (int n) (int (n * i)) xs) [0..<k]) = take (n * k) xs"
proof (induction k)
  case (Suc k)
  have "AuditLog.page (int n) (int (n * k)) xs = take n (drop (n * k) xs)"
    using Suc.prems by (cases "n * k = 0") (simp_all add: AuditLog.page_def Let_def nat_mult_distrib)
  moreover have "take (n * Suc k) xs = take (n * k) xs @ take n (drop (n * k) xs)"
    by (simp add: take_add[symmetric] add.commute)
  ultimately show ?case using Suc by simp
qed simp

definition listed :: "audit_data reply \<Rightarrow> AuditEvent list" where
  "listed r = (case snd r of Data (AEvents evs _ _) \<Rightarrow> evs | _ \<Rightarrow> [])"

lemma ListAuditEvents_page:
  assumes "calm env" and "GetTenantID ctx = (t, True)" and "audit_filter P t q = Some f"
    and "0 < n" and "n < 2 ^ 63" and "n * i < 2 ^ 63"
  shows "AdminAudit_ListAuditEvents P env ctx (page_request q n i) tbl =
    (tbl, reply_json 200 (AEvents (AuditLog.page (int n) (int (n * i)) (matching f tbl)) (int n) (int (n * i))))"
proof -
  have "matching (f\<lparr>afLimit := int n, afOffset := int (n * i)\<rparr>) tbl = matching f tbl"
    by (simp add: matching_def cong: filter_cong)
  then show ?thesis using assms(2) audit_filter_page[OF assms(3-6)]
    by (simp add: AdminAudit_ListAuditEvents_def Query_calm[OF assms(1)] del: of_nat_mult)
qed

lemma audit_filter_tenant: "audit_filter P t q = Some f \<Longrightarrow> afTenantID f = t"
  by (auto simp: audit_filter_def split: option.splits)

lemma matching_tenant: "e \<in> set (matching f tbl) \<Longrightarrow> aeTenantID e = afTenantID f"
  by (auto simp: matching_def filter_matches_def convertSQLCAuditEvent_def)


definition demo_query :: audit_query where
  "demo_query = \<lparr> aqActorID = [], aqAction = [], aqEntityType = [], aqEntityID = [], aqSeverity = [], aqFrom = [], aqTo = [],
     aqLimit = [], aqOffset = [] \<rparr>"

definition demo_auditor :: auth_ctx where
  "demo_auditor = empty_ctx\<lparr>axTenantID := Some zero_uuid\<rparr>"


subsection \<open>Verification\<close>

definition verify_end :: "verify_body \<Rightarrow> uuid \<Rightarrow> audit_table \<Rightarrow> int" where
  "verify_end b t tbl = (if vbToSeq b \<noteq> 0 then vbToSeq b else auSeq (last (sort_key auSeq (chain_of t tbl))))"

definition verify_begin :: "verify_body \<Rightarrow> int" where
  "verify_begin b = (if vbFromSeq b = 0 then 1 else vbFromSeq b)"

text \<open>The rows a verification is about.\<close>

definition verified_rows :: "verify_body \<Rightarrow> uuid \<Rightarrow> audit_table \<Rightarrow> audit_row list" where
  "verified_rows b t tbl = sort_key auSeq (filter (\<lambda>r. auTenantID r = t \<and> verify_begin b \<le> auSeq r \<and> auSeq r \<le> verify_end b t tbl) tbl)"

lemma verify_upto_calm:
  assumes "calm env" and "chain_of t tbl \<noteq> []"
  shows "verify_upto env t b tbl = (tbl, Inr (verify_end b t tbl))"
proof -
  have "tenant_rows env (Some t) t tbl = sort_key auSeq (chain_of t tbl)"
    by (simp add: tenant_rows_def rls_ok_def) (metis (mono_tags, lifting) filter_cong)
  moreover have "sort_key auSeq (chain_of t tbl) \<noteq> []" using assms(2) by (metis length_0_conv length_sort)
  ultimately show ?thesis using assms(1)
    by (simp add: verify_upto_def verify_end_def GetLastEvent_def WithTenantTx_calm stmt_calm last_row_def convertSQLCAuditEvent_def)
qed

lemma AdminAudit_VerifyChain_calm:
  assumes "calm env" and "calm env'" and "GetTenantID ctx = (c, True)" and "verify_target c b = Inr t" and "chain_of t tbl \<noteq> []"
  shows "AdminAudit_VerifyChain L env env' ctx (Some b) tbl =
    (tbl, reply_json 200 (verify_data (verify_begin b) (verify_end b t tbl) (verify_loop L (verified_rows b t tbl) None 0)))"
  using assms(3,4)
  by (simp add: AdminAudit_VerifyChain_def verify_upto_calm[OF assms(1,5)] VerifyChain_calm[OF assms(2)] verified_rows_def verify_begin_def Let_def)

lemma verified_rows_ok:
  assumes "audit_ok L tbl" and "verify_begin b \<le> 1" and "vbToSeq b = 0" and "chain_of t tbl \<noteq> []"
  shows "verified_rows b t tbl = chain_of t tbl"
proof -
  have "verify_end b t tbl = int (length (chain_of t tbl))"
    using assms(3) sorted_chain[OF assms(1)] last_row_chain[OF assms(1,4)] by (simp add: verify_end_def)
  moreover have "nat (verify_begin b - 1) = 0" using assms(2) by simp
  ultimately show ?thesis unfolding verified_rows_def by (subst range_rows[OF assms(1)]) simp
qed

text \<open>C35: The verdict of the verification endpoint, for the chain of the tenant it is asked about. On
  whatever table, tampered with or not, it answers 200 and says valid exactly if the rows of the
  range are linked from the genesis hash by their digests; on a table the gateway wrote, the
  whole chain is reported valid with every one of its events seen.\<close>

theorem audit_endpoint_verdict:
  assumes "calm env" and "calm env'" and "GetTenantID ctx = (c, True)" and "verify_target c b = Inr t" and "chain_of t tbl \<noteq> []"
  shows "\<exists>seen broken. AdminAudit_VerifyChain L env env' ctx (Some b) tbl =
      (tbl, (200, Data (AVerified (audit_chain.linked L genesis (verified_rows b t tbl)) (verify_begin b) (verify_end b t tbl) seen broken)))
    \<and> (if audit_ok L tbl \<and> verify_begin b \<le> 1 \<and> vbToSeq b = 0
       then audit_chain.linked L genesis (verified_rows b t tbl) \<and> seen = int (length (chain_of t tbl)) \<and> broken = None
       else (broken = None) = audit_chain.linked L genesis (verified_rows b t tbl))"
proof -
  let ?rs = "verified_rows b t tbl" and ?v = "verify_loop L (verified_rows b t tbl) None 0"
  have a: "AdminAudit_VerifyChain L env env' ctx (Some b) tbl =
      (tbl, (200, Data (AVerified (audit_chain.linked L genesis ?rs) (verify_begin b) (verify_end b t tbl) (vrTotalSeen ?v)
        (if audit_chain.linked L genesis ?rs then None else Some (vrBrokenSeq ?v, case vrError ?v of None \<Rightarrow> [] | Some err \<Rightarrow> error_text err)))))"
    by (simp add: AdminAudit_VerifyChain_calm[OF assms] verify_data_def reply_json_def verify_loop_None)
  have "audit_chain.linked L genesis ?rs \<and> vrTotalSeen ?v = int (length (chain_of t tbl))"
    if "audit_ok L tbl" "verify_begin b \<le> 1" "vbToSeq b = 0"
  proof -
    have rs: "?rs = chain_of t tbl" by (rule verified_rows_ok[OF that assms(5)])
    moreover have l: "audit_chain.linked L genesis (chain_of t tbl)" using that(1) by (simp add: audit_ok_def)
    ultimately show ?thesis using verify_loop_valid[of L None "chain_of t tbl" 0] by simp
  qed
  note ok = this
  show ?thesis by (intro exI, rule conjI, rule a) (use ok in auto)
qed

definition demo_verify :: verify_body where
  "demo_verify = \<lparr> vbTenantID = [], vbFromSeq = 0, vbToSeq = 0 \<rparr>"

theorem audit_endpoint_verdict_witness:
  "\<exists>toSeq. snd (AdminAudit_VerifyChain short_lib quiet_env quiet_env demo_auditor (Some demo_verify) (append_all short_lib demo_reqs []))
     = (200, Data (AVerified True 1 toSeq 2 None))"
proof -
  let ?tbl = "append_all short_lib demo_reqs []"
  have l: "length (chain_of zero_uuid ?tbl) = 2" using arg_cong[OF demo_chain, of length] by simp
  then have "chain_of zero_uuid ?tbl \<noteq> []" by auto
  moreover have "GetTenantID demo_auditor = (zero_uuid, True)" by (simp add: GetTenantID_def demo_auditor_def)
  moreover have "verify_target zero_uuid demo_verify = Inr zero_uuid" by (simp add: verify_target_def demo_verify_def)
  moreover have "audit_ok short_lib ?tbl" by (rule audit_ok_append_all[OF short_lib_stable audit_ok_empty])
  ultimately show ?thesis
    using audit_endpoint_verdict[of quiet_env quiet_env demo_auditor zero_uuid demo_verify zero_uuid ?tbl short_lib] l
    by (auto simp: demo_verify_def verify_begin_def)
qed

text \<open>Verifying a tenant that has no events yet is an internal error.\<close>

lemma empty_chain_is_error:
  assumes "calm env" and "GetTenantID ctx = (c, True)" and "verify_target c b = Inr t" and "chain_of t tbl = []" and "vbToSeq b = 0"
  shows "AdminAudit_VerifyChain L env env' ctx (Some b) tbl = (tbl, reply_error 500 SqlErrNoRows)"
proof -
  have "tenant_rows env (Some t) t tbl = []"
    using assms(4) by (simp add: tenant_rows_def filter_empty_conv)
  then show ?thesis using assms(1-3,5)
    by (simp add: AdminAudit_VerifyChain_def verify_upto_def GetLastEvent_def WithTenantTx_calm stmt_calm last_row_def)
qed

text \<open>The tenant is taken from the request: any authenticated user can verify the chain of any
  tenant, and learn how many events it has.\<close>

lemma any_tenant_verified: "ParseUUID i = Inr t \<Longrightarrow> i \<noteq> [] \<Longrightarrow> verify_target c \<lparr> vbTenantID = i, vbFromSeq = a, vbToSeq = z \<rparr> = Inr t"
  by (simp add: verify_target_def)

end
