(* ===== verification/ToolApi.thy ===== *)
theory ToolApi
  imports ChatHandler HttpReply
begin

text \<open>
  \<open>src/internal/api/handlers/admin_tools.go\<close>: creating, changing and deactivating tool definitions.
  The times of a definition, which the repository model leaves out, are left out of the response.
\<close>

subsection \<open>Handlers\<close>

record CreateToolRequest =
  xbTenantID :: string
  xbName :: string
  xbDescription :: string
  xbParameters :: "string option"
  xbGrants :: "string option"
  xbExecutionTimeoutMs :: "uint64 option"
  xbMemoryPages :: "uint32 option"

record UpdateToolRequest =
  zbTenantID :: string
  zbDescription :: "string option"
  zbParameters :: "string option"
  zbGrants :: "string option"
  zbExecutionTimeoutMs :: "uint64 option"
  zbMemoryPages :: "uint32 option"
  zbIsActive :: "bool option"

record ToolResponse =
  rpID :: int
  rpTenantID :: string
  rpName :: string
  rpDescription :: string
  rpParameters :: "string option"
  rpGrants :: "string option"
  rpExecutionTimeoutMs :: uint64
  rpMemoryPages :: uint32
  rpHash :: string
  rpIsActive :: bool

definition toToolResponse :: "ToolDefinition \<Rightarrow> ToolResponse" where
  "toToolResponse def = \<lparr> rpID = tdID def, rpTenantID = UUID_String (tdTenantID def), rpName = tdName def,
     rpDescription = tdDescription def, rpParameters = tdInputSchema def, rpGrants = tdGrants def,
     rpExecutionTimeoutMs = tdExecutionTimeoutMs def, rpMemoryPages = tdMemoryPages def, rpHash = tdHash def,
     rpIsActive = tdIsActive def \<rparr>"

definition or_else :: "'a option \<Rightarrow> 'a \<Rightarrow> 'a" where
  "or_else x d = (case x of None \<Rightarrow> d | Some y \<Rightarrow> y)"

definition created_def :: "tool_lib \<Rightarrow> uuid \<Rightarrow> CreateToolRequest \<Rightarrow> ToolDefinition" where
  "created_def L tenantID b =
     (let parameters = or_else (xbParameters b) ''{}''; grants = or_else (xbGrants b) ''[]''
      in \<lparr> tdID = 0, tdTenantID = tenantID, tdName = xbName b, tdDescription = xbDescription b,
           tdInputSchema = Some parameters, tdGrants = Some grants,
           tdExecutionTimeoutMs = or_else (xbExecutionTimeoutMs b) 0, tdMemoryPages = or_else (xbMemoryPages b) 0,
           tdHash = ComputeHash L (xbName b) (xbDescription b) (Some parameters), tdIsActive = True \<rparr>)"

definition AdminTools_CreateTool ::
  "tool_lib \<Rightarrow> 'c cache_ops \<Rightarrow> tool_env \<Rightarrow> CreateToolRequest option \<Rightarrow> 'c tool_state \<Rightarrow> 'c tool_state \<times> ToolResponse reply" where
  "AdminTools_CreateTool L ops e req s = (case req of
     None \<Rightarrow> (s, reply_error 400 ErrValidation)
   | Some b \<Rightarrow> (case ParseUUID (xbTenantID b) of
       Inl _ \<Rightarrow> (s, reply_error 400 ErrValidation)
     | Inr tenantID \<Rightarrow> (case CreateToolDefinition L ops e tenantID (created_def L tenantID b) s of
         (s', Inl err) \<Rightarrow> (s', reply_error 500 err)
       | (s', Inr def) \<Rightarrow> (s', reply_json 201 (toToolResponse def)))))"

definition merged_def :: "tool_lib \<Rightarrow> uuid \<Rightarrow> string \<Rightarrow> ToolDefinition \<Rightarrow> UpdateToolRequest \<Rightarrow> ToolDefinition" where
  "merged_def L tenantID name existing b =
     (let description = or_else (zbDescription b) (tdDescription existing);
          schema = (case zbParameters b of None \<Rightarrow> tdInputSchema existing | Some p \<Rightarrow> Some p)
      in \<lparr> tdID = tdID existing, tdTenantID = tenantID, tdName = name, tdDescription = description, tdInputSchema = schema,
           tdGrants = (case zbGrants b of None \<Rightarrow> tdGrants existing | Some g \<Rightarrow> Some g),
           tdExecutionTimeoutMs = or_else (zbExecutionTimeoutMs b) (tdExecutionTimeoutMs existing),
           tdMemoryPages = or_else (zbMemoryPages b) (tdMemoryPages existing),
           tdHash = ComputeHash L name description schema, tdIsActive = or_else (zbIsActive b) (tdIsActive existing) \<rparr>)"

definition AdminTools_UpdateTool ::
  "tool_lib \<Rightarrow> 'c cache_ops \<Rightarrow> tool_env \<Rightarrow> tool_env \<Rightarrow> string \<Rightarrow> UpdateToolRequest option \<Rightarrow> 'c tool_state \<Rightarrow> 'c tool_state \<times> ToolResponse reply" where
  "AdminTools_UpdateTool L ops e e' name req s =
     (if name = [] then (s, reply_error 400 ErrValidation)
      else case req of
        None \<Rightarrow> (s, reply_error 400 ErrValidation)
      | Some b \<Rightarrow> (case ParseUUID (zbTenantID b) of
          Inl _ \<Rightarrow> (s, reply_error 400 ErrValidation)
        | Inr tenantID \<Rightarrow> (case GetByName ops e tenantID name s of
            (s1, Inl err) \<Rightarrow> (s1, if err = ErrToolNotFound then reply_error 404 ErrNotFound else reply_error 500 err)
          | (s1, Inr existing) \<Rightarrow> (case UpdateToolDefinition L ops e' tenantID (merged_def L tenantID name existing b) s1 of
              (s2, Inl err) \<Rightarrow> (s2, reply_error 500 err)
            | (s2, Inr (def, hashChanged)) \<Rightarrow> (s2, reply_json 200 (toToolResponse def))))))"

definition AdminTools_DeactivateTool ::
  "tool_lib \<Rightarrow> 'c cache_ops \<Rightarrow> tool_env \<Rightarrow> string \<Rightarrow> string \<Rightarrow> 'c tool_state \<Rightarrow> 'c tool_state \<times> ToolResponse reply" where
  "AdminTools_DeactivateTool L ops e name tenantIDStr s =
     (if name = [] then (s, reply_error 400 ErrValidation)
      else if tenantIDStr = [] then (s, reply_error 400 ErrValidation)
      else case ParseUUID tenantIDStr of
        Inl _ \<Rightarrow> (s, reply_error 400 ErrValidation)
      | Inr tenantID \<Rightarrow> (case DeactivateToolDefinition L ops e tenantID name s of
          (s', Inl err) \<Rightarrow> (s', if err = ErrToolNotFound then reply_error 404 ErrNotFound else reply_error 500 err)
        | (s', Inr _) \<Rightarrow> (s', (204, NoBody))))"

subsection \<open>What an answered write has done\<close>

lemma WithTenantTx_InrD:
  "snd (WithTenantTx env t fn db) = Inr x \<Longrightarrow>
    fst (WithTenantTx env t fn db) = fst (fn (Some t) db) \<and> snd (fn (Some t) db) = Inr x"
  by (auto simp: WithTenantTx_def split: option.splits prod.splits sum.splits)

lemma in_tx_InrD:
  "in_tx env t fn s = (s', Inr x) \<Longrightarrow> tsDb s' = fst (fn (Some t) (tsDb s)) \<and> snd (fn (Some t) (tsDb s)) = Inr x"
  using WithTenantTx_InrD[of env t fn "tsDb s" x] by (auto simp: in_tx_eq)

lemma append_tx_tools [simp]: "tbTools (fst (append_tx L e guc v d)) = tbTools d"
  by (simp add: append_tx_def split: prod.split sum.split)

lemma write_audited_InrD:
  assumes "snd (write_audited L e q ev guc db) = Inr r"
  shows "snd (q guc (tbTools db)) = Inr r" "tbTools (fst (write_audited L e q ev guc db)) = fst (q guc (tbTools db))"
proof -
  obtain rs x where q: "stmt (teTx e) (q guc) (tbTools db) = (rs, x)" by fastforce
  then obtain r' where x: "x = Inr r'" using assms by (cases x) (auto simp: write_audited_def on_tools_def)
  obtain db2 y where a: "append_tx L e guc (ev r') (db\<lparr>tbTools := rs\<rparr>) = (db2, y)" by fastforce
  then obtain u where y: "y = Inr u" using assms x by (cases y) (auto simp: write_audited_def on_tools_def q)
  have r: "r' = r" using assms by (simp add: write_audited_def on_tools_def q x a y)
  have s: "pgCtxErr (teTx e) = None \<and> pgStmtErr (teTx e) = None \<and> snd (q guc (tbTools db)) = Inr r'"
    by (rule stmt_answered[of "teTx e" "q guc" "tbTools db"]) (simp add: q x)
  then show "snd (q guc (tbTools db)) = Inr r" using r by simp
  have "rs = fst (q guc (tbTools db))" using s fst_stmt[of "teTx e" "q guc" "tbTools db"] q by simp
  moreover have "tbTools db2 = rs" using append_tx_tools[of L e guc "ev r'" "db\<lparr>tbTools := rs\<rparr>"] by (simp add: a del: append_tx_tools)
  moreover have "fst (write_audited L e q ev guc db) = db2" by (simp add: write_audited_def on_tools_def q x a y)
  ultimately show "tbTools (fst (write_audited L e q ev guc db)) = fst (q guc (tbTools db))" by simp
qed

lemma one_active_find:
  assumes "one_active rs" and "r \<in> set rs" and "toIsActive r" and "named t n r"
  shows "List.find (\<lambda>r. named t n r \<and> toIsActive r) rs = Some r"
  using assms
proof (induction rs)
  case (Cons x rs)
  show ?case
  proof (cases "x = r")
    case False
    then have r: "r \<in> set rs" using Cons.prems(2) by simp
    have "\<not> (named t n x \<and> toIsActive x)"
      using Cons.prems(1,3,4) r by (auto simp: one_active_def named_def)
    moreover have "one_active rs" using Cons.prems(1) by (auto simp: one_active_def split: if_splits)
    ultimately show ?thesis using Cons.IH r Cons.prems(3,4) by auto
  qed (use Cons.prems in simp)
qed simp

lemma Create_statement:
  assumes "CreateToolDefinition L ops e t d s = (s', Inr d')"
  shows "\<exists>r. snd (SqlCreateToolDefinition L (teTx e) (Some t) (teNewID e) t (with_hash L d) (tbTools (tsDb s))) = Inr r
     \<and> tbTools (tsDb s') = fst (SqlCreateToolDefinition L (teTx e) (Some t) (teNewID e) t (with_hash L d) (tbTools (tsDb s)))
     \<and> d' = (with_hash L d)\<lparr>tdID := toID r, tdTenantID := toTenantID r\<rparr>"
proof -
  let ?d = "with_hash L d"
  let ?q = "\<lambda>guc. SqlCreateToolDefinition L (teTx e) guc (teNewID e) t ?d"
  let ?fn = "write_audited L e ?q (\<lambda>r. buildAuditEvent L e t (?d\<lparr>tdID := toID r, tdTenantID := toTenantID r\<rparr>) ''CREATE'' None
        (Some (tdHash ?d)) [] AuditSeverityInfo)"
  obtain s1 x where x: "in_tx (teTx e) t ?fn s = (s1, x)" by fastforce
  obtain r where r: "x = Inr r" and s': "tsDb s' = tsDb s1" and d': "d' = ?d\<lparr>tdID := toID r, tdTenantID := toTenantID r\<rparr>"
    using assms by (cases x) (auto simp: CreateToolDefinition_def Let_def x)
  have i: "tsDb s1 = fst (?fn (Some t) (tsDb s))" "snd (?fn (Some t) (tsDb s)) = Inr r"
    using in_tx_InrD[OF x[unfolded r]] by simp_all
  show ?thesis using write_audited_InrD[OF i(2)] s' i(1) d' by (intro exI[of _ r]) simp
qed

lemma CreateTool_answered:
  assumes "CreateToolDefinition L ops e t d s = (s', Inr d')"
  shows "\<exists>row. tbTools (tsDb s') = tbTools (tsDb s) @ [row] \<and> row = new_tool_row L (teTx e) (teNewID e) t (with_hash L d)
     \<and> one_active (tbTools (tsDb s')) \<and> d' = (with_hash L d)\<lparr>tdID := toID row, tdTenantID := toTenantID row\<rparr>"
proof -
  let ?d = "with_hash L d"
  obtain r where r: "snd (SqlCreateToolDefinition L (teTx e) (Some t) (teNewID e) t ?d (tbTools (tsDb s))) = Inr r"
    and s': "tbTools (tsDb s') = fst (SqlCreateToolDefinition L (teTx e) (Some t) (teNewID e) t ?d (tbTools (tsDb s)))"
    and d': "d' = ?d\<lparr>tdID := toID r, tdTenantID := toTenantID r\<rparr>"
    using Create_statement[OF assms] by blast
  show ?thesis using r s' d' by (auto simp: SqlCreateToolDefinition_def Let_def split: option.splits if_splits)
qed

lemma UpdateTool_answered:
  assumes "UpdateToolDefinition L ops e t d s = (s', Inr (d', h))" and "tdHash d \<noteq> []"
  shows "\<exists>rs row. tbTools (tsDb s') = update_rows (named t (tdName d)) (\<lambda>r. (write_columns L d r)\<lparr>toUpdatedAt := pgNow (teTx e)\<rparr>) rs
     \<and> one_active (tbTools (tsDb s')) \<and> row \<in> set (tbTools (tsDb s')) \<and> named t (tdName d) row
     \<and> d' = d\<lparr>tdID := toID row, tdTenantID := toTenantID row, tdHash := toHash row\<rparr>"
proof -
  obtain s1 x where g: "GetByName ops e t (tdName d) s = (s1, x)" by fastforce
  obtain ex where ex: "x = Inr ex" using assms(1) by (cases x) (auto simp: UpdateToolDefinition_def g)
  obtain s2 y where y: "in_tx (teTx e) t (update_tx L e t ex d) s1 = (s2, y)" by fastforce
  have y': "y = Inr (d', h)" and s': "tsDb s' = tsDb s2"
    using assms(1) by (cases y; auto simp: UpdateToolDefinition_def g ex y)+
  have i: "tsDb s2 = fst (update_tx L e t ex d (Some t) (tsDb s1))" "snd (update_tx L e t ex d (Some t) (tsDb s1)) = Inr (d', h)"
    using in_tx_InrD[OF y[unfolded y']] by simp_all
  let ?q = "\<lambda>guc. SqlUpdateToolDefinition L (teTx e) guc t (d\<lparr>tdHash := tdHash d\<rparr>)"
  define w where "w = write_audited L e ?q
       (\<lambda>r. buildAuditEvent L e t (d\<lparr>tdID := toID r, tdTenantID := toTenantID r, tdHash := toHash r\<rparr>) ''UPDATE'' (Some (tdHash ex)) (Some (tdHash d))
          (changed_fields L ex d) (if tdHash ex \<noteq> tdHash d then AuditSeverityCritical else AuditSeverityWarn)) (Some t) (tsDb s1)"
  have u: "update_tx L e t ex d (Some t) (tsDb s1) = (case w of (db', Inl err) \<Rightarrow> (db', Inl err)
      | (db', Inr r) \<Rightarrow> (db', Inr (d\<lparr>tdID := toID r, tdTenantID := toTenantID r, tdHash := toHash r\<rparr>, tdHash ex \<noteq> tdHash d)))"
    using assms(2) by (simp add: update_tx_def Let_def w_def)
  obtain r where r: "snd w = Inr r" and d': "d' = d\<lparr>tdID := toID r, tdTenantID := toTenantID r, tdHash := toHash r\<rparr>"
    using i(2) u by (cases w; cases "snd w") auto
  have f: "fst (update_tx L e t ex d (Some t) (tsDb s1)) = fst w" using r u by (cases w) auto
  note wi = write_audited_InrD[OF r[unfolded w_def]]
  have sees: "(\<lambda>r. tool_sees (teTx e) (Some t) r \<and> named t n r) = named t n" for n
    by (auto simp: tool_sees_def rls_ok_def named_def fun_eq_iff)
  have dd: "d\<lparr>tdHash := tdHash d\<rparr> = d" by simp
  let ?rs = "update_rows (named t (tdName d)) (\<lambda>r. (write_columns L d r)\<lparr>toUpdatedAt := pgNow (teTx e)\<rparr>) (tbTools (tsDb s1))"
  have "fst (?q (Some t) (tbTools (tsDb s1))) = ?rs" "one_active ?rs" "List.find (named t (tdName d)) ?rs = Some r"
    using wi(1) by (auto simp: SqlUpdateToolDefinition_def Let_def dd sees split: option.splits if_splits)
  moreover have "tbTools (tsDb s') = fst (?q (Some t) (tbTools (tsDb s1)))" using wi(2) f i(1) s' by (simp add: w_def)
  ultimately show ?thesis using d' by (intro exI[of _ "tbTools (tsDb s1)"] exI[of _ r]) (auto simp: find_Some_iff)
qed

lemma find_deactivated:
  "(\<And>r. named t n r \<Longrightarrow> P r) \<Longrightarrow> List.find (\<lambda>r. named t n r \<and> toIsActive r)
     (update_rows (\<lambda>r. P r \<and> named t n r) (\<lambda>r. r\<lparr>toIsActive := False, toUpdatedAt := k\<rparr>) rs) = None"
  by (induction rs) (auto simp: named_def)

lemma DeactivateTool_answered:
  assumes "DeactivateToolDefinition L ops e t n s = (s', Inr ())"
  shows "active_def t n (tbTools (tsDb s')) = None"
proof -
  obtain s1 x where g: "GetByName ops e t n s = (s1, x)" by fastforce
  obtain ex where ex: "x = Inr ex" using assms by (cases x) (auto simp: DeactivateToolDefinition_def g)
  let ?q = "\<lambda>guc. SqlDeactivateToolDefinition (teTx e) guc t n"
  let ?fn = "write_audited L e ?q (\<lambda>_. buildAuditEvent L e t ex ''DELETE'' (Some (tdHash ex)) None [] AuditSeverityWarn)"
  obtain s2 y where y: "in_tx (teTx e) t ?fn s1 = (s2, y)" by fastforce
  have y': "y = Inr ()" and s': "tsDb s' = tsDb s2"
    using assms by (cases y; auto simp: DeactivateToolDefinition_def g ex y)+
  have i: "tsDb s2 = fst (?fn (Some t) (tsDb s1))" "snd (?fn (Some t) (tsDb s1)) = Inr ()"
    using in_tx_InrD[OF y[unfolded y']] by simp_all
  have "tbTools (tsDb s') = update_rows (\<lambda>r. tool_sees (teTx e) (Some t) r \<and> named t n r)
      (\<lambda>r. r\<lparr>toIsActive := False, toUpdatedAt := pgNow (teTx e)\<rparr>) (tbTools (tsDb s1))"
    using write_audited_InrD(2)[OF i(2)] i(1) s' by (simp add: SqlDeactivateToolDefinition_def)
  moreover have "tool_sees (teTx e) (Some t) r" if "named t n r" for r
    using that by (simp add: tool_sees_def rls_ok_def named_def)
  ultimately show ?thesis by (simp add: active_def_def find_deactivated)
qed

subsection \<open>What a lookup finds afterwards\<close>

lemma GetByName_coherent:
  assumes "lawful_cache ops entries" and "coherent entries s" and "calm (teRead e)"
  shows "snd (GetByName ops e t n s) = (case active_def t n (tbTools (tsDb s)) of
    Some d \<Rightarrow> Inr d | None \<Rightarrow> Inl (if errors_is (pgNoRows (teRead e)) SqlErrNoRows then ErrToolNotFound else pgNoRows (teRead e)))"
proof -
  obtain s' r where g: "GetByName ops e t n s = (s', r)" by fastforce
  have "GetByName no_cache e t n (bare s) = (bare s', r)" by (rule GetByName_bare(1)[OF assms g])
  then show ?thesis using g by (auto simp: no_cache_GetByName db_lookup_calm[OF assms(3)])
qed

text \<open>What the validation of a chat request makes of a tool the administrator was told about: it is
  accepted, with the limits of the response, exactly if it is active and declared with the hash
  of the response.\<close>

definition reflects :: "chat_lib \<Rightarrow> tool_lib \<Rightarrow> (string \<Rightarrow> ToolDefinition result) \<Rightarrow> ToolResponse \<Rightarrow> FunctionDef \<Rightarrow> bool" where
  "reflects J L look resp fn = (case validate_tool J L look fn of
     Inl err \<Rightarrow> err = (if rpIsActive resp then ErrToolDefinitionMismatch else ErrToolNotFound)
       \<and> \<not> (rpIsActive resp \<and> request_hash J L fn = rpHash resp)
   | Inr vt \<Rightarrow> rpIsActive resp \<and> request_hash J L fn = rpHash resp \<and> vtName vt = rpName resp \<and> vtDescription vt = rpDescription resp
       \<and> vtExecutionTimeoutMs vt = rpExecutionTimeoutMs resp \<and> vtMemoryPages vt = rpMemoryPages resp)"

lemma reflects_active:
  assumes "look (fdName fn) = Inr def" and "tdIsActive def" and "rpIsActive resp" and "tdHash def = rpHash resp"
    and "tdName def = rpName resp" and "tdDescription def = rpDescription resp"
    and "tdExecutionTimeoutMs def = rpExecutionTimeoutMs resp" and "tdMemoryPages def = rpMemoryPages resp"
  shows "reflects J L look resp fn"
  using assms by (simp add: reflects_def validate_tool_def validated_tool_def)

lemma reflects_inactive:
  assumes "look (fdName fn) = Inl err" and "\<not> rpIsActive resp" and "\<not> errors_is err ErrToolRepository"
  shows "reflects J L look resp fn"
  using assms by (simp add: reflects_def validate_tool_def)

definition sha_sized :: "tool_lib \<Rightarrow> bool" where
  "sha_sized L = (\<forall>x. length (alSha256 (tlAudit L) x) = 32)"

lemma length_ComputeHash: "sha_sized L \<Longrightarrow> length (ComputeHash L n d p) = 64"
  by (simp add: ComputeHash_def sha_sized_def length_hex_encode)

lemma char64_full: "length h = 64 \<Longrightarrow> char64 h = h"
  by (simp add: char64_def)

lemma created_def_sel [simp]:
  "tdName (created_def L t b) = xbName b" "tdIsActive (created_def L t b)" "tdTenantID (created_def L t b) = t"
  by (auto simp: created_def_def Let_def)

lemma new_tool_row_sel [simp]:
  "toDescription (new_tool_row L env i t def) = tdDescription def" "toIsActive (new_tool_row L env i t def) = tdIsActive def"
  "toHash (new_tool_row L env i t def) = char64 (tdHash def)" "toExecutionTimeoutMs (new_tool_row L env i t def) = tdExecutionTimeoutMs def"
  "toMemoryPages (new_tool_row L env i t def) = tdMemoryPages def"
  by (simp_all add: new_tool_row_def write_columns_def)

lemma created_reflected:
  assumes sha: "sha_sized L" and c: "CreateToolDefinition L ops e t (created_def L t b) s = (s', Inr def)"
    and law: "lawful_cache ops entries" and coh: "coherent entries s" and calm: "calm (teRead e')" and fn: "fdName fn = xbName b"
  shows "reflects J L (\<lambda>n. snd (GetByName ops e' t n s')) (toToolResponse def) fn"
proof -
  let ?d = "created_def L t b"
  have len: "length (tdHash ?d) = 64" by (simp add: created_def_def Let_def length_ComputeHash[OF sha])
  then have h: "with_hash L ?d = ?d" by (auto simp: with_hash_def)
  obtain row where row: "tbTools (tsDb s') = tbTools (tsDb s) @ [row]" "row = new_tool_row L (teTx e) (teNewID e) t ?d"
    "one_active (tbTools (tsDb s'))" "def = ?d\<lparr>tdID := toID row, tdTenantID := toTenantID row\<rparr>"
    using CreateTool_answered[OF c] by (auto simp: h)
  have "List.find (\<lambda>r. named t (xbName b) r \<and> toIsActive r) (tbTools (tsDb s')) = Some row"
    by (rule one_active_find[OF row(3)]) (simp_all add: row(1,2) named_def)
  then have "active_def t (xbName b) (tbTools (tsDb s')) = Some (convertSQLCToolDefinition row)" by (simp add: active_def_def)
  moreover have "coherent entries s'" using Create_sim[OF law coh c] by simp
  ultimately have g: "snd (GetByName ops e' t (xbName b) s') = Inr (convertSQLCToolDefinition row)"
    using GetByName_coherent[OF law _ calm] by simp
  show ?thesis
    by (rule reflects_active[where def = "convertSQLCToolDefinition row"])
      (simp_all add: fn g convertSQLCToolDefinition_def toToolResponse_def row(2,4) char64_full[OF len])
qed

lemma merged_def_sel [simp]:
  "tdName (merged_def L t n ex b) = n" "tdTenantID (merged_def L t n ex b) = t"
  by (simp_all add: merged_def_def Let_def)

lemma updated_reflected:
  assumes sha: "sha_sized L" and u: "UpdateToolDefinition L ops e t (merged_def L t n ex b) s = (s', Inr (def, h))"
    and law: "lawful_cache ops entries" and coh: "coherent entries s" and calm: "calm (teRead e)" "calm (teRead e')"
    and rows: "\<not> errors_is (pgNoRows (teRead e')) ErrToolRepository" and fn: "fdName fn = n"
  shows "reflects J L (\<lambda>n. snd (GetByName ops e' t n s')) (toToolResponse def) fn"
proof -
  let ?d = "merged_def L t n ex b"
  have len: "length (tdHash ?d) = 64" by (simp add: merged_def_def Let_def length_ComputeHash[OF sha])
  then have ne: "tdHash ?d \<noteq> []" by auto
  let ?f = "\<lambda>r. (write_columns L ?d r)\<lparr>toUpdatedAt := pgNow (teTx e)\<rparr>"
  obtain rs row where t: "tbTools (tsDb s') = update_rows (named t n) ?f rs" "one_active (tbTools (tsDb s'))"
    and row: "row \<in> set (tbTools (tsDb s'))" "named t n row"
    and d: "def = ?d\<lparr>tdID := toID row, tdTenantID := toTenantID row, tdHash := toHash row\<rparr>"
    using UpdateTool_answered[OF u ne] by auto
  have upd: "\<exists>r0. r = ?f r0" if "r \<in> set (tbTools (tsDb s'))" "named t n r" for r
    using that t(1) by (auto simp: in_update_rows)
  have coh': "coherent entries s'" using Update_sim[OF law coh calm(1) u] by simp
  note g = GetByName_coherent[OF law coh' calm(2), of t n]
  show ?thesis
  proof (cases "tdIsActive ?d")
    case True
    obtain r0 where r0: "row = ?f r0" using upd row by blast
    then have "toIsActive row" using True by (simp add: write_columns_def)
    then have "active_def t n (tbTools (tsDb s')) = Some (convertSQLCToolDefinition row)"
      using one_active_find[OF t(2) row(1) _ row(2)] by (simp add: active_def_def)
    then have "snd (GetByName ops e' t n s') = Inr (convertSQLCToolDefinition row)" using g by simp
    then show ?thesis using True row(2) r0
      by (intro reflects_active[where def = "convertSQLCToolDefinition row"])
        (simp_all add: fn convertSQLCToolDefinition_def toToolResponse_def d named_def write_columns_def)
  next
    case False
    have "\<not> toIsActive r" if "r \<in> set (tbTools (tsDb s'))" "named t n r" for r
      using upd[OF that] False by (auto simp: write_columns_def)
    then have "active_def t n (tbTools (tsDb s')) = None" by (auto simp: active_def_def find_None_iff)
    then obtain err where "snd (GetByName ops e' t n s') = Inl err" "\<not> errors_is err ErrToolRepository"
      using g rows by (auto split: if_splits)
    then show ?thesis using False
      by (intro reflects_inactive[where err = err]) (simp_all add: fn toToolResponse_def d)
  qed
qed

lemma CreateTool_201:
  assumes "AdminTools_CreateTool L ops e req s = (s', (201, d))"
  obtains b t def where "req = Some b" "ParseUUID (xbTenantID b) = Inr t"
    "CreateToolDefinition L ops e t (created_def L t b) s = (s', Inr def)" "d = Data (toToolResponse def)"
proof -
  obtain b t where b: "req = Some b" "ParseUUID (xbTenantID b) = Inr t"
    using assms by (auto simp: AdminTools_CreateTool_def split: option.splits sum.splits)
  obtain s1 x where c: "CreateToolDefinition L ops e t (created_def L t b) s = (s1, x)" by fastforce
  show thesis
  proof (cases x)
    case (Inl err)
    then show thesis using assms b c by (simp add: AdminTools_CreateTool_def)
  next
    case (Inr def)
    then show thesis using that[OF b] assms b c by (auto simp: AdminTools_CreateTool_def reply_json_def)
  qed
qed

lemma UpdateTool_200:
  assumes "AdminTools_UpdateTool L ops e e' n req s = (s', (200, d))"
  obtains b t s1 ex def h where "req = Some b" "ParseUUID (zbTenantID b) = Inr t" "GetByName ops e t n s = (s1, Inr ex)"
    "UpdateToolDefinition L ops e' t (merged_def L t n ex b) s1 = (s', Inr (def, h))" "d = Data (toToolResponse def)"
proof -
  obtain b t where b: "n \<noteq> []" "req = Some b" "ParseUUID (zbTenantID b) = Inr t"
    using assms by (auto simp: AdminTools_UpdateTool_def split: option.splits sum.splits if_splits)
  obtain s1 x where g: "GetByName ops e t n s = (s1, x)" by fastforce
  show thesis
  proof (cases x)
    case (Inl err)
    then show thesis using assms b g by (simp add: AdminTools_UpdateTool_def split: if_splits)
  next
    case (Inr ex)
    obtain s2 y where u: "UpdateToolDefinition L ops e' t (merged_def L t n ex b) s1 = (s2, y)" by fastforce
    show thesis
    proof (cases y)
      case (Inl err)
      then show thesis using assms b g u Inr by (simp add: AdminTools_UpdateTool_def)
    next
      case (Inr r)
      then show thesis using that[OF b(2,3)] assms b g u \<open>x = Inr ex\<close>
        by (cases r) (auto simp: AdminTools_UpdateTool_def reply_json_def)
    qed
  qed
qed

subsection \<open>Properties\<close>


text \<open>The length of the digests of this library does not depend on what is hashed, as is so for SHA-256.\<close>

definition demo_sized_lib :: tool_lib where
  "demo_sized_lib = demo_tool_lib\<lparr>tlAudit := short_lib\<lparr>alSha256 := (\<lambda>s. of_nat (length s) # replicate 31 0)\<rparr>\<rparr>"

definition demo_create :: CreateToolRequest where
  "demo_create = \<lparr> xbTenantID = ''00000000000000000000000000000000'', xbName = ''calc'', xbDescription = ''adds'', xbParameters = None, xbGrants = None,
     xbExecutionTimeoutMs = Some 1000, xbMemoryPages = Some 16 \<rparr>"

definition demo_created_tool :: ToolResponse where
  "demo_created_tool = \<lparr> rpID = 1, rpTenantID = UUID_String zero_uuid, rpName = ''calc'', rpDescription = ''adds'', rpParameters = Some ''{}'',
     rpGrants = Some ''[]'', rpExecutionTimeoutMs = 1000, rpMemoryPages = 16,
     rpHash = ComputeHash demo_sized_lib ''calc'' ''adds'' (Some ''{}''), rpIsActive = True \<rparr>"

lemma demo_env_calm: "calm (teRead (demo_tool_env i))" "\<not> errors_is (pgNoRows (teRead (demo_tool_env i))) ErrToolRepository"
proof -
  show "calm (teRead (demo_tool_env i))" by (simp add: demo_tool_env_def)
  show "\<not> errors_is (pgNoRows (teRead (demo_tool_env i))) ErrToolRepository" by (simp add: demo_tool_env_def quiet_env_def)
qed

lemma demo_tools_coherent: "coherent id (empty_tools Map.empty)"
  by (simp add: coherent_def empty_tools_def)

lemma demo_sized: "sha_sized demo_sized_lib"
  by (simp add: sha_sized_def demo_sized_lib_def)

lemma demo_tool_created:
  "snd (AdminTools_CreateTool demo_sized_lib map_cache (demo_tool_env 1) (Some demo_create) (empty_tools Map.empty)) = (201, Data demo_created_tool)"
  by code_simp



definition demo_registry :: "(cacheKey \<rightharpoonup> ToolDefinition) tool_state" where
  "demo_registry = fst (AdminTools_CreateTool demo_sized_lib map_cache (demo_tool_env 1) (Some demo_create) (empty_tools Map.empty))"

lemma demo_deactivated:
  "snd (AdminTools_DeactivateTool demo_sized_lib map_cache (demo_tool_env 3) ''calc'' ''00000000000000000000000000000000'' demo_registry) = (204, NoBody)"
  unfolding demo_registry_def by code_simp


text \<open>The optional timeout is not optional: without it the handler writes 0, which the column refuses.\<close>

lemma timeout_required:
  assumes "xbExecutionTimeoutMs b = None"
  shows "fst (snd (AdminTools_CreateTool L ops e (Some b) s)) \<in> {400, 500}"
proof (cases "ParseUUID (xbTenantID b)")
  case (Inr t)
  obtain s1 x where c: "CreateToolDefinition L ops e t (created_def L t b) s = (s1, x)" by fastforce
  have "\<exists>err. x = Inl err"
  proof (cases x)
    case (Inr def)
    have col: "column_error L (with_hash L (created_def L t b)) \<noteq> None"
      using assms by (auto simp: column_error_def with_hash_def created_def_def Let_def or_else_def)
    have "isl (snd (SqlCreateToolDefinition L (teTx e) guc (teNewID e) t (with_hash L (created_def L t b)) rs))" for guc rs
      using col by (auto simp: SqlCreateToolDefinition_def Let_def)
    moreover obtain r where "snd (SqlCreateToolDefinition L (teTx e) (Some t) (teNewID e) t (with_hash L (created_def L t b)) (tbTools (tsDb s))) = Inr r"
      using Create_statement[OF c[unfolded Inr]] by blast
    ultimately show ?thesis by (metis sum.disc(2))
  qed simp
  then show ?thesis using Inr c by (auto simp: AdminTools_CreateTool_def)
qed (auto simp: AdminTools_CreateTool_def)

end
