(* ===== verification/Providers.thy ===== *)
theory Providers
  imports Fallback GoText
begin

text \<open>
  \<open>src/internal/adapter/provider\<close> and \<open>src/internal/usecase/chat/providers.go\<close>: the model services
  behind the gateway. The client of OpenAI turns a request into the JSON of the service, sends it and
  turns the answer back; the clients of Anthropic and Ollama are stubs; the mock answers what it was
  told to. Parameters are the network (\<open>http_lib\<close>) and the text of JSON values (\<open>oai_lib\<close>).
\<close>

subsection \<open>The wire format of OpenAI\<close>

record OAIFunc =
  ofName :: string
  ofArguments :: string

record OAIToolCall =
  ocID :: string
  ocType :: string
  ocFunction :: OAIFunc

record OpenAIMessage =
  omRole :: string
  omContent :: string
  omToolCalls :: "OAIToolCall list"
  omToolCallID :: string
  omName :: string

record OAIFuncDef =
  odName :: string
  odDescription :: string
  odParameters :: "json option"

record OAITool =
  otType :: string
  otFunction :: OAIFuncDef

record OpenAIRequest =
  orModel :: string
  orMessages :: "OpenAIMessage list"
  orTemperature :: "float64 option"
  orMaxTokens :: "int option"
  orTopP :: "float64 option"
  orTools :: "OAITool list"
  orToolChoice :: "json option"
  orStream :: bool
  orStop :: "string list"
  orPresencePenalty :: "float64 option"
  orFrequencyPenalty :: "float64 option"
  orUser :: string

record OAIUsage =
  ouPromptTokens :: int
  ouCompletionTokens :: int
  ouTotalTokens :: int

record OAIChoice =
  oiIndex :: int
  oiMessage :: OpenAIMessage
  oiFinishReason :: string

record OAIError =
  oxMessage :: string
  oxType :: string
  oxCode :: string

record OpenAIResponse =
  opID :: string
  opObject :: string
  opCreated :: int
  opModel :: string
  opChoices :: "OAIChoice list"
  opUsage :: OAIUsage
  opSystemFingerprint :: string
  opError :: "OAIError option"

subsection \<open>Conversion\<close>

definition convertToolCalls :: "ToolCall list \<Rightarrow> OAIToolCall list" where
  "convertToolCalls calls = map (\<lambda>c. \<lparr> ocID = tcID c, ocType = tcType c,
     ocFunction = \<lparr> ofName = fnName (tcFunction c), ofArguments = fnArguments (tcFunction c) \<rparr> \<rparr>) calls"

definition convertToolCallsBack :: "OAIToolCall list \<Rightarrow> ToolCall list" where
  "convertToolCallsBack calls = map (\<lambda>c. \<lparr> tcID = ocID c, tcType = ocType c,
     tcFunction = \<lparr> fnName = ofName (ocFunction c), fnArguments = ofArguments (ocFunction c) \<rparr> \<rparr>) calls"

definition convertRequest :: "ModelRequest \<Rightarrow> OpenAIRequest" where
  "convertRequest req = \<lparr> orModel = mrModel req,
     orMessages = map (\<lambda>m. \<lparr> omRole = msRole m, omContent = msContent m, omToolCalls = convertToolCalls (msToolCalls m),
       omToolCallID = msToolCallID m, omName = msName m \<rparr>) (mrMessages req),
     orTemperature = mrTemperature req, orMaxTokens = mrMaxTokens req, orTopP = mrTopP req,
     orTools = map (\<lambda>t. \<lparr> otType = tlType t, otFunction = \<lparr> odName = fdName (tlFunction t),
       odDescription = fdDescription (tlFunction t), odParameters = fdParameters (tlFunction t) \<rparr> \<rparr>) (mrTools req),
     orToolChoice = mrToolChoice req, orStream = mrStream req, orStop = mrStop req,
     orPresencePenalty = mrPresencePenalty req, orFrequencyPenalty = mrFrequencyPenalty req, orUser = mrUser req \<rparr>"

definition convertResponse :: "string \<Rightarrow> OpenAIResponse \<Rightarrow> int \<Rightarrow> Completion" where
  "convertResponse requestedModel resp latencyMs = \<lparr>
     cpResponse = \<lparr> rsID = opID resp, rsObject = opObject resp, rsCreated = opCreated resp, rsModel = opModel resp,
       rsChoices = map (\<lambda>c. \<lparr> chIndex = oiIndex c,
         chMessage = \<lparr> msRole = omRole (oiMessage c), msContent = omContent (oiMessage c),
           msToolCalls = convertToolCallsBack (omToolCalls (oiMessage c)), msToolCallID = omToolCallID (oiMessage c),
           msName = omName (oiMessage c) \<rparr>,
         chFinishReason = oiFinishReason c \<rparr>) (opChoices resp),
       rsUsage = \<lparr> usPromptTokens = ouPromptTokens (opUsage resp), usCompletionTokens = ouCompletionTokens (opUsage resp),
         usTotalTokens = ouTotalTokens (opUsage resp) \<rparr>,
       rsSystemFingerprint = opSystemFingerprint resp \<rparr>,
     cpProvider = ''openai'', cpModel = opModel resp, cpLatencyMs = latencyMs \<rparr>"

subsection \<open>The JSON of a request\<close>

text \<open>What \<open>json.Marshal\<close> makes of an \<open>OpenAIRequest\<close>: a field tagged \<open>omitempty\<close> is left out when its
  value is empty, that is an empty string, list or object, a false, or a nil pointer.\<close>

definition omit_string :: "string \<Rightarrow> string \<Rightarrow> (string \<times> json) list" where
  "omit_string k s = (if s = [] then [] else [(k, JStr s)])"

definition omit_list :: "string \<Rightarrow> json list \<Rightarrow> (string \<times> json) list" where
  "omit_list k js = (if js = [] then [] else [(k, JArr js)])"

definition omit_nil :: "string \<Rightarrow> json option \<Rightarrow> (string \<times> json) list" where
  "omit_nil k v = (case v of None \<Rightarrow> [] | Some j \<Rightarrow> [(k, j)])"

definition omit_object :: "string \<Rightarrow> json option \<Rightarrow> (string \<times> json) list" where
  "omit_object k v = (if v = Some (JObj []) then [] else omit_nil k v)"

definition tool_call_json :: "OAIToolCall \<Rightarrow> json" where
  "tool_call_json c = JObj [(''id'', JStr (ocID c)), (''type'', JStr (ocType c)),
     (''function'', JObj [(''name'', JStr (ofName (ocFunction c))), (''arguments'', JStr (ofArguments (ocFunction c)))])]"

definition message_json :: "OpenAIMessage \<Rightarrow> json" where
  "message_json m = JObj ([(''role'', JStr (omRole m))] @ omit_string ''content'' (omContent m)
     @ omit_list ''tool_calls'' (map tool_call_json (omToolCalls m))
     @ omit_string ''tool_call_id'' (omToolCallID m) @ omit_string ''name'' (omName m))"

definition tool_json :: "OAITool \<Rightarrow> json" where
  "tool_json t = JObj [(''type'', JStr (otType t)), (''function'', JObj ([(''name'', JStr (odName (otFunction t)))]
     @ omit_string ''description'' (odDescription (otFunction t)) @ omit_object ''parameters'' (odParameters (otFunction t))))]"

definition request_json :: "OpenAIRequest \<Rightarrow> json" where
  "request_json r = JObj ([(''model'', JStr (orModel r)), (''messages'', JArr (map message_json (orMessages r)))]
     @ omit_nil ''temperature'' (map_option JNum (orTemperature r))
     @ omit_nil ''max_tokens'' (map_option (\<lambda>n. JNum (of_int n)) (orMaxTokens r))
     @ omit_nil ''top_p'' (map_option JNum (orTopP r))
     @ omit_list ''tools'' (map tool_json (orTools r))
     @ omit_nil ''tool_choice'' (orToolChoice r)
     @ (if orStream r then [(''stream'', JBool True)] else [])
     @ omit_list ''stop'' (map JStr (orStop r))
     @ omit_nil ''presence_penalty'' (map_option JNum (orPresencePenalty r))
     @ omit_nil ''frequency_penalty'' (map_option JNum (orFrequencyPenalty r))
     @ omit_string ''user'' (orUser r))"

subsection \<open>The client of OpenAI\<close>

record Client =
  clApiKey :: string
  clBaseURL :: string
  clTimeout :: duration
  clModels :: "string list"

definition OpenAI_NewClient :: "string \<Rightarrow> string \<Rightarrow> duration \<Rightarrow> string list \<Rightarrow> Client" where
  "OpenAI_NewClient apiKey baseURL timeout models = \<lparr> clApiKey = apiKey,
     clBaseURL = (if baseURL = [] then ''https://api.openai.com/v1'' else baseURL),
     clTimeout = (if timeout = 0 then 30 * second else timeout),
     clModels = (if models = [] then [''gpt-4'', ''gpt-4-turbo'', ''gpt-3.5-turbo''] else models) \<rparr>"

text \<open>A request as it is given to \<open>http.Client.Do\<close>, with the time-out of the client and the deadline of
  the context (None: no deadline), and the answer: a status and a body that may break off.\<close>

record http_call =
  hcMethod :: string
  hcURL :: string
  hcHeaders :: "(string \<times> string) list"
  hcBody :: string
  hcTimeout :: duration
  hcDeadline :: "time option"

record http_answer =
  haStatus :: int
  haBody :: "string result"

record http_lib =
  hlURLOk :: "string \<Rightarrow> bool"
  hlDo :: "time \<Rightarrow> http_call \<Rightarrow> http_answer result"

record oai_lib =
  olMarshal :: "json \<Rightarrow> string result"
  olUnmarshal :: "string \<Rightarrow> OpenAIResponse result"

record call_ctx =
  ccNow :: time
  ccEnd :: time
  ccDeadline :: "time option"
  ccCancel :: "time option"

text \<open>\<open>ctx.Err()\<close> at a time: a context ends when it is cancelled or its deadline passes, whichever is first.\<close>

definition ctx_err :: "call_ctx \<Rightarrow> time \<Rightarrow> go_error option" where
  "ctx_err ctx t =
     (let dead = (case ccDeadline ctx of None \<Rightarrow> False | Some d \<Rightarrow> d \<le> t) in
      case ccCancel ctx of
        None \<Rightarrow> if dead then Some CtxDeadlineExceeded else None
      | Some u \<Rightarrow> if u \<le> t \<and> (case ccDeadline ctx of None \<Rightarrow> True | Some d \<Rightarrow> u < d) then Some CtxCanceled
                  else if dead then Some CtxDeadlineExceeded else None)"

definition OpenAI_findSubstring :: "string \<Rightarrow> string \<Rightarrow> bool" where
  "OpenAI_findSubstring s sub = list_ex (\<lambda>i. take (length sub) (drop i s) = sub) [0..<Suc (length s - length sub)]"

definition OpenAI_contains :: "string \<Rightarrow> string \<Rightarrow> bool" where
  "OpenAI_contains s sub = (length s \<ge> length sub \<and> (s = sub \<or> length s > length sub \<and> OpenAI_findSubstring s sub))"

definition MapError :: "int \<Rightarrow> string \<Rightarrow> go_error" where
  "MapError statusCode errMsg =
     (if statusCode = 401 then ErrProviderAuthFailed
      else if statusCode = 429 then ErrProviderRateLimited
      else if statusCode = 404 then
        (if OpenAI_contains errMsg ''model'' then ErrProviderInvalidRequest else ErrProviderInvalidRequest)
      else if statusCode = 400 then
        (if OpenAI_contains errMsg ''context_length_exceeded'' \<or> OpenAI_contains errMsg ''maximum context length''
         then ErrProviderInvalidRequest else ErrProviderInvalidRequest)
      else if statusCode \<in> {500, 502, 503, 504} then ErrProviderUnavailable
      else ErrProviderUnavailable)"

definition OpenAI_HealthCheck :: "http_lib \<Rightarrow> call_ctx \<Rightarrow> Client \<Rightarrow> go_error option" where
  "OpenAI_HealthCheck H ctx c =
     (let url = clBaseURL c @ ''/models'' in
      if \<not> hlURLOk H url then Some ErrProviderUnavailable
      else case hlDo H (ccNow ctx) \<lparr> hcMethod = ''GET'', hcURL = url, hcHeaders = [(''Authorization'', ''Bearer '' @ clApiKey c)],
              hcBody = [], hcTimeout = clTimeout c, hcDeadline = ccDeadline ctx \<rparr> of
          Inl _ \<Rightarrow> Some ErrProviderTimeout
        | Inr a \<Rightarrow> if haStatus a = 401 then Some ErrProviderAuthFailed
                  else if haStatus a = 429 then Some ErrProviderRateLimited
                  else if haStatus a \<ge> 500 then Some ErrProviderUnavailable else None)"

definition completion_call :: "call_ctx \<Rightarrow> Client \<Rightarrow> string \<Rightarrow> http_call" where
  "completion_call ctx c body = \<lparr> hcMethod = ''POST'', hcURL = clBaseURL c @ ''/chat/completions'',
     hcHeaders = [(''Content-Type'', ''application/json''), (''Authorization'', ''Bearer '' @ clApiKey c)],
     hcBody = body, hcTimeout = clTimeout c, hcDeadline = ccDeadline ctx \<rparr>"

definition OpenAI_Complete :: "oai_lib \<Rightarrow> http_lib \<Rightarrow> call_ctx \<Rightarrow> Client \<Rightarrow> ModelRequest \<Rightarrow> Completion result" where
  "OpenAI_Complete L H ctx c req =
     (case olMarshal L (request_json (convertRequest req)) of
        Inl e \<Rightarrow> Inl (Wrapf ''marshal request'' e)
      | Inr body \<Rightarrow>
          if \<not> hlURLOk H (clBaseURL c @ ''/chat/completions'') then Inl (Wrapf ''create request'' (Errorf ''invalid URL''))
          else case hlDo H (ccNow ctx) (completion_call ctx c body) of
            Inl _ \<Rightarrow> Inl ErrProviderTimeout
          | Inr a \<Rightarrow> (case haBody a of
              Inl e \<Rightarrow> Inl (Wrapf ''read response'' e)
            | Inr respBody \<Rightarrow>
                if haStatus a \<noteq> 200 then (case olUnmarshal L respBody of
                    Inl _ \<Rightarrow> Inl (MapError (haStatus a) respBody)
                  | Inr errResp \<Rightarrow> (case opError errResp of
                      Some x \<Rightarrow> Inl (MapError (haStatus a) (oxMessage x))
                    | None \<Rightarrow> Inl (MapError (haStatus a) respBody)))
                else (case olUnmarshal L respBody of
                    Inl e \<Rightarrow> Inl (Wrapf ''unmarshal response'' e)
                  | Inr resp \<Rightarrow> Inr (convertResponse (mrModel req) resp ((ccEnd ctx - ccNow ctx) div millisecond)))))"

subsection \<open>The stubs\<close>

text \<open>\<open>anthropic.Client\<close> and \<open>ollama.Client\<close>. Each package has an error \<open>ErrNotImplemented\<close> of its own,
  which is not the one of package domain.\<close>

record stub_client =
  scApiKey :: string
  scBaseURL :: string
  scModels :: "string list"
  scEnabled :: bool

definition Anthropic_NewClient :: "string \<Rightarrow> string \<Rightarrow> string list \<Rightarrow> bool \<Rightarrow> stub_client" where
  "Anthropic_NewClient apiKey baseURL models enabled = \<lparr> scApiKey = apiKey,
     scBaseURL = (if baseURL = [] then ''https://api.anthropic.com/v1'' else baseURL),
     scModels = (if models = [] then [''claude-3-opus-20240229'', ''claude-3-sonnet-20240229'', ''claude-3-haiku-20240307''] else models),
     scEnabled = enabled \<rparr>"

definition Ollama_NewClient :: "string \<Rightarrow> string list \<Rightarrow> bool \<Rightarrow> stub_client" where
  "Ollama_NewClient baseURL models enabled = \<lparr> scApiKey = [],
     scBaseURL = (if baseURL = [] then ''http://localhost:11434'' else baseURL),
     scModels = (if models = [] then [''llama3'', ''mistral'', ''codellama''] else models),
     scEnabled = enabled \<rparr>"

definition Anthropic_HealthCheck :: "stub_client \<Rightarrow> go_error option" where
  "Anthropic_HealthCheck c = (if \<not> scEnabled c then Some ErrProviderUnavailable
     else Some (Errorf ''anthropic adapter not fully implemented (config-gated stub)''))"

definition Anthropic_Complete :: "stub_client \<Rightarrow> ModelRequest \<Rightarrow> Completion result" where
  "Anthropic_Complete c req = (if \<not> scEnabled c then Inl ErrProviderUnavailable
     else Inl (Errorf ''anthropic adapter not fully implemented (config-gated stub)''))"

definition Ollama_HealthCheck :: "stub_client \<Rightarrow> go_error option" where
  "Ollama_HealthCheck c = (if \<not> scEnabled c then Some ErrProviderUnavailable
     else Some (Errorf ''ollama adapter not fully implemented (config-gated stub)''))"

definition Ollama_Complete :: "stub_client \<Rightarrow> ModelRequest \<Rightarrow> Completion result" where
  "Ollama_Complete c req = (if \<not> scEnabled c then Inl ErrProviderUnavailable
     else Inl (Errorf ''ollama adapter not fully implemented (config-gated stub)''))"

subsection \<open>The mock\<close>

record MockProvider =
  mpName :: string
  mpModels :: "string list"
  mpEnabled :: bool
  mpFixedLatency :: duration
  mpLatencyJitter :: duration
  mpErrorSequence :: "go_error list"
  mpConfigurableErr :: "(go_error \<times> float64) option"
  mpFailNext :: bool
  mpCallCount :: int
  mpCustomResponse :: "Completion option"
  mpResponseFunc :: "(ModelRequest \<Rightarrow> Completion result) option"

datatype MockOption = WithName string | WithModels "string list" | WithEnabled bool | WithFixedLatency duration
  | WithLatencyJitter duration | WithErrorSequence "go_error list" | WithConfigurableError go_error float64
  | WithFailNext go_error | WithCustomResponse Completion | WithResponseFunc "ModelRequest \<Rightarrow> Completion result"

primrec apply_option :: "MockOption \<Rightarrow> MockProvider \<Rightarrow> MockProvider" where
  "apply_option (WithName n) p = p\<lparr>mpName := n\<rparr>"
| "apply_option (WithModels ms) p = p\<lparr>mpModels := ms\<rparr>"
| "apply_option (WithEnabled b) p = p\<lparr>mpEnabled := b\<rparr>"
| "apply_option (WithFixedLatency d) p = p\<lparr>mpFixedLatency := d\<rparr>"
| "apply_option (WithLatencyJitter d) p = p\<lparr>mpLatencyJitter := d\<rparr>"
| "apply_option (WithErrorSequence es) p = p\<lparr>mpErrorSequence := es\<rparr>"
| "apply_option (WithConfigurableError e q) p = p\<lparr>mpConfigurableErr := Some (e, q)\<rparr>"
| "apply_option (WithFailNext e) p = p\<lparr>mpFailNext := True, mpErrorSequence := mpErrorSequence p @ [e]\<rparr>"
| "apply_option (WithCustomResponse c) p = p\<lparr>mpCustomResponse := Some c\<rparr>"
| "apply_option (WithResponseFunc f) p = p\<lparr>mpResponseFunc := Some f\<rparr>"

definition NewMockProvider :: "MockOption list \<Rightarrow> MockProvider" where
  "NewMockProvider opts = fold apply_option opts \<lparr> mpName = ''mock'', mpModels = [''mock-model-1'', ''mock-model-2''],
     mpEnabled = True, mpFixedLatency = 0, mpLatencyJitter = 0, mpErrorSequence = [], mpConfigurableErr = None,
     mpFailNext = False, mpCallCount = 0, mpCustomResponse = None, mpResponseFunc = None \<rparr>"

definition Mock_HealthCheck :: "MockProvider \<Rightarrow> go_error option" where
  "Mock_HealthCheck p = (if \<not> mpEnabled p then Some ErrProviderUnavailable else None)"

text \<open>The latency of a call; the remainder by a jitter of less than a millisecond panics.\<close>

definition mock_latency :: "MockProvider \<Rightarrow> duration option" where
  "mock_latency p =
     (if mpLatencyJitter p > 0 then
        (if mpLatencyJitter p div millisecond = 0 then None
         else Some (mpFixedLatency p + mpCallCount p mod (mpLatencyJitter p div millisecond) * millisecond))
      else Some (mpFixedLatency p))"

definition mock_completion :: "(time \<Rightarrow> string) \<Rightarrow> call_ctx \<Rightarrow> MockProvider \<Rightarrow> ModelRequest \<Rightarrow> Completion" where
  "mock_completion stamp ctx p req = \<lparr>
     cpResponse = \<lparr> rsID = ''mock-completion-'' @ stamp (ccEnd ctx), rsObject = ''chat.completion'', rsCreated = ccEnd ctx div second,
       rsModel = mrModel req,
       rsChoices = [\<lparr> chIndex = 0, chMessage = \<lparr> msRole = ''assistant'', msContent = ''This is a mock response from '' @ mpName p,
         msToolCalls = [], msToolCallID = [], msName = [] \<rparr>, chFinishReason = ''stop'' \<rparr>],
       rsUsage = \<lparr> usPromptTokens = 10, usCompletionTokens = 20, usTotalTokens = 30 \<rparr>, rsSystemFingerprint = [] \<rparr>,
     cpProvider = mpName p, cpModel = mrModel req, cpLatencyMs = mpFixedLatency p div millisecond \<rparr>"

definition mock_response :: "(time \<Rightarrow> string) \<Rightarrow> call_ctx \<Rightarrow> MockProvider \<Rightarrow> ModelRequest \<Rightarrow> Completion result" where
  "mock_response stamp ctx p req = (case mpResponseFunc p of
     Some f \<Rightarrow> f req
   | None \<Rightarrow> (case mpCustomResponse p of
       Some c \<Rightarrow> Inr (c\<lparr>cpModel := mrModel req, cpResponse := (cpResponse c)\<lparr>rsModel := mrModel req\<rparr>\<rparr>)
     | None \<Rightarrow> Inr (mock_completion stamp ctx p req)))"

text \<open>\<open>Complete\<close> after the probabilistic error: the sequence of errors, the latency, the response.\<close>

definition mock_rest ::
  "(time \<Rightarrow> string) \<Rightarrow> call_ctx \<Rightarrow> ModelRequest \<Rightarrow> MockProvider \<Rightarrow> (MockProvider \<times> Completion result) option" where
  "mock_rest stamp ctx req p = (case mpErrorSequence p of
     e # es \<Rightarrow> Some (p\<lparr>mpErrorSequence := es\<rparr>, Inl e)
   | [] \<Rightarrow>
       if mpFixedLatency p > 0 \<or> mpLatencyJitter p > 0 then (case mock_latency p of
           None \<Rightarrow> None
         | Some d \<Rightarrow> (case ctx_err ctx (ccNow ctx + d) of
             Some e \<Rightarrow> Some (p, Inl e)
           | None \<Rightarrow> Some (p, mock_response stamp ctx p req)))
       else Some (p, mock_response stamp ctx p req))"

definition Mock_Complete ::
  "(time \<Rightarrow> string) \<Rightarrow> call_ctx \<Rightarrow> MockProvider \<Rightarrow> ModelRequest \<Rightarrow> (MockProvider \<times> Completion result) option" where
  "Mock_Complete stamp ctx p0 req =
     (let p = p0\<lparr>mpCallCount := mpCallCount p0 + 1\<rparr> in
      if mpFailNext p then (case mpErrorSequence p of
          e # es \<Rightarrow> Some (p\<lparr>mpFailNext := False, mpErrorSequence := es\<rparr>, Inl e)
        | [] \<Rightarrow> Some (p\<lparr>mpFailNext := False\<rparr>, Inl ErrProviderUnavailable))
      else case mpConfigurableErr p of
        Some (e, q) \<Rightarrow> if of_int (mpCallCount p mod 100) / 100 < q then Some (p, Inl e) else mock_rest stamp ctx req p
      | None \<Rightarrow> mock_rest stamp ctx req p)"

definition Mock_Reset :: "MockProvider \<Rightarrow> MockProvider" where
  "Mock_Reset p = p\<lparr>mpErrorSequence := [], mpConfigurableErr := None, mpFailNext := False, mpCallCount := 0,
     mpCustomResponse := None, mpResponseFunc := None\<rparr>"

definition Mock_SetEnabled :: "bool \<Rightarrow> MockProvider \<Rightarrow> MockProvider" where
  "Mock_SetEnabled enabled p = p\<lparr>mpEnabled := enabled\<rparr>"

definition Mock_SetFixedLatency :: "duration \<Rightarrow> MockProvider \<Rightarrow> MockProvider" where
  "Mock_SetFixedLatency latency p = p\<lparr>mpFixedLatency := latency\<rparr>"

definition Mock_AddErrorToSequence :: "go_error \<Rightarrow> MockProvider \<Rightarrow> MockProvider" where
  "Mock_AddErrorToSequence err p = p\<lparr>mpErrorSequence := mpErrorSequence p @ [err]\<rparr>"

subsection \<open>Providers from the configuration\<close>

datatype provider = POpenAI Client | PAnthropic stub_client | POllama stub_client | PMock MockProvider

definition newOpenAIProvider :: "ProviderConfig \<Rightarrow> provider" where
  "newOpenAIProvider config =
     POpenAI (OpenAI_NewClient (pcAPIKey config) (if pcBaseURL config = [] then ''https://api.openai.com/v1'' else pcBaseURL config)
       (if pcTimeout config \<le> 0 then 30 * second else pcTimeout config) (pcModels config))"

definition newAnthropicProvider :: "ProviderConfig \<Rightarrow> provider" where
  "newAnthropicProvider config =
     PAnthropic (Anthropic_NewClient (pcAPIKey config) (if pcBaseURL config = [] then ''https://api.anthropic.com/v1'' else pcBaseURL config)
       (pcModels config) (pcEnabled config))"

definition newOllamaProvider :: "ProviderConfig \<Rightarrow> provider" where
  "newOllamaProvider config =
     POllama (Ollama_NewClient (if pcBaseURL config = [] then ''http://localhost:11434'' else pcBaseURL config) (pcModels config) (pcEnabled config))"

definition newMockProvider :: "ProviderConfig \<Rightarrow> provider" where
  "newMockProvider config =
     (let p = NewMockProvider [WithName (pcName config), WithModels (pcModels config), WithEnabled (pcEnabled config)]
      in PMock (if pcTimeout config > 0 then Mock_SetFixedLatency (pcTimeout config) p else p))"

definition create_provider :: "ProviderConfig \<Rightarrow> provider result" where
  "create_provider config =
     (if pcType config = ''openai'' then Inr (newOpenAIProvider config)
      else if pcType config = ''anthropic'' then Inr (newAnthropicProvider config)
      else if pcType config = ''ollama'' then Inr (newOllamaProvider config)
      else if pcType config = ''mock'' then Inr (newMockProvider config)
      else Inl (Errorf (''unknown provider type: '' @ pcType config)))"

text \<open>The registry is built with the providers this makes: it fails for the same configurations.\<close>

lemma create_provider_refines: "map_sum id (\<lambda>_. ()) (create_provider config) = createProviderFromConfig config"
  by (simp add: create_provider_def createProviderFromConfig_def)

record prov_lib =
  plOai :: oai_lib
  plHttp :: http_lib
  plStamp :: "time \<Rightarrow> string"

primrec provider_Complete :: "prov_lib \<Rightarrow> call_ctx \<Rightarrow> provider \<Rightarrow> ModelRequest \<Rightarrow> (provider \<times> Completion result) option" where
  "provider_Complete L ctx (POpenAI c) req = Some (POpenAI c, OpenAI_Complete (plOai L) (plHttp L) ctx c req)"
| "provider_Complete L ctx (PAnthropic c) req = Some (PAnthropic c, Anthropic_Complete c req)"
| "provider_Complete L ctx (POllama c) req = Some (POllama c, Ollama_Complete c req)"
| "provider_Complete L ctx (PMock p) req = map_option (map_prod PMock id) (Mock_Complete (plStamp L) ctx p req)"

text \<open>The context of one attempt: \<open>context.WithTimeout(ctx, provider.Config.Timeout)\<close>.\<close>

definition attempt_ctx :: "attempt_env \<Rightarrow> ProviderConfig \<Rightarrow> int \<Rightarrow> call_ctx" where
  "attempt_ctx env config n = \<lparr> ccNow = aeAskAt env n, ccEnd = aeEndAt env n,
     ccDeadline = Some (aeAskAt env n + pcTimeout config), ccCancel = None \<rparr>"

text \<open>The environment of a request whose attempts go to the providers of the registry.\<close>

definition provider_attempts :: "prov_lib \<Rightarrow> ProviderRegistry \<Rightarrow> attempt_env \<Rightarrow> attempt_env" where
  "provider_attempts L r env = env\<lparr>aeComplete := (\<lambda>n name req. case prProviders r name of
     None \<Rightarrow> Inl (Errorf [])
   | Some p \<Rightarrow> (case create_provider (rgConfig p) of
       Inl e \<Rightarrow> Inl e
     | Inr q \<Rightarrow> (case provider_Complete L (attempt_ctx env (rgConfig p) n) q req of
         None \<Rightarrow> Inl (Errorf []) | Some (_, answer) \<Rightarrow> answer)))\<rparr>"

subsection \<open>What the service reads\<close>

text \<open>The fields of the published request format, a missing field being its empty value.\<close>

fun json_get :: "json \<Rightarrow> string \<Rightarrow> json option" where
  "json_get (JObj kvs) k = map_of kvs k"
| "json_get _ k = None"

definition get_string :: "json \<Rightarrow> string \<Rightarrow> string" where
  "get_string j k = (case json_get j k of Some (JStr s) \<Rightarrow> s | _ \<Rightarrow> [])"

definition get_list :: "json \<Rightarrow> string \<Rightarrow> json list" where
  "get_list j k = (case json_get j k of Some (JArr js) \<Rightarrow> js | _ \<Rightarrow> [])"

definition get_num :: "json \<Rightarrow> string \<Rightarrow> float64 option" where
  "get_num j k = (case json_get j k of Some (JNum x) \<Rightarrow> Some x | _ \<Rightarrow> None)"

definition read_tool_call :: "json \<Rightarrow> ToolCall" where
  "read_tool_call j = (case json_get j ''function'' of
     Some f \<Rightarrow> \<lparr> tcID = get_string j ''id'', tcType = get_string j ''type'',
       tcFunction = \<lparr> fnName = get_string f ''name'', fnArguments = get_string f ''arguments'' \<rparr> \<rparr>
   | None \<Rightarrow> \<lparr> tcID = get_string j ''id'', tcType = get_string j ''type'', tcFunction = \<lparr> fnName = [], fnArguments = [] \<rparr> \<rparr>)"

definition read_message :: "json \<Rightarrow> Message" where
  "read_message j = \<lparr> msRole = get_string j ''role'', msContent = get_string j ''content'',
     msToolCalls = map read_tool_call (get_list j ''tool_calls''), msToolCallID = get_string j ''tool_call_id'', msName = get_string j ''name'' \<rparr>"

definition read_tool :: "json \<Rightarrow> Tool" where
  "read_tool j = (let f = (case json_get j ''function'' of Some f \<Rightarrow> f | None \<Rightarrow> JNull) in
     \<lparr> tlType = get_string j ''type'', tlFunction = \<lparr> fdName = get_string f ''name'', fdDescription = get_string f ''description'',
       fdParameters = json_get f ''parameters'' \<rparr> \<rparr>)"

definition read_request :: "json \<Rightarrow> ModelRequest" where
  "read_request j = \<lparr> mrModel = get_string j ''model'', mrMessages = map read_message (get_list j ''messages''),
     mrTemperature = get_num j ''temperature'', mrMaxTokens = map_option floor (get_num j ''max_tokens''), mrTopP = get_num j ''top_p'',
     mrTools = map read_tool (get_list j ''tools''), mrToolChoice = json_get j ''tool_choice'',
     mrStream = (json_get j ''stream'' = Some (JBool True)), mrStop = map (\<lambda>x. case x of JStr s \<Rightarrow> s | _ \<Rightarrow> []) (get_list j ''stop''),
     mrPresencePenalty = get_num j ''presence_penalty'', mrFrequencyPenalty = get_num j ''frequency_penalty'',
     mrUser = get_string j ''user'' \<rparr>"

definition no_empty_parameters :: "Tool \<Rightarrow> Tool" where
  "no_empty_parameters t = t\<lparr>tlFunction := (tlFunction t)\<lparr>fdParameters :=
     (if fdParameters (tlFunction t) = Some (JObj []) then None else fdParameters (tlFunction t))\<rparr>\<rparr>"

lemma map_of_omit [simp]:
  "map_of (omit_string k s @ kvs) k' = (if k = k' \<and> s \<noteq> [] then Some (JStr s) else map_of kvs k')"
  "map_of (omit_list k js @ kvs) k' = (if k = k' \<and> js \<noteq> [] then Some (JArr js) else map_of kvs k')"
  "map_of (omit_nil k v @ kvs) k' = (if k = k' \<and> v \<noteq> None then v else map_of kvs k')"
  "map_of (omit_string k s) k' = (if k = k' \<and> s \<noteq> [] then Some (JStr s) else None)"
  "map_of (omit_object k v) k' = (if k = k' \<and> v \<noteq> Some (JObj []) then v else None)"
  by (auto simp: omit_string_def omit_list_def omit_object_def omit_nil_def split: option.splits)

lemma read_tool_call_json: "read_tool_call (tool_call_json c) = \<lparr> tcID = ocID c, tcType = ocType c,
    tcFunction = \<lparr> fnName = ofName (ocFunction c), fnArguments = ofArguments (ocFunction c) \<rparr> \<rparr>"
  by (simp add: read_tool_call_def tool_call_json_def get_string_def)

lemma read_message_json: "read_message (message_json m) = \<lparr> msRole = omRole m, msContent = omContent m,
    msToolCalls = convertToolCallsBack (omToolCalls m), msToolCallID = omToolCallID m, msName = omName m \<rparr>"
  by (simp add: read_message_def message_json_def get_string_def get_list_def read_tool_call_json convertToolCallsBack_def comp_def del: map_of_append)

lemma read_tool_json: "read_tool (tool_json t) = \<lparr> tlType = otType t, tlFunction = \<lparr> fdName = odName (otFunction t),
    fdDescription = odDescription (otFunction t),
    fdParameters = (if odParameters (otFunction t) = Some (JObj []) then None else odParameters (otFunction t)) \<rparr> \<rparr>"
  by (simp add: read_tool_def tool_json_def get_string_def Let_def del: map_of_append)

lemma convertToolCalls_inverse [simp]: "convertToolCallsBack (convertToolCalls cs) = cs"
  by (simp add: convertToolCalls_def convertToolCallsBack_def comp_def map_idI)

lemma convert_messages_inverse:
  "map (\<lambda>m. read_message (message_json \<lparr> omRole = msRole m, omContent = msContent m, omToolCalls = convertToolCalls (msToolCalls m),
     omToolCallID = msToolCallID m, omName = msName m \<rparr>)) ms = ms"
  by (simp add: read_message_json map_idI)

lemma get_request_json:
  "get_string (request_json r) ''model'' = orModel r"
  "get_list (request_json r) ''messages'' = map message_json (orMessages r)"
  "get_num (request_json r) ''temperature'' = orTemperature r"
  "map_option floor (get_num (request_json r) ''max_tokens'') = orMaxTokens r"
  "get_num (request_json r) ''top_p'' = orTopP r"
  "get_list (request_json r) ''tools'' = map tool_json (orTools r)"
  "json_get (request_json r) ''tool_choice'' = orToolChoice r"
  "(json_get (request_json r) ''stream'' = Some (JBool True)) = orStream r"
  "get_list (request_json r) ''stop'' = map JStr (orStop r)"
  "get_num (request_json r) ''presence_penalty'' = orPresencePenalty r"
  "get_num (request_json r) ''frequency_penalty'' = orFrequencyPenalty r"
  "get_string (request_json r) ''user'' = orUser r"
  by (simp_all add: request_json_def get_string_def get_list_def get_num_def option.map_comp comp_def split: option.split del: map_of_append)

text \<open>C33: The request reaches the service as it was made. The JSON the client of OpenAI sends, in which
  empty fields are left out, reads back as the very request of the chat use case: model, messages with
  their tool calls, sampling parameters, tools and user. The one thing that is lost is a tool's empty
  parameter object, which is not told apart from a missing one.\<close>

theorem request_wire_roundtrip:
  "read_request (request_json (convertRequest req)) = req\<lparr>mrTools := map no_empty_parameters (mrTools req)\<rparr>"
proof -
  have "map read_tool (map tool_json (orTools (convertRequest req))) = map no_empty_parameters (mrTools req)"
    by (simp add: convertRequest_def read_tool_json no_empty_parameters_def comp_def)
  moreover have "map read_message (map message_json (orMessages (convertRequest req))) = mrMessages req"
    by (simp add: convertRequest_def comp_def convert_messages_inverse)
  ultimately show ?thesis by (simp add: read_request_def get_request_json convertRequest_def comp_def)
qed

subsection \<open>Answers come from the service\<close>

text \<open>The documented behaviour of \<open>http.Client.Do\<close>: a request whose context is over is not answered.\<close>

definition deadlines_kept :: "http_lib \<Rightarrow> bool" where
  "deadlines_kept H = (\<forall>now call d. hcDeadline call = Some d \<and> d \<le> now \<longrightarrow> (\<exists>e. hlDo H now call = Inl e))"

lemma OpenAI_Complete_Inr:
  assumes "OpenAI_Complete L H ctx c req = Inr x"
  obtains body a t resp where "olMarshal L (request_json (convertRequest req)) = Inr body"
    "hlDo H (ccNow ctx) (completion_call ctx c body) = Inr a" "haStatus a = 200" "haBody a = Inr t"
    "olUnmarshal L t = Inr resp" "x = convertResponse (mrModel req) resp ((ccEnd ctx - ccNow ctx) div millisecond)"
  using assms by (auto simp: OpenAI_Complete_def split: sum.splits if_splits option.splits)

lemma stubs_never_answer [simp]: "Anthropic_Complete c req \<noteq> Inr x" "Ollama_Complete c req \<noteq> Inr x"
  by (simp_all add: Anthropic_Complete_def Ollama_Complete_def)

lemma config_mock_answers:
  "map_option snd (Mock_Complete stamp (attempt_ctx env config n)
     (let p = NewMockProvider [WithName (pcName config), WithModels (pcModels config), WithEnabled (pcEnabled config)]
      in if pcTimeout config > 0 then Mock_SetFixedLatency (pcTimeout config) p else p) req) =
   Some (if pcTimeout config > 0 then Inl CtxDeadlineExceeded
         else Inr (mock_completion stamp (attempt_ctx env config n)
           (NewMockProvider [WithName (pcName config), WithModels (pcModels config), WithEnabled (pcEnabled config)]) req))"
  by (simp add: Mock_Complete_def mock_rest_def mock_response_def mock_completion_def mock_latency_def NewMockProvider_def
      Mock_SetFixedLatency_def ctx_err_def attempt_ctx_def)

lemma provider_attempts_Inr:
  assumes "aeComplete (provider_attempts L r env) n name req = Inr x" and "prProviders r name = Some p"
    and "deadlines_kept (plHttp L)"
  shows "if pcType (rgConfig p) = ''openai''
    then 0 < pcTimeout (rgConfig p) \<and> (\<exists>c. newOpenAIProvider (rgConfig p) = POpenAI c
      \<and> OpenAI_Complete (plOai L) (plHttp L) (attempt_ctx env (rgConfig p) n) c req = Inr x)
    else pcType (rgConfig p) = ''mock'' \<and> pcTimeout (rgConfig p) \<le> 0"
proof (cases "pcType (rgConfig p) = ''openai''")
  case True
  let ?ctx = "attempt_ctx env (rgConfig p) n"
  obtain c where c: "newOpenAIProvider (rgConfig p) = POpenAI c" by (simp add: newOpenAIProvider_def)
  then have o: "OpenAI_Complete (plOai L) (plHttp L) ?ctx c req = Inr x"
    using assms(1,2) True by (simp add: provider_attempts_def create_provider_def)
  from OpenAI_Complete_Inr[OF o] obtain body a
    where "hlDo (plHttp L) (ccNow ?ctx) (completion_call ?ctx c body) = Inr a" by metis
  then have "\<not> aeAskAt env n + pcTimeout (rgConfig p) \<le> ccNow ?ctx"
    using assms(3) unfolding deadlines_kept_def
    by (metis Inr_Inl_False attempt_ctx_def call_ctx.select_convs(3) completion_call_def http_call.select_convs(6))
  then have "0 < pcTimeout (rgConfig p)" by (simp add: attempt_ctx_def)
  with True c o show ?thesis by simp
next
  case False
  then show ?thesis
    using assms(1,2) config_mock_answers[of "plStamp L" env "rgConfig p" n req]
    by (auto simp: provider_attempts_def create_provider_def newAnthropicProvider_def newOllamaProvider_def
        newMockProvider_def Let_def split: if_splits option.splits prod.splits)
qed


text \<open>A service that answers every request with the same choice, unless it is too late.\<close>

definition demo_response :: OpenAIResponse where
  "demo_response = \<lparr> opID = ''r1'', opObject = [], opCreated = 0, opModel = ''m1'', opChoices = [\<lparr> oiIndex = 0,
     oiMessage = \<lparr> omRole = ''assistant'', omContent = ''hello'', omToolCalls = [], omToolCallID = [], omName = [] \<rparr>,
     oiFinishReason = ''stop'' \<rparr>], opUsage = \<lparr> ouPromptTokens = 3, ouCompletionTokens = 1, ouTotalTokens = 4 \<rparr>,
     opSystemFingerprint = [], opError = None \<rparr>"

definition demo_model_service :: "int \<Rightarrow> prov_lib" where
  "demo_model_service status = \<lparr> plOai = \<lparr> olMarshal = (\<lambda>j. Inr ''request''), olUnmarshal = (\<lambda>t. Inr demo_response) \<rparr>,
     plHttp = \<lparr> hlURLOk = (\<lambda>u. True), hlDo = (\<lambda>now call. case hcDeadline call of
       Some d \<Rightarrow> if d \<le> now then Inl CtxDeadlineExceeded else Inr \<lparr> haStatus = status, haBody = Inr ''response'' \<rparr>
     | None \<Rightarrow> Inr \<lparr> haStatus = status, haBody = Inr ''response'' \<rparr>) \<rparr>, plStamp = (\<lambda>t. []) \<rparr>"

definition demo_oai_router :: RouterConfig where
  "demo_oai_router = demo_router\<lparr>rcProviders := map (\<lambda>pc. pc\<lparr>pcType := ''openai''\<rparr>) (rcProviders demo_router)\<rparr>"

definition demo_oai_registry :: ProviderRegistry where
  "demo_oai_registry = (case BuildRegistryFromConfig demo_oai_router of Some (Inr r) \<Rightarrow> r | _ \<Rightarrow> NewProviderRegistry)"

lemma demo_oai_registry_ok: "registry_ok demo_oai_registry"
proof -
  have "case BuildRegistryFromConfig demo_oai_router of Some (Inr r) \<Rightarrow> True | _ \<Rightarrow> False" by code_simp
  moreover have "list_all (\<lambda>pc. createProviderFromConfig pc = Inr ()) (rcProviders demo_oai_router)" by code_simp
  ultimately show ?thesis using registry_built_in_order[of demo_oai_router]
    by (auto simp: demo_oai_registry_def list_all_iff split: option.splits sum.splits)
qed

lemma demo_model_service_deadlines: "deadlines_kept (plHttp (demo_model_service status))"
  by (auto simp: deadlines_kept_def demo_model_service_def)


subsection \<open>Failures\<close>

text \<open>Errors of the JSON and HTTP libraries are none of the errors of package model.\<close>

definition foreign :: "go_error \<Rightarrow> bool" where
  "foreign e = (\<not> isTransientError e)"

definition library_errors :: "oai_lib \<Rightarrow> http_lib \<Rightarrow> bool" where
  "library_errors L H = ((\<forall>j e. olMarshal L j = Inl e \<longrightarrow> foreign e) \<and> (\<forall>t e. olUnmarshal L t = Inl e \<longrightarrow> foreign e)
     \<and> (\<forall>now call a e. hlDo H now call = Inr a \<and> haBody a = Inl e \<longrightarrow> foreign e))"

text \<open>The failures that are worth another attempt: no answer, or one with a status that does not blame
  the request.\<close>

definition transient_failure :: "oai_lib \<Rightarrow> http_lib \<Rightarrow> call_ctx \<Rightarrow> Client \<Rightarrow> ModelRequest \<Rightarrow> bool" where
  "transient_failure L H ctx c req = (case olMarshal L (request_json (convertRequest req)) of
     Inl _ \<Rightarrow> False
   | Inr body \<Rightarrow> hlURLOk H (clBaseURL c @ ''/chat/completions'') \<and> (case hlDo H (ccNow ctx) (completion_call ctx c body) of
       Inl _ \<Rightarrow> True
     | Inr a \<Rightarrow> \<not> isl (haBody a) \<and> haStatus a \<notin> {200, 400, 401, 404}))"

lemma isTransientError_simps [simp]:
  "isTransientError (Wrapf s e) = isTransientError e" "\<not> isTransientError (Errorf s)"
  "isTransientError ErrProviderTimeout"
  by (simp_all add: isTransientError_def is_sentinel_def)

lemma isTransientError_MapError: "isTransientError (MapError st m) = (st \<notin> {400, 401, 404})"
  by (simp add: MapError_def isTransientError_def is_sentinel_def)

lemma failure_class:
  assumes "library_errors L H" and "OpenAI_Complete L H ctx c req = Inl err"
  shows "isTransientError err = transient_failure L H ctx c req"
  using assms
  by (auto simp: OpenAI_Complete_def transient_failure_def library_errors_def foreign_def isTransientError_MapError
      split: sum.splits if_splits option.splits)



subsection \<open>The mock replays its errors\<close>

fun mock_calls :: "(time \<Rightarrow> string) \<Rightarrow> (call_ctx \<times> ModelRequest) list \<Rightarrow> MockProvider \<Rightarrow> Completion result list option" where
  "mock_calls stamp [] p = Some []"
| "mock_calls stamp ((ctx, req) # calls) p = (case Mock_Complete stamp ctx p req of
     None \<Rightarrow> None
   | Some (p', answer) \<Rightarrow> map_option (Cons answer) (mock_calls stamp calls p'))"

lemma mock_replays_errors:
  assumes "\<not> mpFailNext p" and "mpConfigurableErr p = None" and "length calls \<le> length (mpErrorSequence p)"
  shows "mock_calls stamp calls p = Some (map Inl (take (length calls) (mpErrorSequence p)))"
  using assms
proof (induction calls arbitrary: p)
  case (Cons call calls)
  obtain ctx req where c: "call = (ctx, req)" by fastforce
  obtain e es where es: "mpErrorSequence p = e # es" using Cons.prems(3) by (cases "mpErrorSequence p") auto
  let ?p = "p\<lparr>mpCallCount := mpCallCount p + 1, mpErrorSequence := es\<rparr>"
  have "Mock_Complete stamp ctx p req = Some (?p, Inl e)"
    using Cons.prems es by (simp add: Mock_Complete_def mock_rest_def)
  moreover have "mock_calls stamp calls ?p = Some (map Inl (take (length calls) es))"
    using Cons.IH[of ?p] Cons.prems es by simp
  ultimately show ?case by (simp add: c es)
qed simp

lemma mock_jitter_may_panic:
  assumes "mpErrorSequence p = []" and "\<not> mpFailNext p" and "mpConfigurableErr p = None"
    and "0 < mpLatencyJitter p" and "mpLatencyJitter p < millisecond"
  shows "Mock_Complete stamp ctx p req = None"
  using assms by (simp add: Mock_Complete_def mock_rest_def mock_latency_def)

end
