(* ===== verification/Classifiers.thy ===== *)
theory Classifiers
  imports Guardrails Providers
begin

text \<open>
  \<open>src/internal/adapter/guardrail/external\<close>: the classifiers outside the gateway that judge texts for
  the composite guardrail (OpenAI moderation, Anthropic, Llama Guard, regular expressions), the HTTP
  client with retries and a circuit breaker they share, and the factory that makes one from the
  configuration. The JSON texts, the regular expressions and the Unicode case tables are parameters
  (\<open>class_lib\<close>); so is what each attempt of the HTTP client meets (\<open>ext_env\<close>).
\<close>

subsection \<open>The circuit breaker\<close>

datatype ExtBreakerState = CircuitBreakerClosed | CircuitBreakerOpen | CircuitBreakerHalfOpen

record ExtBreakerConfig =
  ecFailureThreshold :: int
  ecWindow :: duration
  ecResetTimeout :: duration

record ExtBreaker =
  ebState :: ExtBreakerState
  ebFailureCount :: int
  ebLastFailure :: time
  ebConfig :: ExtBreakerConfig
  ebSuccesses :: int

definition Ext_NewCircuitBreaker :: "ExtBreakerConfig \<Rightarrow> ExtBreaker" where
  "Ext_NewCircuitBreaker config = \<lparr> ebState = CircuitBreakerClosed, ebFailureCount = 0, ebLastFailure = 0,
     ebConfig = config, ebSuccesses = 0 \<rparr>"

definition Ext_allowRequest :: "time \<Rightarrow> ExtBreaker \<Rightarrow> ExtBreaker \<times> bool" where
  "Ext_allowRequest now cb = (case ebState cb of
     CircuitBreakerClosed \<Rightarrow> (cb, True)
   | CircuitBreakerOpen \<Rightarrow>
       if now - ebLastFailure cb \<ge> ecResetTimeout (ebConfig cb)
       then (cb\<lparr>ebState := CircuitBreakerHalfOpen, ebSuccesses := 0\<rparr>, True) else (cb, False)
   | CircuitBreakerHalfOpen \<Rightarrow> (cb, True))"

definition Ext_recordResult :: "time \<Rightarrow> go_error option \<Rightarrow> ExtBreaker \<Rightarrow> ExtBreaker" where
  "Ext_recordResult now err cb =
     (if err \<noteq> None then
        (let cb' = cb\<lparr>ebFailureCount := ebFailureCount cb + 1, ebLastFailure := now\<rparr> in
         if ebState cb' = CircuitBreakerHalfOpen then cb'\<lparr>ebState := CircuitBreakerOpen\<rparr>
         else if ebFailureCount cb' \<ge> ecFailureThreshold (ebConfig cb') then cb'\<lparr>ebState := CircuitBreakerOpen\<rparr>
         else cb')
      else if ebState cb = CircuitBreakerHalfOpen then
        (let cb' = cb\<lparr>ebSuccesses := ebSuccesses cb + 1\<rparr> in
         if ebSuccesses cb' \<ge> 2 then cb'\<lparr>ebState := CircuitBreakerClosed, ebFailureCount := 0\<rparr> else cb')
      else if ebState cb = CircuitBreakerClosed then cb\<lparr>ebFailureCount := 0\<rparr>
      else cb)"

definition Ext_ErrCircuitBreakerOpen :: go_error where
  "Ext_ErrCircuitBreakerOpen = Errorf ''circuit breaker open''"

definition Ext_ErrMaxRetriesExceeded :: go_error where
  "Ext_ErrMaxRetriesExceeded = Errorf ''max retries exceeded''"

text \<open>\<open>Execute\<close>, with the error the given function returns.\<close>

definition Ext_Execute :: "time \<Rightarrow> go_error option \<Rightarrow> ExtBreaker \<Rightarrow> ExtBreaker \<times> go_error option" where
  "Ext_Execute now fn cb = (case Ext_allowRequest now cb of
     (cb', False) \<Rightarrow> (cb', Some Ext_ErrCircuitBreakerOpen)
   | (cb', True) \<Rightarrow> (Ext_recordResult now fn cb', fn))"

subsection \<open>The HTTP client\<close>

record RetryConfig =
  rtMaxAttempts :: int
  rtBackoff :: duration

record GuardrailHTTPClient =
  ghTimeout :: duration
  ghRetry :: RetryConfig
  ghBreaker :: ExtBreaker

definition DefaultRetryConfig :: RetryConfig where
  "DefaultRetryConfig = \<lparr> rtMaxAttempts = 2, rtBackoff = 500 * millisecond \<rparr>"

definition Ext_DefaultCircuitBreakerConfig :: ExtBreakerConfig where
  "Ext_DefaultCircuitBreakerConfig = \<lparr> ecFailureThreshold = 5, ecWindow = 30 * second, ecResetTimeout = 60 * second \<rparr>"

definition NewGuardrailHTTPClient :: "duration \<Rightarrow> RetryConfig \<Rightarrow> ExtBreakerConfig \<Rightarrow> GuardrailHTTPClient" where
  "NewGuardrailHTTPClient timeout retry breaker =
     \<lparr> ghTimeout = timeout, ghRetry = retry, ghBreaker = Ext_NewCircuitBreaker breaker \<rparr>"

text \<open>What the n-th attempt of a call meets: the time, the answer to the request given whether the
  reader of its body has been read to the end already, with whether it has been afterwards, and the
  error of the context if it ends during the backoff.\<close>

record ext_env =
  xvNow :: "int \<Rightarrow> time"
  xvDo :: "int \<Rightarrow> http_call \<Rightarrow> bool \<Rightarrow> http_answer result \<times> bool"
  xvCancelled :: "int \<Rightarrow> go_error option"
  xvDeadline :: "time option"
  xvLatencyMs :: int

text \<open>The loop of \<open>Do\<close> over the attempts that are left. The function given to the breaker does nothing.\<close>

fun do_loop :: "ext_env \<Rightarrow> RetryConfig \<Rightarrow> http_call \<Rightarrow> int list \<Rightarrow> bool \<Rightarrow> ExtBreaker \<Rightarrow> ExtBreaker \<times> http_answer result" where
  "do_loop env rc call [] consumed cb = (cb, Inl Ext_ErrMaxRetriesExceeded)"
| "do_loop env rc call (attempt # rest) consumed cb =
     (case Ext_Execute (xvNow env attempt) None cb of
        (cb', Some err) \<Rightarrow> (cb', Inl err)
      | (cb', None) \<Rightarrow> (case xvDo env attempt call consumed of
          (Inr a, consumed') \<Rightarrow>
            if haStatus a \<ge> 500 \<and> haStatus a < 600 \<and> attempt < rtMaxAttempts rc then do_loop env rc call rest consumed' cb'
            else (cb', Inr a)
        | (Inl err, consumed') \<Rightarrow>
            if attempt = rtMaxAttempts rc then (cb', Inl (Wrapf ''max retries exceeded'' err))
            else (case xvCancelled env attempt of
                Some e \<Rightarrow> (cb', Inl e)
              | None \<Rightarrow> do_loop env rc call rest consumed' cb')))"

definition Ext_Do :: "ext_env \<Rightarrow> http_call \<Rightarrow> GuardrailHTTPClient \<Rightarrow> GuardrailHTTPClient \<times> http_answer result" where
  "Ext_Do env call h =
     (let (cb, r) = do_loop env (ghRetry h) call [0..rtMaxAttempts (ghRetry h)] False (ghBreaker h) in (h\<lparr>ghBreaker := cb\<rparr>, r))"

subsection \<open>Requests and replies\<close>

record OpenAIModerationResult =
  mdFlagged :: bool
  mdCategories :: "(string \<times> bool) list"
  mdCategoryScores :: "(string \<times> float64) list"

record AnthropicMessage =
  amRole :: string
  amContent :: string

record AnthropicRequest =
  arModel :: string
  arMaxTokens :: int
  arTemperature :: float64
  arSystem :: string
  arMessages :: "AnthropicMessage list"

record OllamaChatRequest =
  olcModel :: string
  olcMessages :: "AnthropicMessage list"
  olcStream :: bool
  olcOptions :: "(string \<times> json) list"

record AnthropicViolation =
  avCategory :: string
  avDetected :: bool
  avConfidence :: float64

text \<open>The reading of a reply: the results of a moderation, with the scores in the order in which the
  loop visits the map, the texts of the content blocks of Anthropic, the message of Ollama, and the
  violations Anthropic was asked to write.\<close>

record class_lib =
  ckMarshalModeration :: "string \<Rightarrow> string \<Rightarrow> string result"
  ckMarshalAnthropic :: "AnthropicRequest \<Rightarrow> string result"
  ckMarshalOllama :: "OllamaChatRequest \<Rightarrow> string result"
  ckURLOk :: "string \<Rightarrow> bool"
  ckModeration :: "string \<Rightarrow> OpenAIModerationResult list result"
  ckContent :: "string \<Rightarrow> string list result"
  ckOllama :: "string \<Rightarrow> string result"
  ckViolations :: "string \<Rightarrow> AnthropicViolation list result"
  ckCompiles :: "string \<Rightarrow> bool"
  ckMatches :: "string \<Rightarrow> string \<Rightarrow> bool"
  ckLower :: "string \<Rightarrow> string"
  ckUpper :: "string \<Rightarrow> string"
  ckTrimSpace :: "string \<Rightarrow> string"

text \<open>The configuration of the three remote classifiers; \<open>xgAPIKey\<close> is not used by Llama Guard.\<close>

record ExtConfig =
  xgAPIKey :: string
  xgEndpoint :: string
  xgModel :: string
  xgTimeout :: duration
  xgThresholds :: "(string \<rightharpoonup> float64) option"
  xgRetry :: RetryConfig
  xgBreaker :: ExtBreakerConfig

definition or_string :: "string \<Rightarrow> string \<Rightarrow> string" where
  "or_string s d = (if s = [] then d else s)"

definition or_thresholds :: "(string \<rightharpoonup> float64) option \<Rightarrow> (string \<rightharpoonup> float64) \<Rightarrow> (string \<rightharpoonup> float64) option" where
  "or_thresholds t d = (case t of None \<Rightarrow> Some d | Some m \<Rightarrow> Some m)"

definition threshold_of :: "(string \<rightharpoonup> float64) option \<Rightarrow> string \<Rightarrow> float64 option" where
  "threshold_of t k = (case t of None \<Rightarrow> None | Some m \<Rightarrow> m k)"

definition remote_client :: "ExtConfig \<Rightarrow> GuardrailHTTPClient" where
  "remote_client config = NewGuardrailHTTPClient (xgTimeout config) (xgRetry config) (xgBreaker config)"

text \<open>Sending a request and decoding the reply, as the three remote classifiers do it: the reply is
  decoded before its status is looked at.\<close>

definition exchange ::
  "class_lib \<Rightarrow> ext_env \<Rightarrow> string \<Rightarrow> string \<Rightarrow> (string \<times> string) list \<Rightarrow> string result \<Rightarrow> (string \<Rightarrow> 'r result) \<Rightarrow>
   (int \<Rightarrow> string \<Rightarrow> go_error) \<Rightarrow> GuardrailHTTPClient \<Rightarrow> GuardrailHTTPClient \<times> 'r result" where
  "exchange L env meth url headers body decode api_error h = (case body of
     Inl e \<Rightarrow> (h, Inl (Wrapf ''marshal request'' e))
   | Inr b \<Rightarrow>
       if \<not> ckURLOk L url then (h, Inl (Wrapf ''create request'' (Errorf ''invalid URL'')))
       else (case Ext_Do env \<lparr> hcMethod = meth, hcURL = url, hcHeaders = headers, hcBody = b, hcTimeout = ghTimeout h,
                hcDeadline = xvDeadline env \<rparr> h of
           (h', Inl e) \<Rightarrow> (h', Inl e)
         | (h', Inr a) \<Rightarrow> (h', case (case haBody a of Inl e \<Rightarrow> Inl e | Inr t \<Rightarrow> decode t) of
               Inl e \<Rightarrow> Inl (Wrapf ''decode response'' e)
             | Inr reply \<Rightarrow> if haStatus a \<noteq> 200 then Inl (api_error (haStatus a) b) else Inr reply)))"

definition health_check :: "class_lib \<Rightarrow> ext_env \<Rightarrow> string \<Rightarrow> (string \<times> string) list \<Rightarrow> GuardrailHTTPClient \<Rightarrow> GuardrailHTTPClient \<times> go_error option" where
  "health_check L env url headers h =
     (if \<not> ckURLOk L url then (h, Some (Wrapf ''create health check request'' (Errorf ''invalid URL'')))
      else (case Ext_Do env \<lparr> hcMethod = ''GET'', hcURL = url, hcHeaders = headers, hcBody = [], hcTimeout = ghTimeout h,
                hcDeadline = xvDeadline env \<rparr> h of
           (h', Inl e) \<Rightarrow> (h', Some e)
         | (h', Inr a) \<Rightarrow> (h', if haStatus a \<noteq> 200 then Some (Errorf (''health check failed: '' @ int_text (haStatus a))) else None)))"

definition nl :: string where
  "nl = [CHR 0x0A]"

fun join_lines :: "string list \<Rightarrow> string" where
  "join_lines [] = []"
| "join_lines [l] = l"
| "join_lines (l # ls) = l @ nl @ join_lines ls"

definition result_of :: "string \<Rightarrow> ExtConfig \<Rightarrow> ext_env \<Rightarrow> bool \<Rightarrow> CategoryResult list \<Rightarrow> ClassificationResult" where
  "result_of provider config env violated cats = \<lparr> csViolated = violated, csCategories = cats, csProvider = provider,
     csModel = xgModel config, csLatencyMs = xvLatencyMs env \<rparr>"

subsection \<open>OpenAI moderation\<close>

definition NewOpenAIClassifier :: "ExtConfig \<Rightarrow> (ExtConfig \<times> GuardrailHTTPClient) result" where
  "NewOpenAIClassifier config =
     (if xgAPIKey config = [] then Inl (Errorf ''OpenAI API key is required'')
      else let config = config\<lparr>xgEndpoint := or_string (xgEndpoint config) ''https://api.openai.com/v1/moderations'',
             xgModel := or_string (xgModel config) ''omni-moderation-latest'',
             xgTimeout := (if xgTimeout config = 0 then 5 * second else xgTimeout config),
             xgThresholds := or_thresholds (xgThresholds config) [''sexual'' \<mapsto> 7/10, ''hate'' \<mapsto> 8/10, ''violence'' \<mapsto> 7/10,
               ''self-harm'' \<mapsto> 9/10, ''harassment'' \<mapsto> 7/10, ''sexual/minors'' \<mapsto> 9/10, ''violence/graphic'' \<mapsto> 8/10]\<rparr>
           in Inr (config, remote_client config))"

definition moderation_categories :: "ExtConfig \<Rightarrow> OpenAIModerationResult \<Rightarrow> CategoryResult list" where
  "moderation_categories config r = map (\<lambda>(cat, score).
     let t = (case threshold_of (xgThresholds config) cat of None \<Rightarrow> 0 | Some t \<Rightarrow> t) in
     \<lparr> ctCategory = cat, ctDetected = (map_of (mdCategories r) cat = Some True), ctConfidence = score,
       ctThreshold = (if t = 0 then 7/10 else t) \<rparr>) (mdCategoryScores r)"

text \<open>The error for an answer other than 200 quotes the body of the request.\<close>

definition OpenAI_classify ::
  "class_lib \<Rightarrow> ext_env \<Rightarrow> ExtConfig \<Rightarrow> string \<Rightarrow> GuardrailHTTPClient \<Rightarrow> GuardrailHTTPClient \<times> ClassificationResult result" where
  "OpenAI_classify L env config input h =
     (let (h', r) = exchange L env ''POST'' (xgEndpoint config)
        [(''Content-Type'', ''application/json''), (''Authorization'', ''Bearer '' @ xgAPIKey config)]
        (ckMarshalModeration L input (xgModel config)) (ckModeration L)
        (\<lambda>st body. Errorf (''API error '' @ int_text st @ '': '' @ ckTrimSpace L body)) h
      in (h', map_sum id (\<lambda>results. case results of
           [] \<Rightarrow> result_of ''openai'' config env False []
         | r # _ \<Rightarrow> result_of ''openai'' config env (mdFlagged r) (moderation_categories config r)) r))"

definition OpenAI_classifier_HealthCheck :: "class_lib \<Rightarrow> ext_env \<Rightarrow> ExtConfig \<Rightarrow> GuardrailHTTPClient \<Rightarrow> GuardrailHTTPClient \<times> go_error option" where
  "OpenAI_classifier_HealthCheck L env config = health_check L env ''https://api.openai.com/v1/models'' [(''Authorization'', ''Bearer '' @ xgAPIKey config)]"

subsection \<open>Anthropic\<close>

definition NewAnthropicClassifier :: "ExtConfig \<Rightarrow> (ExtConfig \<times> GuardrailHTTPClient) result" where
  "NewAnthropicClassifier config =
     (if xgAPIKey config = [] then Inl (Errorf ''Anthropic API key is required'')
      else let config = config\<lparr>xgEndpoint := or_string (xgEndpoint config) ''https://api.anthropic.com/v1/messages'',
             xgModel := or_string (xgModel config) ''claude-3-5-haiku-20241022'',
             xgTimeout := (if xgTimeout config = 0 then 10 * second else xgTimeout config),
             xgThresholds := or_thresholds (xgThresholds config) default_thresholds\<rparr>
           in Inr (config, remote_client config))"

definition buildClassifierPrompt :: string where
  \<open>buildClassifierPrompt = join_lines [
     ''You are a content safety classifier. Analyze the given text and classify it for safety violations.'',
     [],
     ''Return a JSON object with the following structure:'',
     ''{'',
     ''  "violations": ['',
     ''    {"category": "sexual", "detected": false, "confidence": 0.1},'',
     ''    {"category": "hate", "detected": false, "confidence": 0.05},'',
     ''    {"category": "violence", "detected": false, "confidence": 0.02},'',
     ''    {"category": "self-harm", "detected": false, "confidence": 0.01},'',
     ''    {"category": "harassment", "detected": false, "confidence": 0.03}'',
     ''  ]'',
     ''}'',
     [],
     ''Categories to check:'',
     ''- sexual: Sexual content, explicit sexual material'',
     ''- hate: Hate speech, discrimination'',
     ''- violence: Violence, physical harm'',
     ''- self-harm: Self-harm, suicide, eating disorders'',
     ''- harassment: Harassment, bullying, threats'',
     [],
     ''Only output the JSON object, no additional text.'']\<close>

text \<open>From the first opening brace to the last closing one, if that comes after it.\<close>

definition extractJSON :: "string \<Rightarrow> string" where
  "extractJSON content = rev (dropWhile (\<lambda>c. c \<noteq> CHR ''}'') (rev (dropWhile (\<lambda>c. c \<noteq> CHR ''{'') content)))"

definition judge_violation :: "(string \<rightharpoonup> float64) option \<Rightarrow> AnthropicViolation \<Rightarrow> CategoryResult" where
  "judge_violation thresholds v =
     (let threshold = (case threshold_of thresholds (avCategory v) of None \<Rightarrow> 7/10 | Some t \<Rightarrow> t) in
      \<lparr> ctCategory = avCategory v, ctDetected = (avDetected v \<and> avConfidence v \<ge> threshold), ctConfidence = avConfidence v,
        ctThreshold = threshold \<rparr>)"

definition parseClassifierResponse :: "class_lib \<Rightarrow> string \<Rightarrow> (string \<rightharpoonup> float64) option \<Rightarrow> bool \<times> CategoryResult list" where
  "parseClassifierResponse L content thresholds =
     (let jsonStr = extractJSON content in
      if jsonStr = [] then (False, [])
      else case ckViolations L jsonStr of
        Inl _ \<Rightarrow> (False, [])
      | Inr vs \<Rightarrow> let cats = map (judge_violation thresholds) vs in (list_ex ctDetected cats, cats))"

definition Anthropic_classify ::
  "class_lib \<Rightarrow> ext_env \<Rightarrow> ExtConfig \<Rightarrow> string \<Rightarrow> GuardrailHTTPClient \<Rightarrow> GuardrailHTTPClient \<times> ClassificationResult result" where
  "Anthropic_classify L env config input h =
     (let (h', r) = exchange L env ''POST'' (xgEndpoint config)
        [(''Content-Type'', ''application/json''), (''x-api-key'', xgAPIKey config), (''anthropic-version'', ''2023-06-01'')]
        (ckMarshalAnthropic L \<lparr> arModel = xgModel config, arMaxTokens = 1024, arTemperature = 0, arSystem = buildClassifierPrompt,
           arMessages = [\<lparr> amRole = ''user'', amContent = ''Classify the following text for safety violations:'' @ nl @ nl @ input \<rparr>] \<rparr>)
        (ckContent L) (\<lambda>st body. Errorf (''API error '' @ int_text st)) h
      in (h', map_sum id (\<lambda>content. case content of
           [] \<Rightarrow> result_of ''anthropic'' config env False []
         | c # _ \<Rightarrow> (case parseClassifierResponse L c (xgThresholds config) of (violated, cats) \<Rightarrow>
             result_of ''anthropic'' config env violated cats)) r))"

definition Anthropic_classifier_HealthCheck :: "class_lib \<Rightarrow> ext_env \<Rightarrow> ExtConfig \<Rightarrow> GuardrailHTTPClient \<Rightarrow> GuardrailHTTPClient \<times> go_error option" where
  "Anthropic_classifier_HealthCheck L env config = health_check L env ''https://api.anthropic.com/v1/models''
     [(''x-api-key'', xgAPIKey config), (''anthropic-version'', ''2023-06-01'')]"

subsection \<open>Llama Guard\<close>

definition NewLlamaGuardClassifier :: "ExtConfig \<Rightarrow> (ExtConfig \<times> GuardrailHTTPClient) result" where
  "NewLlamaGuardClassifier config =
     (let config = config\<lparr>xgEndpoint := or_string (xgEndpoint config) ''http://localhost:11434'',
          xgModel := or_string (xgModel config) ''llama-guard-3'',
          xgTimeout := (if xgTimeout config = 0 then 15 * second else xgTimeout config),
          xgThresholds := or_thresholds (xgThresholds config) [''S1'' \<mapsto> 1/2, ''S2'' \<mapsto> 1/2, ''S3'' \<mapsto> 1/2, ''V1'' \<mapsto> 1/2,
            ''V2'' \<mapsto> 1/2, ''H1'' \<mapsto> 1/2, ''H2'' \<mapsto> 1/2, ''H3'' \<mapsto> 1/2, ''SH'' \<mapsto> 1/2]\<rparr>
      in Inr (config, remote_client config))"

definition buildPrompt :: "string \<Rightarrow> string" where
  \<open>buildPrompt input = join_lines [
     ''<BEGIN UNSAFE CONTENT CATEGORIES>'',
     ''S1: Sexual Content'',
     ''S2: Sexual Content - Minors'',
     ''S3: Sexual Violence'',
     ''V1: Violence'',
     ''V2: Sexual Violence'',
     ''H1: Hate'',
     ''H2: Harassment'',
     ''H3: Self-Harm'',
     ''<END UNSAFE CONTENT CATEGORIES>'',
     [],
     ''<BEGIN CONVERSATION>'',
     ''USER: '' @ input,
     ''<END CONVERSATION>'',
     [],
     ''Provide your safety assessment for the USER message above. '',
     ''Format your response as a single word: "safe" or "unsafe" followed by a list of violated categories if any.'',
     [],
     ''Example:'',
     ''safe'',
     ''or'',
     ''unsafe'',
     ''S1, H1, V1'']\<close>

definition has_prefix :: "string \<Rightarrow> string \<Rightarrow> bool" where
  "has_prefix s p = (take (length p) s = p)"

definition guard_category :: "class_lib \<Rightarrow> ExtConfig \<Rightarrow> string \<Rightarrow> CategoryResult" where
  "guard_category L config cat =
     (let cat = ckTrimSpace L (ckUpper L cat) in
      \<lparr> ctCategory = cat, ctDetected = True, ctConfidence = 8/10,
        ctThreshold = (case threshold_of (xgThresholds config) cat of None \<Rightarrow> 1/2 | Some t \<Rightarrow> t) \<rparr>)"

definition parseResponse :: "class_lib \<Rightarrow> ExtConfig \<Rightarrow> string \<Rightarrow> bool \<times> CategoryResult list" where
  "parseResponse L config content =
     (let lowerContent = ckLower L (ckTrimSpace L content) in
      if has_prefix lowerContent ''safe'' then (False, [])
      else if has_prefix lowerContent ''unsafe'' then
        (let ls = split_on (CHR 0x0A) content in
         (True, if length ls > 1 then map (guard_category L config) (split_on (CHR '','') (ckTrimSpace L (ls ! 1))) else []))
      else (False, []))"

definition trim_slashes :: "string \<Rightarrow> string" where
  "trim_slashes s = rev (dropWhile (\<lambda>c. c = CHR ''/'') (rev s))"

definition LlamaGuard_classify ::
  "class_lib \<Rightarrow> ext_env \<Rightarrow> ExtConfig \<Rightarrow> string \<Rightarrow> GuardrailHTTPClient \<Rightarrow> GuardrailHTTPClient \<times> ClassificationResult result" where
  "LlamaGuard_classify L env config input h =
     (let (h', r) = exchange L env ''POST'' (trim_slashes (xgEndpoint config) @ ''/api/chat'') [(''Content-Type'', ''application/json'')]
        (ckMarshalOllama L \<lparr> olcModel = xgModel config, olcMessages = [\<lparr> amRole = ''user'', amContent = buildPrompt input \<rparr>],
           olcStream = False, olcOptions = [(''temperature'', JNum 0)] \<rparr>)
        (ckOllama L) (\<lambda>st body. Errorf (''API error '' @ int_text st)) h
      in (h', map_sum id (\<lambda>content.
           if content = [] then result_of ''llamaguard'' config env False []
           else (case parseResponse L config content of (violated, cats) \<Rightarrow> result_of ''llamaguard'' config env violated cats)) r))"

definition LlamaGuard_HealthCheck :: "class_lib \<Rightarrow> ext_env \<Rightarrow> ExtConfig \<Rightarrow> GuardrailHTTPClient \<Rightarrow> GuardrailHTTPClient \<times> go_error option" where
  "LlamaGuard_HealthCheck L env config = health_check L env (trim_slashes (xgEndpoint config) @ ''/api/tags'') []"

subsection \<open>Regular expressions\<close>

record LocalClassifierConfig =
  lcEnabled :: bool
  lcPatterns :: "string list"
  lcThreshold :: float64

definition NewLocalClassifier :: "class_lib \<Rightarrow> LocalClassifierConfig \<Rightarrow> LocalClassifierConfig result" where
  "NewLocalClassifier L config = (case List.find (\<lambda>p. \<not> ckCompiles L p) (lcPatterns config) of
     Some p \<Rightarrow> Inl (Wrapf (''compile pattern '' @ p) (Errorf ''error parsing regexp''))
   | None \<Rightarrow> Inr config)"

definition Local_classify :: "class_lib \<Rightarrow> ext_env \<Rightarrow> LocalClassifierConfig \<Rightarrow> string \<Rightarrow> ClassificationResult" where
  "Local_classify L env config input =
     (if \<not> lcEnabled config then
        \<lparr> csViolated = False, csCategories = [], csProvider = ''local'', csModel = [], csLatencyMs = xvLatencyMs env \<rparr>
      else let hits = filter (\<lambda>p. ckMatches L p input) (lcPatterns config) in
        \<lparr> csViolated = (hits \<noteq> []), csCategories = map (\<lambda>_. \<lparr> ctCategory = ''local_pattern'', ctDetected = True,
            ctConfidence = lcThreshold config, ctThreshold = lcThreshold config \<rparr>) hits,
          csProvider = ''local'', csModel = [], csLatencyMs = xvLatencyMs env \<rparr>)"

subsection \<open>The factory\<close>

text \<open>A value of \<open>map[string]interface{}\<close>.\<close>

datatype config_value = CString string | CSlice "config_value list" | COther

record ClassifierConfig =
  kcType :: string
  kcConfig :: "string \<rightharpoonup> config_value"
  kcThresholds :: "(string \<rightharpoonup> float64) option"
  kcRetry :: RetryConfig
  kcBreaker :: ExtBreakerConfig
  kcTimeout :: duration

definition getString :: "(string \<rightharpoonup> config_value) \<Rightarrow> string \<Rightarrow> string" where
  "getString m key = (case m key of Some (CString s) \<Rightarrow> s | _ \<Rightarrow> [])"

definition getStringSlice :: "(string \<rightharpoonup> config_value) \<Rightarrow> string \<Rightarrow> string list" where
  "getStringSlice m key = (case m key of
     Some (CSlice vs) \<Rightarrow> map (\<lambda>v. case v of CString s \<Rightarrow> s | _ \<Rightarrow> []) vs
   | _ \<Rightarrow> [])"

datatype ext_classifier = XOpenAI ExtConfig GuardrailHTTPClient | XAnthropic ExtConfig GuardrailHTTPClient
  | XLlamaGuard ExtConfig GuardrailHTTPClient | XLocal LocalClassifierConfig

definition remote_config :: "ClassifierConfig \<Rightarrow> string \<Rightarrow> ExtConfig" where
  "remote_config config apiKey = \<lparr> xgAPIKey = apiKey, xgEndpoint = getString (kcConfig config) ''endpoint'',
     xgModel = getString (kcConfig config) ''model'', xgTimeout = kcTimeout config, xgThresholds = kcThresholds config,
     xgRetry = kcRetry config, xgBreaker = kcBreaker config \<rparr>"

definition createOpenAI :: "ClassifierConfig \<Rightarrow> ext_classifier result" where
  "createOpenAI config = (let apiKey = getString (kcConfig config) ''api_key'' in
     if apiKey = [] then Inl (Errorf ''OpenAI API key required'')
     else map_sum id (\<lambda>(c, h). XOpenAI c h) (NewOpenAIClassifier (remote_config config apiKey)))"

definition createAnthropic :: "ClassifierConfig \<Rightarrow> ext_classifier result" where
  "createAnthropic config = (let apiKey = getString (kcConfig config) ''api_key'' in
     if apiKey = [] then Inl (Errorf ''Anthropic API key required'')
     else map_sum id (\<lambda>(c, h). XAnthropic c h) (NewAnthropicClassifier (remote_config config apiKey)))"

definition createLlamaGuard :: "ClassifierConfig \<Rightarrow> ext_classifier result" where
  "createLlamaGuard config = map_sum id (\<lambda>(c, h). XLlamaGuard c h) (NewLlamaGuardClassifier (remote_config config []))"

definition default_patterns :: "string list" where
  \<open>default_patterns = [
     ''(?i)'' @ [CHR 0x5C] @ ''b(?:password|secret|api[_-]?key)'' @ [CHR 0x5C] @ ''s*[:=]'' @ [CHR 0x5C] @ ''s*'' @ [CHR 0x5C] @ ''S+'',
     ''(?i)'' @ [CHR 0x5C] @ ''b(?:ssn|social security)'' @ [CHR 0x5C] @ ''s*'' @ [CHR 0x5C] @ ''d{3}[-'' @ [CHR 0x5C] @ ''s]?''
       @ [CHR 0x5C] @ ''d{2}[-'' @ [CHR 0x5C] @ ''s]?'' @ [CHR 0x5C] @ ''d{4}'',
     ''(?i)'' @ [CHR 0x5C] @ ''b'' @ [CHR 0x5C] @ ''d{4}[-'' @ [CHR 0x5C] @ ''s]?'' @ [CHR 0x5C] @ ''d{4}[-'' @ [CHR 0x5C] @ ''s]?''
       @ [CHR 0x5C] @ ''d{4}[-'' @ [CHR 0x5C] @ ''s]?'' @ [CHR 0x5C] @ ''d{4}'' @ [CHR 0x5C] @ ''b'']\<close>

definition createLocal :: "class_lib \<Rightarrow> ClassifierConfig \<Rightarrow> ext_classifier result" where
  "createLocal L config = (let patterns = getStringSlice (kcConfig config) ''patterns'' in
     map_sum id XLocal (NewLocalClassifier L \<lparr> lcEnabled = True, lcPatterns = (if patterns = [] then default_patterns else patterns),
       lcThreshold = 7/10 \<rparr>))"

definition CreateClassifier :: "class_lib \<Rightarrow> ClassifierConfig \<Rightarrow> ext_classifier result" where
  "CreateClassifier L config =
     (if kcType config = ''openai'' then createOpenAI config
      else if kcType config = ''anthropic'' then createAnthropic config
      else if kcType config = ''llamaguard'' then createLlamaGuard config
      else if kcType config = ''local'' then createLocal L config
      else Inl (Errorf (''unknown classifier type: '' @ kcType config)))"

text \<open>The section \<open>guardrails.external_classifier\<close> of the configuration, and what \<open>cmd/gateway/main.go\<close>
  makes of it: a classifier, or none when it is disabled or cannot be made.\<close>

record ExternalClassifierConfig =
  ztEnabled :: bool
  ztType :: string
  ztConfig :: "string \<rightharpoonup> string"
  ztThresholds :: "(string \<rightharpoonup> float64) option"
  ztRetry :: RetryConfig
  ztBreaker :: ExtBreakerConfig
  ztTimeout :: duration

definition externalClassifier :: "class_lib \<Rightarrow> ExternalClassifierConfig option \<Rightarrow> ext_classifier option" where
  "externalClassifier L cfg = (case cfg of
     None \<Rightarrow> None
   | Some z \<Rightarrow>
       if \<not> ztEnabled z then None
       else (case CreateClassifier L \<lparr> kcType = ztType z, kcConfig = (\<lambda>k. map_option CString (ztConfig z k)), kcThresholds = ztThresholds z,
                kcRetry = ztRetry z, kcBreaker = ztBreaker z, kcTimeout = ztTimeout z \<rparr> of
           Inl _ \<Rightarrow> None
         | Inr c \<Rightarrow> Some c))"

text \<open>\<open>ClassifyInput\<close> and \<open>ClassifyOutput\<close> of a classifier.\<close>

primrec classify_external :: "class_lib \<Rightarrow> ext_env \<Rightarrow> ext_classifier \<Rightarrow> string \<Rightarrow> ext_classifier \<times> ClassificationResult result" where
  "classify_external L env (XOpenAI c h) input = map_prod (XOpenAI c) id (OpenAI_classify L env c input h)"
| "classify_external L env (XAnthropic c h) input = map_prod (XAnthropic c) id (Anthropic_classify L env c input h)"
| "classify_external L env (XLlamaGuard c h) input = map_prod (XLlamaGuard c) id (LlamaGuard_classify L env c input h)"
| "classify_external L env (XLocal c) input = (XLocal c, Inr (Local_classify L env c input))"

definition external_of :: "class_lib \<Rightarrow> ext_env \<Rightarrow> ext_classifier \<Rightarrow> classifier" where
  "external_of L env c isInput input = snd (classify_external L env c input)"

subsection \<open>The breaker stays closed\<close>

text \<open>\<open>Do\<close> gives the breaker a function that does nothing, so that no failure is ever recorded: a fresh
  breaker never opens, whatever the service does.\<close>

definition idle :: "ExtBreaker \<Rightarrow> bool" where
  "idle cb = (ebState cb = CircuitBreakerClosed \<and> ebFailureCount cb = 0)"

lemma idle_Execute: "idle cb \<Longrightarrow> Ext_Execute now None cb = (cb, None)"
  by (simp add: idle_def Ext_Execute_def Ext_allowRequest_def Ext_recordResult_def)

lemma do_loop_idle: "idle cb \<Longrightarrow> fst (do_loop env rc call as consumed cb) = cb"
  by (induction as arbitrary: consumed) (auto simp: idle_Execute split: prod.splits sum.splits option.splits)

lemma breaker_never_opens: "idle (ghBreaker h) \<Longrightarrow> fst (Ext_Do env call h) = h"
  using do_loop_idle[of "ghBreaker h" env "ghRetry h" call "[0..rtMaxAttempts (ghRetry h)]" False]
  by (auto simp: Ext_Do_def split: prod.splits)

lemma exchange_idle: "idle (ghBreaker h) \<Longrightarrow> fst (exchange L env meth url headers body decode err h) = h"
  using breaker_never_opens[of h env]
  by (auto simp: exchange_def split: sum.splits prod.splits) (metis fst_conv)+

primrec fresh :: "ext_classifier \<Rightarrow> bool" where
  "fresh (XOpenAI c h) = idle (ghBreaker h)"
| "fresh (XAnthropic c h) = idle (ghBreaker h)"
| "fresh (XLlamaGuard c h) = idle (ghBreaker h)"
| "fresh (XLocal c) = True"

text \<open>So a classifier is not changed by what it is asked, and can be given to the composite as a function.\<close>

lemma classify_external_stateless: "fresh c \<Longrightarrow> fst (classify_external L env c input) = c"
  by (cases c) (auto simp: OpenAI_classify_def Anthropic_classify_def LlamaGuard_classify_def Let_def exchange_idle split: prod.splits dest!: arg_cong[of _ _ fst])

lemma created_fresh: "externalClassifier L cfg = Some c \<Longrightarrow> fresh c"
  by (auto simp: externalClassifier_def CreateClassifier_def createOpenAI_def createAnthropic_def createLlamaGuard_def createLocal_def
      NewOpenAIClassifier_def NewAnthropicClassifier_def NewLlamaGuardClassifier_def NewLocalClassifier_def Let_def remote_client_def
      NewGuardrailHTTPClient_def Ext_NewCircuitBreaker_def idle_def split: option.splits if_splits sum.splits)

subsection \<open>The verdict\<close>

lemma pick_fold_origin:
  "foldl pick_step b cs = b \<or> (foldl pick_step b cs \<in> set cs \<and> ctDetected (foldl pick_step b cs) \<and> ctConfidence b < ctConfidence (foldl pick_step b cs))"
proof (induction cs arbitrary: b)
  case (Cons c cs)
  show ?case using Cons[of "pick_step b c"] by (auto simp: pick_step_def split: if_splits)
qed simp

lemma violation_origin:
  assumes "classificationToViolation G e t res phase = Some v"
  shows "\<exists>d \<in> set (csCategories res). ctDetected d \<and> 0 < ctConfidence d"
proof -
  have "ctCategory (pick_best (csCategories res)) \<noteq> []"
    using assms by (auto simp: classificationToViolation_def Let_def split: if_splits)
  then show ?thesis using pick_fold_origin[of zero_cat "csCategories res"] by (auto simp: pick_best_def zero_cat_def)
qed

definition named :: "CategoryResult list \<Rightarrow> bool" where
  "named cs = list_all (\<lambda>c. ctCategory c \<noteq> []) cs"

lemma judged_category:
  assumes "cpMergeLogic cfg = ''any_violation''" and "named (csCategories loc @ csCategories ext)"
    and "d \<in> set (csCategories loc @ csCategories ext)" and "ctDetected d"
  shows "fst (judge_cat cfg loc ext (ctCategory d))"
    and "ctDetected (snd (judge_cat cfg loc ext (ctCategory d)))"
    and "ctConfidence d \<le> ctConfidence (snd (judge_cat cfg loc ext (ctCategory d)))"
proof -
  let ?dets = "of_cat (ctCategory d) (csCategories loc) @ of_cat (ctCategory d) (csCategories ext)"
  have j: "judge_cat cfg loc ext (ctCategory d) = (list_ex ctDetected ?dets, foldl best_step zero_cat ?dets)"
    using assms(1) by (simp add: judge_cat_def judge_def Let_def)
  have d: "d \<in> set ?dets" using assms(3) by (auto simp: of_cat_def)
  have n: "\<forall>x \<in> set ?dets. ctCategory x \<noteq> []" using assms(2) by (auto simp: of_cat_def named_def list_all_iff)
  show "fst (judge_cat cfg loc ext (ctCategory d))" using d assms(4) by (auto simp: j list_ex_iff)
  show "ctDetected (snd (judge_cat cfg loc ext (ctCategory d)))"
    "ctConfidence d \<le> ctConfidence (snd (judge_cat cfg loc ext (ctCategory d)))"
    using best_fold[OF n, of zero_cat] d assms(4) by (auto simp: j)
qed

lemma judged_origin:
  assumes "cpMergeLogic cfg = ''any_violation''" and "named (csCategories loc @ csCategories ext)" and "fst (judge_cat cfg loc ext k)"
  shows "snd (judge_cat cfg loc ext k) \<in> set (csCategories loc @ csCategories ext)"
proof -
  let ?dets = "of_cat k (csCategories loc) @ of_cat k (csCategories ext)"
  have j: "judge_cat cfg loc ext k = (list_ex ctDetected ?dets, foldl best_step zero_cat ?dets)"
    using assms(1) by (simp add: judge_cat_def judge_def Let_def)
  have n: "\<forall>x \<in> set ?dets. ctCategory x \<noteq> []" using assms(2) by (auto simp: of_cat_def named_def list_all_iff)
  obtain d where "d \<in> set ?dets" "ctDetected d" using assms(3) by (auto simp: j list_ex_iff)
  then have "ctDetected (foldl best_step zero_cat ?dets)" using best_fold[OF n, of zero_cat] by blast
  then have "foldl best_step zero_cat ?dets \<in> set ?dets" using best_fold[OF n, of zero_cat] by (auto simp: zero_cat_def)
  then show ?thesis unfolding j snd_conv by (auto simp: of_cat_def)
qed

lemma composite_any:
  assumes "cpMergeLogic cfg = ''any_violation''" and "named (csCategories loc @ csCategories ext)"
    and "\<And>ks. set (ord1 ks) = set ks" and "\<And>ks. set (ord2 ks) = set ks"
  shows "classificationToViolation G e t ((mergeResults cfg ord1 ord2 loc ext)\<lparr>csProvider := p, csLatencyMs := l\<rparr>) phase \<noteq> None
    \<longleftrightarrow> (\<exists>d \<in> set (csCategories loc @ csCategories ext). ctDetected d \<and> 0 < ctConfidence d)"
proof -
  let ?m = "mergeResults cfg ord1 ord2 loc ext" and ?all = "csCategories loc @ csCategories ext"
  let ?r = "?m\<lparr>csProvider := p, csLatencyMs := l\<rparr>"
  let ?found = "map (snd \<circ> judge_cat cfg loc ext) (filter (fst \<circ> judge_cat cfg loc ext) (ord1 (categories loc ext)))"
  note mc = merged_categories[where loc = loc and ext = ext and cfg = cfg and ?ord1.0 = ord1 and ?ord2.0 = ord2, OF assms(4)]
  have sub: "set (csCategories ?m) \<subseteq> set ?all"
    using mc(2) judged_origin[OF assms(1,2)] by fastforce
  show ?thesis
  proof
    assume "classificationToViolation G e t ?r phase \<noteq> None"
    then show "\<exists>d \<in> set ?all. ctDetected d \<and> 0 < ctConfidence d"
      using violation_origin[of G e t ?r phase] sub by fastforce
  next
    assume "\<exists>d \<in> set ?all. ctDetected d \<and> 0 < ctConfidence d"
    then obtain d where d: "d \<in> set ?all" "ctDetected d" "0 < ctConfidence d" by blast
    let ?b = "snd (judge_cat cfg loc ext (ctCategory d))"
    note j = judged_category[OF assms(1,2) d(1,2)]
    have k: "ctCategory d \<in> set (ord1 (categories loc ext))" using d(1) assms(3) by (auto simp: categories_def)
    then have "?b \<in> set ?found" using j(1) by auto
    then have "?b \<in> set (csCategories ?m)" using mc(1) by blast
    moreover have "csViolated ?m" using k j(1) by (auto simp: mergeResults_def Let_def filter_empty_conv)
    moreover have "\<forall>c \<in> set (csCategories ?m). ctCategory c \<noteq> []" using sub assms(2) by (auto simp: named_def list_all_iff)
    ultimately show "classificationToViolation G e t ?r phase \<noteq> None"
      using violation_reported[of ?r ?b G e t phase] j(2,3) d(3) by auto
  qed
qed

lemma local_detects:
  assumes "rules_named cfg"
  shows "(\<exists>d \<in> set (csCategories (violationToClassification (CheckInput G e (NewLocalGuardrail G cfg) t input) p)). ctDetected d \<and> 0 < ctConfidence d)
      = input_flagged G (NewLocalGuardrail G cfg) input"
    and "named (csCategories (violationToClassification (CheckInput G e (NewLocalGuardrail G cfg) t input) p))"
proof -
  let ?v = "CheckInput G e (NewLocalGuardrail G cfg) t input"
  have f: "(?v = None) = (\<not> input_flagged G (NewLocalGuardrail G cfg) input)" by (rule CheckInput_None)
  show "(\<exists>d \<in> set (csCategories (violationToClassification ?v p)). ctDetected d \<and> 0 < ctConfidence d) = input_flagged G (NewLocalGuardrail G cfg) input"
    using f local_category(3)[of G e "NewLocalGuardrail G cfg" t input _ p]
    by (cases ?v) (auto simp: violationToClassification_def Let_def)
  show "named (csCategories (violationToClassification ?v p))"
    using CheckInput_named[OF assms, of G e t input] by (cases ?v) (auto simp: violationToClassification_def named_def Let_def)
qed

lemma external_verdict:
  assumes "rules_named cfg" and "externalClassifier L z = Some c" and "snd (classify_external L xenv c input) = Inr x"
    and "named (csCategories x)" and "cpSendContentExternal ccfg" and "cpMergeLogic ccfg = ''any_violation''"
    and "\<forall>ks. set (ceOrd1 ce ks) = set ks" and "\<forall>ks. set (ceOrd2 ce ks) = set ks"
  shows "(\<exists>v. adapter_check G ce e (gateway_guardrail G e cfg (map_option (external_of L xenv) (externalClassifier L z)) ccfg) True t input = Inr (Some v))
    \<longleftrightarrow> input_flagged G (NewLocalGuardrail G cfg) input \<or> (\<exists>d \<in> set (csCategories x). ctDetected d \<and> 0 < ctConfidence d)"
proof -
  let ?loc = "violationToClassification (CheckInput G e (NewLocalGuardrail G cfg) (gnTenant e) input) ''local''"
  let ?cfg = "cgConfig (NewCompositeGuardrail (Some (local_classify G e (NewLocalGuardrail G cfg))) (Some (external_of L xenv c)) ccfg)"
  have a: "adapter_check G ce e (gateway_guardrail G e cfg (map_option (external_of L xenv) (externalClassifier L z)) ccfg) True t input
    = Inr (classificationToViolation G e t ((mergeResults ?cfg (ceOrd1 ce) (ceOrd2 ce) ?loc x)\<lparr>csProvider := ''composite'', csLatencyMs := ceLatencyMs ce\<rparr>) ''input'')"
    using assms(2,3,5) by (simp add: adapter_check_def classify_def gateway_guardrail_def NewCompositeGuardrail_def local_classify_def external_of_def Let_def)
  have l: "cpMergeLogic ?cfg = ''any_violation''" using assms(6) by (simp add: NewCompositeGuardrail_def)
  have n: "named (csCategories ?loc @ csCategories x)"
    using local_detects(2)[OF assms(1)] assms(4) by (simp add: named_def)
  show ?thesis
    using composite_any[OF l n, where G = G and e = e and t = t and p = "''composite''" and l = "ceLatencyMs ce" and phase = "''input''"
        and ?ord1.0 = "ceOrd1 ce" and ?ord2.0 = "ceOrd2 ce"] assms(7,8)
      local_detects(1)[OF assms(1), of G e "gnTenant e" input "''local''"]
    by (auto simp: a)
qed


definition ascii_lib :: "string \<Rightarrow> class_lib" where
  "ascii_lib reply = \<lparr> ckMarshalModeration = (\<lambda>i m. Inr i), ckMarshalAnthropic = (\<lambda>r. Inr (arSystem r)), ckMarshalOllama = (\<lambda>r. Inr (olcModel r)),
     ckURLOk = (\<lambda>u. True), ckModeration = (\<lambda>t. Inr []), ckContent = (\<lambda>t. Inr [t]), ckOllama = (\<lambda>t. Inr reply),
     ckViolations = (\<lambda>t. Inr []), ckCompiles = (\<lambda>p. True), ckMatches = (\<lambda>p s. False), ckLower = id, ckUpper = id, ckTrimSpace = id \<rparr>"

definition demo_ext_env :: ext_env where
  "demo_ext_env = \<lparr> xvNow = (\<lambda>n. n), xvDo = (\<lambda>n call consumed. (Inr \<lparr> haStatus = 200, haBody = Inr ''reply'' \<rparr>, True)),
     xvCancelled = (\<lambda>n. None), xvDeadline = None, xvLatencyMs = 5 \<rparr>"

definition demo_guard_section :: ExternalClassifierConfig where
  "demo_guard_section = \<lparr> ztEnabled = True, ztType = ''llamaguard'', ztConfig = Map.empty, ztThresholds = None,
     ztRetry = DefaultRetryConfig, ztBreaker = Ext_DefaultCircuitBreakerConfig, ztTimeout = 0 \<rparr>"

definition demo_unsafe :: class_lib where
  "demo_unsafe = ascii_lib (''unsafe'' @ nl @ ''S1,V1'')"


text \<open>An unsafe verdict that lists no category is lost: Llama Guard then reports a violation without
  categories, and an input the local rules let through is accepted.\<close>

lemma split_on_line: "CHR 0x0A \<notin> set s \<Longrightarrow> length (split_on (CHR 0x0A) s) = 1"
  by simp

lemma unsafe_unlisted_passes:
  assumes "rules_named cfg" and "externalClassifier L z = Some (XLlamaGuard config h)"
    and "snd (classify_external L xenv (XLlamaGuard config h) input) = Inr x" and "csCategories x = []"
    and "cpSendContentExternal ccfg" and "cpMergeLogic ccfg = ''any_violation''"
    and "\<forall>ks. set (ceOrd1 ce ks) = set ks" and "\<forall>ks. set (ceOrd2 ce ks) = set ks"
    and "\<not> input_flagged G (NewLocalGuardrail G cfg) input"
  shows "\<not> (\<exists>v. adapter_check G ce e (gateway_guardrail G e cfg (map_option (external_of L xenv) (externalClassifier L z)) ccfg) True t input = Inr (Some v))"
  using external_verdict[OF assms(1,2,3) _ assms(5,6,7,8), of G e t] assms(4,9) by (simp add: named_def)

lemma unsafe_without_categories:
  assumes "has_prefix (ckLower L (ckTrimSpace L content)) ''unsafe''" and "CHR 0x0A \<notin> set content"
  shows "parseResponse L config content = (True, [])"
proof -
  have "\<not> has_prefix (ckLower L (ckTrimSpace L content)) ''safe''"
    using assms(1) by (cases "ckLower L (ckTrimSpace L content)") (auto simp: has_prefix_def)
  then show ?thesis using assms by (simp add: parseResponse_def Let_def)
qed

subsection \<open>Retries\<close>

definition server_error :: "http_answer \<Rightarrow> bool" where
  "server_error a = (haStatus a \<ge> 500 \<and> haStatus a < 600)"

text \<open>Whether the body has been read when the n-th attempt starts.\<close>

fun consumed_at :: "ext_env \<Rightarrow> http_call \<Rightarrow> nat \<Rightarrow> bool" where
  "consumed_at env call 0 = False"
| "consumed_at env call (Suc n) = snd (xvDo env (int n) call (consumed_at env call n))"

definition attempt_answer :: "ext_env \<Rightarrow> http_call \<Rightarrow> nat \<Rightarrow> http_answer result" where
  "attempt_answer env call n = fst (xvDo env (int n) call (consumed_at env call n))"

lemma do_loop_answer:
  assumes "idle cb" and "do_loop env rc call [int n..rtMaxAttempts rc] (consumed_at env call n) cb = (cb', Inr a)"
  shows "\<exists>k. n \<le> k \<and> int k \<le> rtMaxAttempts rc \<and> attempt_answer env call k = Inr a
    \<and> (server_error a \<longrightarrow> int k = rtMaxAttempts rc)
    \<and> (\<forall>m. n \<le> m \<and> m < k \<longrightarrow> (case attempt_answer env call m of Inl _ \<Rightarrow> xvCancelled env (int m) = None | Inr b \<Rightarrow> server_error b))"
  using assms(2)
proof (induction "nat (rtMaxAttempts rc + 1 - int n)" arbitrary: n)
  case 0
  then show ?case by (simp add: upto.simps)
next
  case (Suc x)
  have le: "int n \<le> rtMaxAttempts rc" using Suc(2) by linarith
  have up: "[int n..rtMaxAttempts rc] = int n # [int (Suc n)..rtMaxAttempts rc]"
    using le upto_rec1[of "int n" "rtMaxAttempts rc"] by (simp add: add.commute)
  obtain r cons where r: "xvDo env (int n) call (consumed_at env call n) = (r, cons)" by fastforce
  have ans: "attempt_answer env call n = r" and cons: "consumed_at env call (Suc n) = cons" by (simp_all add: attempt_answer_def r)
  have step: ?case if "do_loop env rc call [int (Suc n)..rtMaxAttempts rc] cons cb = (cb', Inr a)"
    and q: "case r of Inl _ \<Rightarrow> xvCancelled env (int n) = None | Inr b \<Rightarrow> server_error b"
  proof -
    from Suc(1)[of "Suc n"] Suc(2) that(1) obtain k where k: "Suc n \<le> k" "int k \<le> rtMaxAttempts rc" "attempt_answer env call k = Inr a"
      "server_error a \<longrightarrow> int k = rtMaxAttempts rc"
      "\<forall>m. Suc n \<le> m \<and> m < k \<longrightarrow> (case attempt_answer env call m of Inl _ \<Rightarrow> xvCancelled env (int m) = None | Inr b \<Rightarrow> server_error b)"
      unfolding cons by force
    have "case attempt_answer env call m of Inl _ \<Rightarrow> xvCancelled env (int m) = None | Inr b \<Rightarrow> server_error b" if "n \<le> m" "m < k" for m
      using that k(5) q ans by (cases "m = n") auto
    then show ?thesis using k by (intro exI[of _ k]) auto
  qed
  show ?case
  proof (cases r)
    case (Inl e)
    then show ?thesis using Suc(3) step by (auto simp: up idle_Execute[OF assms(1)] r split: if_splits option.splits)
  next
    case (Inr b)
    show ?thesis
    proof (cases "server_error b \<and> int n < rtMaxAttempts rc")
      case True
      then show ?thesis using Suc(3) step Inr by (auto simp: up idle_Execute[OF assms(1)] r server_error_def)
    next
      case False
      then have "b = a" using Suc(3) Inr by (auto simp: up idle_Execute[OF assms(1)] r server_error_def split: if_splits)
      then show ?thesis using False Inr ans le by (intro exI[of _ n]) auto
    qed
  qed
qed

text \<open>A body is sent once: the reader of a request that was answered is at its end, and a request with a
  body whose reader is at its end is not sent, as the length of the body does not agree with the one that
  was announced.\<close>

definition body_sent_once :: "ext_env \<Rightarrow> http_call \<Rightarrow> bool" where
  "body_sent_once env call = ((\<forall>n cons a. fst (xvDo env n call cons) = Inr a \<longrightarrow> snd (xvDo env n call cons))
     \<and> (hcBody call \<noteq> [] \<longrightarrow> (\<forall>n. isl (fst (xvDo env n call True)) \<and> snd (xvDo env n call True))))"

lemma post_not_repeated:
  assumes "idle (ghBreaker h)" and "body_sent_once env call" and "hcBody call \<noteq> []" and "attempt_answer env call 0 = Inr a"
    and "server_error a" and "0 < rtMaxAttempts (ghRetry h)"
  shows "isl (snd (Ext_Do env call h))"
proof (rule ccontr)
  assume "\<not> isl (snd (Ext_Do env call h))"
  then obtain b where "snd (Ext_Do env call h) = Inr b" by (cases "snd (Ext_Do env call h)") auto
  then obtain cb where "do_loop env (ghRetry h) call [int 0..rtMaxAttempts (ghRetry h)] (consumed_at env call 0) (ghBreaker h) = (cb, Inr b)"
    by (auto simp: Ext_Do_def split: prod.splits)
  from do_loop_answer[OF assms(1) this] obtain k where k: "attempt_answer env call k = Inr b"
    "server_error b \<longrightarrow> int k = rtMaxAttempts (ghRetry h)" by blast
  have c: "consumed_at env call (Suc n)" for n
  proof (induction n)
    case 0
    then show ?case using assms(2,4) by (auto simp: body_sent_once_def attempt_answer_def)
  next
    case (Suc n)
    then show ?case using assms(2,3) by (simp add: body_sent_once_def)
  qed
  have "k = 0"
  proof (cases k)
    case (Suc m)
    then have "attempt_answer env call k = fst (xvDo env (int k) call True)" using c[of m] by (simp add: attempt_answer_def)
    then have "isl (attempt_answer env call k)" using assms(2,3) by (simp add: body_sent_once_def)
    then show ?thesis using k(1) by simp
  qed
  then show False using k assms(4-6) by simp
qed

end
