(* ===== verification/Routes.thy ===== *)
theory Routes
  imports Middleware
begin

text \<open>
  \<open>src/internal/api/router.go\<close> and the \<open>RegisterRoutes\<close> of the handlers: the table of routes that
  \<open>NewRouter\<close> builds, each with the middlewares in front of it, and what a request meets on a route.
  Four middlewares of the router library (request id, real IP, recovery, time-out) stand before every
  route and are left out. How the library picks a route for a path is a parameter (\<open>mux\<close>).
\<close>

subsection \<open>Routes\<close>

datatype middleware = AuthMW | TenantMW | DelegationMW | RateLimitMW | AuditMW | GuardrailsMW | HITLMW | UnconfiguredAuth

text \<open>The handlers that stand in where none is configured.\<close>

datatype placeholder = listTenantsHandler | createTenantHandler | getTenantHandler | updateTenantHandler | deleteTenantHandler
  | listUsersHandler | createUserHandler | getUserHandler | updateUserHandler | deleteUserHandler
  | listRolesHandler | createRoleHandler | getRoleHandler | updateRoleHandler | deleteRoleHandler
  | listPermissionsHandler | createPermissionHandler
  | listQuotasHandler | createQuotaHandler | getQuotaHandler | updateQuotaHandler | deleteQuotaHandler
  | createReviewHandler | listReviewsHandler | getReviewHandler | approveReviewHandler | rejectReviewHandler | streamReviewHandler

datatype endpoint = Probe string | Public string | Handler string | Placeholder placeholder

record route =
  roMethod :: string
  roPattern :: string
  roMiddlewares :: "middleware list"
  roHandler :: endpoint

definition on :: "string \<Rightarrow> string \<Rightarrow> endpoint \<Rightarrow> route" where
  "on meth pattern h = \<lparr> roMethod = meth, roPattern = pattern, roMiddlewares = [], roHandler = h \<rparr>"

text \<open>\<open>r.Route(prefix, ...)\<close> and \<open>r.Use(...)\<close> on the routes registered below.\<close>

definition under :: "string \<Rightarrow> route list \<Rightarrow> route list" where
  "under pre rs = map (\<lambda>r. r\<lparr>roPattern := pre @ roPattern r\<rparr>) rs"

definition using_mws :: "middleware list \<Rightarrow> route list \<Rightarrow> route list" where
  "using_mws mws rs = map (\<lambda>r. r\<lparr>roMiddlewares := mws @ roMiddlewares r\<rparr>) rs"

definition crud :: "string \<Rightarrow> route list" where
  "crud h = [on ''GET'' ''/'' (Handler (h @ ''.List'')), on ''POST'' ''/'' (Handler (h @ ''.Create'')), on ''GET'' ''/{id}'' (Handler (h @ ''.Get'')),
     on ''PATCH'' ''/{id}'' (Handler (h @ ''.Update'')), on ''DELETE'' ''/{id}'' (Handler (h @ ''.Delete''))]"

definition AdminTenants_RegisterRoutes :: "route list" where
  "AdminTenants_RegisterRoutes = [on ''POST'' ''/'' (Handler ''AdminTenants.Create''), on ''GET'' ''/'' (Handler ''AdminTenants.List''),
     on ''GET'' ''/{id}'' (Handler ''AdminTenants.Get''), on ''PATCH'' ''/{id}'' (Handler ''AdminTenants.Update''),
     on ''DELETE'' ''/{id}'' (Handler ''AdminTenants.Delete'')]"

definition AdminUsers_RegisterRoutes :: "route list" where
  "AdminUsers_RegisterRoutes = crud ''AdminUsers''"

definition AdminRoles_RegisterRoutes :: "route list" where
  "AdminRoles_RegisterRoutes = crud ''AdminRoles'' @ [on ''POST'' ''/{id}/permissions'' (Handler ''AdminRoles.AssignPermissions''),
     on ''GET'' ''/{id}/permissions'' (Handler ''AdminRoles.GetPermissions''), on ''DELETE'' ''/{id}/permissions'' (Handler ''AdminRoles.RevokePermissions'')]"

definition AdminQuotas_RegisterRoutes :: "route list" where
  "AdminQuotas_RegisterRoutes = crud ''AdminQuotas''"

definition AdminTools_RegisterRoutes :: "route list" where
  "AdminTools_RegisterRoutes = using_mws [UnconfiguredAuth] [on ''POST'' ''/admin/tools'' (Handler ''AdminTools.CreateTool''),
     on ''PATCH'' ''/admin/tools/{name}'' (Handler ''AdminTools.UpdateTool''), on ''DELETE'' ''/admin/tools/{name}'' (Handler ''AdminTools.DeactivateTool'')]"

text \<open>Which of the optional handlers of \<open>RouterConfig\<close> are there.\<close>

record RouteConfig =
  wrReviewHandlers :: bool
  wrAdminAuditHandlers :: bool
  wrAdminToolsHandler :: bool
  wrAdminTenantsHandler :: bool
  wrAdminUsersHandler :: bool
  wrAdminRolesHandler :: bool
  wrAdminQuotasHandler :: bool

definition tenant_chain :: "middleware list" where
  "tenant_chain = [AuthMW, TenantMW, DelegationMW, RateLimitMW, AuditMW, GuardrailsMW, HITLMW]"

definition auth_routes :: "route list" where
  "auth_routes = under ''/auth''
     ([on ''POST'' ''/login'' (Public ''AuthHandlers.Login''), on ''POST'' ''/super-admin/login'' (Public ''AuthHandlers.SuperAdminLogin''),
       on ''POST'' ''/refresh'' (Public ''AuthHandlers.Refresh''), on ''POST'' ''/register'' (Public ''AuthHandlers.Register'')]
      @ using_mws [AuthMW] [on ''POST'' ''/logout'' (Handler ''AuthHandlers.Logout''), on ''GET'' ''/sessions'' (Handler ''AuthHandlers.ListSessions''),
          on ''DELETE'' ''/sessions'' (Handler ''AuthHandlers.RevokeAllSessions'')])"

definition tenants_routes :: "RouteConfig \<Rightarrow> route list" where
  "tenants_routes cfg = under ''/tenants'' (using_mws [AuthMW]
     (if wrAdminTenantsHandler cfg then AdminTenants_RegisterRoutes
      else [on ''POST'' ''/'' (Placeholder createTenantHandler), on ''GET'' ''/'' (Placeholder listTenantsHandler),
        on ''GET'' ''/{id}'' (Placeholder getTenantHandler), on ''PATCH'' ''/{id}'' (Placeholder updateTenantHandler),
        on ''DELETE'' ''/{id}'' (Placeholder deleteTenantHandler)]))"

definition admin_routes :: "RouteConfig \<Rightarrow> route list" where
  "admin_routes cfg = under ''/admin'' (tenants_routes cfg @ using_mws tenant_chain
     ((if wrAdminUsersHandler cfg then AdminUsers_RegisterRoutes
       else [on ''GET'' ''/users'' (Placeholder listUsersHandler), on ''POST'' ''/users'' (Placeholder createUserHandler),
         on ''GET'' ''/users/{id}'' (Placeholder getUserHandler), on ''PATCH'' ''/users/{id}'' (Placeholder updateUserHandler),
         on ''DELETE'' ''/users/{id}'' (Placeholder deleteUserHandler)])
      @ (if wrAdminRolesHandler cfg then AdminRoles_RegisterRoutes
         else [on ''GET'' ''/roles'' (Placeholder listRolesHandler), on ''POST'' ''/roles'' (Placeholder createRoleHandler),
           on ''GET'' ''/roles/{id}'' (Placeholder getRoleHandler), on ''PATCH'' ''/roles/{id}'' (Placeholder updateRoleHandler),
           on ''DELETE'' ''/roles/{id}'' (Placeholder deleteRoleHandler)])
      @ (if wrAdminQuotasHandler cfg then AdminQuotas_RegisterRoutes
         else [on ''GET'' ''/quotas'' (Placeholder listQuotasHandler), on ''POST'' ''/quotas'' (Placeholder createQuotaHandler),
           on ''GET'' ''/quotas/{id}'' (Placeholder getQuotaHandler), on ''PATCH'' ''/quotas/{id}'' (Placeholder updateQuotaHandler),
           on ''DELETE'' ''/quotas/{id}'' (Placeholder deleteQuotaHandler)])
      @ [on ''POST'' ''/users/{id}/revoke-sessions'' (Handler ''AuthHandlers.RevokeUserSessions'')]
      @ (if wrAdminAuditHandlers cfg then [on ''GET'' ''/audit'' (Handler ''AdminAudit.ListAuditEvents''),
           on ''POST'' ''/audit/verify-chain'' (Handler ''AdminAudit.VerifyChain'')] else [])
      @ (if wrAdminToolsHandler cfg then AdminTools_RegisterRoutes else [])))"

definition review_routes :: "RouteConfig \<Rightarrow> route list" where
  "review_routes cfg = under ''/reviews'' (using_mws tenant_chain
     (if wrReviewHandlers cfg
      then [on ''POST'' ''/'' (Handler ''ReviewHandlers.CreateReview''), on ''GET'' ''/'' (Handler ''ReviewHandlers.ListReviews''),
        on ''GET'' ''/{id}'' (Handler ''ReviewHandlers.GetReview''), on ''POST'' ''/{id}/approve'' (Handler ''ReviewHandlers.ApproveReview''),
        on ''POST'' ''/{id}/reject'' (Handler ''ReviewHandlers.RejectReview''), on ''PATCH'' ''/{id}'' (Handler ''ReviewHandlers.ExecuteReview''),
        on ''GET'' ''/{id}/stream'' (Handler ''ReviewHandlers.StreamReview''), on ''GET'' ''/{id}/status'' (Handler ''ReviewHandlers.GetReviewStatus'')]
      else [on ''POST'' ''/'' (Placeholder createReviewHandler), on ''GET'' ''/'' (Placeholder listReviewsHandler),
        on ''GET'' ''/{id}'' (Placeholder getReviewHandler), on ''POST'' ''/{id}/approve'' (Placeholder approveReviewHandler),
        on ''POST'' ''/{id}/reject'' (Placeholder rejectReviewHandler), on ''GET'' ''/{id}/stream'' (Placeholder streamReviewHandler)]))"

definition chat_routes :: "route list" where
  "chat_routes = under ''/chat'' (using_mws tenant_chain [on ''POST'' ''/completions'' (Handler ''ChatHandlers.ChatCompletions'')])"

definition NewRouter :: "RouteConfig \<Rightarrow> route list" where
  "NewRouter cfg = [on ''GET'' ''/health'' (Probe ''ok''), on ''GET'' ''/ready'' (Probe ''ready'')]
     @ under ''/v1'' (auth_routes @ admin_routes cfg @ review_routes cfg @ chat_routes)"

text \<open>The router of \<open>cmd/gateway/main.go\<close>: every handler is there.\<close>

definition gateway_router :: "route list" where
  "gateway_router = NewRouter \<lparr> wrReviewHandlers = True, wrAdminAuditHandlers = True, wrAdminToolsHandler = True,
     wrAdminTenantsHandler = True, wrAdminUsersHandler = True, wrAdminRolesHandler = True, wrAdminQuotasHandler = True \<rparr>"

subsection \<open>Probes and placeholders\<close>

definition json_text :: "string \<Rightarrow> string \<Rightarrow> string" where
  "json_text k v = ''{'' @ dq @ k @ dq @ '':'' @ dq @ v @ dq @ ''}''"

definition probe_reply :: "string \<Rightarrow> resp_call list" where
  "probe_reply s = [WriteHeader 200, Write (json_text ''status'' s)]"

definition message_reply :: "string \<Rightarrow> resp_call list" where
  "message_reply s = [WriteHeader 200, Write (json_text ''message'' (s @ '' placeholder''))]"

text \<open>The replies, with the random bytes and the text of the time that \<open>createTenantHandler\<close> uses.\<close>

primrec placeholder_reply :: "byte list \<Rightarrow> string \<Rightarrow> placeholder \<Rightarrow> resp_call list" where
  "placeholder_reply rnd now listTenantsHandler = message_reply ''list tenants''"
| "placeholder_reply rnd now createTenantHandler = [WriteHeader 201, Write (''{'' @ dq @ ''id'' @ dq @ '':'' @ dq @ UUID_String (NewUUID rnd) @ dq
     @ '','' @ dq @ ''name'' @ dq @ '':'' @ dq @ ''Acme Corp'' @ dq @ '','' @ dq @ ''status'' @ dq @ '':'' @ dq @ ''active'' @ dq
     @ '','' @ dq @ ''created_at'' @ dq @ '':'' @ dq @ now @ dq @ ''}'')]"
| "placeholder_reply rnd now getTenantHandler = message_reply ''get tenant''"
| "placeholder_reply rnd now updateTenantHandler = message_reply ''update tenant''"
| "placeholder_reply rnd now deleteTenantHandler = message_reply ''delete tenant''"
| "placeholder_reply rnd now listUsersHandler = message_reply ''list users''"
| "placeholder_reply rnd now createUserHandler = message_reply ''create user''"
| "placeholder_reply rnd now getUserHandler = message_reply ''get user''"
| "placeholder_reply rnd now updateUserHandler = message_reply ''update user''"
| "placeholder_reply rnd now deleteUserHandler = message_reply ''delete user''"
| "placeholder_reply rnd now listRolesHandler = message_reply ''list roles''"
| "placeholder_reply rnd now createRoleHandler = message_reply ''create role''"
| "placeholder_reply rnd now getRoleHandler = message_reply ''get role''"
| "placeholder_reply rnd now updateRoleHandler = message_reply ''update role''"
| "placeholder_reply rnd now deleteRoleHandler = message_reply ''delete role''"
| "placeholder_reply rnd now listPermissionsHandler = message_reply ''list permissions''"
| "placeholder_reply rnd now createPermissionHandler = message_reply ''create permission''"
| "placeholder_reply rnd now listQuotasHandler = message_reply ''list quotas''"
| "placeholder_reply rnd now createQuotaHandler = message_reply ''create quota''"
| "placeholder_reply rnd now getQuotaHandler = message_reply ''get quota''"
| "placeholder_reply rnd now updateQuotaHandler = message_reply ''update quota''"
| "placeholder_reply rnd now deleteQuotaHandler = message_reply ''delete quota''"
| "placeholder_reply rnd now createReviewHandler = message_reply ''create review''"
| "placeholder_reply rnd now listReviewsHandler = message_reply ''list reviews''"
| "placeholder_reply rnd now getReviewHandler = message_reply ''get review''"
| "placeholder_reply rnd now approveReviewHandler = message_reply ''approve review''"
| "placeholder_reply rnd now rejectReviewHandler = message_reply ''reject review''"
| "placeholder_reply rnd now streamReviewHandler = [Write (''data: '' @ json_text ''status'' ''PENDING'' @ [CHR 0x0A, CHR 0x0A])]"

subsection \<open>What a request meets\<close>

definition passing :: "auth_ctx mw_result \<Rightarrow> (auth_ctx \<Rightarrow> 'x handler) \<Rightarrow> 'x handler" where
  "passing r nxt st = (case r of Pass ctx \<Rightarrow> nxt ctx st | Reject n err \<Rightarrow> (st, Some (WriteError n err)) | Panic \<Rightarrow> (st, None))"

text \<open>One middleware of the gateway around the rest of its route.\<close>

primrec apply_mw :: "gw_env \<Rightarrow> http_request \<Rightarrow> middleware \<Rightarrow> (auth_ctx \<Rightarrow> 'x handler) \<Rightarrow> auth_ctx \<Rightarrow> 'x handler" where
  "apply_mw e rq AuthMW nxt ctx = passing (NewAuth (geJwt e) (Some (geService e)) (hqNow rq) (hqAuthorization rq) ctx) nxt"
| "apply_mw e rq TenantMW nxt ctx = (\<lambda>st. passing (NewTenant (geTenantEnv e) (gsTenants st) ctx) nxt st)"
| "apply_mw e rq DelegationMW nxt ctx = (\<lambda>st.
     case gateway_delegation \<lparr> rqEnv = geDelegationEnv e, rqLink = geLink e, rqNow = hqNow rq, rqCtx = delegation_ctx ctx \<rparr> (gsWorld st) of
       (w, Error n err) \<Rightarrow> (st\<lparr>gsWorld := w\<rparr>, Some (WriteError n err))
     | (w, Next _) \<Rightarrow> nxt ctx (st\<lparr>gsWorld := w\<rparr>))"
| "apply_mw e rq RateLimitMW nxt ctx = (\<lambda>st. case rate_limit e ctx st of
       (tats, RL_error n err _) \<Rightarrow> (st\<lparr>gsTats := tats\<rparr>, Some (WriteError (nat n) err))
     | (tats, RL_next _) \<Rightarrow> nxt ctx (st\<lparr>gsTats := tats\<rparr>))"
| "apply_mw e rq AuditMW nxt ctx = NewAudit (geAuditLib e) (geAuditEnv e) (hqMethod rq) (hqPath rq) ctx (nxt ctx)"
| "apply_mw e rq GuardrailsMW nxt ctx = NewGuardrails (geGuard e) (hqPath rq) ctx (hqBody rq) (nxt ctx)"
| "apply_mw e rq HITLMW nxt ctx = passing (NewHITL (hqPath rq) ctx) nxt"
| "apply_mw e rq UnconfiguredAuth nxt ctx = passing (NewAuth (geJwt e) None (hqNow rq) (hqAuthorization rq) ctx) nxt"

definition serve_route :: "gw_env \<Rightarrow> http_request \<Rightarrow> route \<Rightarrow> (auth_ctx \<Rightarrow> 'x handler) \<Rightarrow> 'x handler" where
  "serve_route e rq r h = foldr (apply_mw e rq) (roMiddlewares r) h empty_ctx"

lemma passing_simps [simp]:
  "passing (Pass ctx) nxt st = nxt ctx st" "passing (Reject n err) nxt st = (st, Some (WriteError n err))" "passing Panic nxt st = (st, None)"
  by (simp_all add: passing_def)

lemma passing_Pass [simp]: "passing (Pass ctx) nxt = nxt ctx"
  by (rule ext) simp

lemma rate_limit_world [simp]: "rate_limit e ctx (st\<lparr>gsWorld := w\<rparr>) = rate_limit e ctx st"
  by (simp add: rate_limit_def)

text \<open>The middlewares of the tenant routes, applied one around the other in the order of the table, are
  the chain of theory Middleware.\<close>

lemma after_limit_alt: "after_limit e rq ctx h = apply_mw e rq AuditMW (apply_mw e rq GuardrailsMW (apply_mw e rq HITLMW h)) ctx"
  by (simp add: after_limit_def NewHITL_def)

lemma after_tenant_alt: "after_tenant e rq ctx h st = foldr (apply_mw e rq) [DelegationMW, RateLimitMW, AuditMW, GuardrailsMW, HITLMW] h ctx st"
  by (simp add: after_tenant_def after_limit_alt split: prod.split mw_outcome.split rl_outcome.split)

lemma tenant_chain_is_chain: "foldr (apply_mw e rq) tenant_chain h empty_ctx st = chain e rq h st"
proof (cases "NewAuth (geJwt e) (Some (geService e)) (hqNow rq) (hqAuthorization rq) empty_ctx")
  case (Pass ctx)
  then show ?thesis
    by (cases "NewTenant (geTenantEnv e) (gsTenants st) ctx") (simp_all add: tenant_chain_def chain_def after_tenant_alt)
qed (simp_all add: tenant_chain_def chain_def)

subsection \<open>Every route is guarded\<close>

definition public_patterns :: "string list" where
  "public_patterns = [''/health'', ''/ready'', ''/v1/auth/login'', ''/v1/auth/super-admin/login'', ''/v1/auth/refresh'', ''/v1/auth/register'']"

definition token_patterns :: "string list" where
  "token_patterns = [''/v1/auth/logout'', ''/v1/auth/sessions'', ''/v1/admin/tenants/'', ''/v1/admin/tenants/{id}'']"

definition tool_patterns :: "string list" where
  "tool_patterns = [''/v1/admin/admin/tools'', ''/v1/admin/admin/tools/{name}'']"

lemmas route_defs = NewRouter_def auth_routes_def admin_routes_def tenants_routes_def review_routes_def chat_routes_def under_def
  using_mws_def on_def crud_def AdminTenants_RegisterRoutes_def AdminUsers_RegisterRoutes_def AdminRoles_RegisterRoutes_def
  AdminQuotas_RegisterRoutes_def AdminTools_RegisterRoutes_def

lemma route_middlewares:
  "list_all (\<lambda>r. roMiddlewares r =
     (if roPattern r \<in> set public_patterns then [] else if roPattern r \<in> set token_patterns then [AuthMW]
      else if roPattern r \<in> set tool_patterns then tenant_chain @ [UnconfiguredAuth] else tenant_chain)) (NewRouter cfg)"
  by (simp add: route_defs public_patterns_def token_patterns_def tool_patterns_def)

text \<open>C21: What stands before every handler. On whatever route of the router, whichever handlers it was
  given: six routes are open, the two probes and the four that give out tokens; four are behind the
  authentication alone, among them the administration of tenants; on every other route the request goes
  through the whole chain of middlewares, in its order, and the handler is reached only through it. The
  routes for tools go through a second authentication that has no token service.\<close>

theorem routes_guarded:
  assumes "r \<in> set (NewRouter cfg)"
  shows "if roPattern r \<in> set public_patterns then serve_route e rq r h st = h empty_ctx st
    else if roPattern r \<in> set token_patterns
      then serve_route e rq r h st = passing (NewAuth (geJwt e) (Some (geService e)) (hqNow rq) (hqAuthorization rq) empty_ctx) h st
    else if roPattern r \<in> set tool_patterns then serve_route e rq r h st = chain e rq (apply_mw e rq UnconfiguredAuth h) st
    else serve_route e rq r h st = chain e rq h st"
proof -
  have m: "roMiddlewares r = (if roPattern r \<in> set public_patterns then [] else if roPattern r \<in> set token_patterns then [AuthMW]
      else if roPattern r \<in> set tool_patterns then tenant_chain @ [UnconfiguredAuth] else tenant_chain)"
    using assms route_middlewares[of cfg] by (simp add: list_all_iff)
  have "foldr (apply_mw e rq) (tenant_chain @ [UnconfiguredAuth]) h empty_ctx st = chain e rq (apply_mw e rq UnconfiguredAuth h) st"
    unfolding foldr_append tenant_chain_is_chain by simp
  then show ?thesis by (simp add: serve_route_def m tenant_chain_is_chain)
qed

text \<open>A request without credentials.\<close>

definition demo_chat_route :: route where
  "demo_chat_route = last gateway_router"

lemma demo_chat_route: "demo_chat_route \<in> set gateway_router \<and> roPattern demo_chat_route = ''/v1/chat/completions''"
proof -
  have "gateway_router \<noteq> []" by (simp add: gateway_router_def NewRouter_def)
  moreover have "roPattern (last gateway_router) = ''/v1/chat/completions''" by code_simp
  ultimately show ?thesis by (simp add: demo_chat_route_def)
qed

theorem routes_guarded_witness:
  "serve_route demo_gw_env (demo_http_request\<lparr>hqAuthorization := []\<rparr>) demo_chat_route demo_handler demo_gw_state
    = (demo_gw_state, Some (WriteError 401 ErrUnauthorized))"
proof -
  have "roPattern demo_chat_route \<notin> set (public_patterns @ token_patterns @ tool_patterns)"
    using demo_chat_route by (simp add: public_patterns_def token_patterns_def tool_patterns_def)
  then show ?thesis
    using routes_guarded[OF conjunct1[OF demo_chat_route, unfolded gateway_router_def], of demo_gw_env "demo_http_request\<lparr>hqAuthorization := []\<rparr>" demo_handler demo_gw_state]
    by (simp add: chain_def NewAuth_def)
qed

subsection \<open>Overridden routes\<close>

definition same_route :: "route \<Rightarrow> route \<Rightarrow> bool" where
  "same_route r s = (roMethod r = roMethod s \<and> roPattern r = roPattern s)"

text \<open>The documented behaviour of the router library: it serves a request by a registered route, and a
  second registration of a method and pattern replaces the first.\<close>

definition last_registration_wins :: "(route list \<Rightarrow> string \<Rightarrow> string \<Rightarrow> route option) \<Rightarrow> bool" where
  "last_registration_wins mux = (\<forall>rs meth path r. mux rs meth path = Some r \<longrightarrow>
     (\<exists>xs ys. rs = xs @ r # ys \<and> (\<forall>s \<in> set ys. \<not> same_route r s)))"

fun effective :: "route list \<Rightarrow> route list" where
  "effective [] = []"
| "effective (r # rs) = (if list_ex (same_route r) rs then effective rs else r # effective rs)"

lemma effective_last: "\<forall>s \<in> set ys. \<not> same_route r s \<Longrightarrow> r \<in> set (effective (xs @ r # ys))"
  by (induction xs) (auto simp: list_ex_iff)

text \<open>C40: The handlers for users and roles are never reached in the gateway. Users, roles and quotas are
  registered on the same patterns, so that listing, creating, reading, changing and deleting users or
  roles is always served by the handler of quotas.\<close>

theorem users_and_roles_unreachable:
  assumes "last_registration_wins mux" and "mux gateway_router meth path = Some r"
  shows "roHandler r \<notin> Handler ` set (map (\<lambda>f. ''AdminUsers.'' @ f) [''List'', ''Create'', ''Get'', ''Update'', ''Delete'']
      @ map (\<lambda>f. ''AdminRoles.'' @ f) [''List'', ''Create'', ''Get'', ''Update'', ''Delete''])"
proof -
  obtain xs ys where rs: "gateway_router = xs @ r # ys" and ys: "\<forall>s \<in> set ys. \<not> same_route r s"
    using assms unfolding last_registration_wins_def by blast
  have "r \<in> set (effective gateway_router)" unfolding rs by (rule effective_last[OF ys])
  moreover have "list_all (\<lambda>r. roHandler r \<notin> Handler ` set (map (\<lambda>f. ''AdminUsers.'' @ f) [''List'', ''Create'', ''Get'', ''Update'', ''Delete'']
      @ map (\<lambda>f. ''AdminRoles.'' @ f) [''List'', ''Create'', ''Get'', ''Update'', ''Delete''])) (effective gateway_router)"
    by code_simp
  ultimately show ?thesis by (simp add: list_all_iff)
qed

definition exact_mux :: "route list \<Rightarrow> string \<Rightarrow> string \<Rightarrow> route option" where
  "exact_mux rs meth path = List.find (\<lambda>r. roMethod r = meth \<and> roPattern r = path) (effective rs)"

lemma effective_split: "r \<in> set (effective rs) \<Longrightarrow> \<exists>xs ys. rs = xs @ r # ys \<and> (\<forall>s \<in> set ys. \<not> same_route r s)"
proof (induction rs)
  case (Cons q rs)
  show ?case
  proof (cases "q = r \<and> \<not> list_ex (same_route q) rs")
    case True
    then show ?thesis by (intro exI[of _ "[]"] exI[of _ rs]) (auto simp: list_ex_iff)
  next
    case False
    then have "r \<in> set (effective rs)" using Cons.prems by (auto split: if_splits)
    then obtain xs ys where "rs = xs @ r # ys" "\<forall>s \<in> set ys. \<not> same_route r s" using Cons.IH by blast
    then show ?thesis by (intro exI[of _ "q # xs"] exI[of _ ys]) simp
  qed
qed simp

lemma exact_mux_law: "last_registration_wins exact_mux"
  unfolding last_registration_wins_def exact_mux_def using effective_split by (metis find_SomeD)

theorem users_and_roles_unreachable_witness:
  "\<exists>r. exact_mux gateway_router ''GET'' ''/v1/admin/'' = Some r \<and> roHandler r \<noteq> Handler ''AdminUsers.List'' \<and> roHandler r = Handler ''AdminQuotas.List''"
proof -
  have "map_option roHandler (exact_mux gateway_router ''GET'' ''/v1/admin/'') = Some (Handler ''AdminQuotas.List'')" by code_simp
  then obtain r where r: "exact_mux gateway_router ''GET'' ''/v1/admin/'' = Some r" "roHandler r = Handler ''AdminQuotas.List''" by auto
  from users_and_roles_unreachable[OF exact_mux_law r(1)] have "roHandler r \<noteq> Handler ''AdminUsers.List''" by auto
  with r show ?thesis by blast
qed

end
