(* ===== verification/Startup.thy ===== *)
theory Startup
  imports Orchestrator Sessions Classifiers Routes
begin

text \<open>
  \<open>src/internal/config/config.go\<close>, \<open>src/cmd/gateway/main.go\<close> and \<open>src/cmd/bootstrap/main.go\<close>: reading the
  configuration, putting the gateway together from it, and creating the first super admin. The
  configuration library, the drivers of Postgres and Redis and the random source are parameters; the
  environment is the list of its \<open>NAME=value\<close> texts, whose names are ASCII.
\<close>

subsection \<open>The configuration\<close>

record DatabaseConfig =
  daDSN :: string
  daMaxOpenConns :: int
  daMaxIdleConns :: int
  daConnMaxLifetime :: duration
  daConnMaxIdleTime :: duration
  daConnectTimeout :: duration
  daQueryTimeout :: duration

record RedisConfig =
  reAddr :: string
  rePassword :: string
  reDB :: int
  rePoolSize :: int
  reMinIdleConns :: int
  reDialTimeout :: duration
  reReadTimeout :: duration
  reWriteTimeout :: duration
  rePoolTimeout :: duration

record KeyRotationConfig =
  kyEnabled :: bool
  kyCurrentKID :: string
  kyKeys :: "string \<rightharpoonup> string"

record JWTConfig =
  jcSecret :: string
  jcIssuer :: string
  jcAudience :: string
  jcAccessTTL :: duration
  jcRefreshTTL :: duration
  jcKeyRotation :: KeyRotationConfig

record RateLimitSection =
  rlTenantRequests :: int
  rlTenantTokens :: int
  rlTenantToolExecs :: int
  rlUserRequests :: int
  rlUserTokens :: int
  rlUserToolExecs :: int
  rlRoleRequests :: int
  rlRoleTokens :: int
  rlRoleToolExecs :: int
  rlFailOpen :: bool

record GuardrailsSection =
  gtLocal :: GuardrailsConfig
  gtWordlistEnabled :: bool
  gtWordlistFile :: string
  gtExternal :: "ExternalClassifierConfig option"
  gtComposite :: CompositeConfig

record HITLSection =
  htDefaultTTL :: duration
  htSSEHeartbeatInterval :: duration
  htCleanupInterval :: duration

record OTelConfig =
  otServiceName :: string
  otExporterType :: string
  otExporterEndpoint :: string
  otTracingEnabled :: bool
  otSampleRate :: float64
  otMetricsEnabled :: bool
  otMetricsEndpoint :: string

record ServerConfig =
  svAddr :: string
  svEnv :: string
  svReadTimeout :: duration
  svWriteTimeout :: duration
  svIdleTimeout :: duration
  svShutdownTimeout :: duration

record Config =
  cfDatabase :: DatabaseConfig
  cfRedis :: RedisConfig
  cfJWT :: JWTConfig
  cfRateLimit :: RateLimitSection
  cfGuardrails :: GuardrailsSection
  cfHITL :: HITLSection
  cfOTel :: OTelConfig
  cfServer :: ServerConfig
  cfRouter :: RouterConfig
  cfPricing :: PricingConfig
  cfTool :: ToolConfig

text \<open>The operations of the configuration library: reading the file, setting a key, loading the flags,
  and filling the structure.\<close>

record 'k koanf =
  kfFile :: "string \<Rightarrow> 'k result"
  kfSet :: "string \<Rightarrow> string \<Rightarrow> 'k \<Rightarrow> 'k"
  kfFlags :: "'k \<Rightarrow> 'k result"
  kfUnmarshal :: "'k \<Rightarrow> Config result"

text \<open>\<open>strings.SplitN(e, "=", 2)\<close>, when it gives two parts.\<close>

definition split_equals :: "string \<Rightarrow> (string \<times> string) option" where
  "split_equals e = (let k = takeWhile (\<lambda>c. c \<noteq> CHR ''='') e in
     if length k = length e then None else Some (k, drop (Suc (length k)) e))"

definition env_key :: "string \<Rightarrow> string" where
  "env_key key = map (\<lambda>c. if c = CHR ''_'' then CHR ''.'' else c) (map ascii_lower (drop 3 key))"

fun env_settings :: "string list \<Rightarrow> (string \<times> string) list" where
  "env_settings [] = []"
| "env_settings (e # es) = (case split_equals e of
     None \<Rightarrow> env_settings es
   | Some (key, val) \<Rightarrow> if take 3 key = ''AG_'' then (env_key key, val) # env_settings es else env_settings es)"

definition getenv :: "string list \<Rightarrow> string \<Rightarrow> string" where
  "getenv environ name = (case List.find (\<lambda>e. map_option fst (split_equals e) = Some name) environ of
     None \<Rightarrow> [] | Some e \<Rightarrow> snd (the (split_equals e)))"

fun join_comma :: "string list \<Rightarrow> string" where
  "join_comma [] = []"
| "join_comma [s] = s"
| "join_comma (s # ss) = s @ '', '' @ join_comma ss"

definition validateOldToolFuelEnvVars :: "string list \<Rightarrow> go_error option" where
  "validateOldToolFuelEnvVars environ =
     (let found = filter (\<lambda>v. getenv environ v \<noteq> []) [''TOOL_DEFAULT_FUEL'', ''TOOL_MAX_FUEL''] in
      if length found > 0 then Some (Errorf (''deprecated environment variables detected: '' @ join_comma found
        @ ''. These were replaced by execution_timeout_ms in migration 0019. Please use TOOL_DEFAULT_TIMEOUT_MS and TOOL_MAX_TIMEOUT_MS instead''))
      else None)"

definition Load :: "'k koanf \<Rightarrow> string list \<Rightarrow> string \<Rightarrow> Config result" where
  "Load K environ configPath = (case kfFile K configPath of
     Inl e \<Rightarrow> Inl e
   | Inr k \<Rightarrow>
       let k = fold (\<lambda>(key, val). kfSet K key val) (env_settings environ) k in
       case validateOldToolFuelEnvVars environ of
         Some e \<Rightarrow> Inl e
       | None \<Rightarrow> (case kfFlags K k of Inl e \<Rightarrow> Inl e | Inr k \<Rightarrow> kfUnmarshal K k))"

subsection \<open>Connections\<close>

text \<open>The settings of the pool; the limits are cut to 32 bits.\<close>

record pool_config =
  poDSN :: string
  poMaxConns :: "32 word"
  poMinConns :: "32 word"
  poMaxConnLifetime :: duration
  poMaxConnIdleTime :: duration

record pg_driver =
  pdParses :: "string \<Rightarrow> go_error option"
  pdConnect :: "pool_config \<Rightarrow> duration \<Rightarrow> go_error option"
  pdPing :: "pool_config \<Rightarrow> duration \<Rightarrow> go_error option"

definition initDB :: "pg_driver \<Rightarrow> DatabaseConfig \<Rightarrow> pool_config result" where
  "initDB D cfg = (case pdParses D (daDSN cfg) of
     Some e \<Rightarrow> Inl e
   | None \<Rightarrow>
       let pc = \<lparr> poDSN = daDSN cfg, poMaxConns = word_of_int (daMaxOpenConns cfg), poMinConns = word_of_int (daMaxIdleConns cfg),
         poMaxConnLifetime = daConnMaxLifetime cfg, poMaxConnIdleTime = daConnMaxIdleTime cfg \<rparr> in
       case pdConnect D pc (daConnectTimeout cfg) of
         Some e \<Rightarrow> Inl e
       | None \<Rightarrow> (case pdPing D pc (daConnectTimeout cfg) of Some e \<Rightarrow> Inl e | None \<Rightarrow> Inr pc))"

definition initRedis :: "(RedisConfig \<Rightarrow> duration \<Rightarrow> go_error option) \<Rightarrow> RedisConfig \<Rightarrow> RedisConfig result" where
  "initRedis ping cfg = (case ping cfg (reDialTimeout cfg) of Some e \<Rightarrow> Inl e | None \<Rightarrow> Inr cfg)"

subsection \<open>Putting the gateway together\<close>

text \<open>\<open>BuildChatUsecaseFromConfig\<close>: the registry of providers and the use case over it. None is the nil
  dereference of an ill-formed registry.\<close>

definition BuildChatUsecaseFromConfig ::
  "RouterConfig \<Rightarrow> ToolConfig \<Rightarrow> PricingService \<Rightarrow> (ChatUsecase \<times> ProviderRegistry) result option" where
  "BuildChatUsecaseFromConfig cfg toolCfg pricing = (case BuildRegistryFromConfig cfg of
     None \<Rightarrow> None
   | Some (Inl e) \<Rightarrow> Some (Inl (Wrapf ''build registry'' e))
   | Some (Inr r) \<Rightarrow> Some (Inr (NewChatUsecase (NewFallbackChain cfg) pricing True (Some toolCfg) True (tcfMaxIterations toolCfg), r)))"

text \<open>What surrounds the start: the drivers, the outcome of \<open>rand.Read\<close> for 32 bytes, and the libraries.\<close>

record start_env =
  seDriver :: pg_driver
  seRedisPing :: "RedisConfig \<Rightarrow> duration \<Rightarrow> go_error option"
  seRandom :: "byte list"
  seGuardLib :: guard_lib
  seClassLib :: class_lib

record gateway =
  gwAuth :: AuthService
  gwStreamKey :: "byte list"
  gwReviewTTL :: duration
  gwPricing :: PricingService
  gwChat :: ChatUsecase
  gwRegistry :: ProviderRegistry
  gwFailOpen :: bool
  gwLocal :: LocalGuardrail
  gwExternal :: "ext_classifier option"
  gwComposite :: CompositeConfig
  gwMaxDepth :: int
  gwMaxFanOut :: int
  gwRoutes :: "route list"

text \<open>A start that ends with \<open>logger.Fatal\<close>, with a panic, or with a gateway that listens.\<close>

datatype 'a start = Running 'a | Fatal string go_error | Start_panic

definition signing_key :: "byte list \<Rightarrow> string \<Rightarrow> byte list" where
  "signing_key random secret = (let key = map of_char secret in if length key = 0 then random else key)"

definition gateway_main :: "'k koanf \<Rightarrow> string list \<Rightarrow> start_env \<Rightarrow> gateway start" where
  "gateway_main K environ E = (case Load K environ ''configs/config.yaml'' of
     Inl _ \<Rightarrow> Start_panic
   | Inr cfg \<Rightarrow> (case initDB (seDriver E) (cfDatabase cfg) of
       Inl e \<Rightarrow> Fatal ''Failed to initialize database'' e
     | Inr pool \<Rightarrow> (case initRedis (seRedisPing E) (cfRedis cfg) of
         Inl e \<Rightarrow> Fatal ''Failed to initialize Redis'' e
       | Inr _ \<Rightarrow>
           let key = signing_key (seRandom E) (jcSecret (cfJWT cfg)) in
           (case NewService (cfPricing cfg) of
              Inl e \<Rightarrow> Fatal ''Failed to initialize pricing service'' e
            | Inr pricing \<Rightarrow> (case BuildChatUsecaseFromConfig (cfRouter cfg) (cfTool cfg) pricing of
                None \<Rightarrow> Start_panic
              | Some (Inl e) \<Rightarrow> Fatal ''Failed to initialize chat usecase'' e
              | Some (Inr (chat, r)) \<Rightarrow> Running \<lparr>
                  gwAuth = NewAuthService (NewKeyStore ''v1'' key (Some [''v1'' \<mapsto> key])) (jcIssuer (cfJWT cfg)) (jcAudience (cfJWT cfg)),
                  gwStreamKey = key, gwReviewTTL = htDefaultTTL (cfHITL cfg), gwPricing = pricing, gwChat = chat, gwRegistry = r,
                  gwFailOpen = rlFailOpen (cfRateLimit cfg),
                  gwLocal = NewLocalGuardrail (seGuardLib E) (gtLocal (cfGuardrails cfg)),
                  gwExternal = externalClassifier (seClassLib E) (gtExternal (cfGuardrails cfg)),
                  gwComposite = gtComposite (cfGuardrails cfg),
                  gwMaxDepth = 5, gwMaxFanOut = 10, gwRoutes = gateway_router \<rparr>)))))"

subsection \<open>The first super admin\<close>

text \<open>The database function \<open>bootstrap_super_admin\<close>: NULL when there is an admin with that email.\<close>

definition SqlBootstrapSuperAdmin :: "(string \<Rightarrow> string) \<Rightarrow> uuid \<Rightarrow> string \<Rightarrow> string \<Rightarrow> (auth_db, uuid option) db_call" where
  "SqlBootstrapSuperAdmin foldcase newID email hash db =
     (if list_ex (\<lambda>r. foldcase (adEmail r) = foldcase email) (dbAdmins db) then (db, Inr None)
      else if list_ex (\<lambda>r. adID r = newID) (dbAdmins db) then (db, Inl (PgError ''23505'' ''duplicate key''))
      else (db\<lparr>dbAdmins := dbAdmins db @ [\<lparr> adID = newID, adEmail = email, adPasswordHash = hash \<rparr>]\<rparr>, Inr (Some newID)))"

text \<open>Scanning a NULL into a string is an error.\<close>

definition scan_id :: "uuid option \<Rightarrow> string result" where
  "scan_id x = (case x of None \<Rightarrow> Inl (Errorf ''cannot scan NULL into *string'') | Some u \<Rightarrow> Inr (UUID_String u))"

definition bootstrap_main ::
  "'k koanf \<Rightarrow> string list \<Rightarrow> string \<Rightarrow> auth_lib \<Rightarrow> pg_driver \<Rightarrow> auth_env \<Rightarrow> string \<Rightarrow> string \<Rightarrow> auth_db \<Rightarrow> auth_db \<times> string start" where
  "bootstrap_main K environ path L D e email password db = (case Load K environ path of
     Inl _ \<Rightarrow> (db, Start_panic)
   | Inr cfg \<Rightarrow>
       if length password < 8 then (db, Fatal ''Password must be at least 8 characters'' (Errorf []))
       else (case HashPassword (auIdkey L) (xeSalt e) password (Some DefaultParams) of
           None \<Rightarrow> (db, Start_panic)
         | Some (Inl err) \<Rightarrow> (db, Fatal ''Failed to hash password'' err)
         | Some (Inr phcHash) \<Rightarrow> (case initDB D (cfDatabase cfg) of
             Inl err \<Rightarrow> (db, Fatal ''Failed to initialize database'' err)
           | Inr _ \<Rightarrow> (case stmt (xeUser e) (SqlBootstrapSuperAdmin (auFold L) (xeNewID e) email phcHash) db of
               (db', Inl err) \<Rightarrow> (db', Fatal ''Failed to create Super Admin'' err)
             | (db', Inr x) \<Rightarrow> (case scan_id x of
                 Inl err \<Rightarrow> (db', Fatal ''Failed to create Super Admin'' err)
               | Inr superAdminID \<Rightarrow>
                   if superAdminID = [] then (db', Fatal (''Super Admin with email '' @ email @ '' already exists'') (Errorf []))
                   else (db', Running superAdminID))))))"

subsection \<open>Keys from the environment\<close>

text \<open>Every underscore of a variable becomes a dot, so that no variable sets a key that contains one, such
  as \<open>ratelimit.fail_open\<close> or \<open>jwt.access_ttl\<close>.\<close>

lemma env_key_plain: "CHR ''_'' \<notin> set (env_key key)"
  by (auto simp: env_key_def)

lemma underscore_keys_not_set: "(key, val) \<in> set (env_settings environ) \<Longrightarrow> CHR ''_'' \<notin> set key"
  by (induction environ) (auto simp: env_key_plain split: option.splits if_splits)

subsection \<open>When the gateway starts\<close>

lemma build_loop_known:
  "build_loop pcs r = Some (Inr r') \<Longrightarrow> pc \<in> set pcs \<Longrightarrow> pcEnabled pc \<Longrightarrow> \<not> isl (createProviderFromConfig pc)"
  by (induction pcs arbitrary: r) (auto split: if_splits sum.splits option.splits)

lemma build_loop_disabled: "list_all (\<lambda>pc. \<not> pcEnabled pc) pcs \<Longrightarrow> build_loop pcs r = Some (Inr r)"
  by (induction pcs) auto

definition providers_known :: "RouterConfig \<Rightarrow> bool" where
  "providers_known cfg = (list_ex pcEnabled (rcProviders cfg)
     \<and> list_all (\<lambda>pc. pcEnabled pc \<longrightarrow> pcType pc \<in> {''openai'', ''anthropic'', ''ollama'', ''mock''}) (rcProviders cfg))"

lemma isl_create: "isl (createProviderFromConfig pc) = (pcType pc \<notin> {''openai'', ''anthropic'', ''ollama'', ''mock''})"
  by (simp add: createProviderFromConfig_def)

lemma registry_built_iff: "(\<exists>r. BuildRegistryFromConfig cfg = Some (Inr r)) = providers_known cfg"
proof
  assume "\<exists>r. BuildRegistryFromConfig cfg = Some (Inr r)"
  then obtain r where b: "build_loop (rcProviders cfg) NewProviderRegistry = Some (Inr r)" and p: "prPriority r \<noteq> []"
    by (auto simp: BuildRegistryFromConfig_def split: option.splits sum.splits if_splits)
  have "\<not> list_all (\<lambda>pc. \<not> pcEnabled pc) (rcProviders cfg)"
    using build_loop_disabled[of "rcProviders cfg" NewProviderRegistry] b p by (auto simp: NewProviderRegistry_def)
  then show "providers_known cfg"
    using build_loop_known[OF b] by (auto simp: providers_known_def list_ex_iff list_all_iff isl_create)
next
  assume k: "providers_known cfg"
  have "list_all (\<lambda>pc. pcEnabled pc \<longrightarrow> \<not> isl (createProviderFromConfig pc)) (rcProviders cfg)"
    using k by (simp add: providers_known_def list_all_iff isl_create)
  from registry_built_in_order[OF this] k show "\<exists>r. BuildRegistryFromConfig cfg = Some (Inr r)"
    by (auto simp: providers_known_def list_ex_iff list_all_iff split: option.splits sum.splits)
qed

lemma registry_built_ok: "BuildRegistryFromConfig cfg = Some (Inr r) \<Longrightarrow> registry_ok r \<and> prPriority r \<noteq> []"
proof -
  assume b: "BuildRegistryFromConfig cfg = Some (Inr r)"
  then have "providers_known cfg" using registry_built_iff by blast
  then have "list_all (\<lambda>pc. pcEnabled pc \<longrightarrow> \<not> isl (createProviderFromConfig pc)) (rcProviders cfg)"
    by (simp add: providers_known_def list_all_iff isl_create)
  from registry_built_in_order[OF this] b show ?thesis by simp
qed

definition can_start :: "'k koanf \<Rightarrow> string list \<Rightarrow> start_env \<Rightarrow> bool" where
  "can_start K environ E = (case Load K environ ''configs/config.yaml'' of
     Inl _ \<Rightarrow> False
   | Inr cfg \<Rightarrow> \<not> isl (initDB (seDriver E) (cfDatabase cfg)) \<and> \<not> isl (initRedis (seRedisPing E) (cfRedis cfg))
      \<and> \<not> isl (NewService (cfPricing cfg)) \<and> providers_known (cfRouter cfg))"

lemma BuildChat_cases:
  "BuildChatUsecaseFromConfig cfg tc pricing = None \<Longrightarrow> \<not> providers_known cfg"
  "BuildChatUsecaseFromConfig cfg tc pricing = Some (Inl e) \<Longrightarrow> \<not> providers_known cfg"
  "BuildChatUsecaseFromConfig cfg tc pricing = Some (Inr (chat, r)) \<Longrightarrow> providers_known cfg \<and> registry_ok r \<and> prPriority r \<noteq> []"
  using registry_built_iff[of cfg] registry_built_ok[of cfg]
  by (auto simp: BuildChatUsecaseFromConfig_def split: option.splits sum.splits)

lemma gateway_keys: "gateway_main K environ E = Running g \<Longrightarrow> keystore_ok (asKeystore (gwAuth g))"
  by (auto simp: gateway_main_def Let_def NewAuthService_def keystore_ok_new split: sum.splits option.splits prod.splits)


subsection \<open>The super admin\<close>

lemma bootstrap_Running:
  assumes "bootstrap_main K environ path L D e email password db = (db', Running i)"
  obtains hash where "HashPassword (auIdkey L) (xeSalt e) password (Some DefaultParams) = Some (Inr hash)" "8 \<le> length password"
    "\<not> list_ex (\<lambda>r. auFold L (adEmail r) = auFold L email) (dbAdmins db)" "i = UUID_String (xeNewID e)"
    "db' = db\<lparr>dbAdmins := dbAdmins db @ [\<lparr> adID = xeNewID e, adEmail = email, adPasswordHash = hash \<rparr>]\<rparr>"
proof -
  obtain hash where h: "HashPassword (auIdkey L) (xeSalt e) password (Some DefaultParams) = Some (Inr hash)" and l: "8 \<le> length password"
    and q: "\<exists>x. stmt (xeUser e) (SqlBootstrapSuperAdmin (auFold L) (xeNewID e) email hash) db = (db', Inr x) \<and> scan_id x = Inr i"
    using assms by (auto simp: bootstrap_main_def split: sum.splits if_splits option.splits prod.splits)
  then obtain u where u: "stmt (xeUser e) (SqlBootstrapSuperAdmin (auFold L) (xeNewID e) email hash) db = (db', Inr (Some u))" "i = UUID_String u"
    by (auto simp: scan_id_def split: option.splits)
  then have "SqlBootstrapSuperAdmin (auFold L) (xeNewID e) email hash db = (db', Inr (Some u))"
    using stmt_answered[of "xeUser e" "SqlBootstrapSuperAdmin (auFold L) (xeNewID e) email hash" db "Some u"]
      fst_stmt[of "xeUser e" "SqlBootstrapSuperAdmin (auFold L) (xeNewID e) email hash" db] by (simp add: prod_eq_iff)
  then show ?thesis using that[OF h l] u(2) by (auto simp: SqlBootstrapSuperAdmin_def split: if_splits)
qed

lemma bootstrap_existing:
  assumes "list_ex (\<lambda>r. auFold L (adEmail r) = auFold L email) (dbAdmins db)"
  shows "snd (bootstrap_main K environ path L D e email password db) \<noteq> Fatal (''Super Admin with email '' @ email @ '' already exists'') (Errorf [])"
  using assms
  by (auto simp: bootstrap_main_def SqlBootstrapSuperAdmin_def scan_id_def stmt_def split: sum.splits if_splits option.splits prod.splits)

lemma find_last: "\<not> list_ex P xs \<Longrightarrow> P x \<Longrightarrow> List.find P (xs @ [x]) = Some x"
  by (induction xs) auto

lemma bearer_prefix: "bearer (''Bearer '' @ tok) = Some tok"
  by (simp add: bearer_def split_space_def equal_fold_def)

text \<open>C31: The first super admin gets in, and how far. The admin that the bootstrap command created can log in
  to a running gateway with that email and password; the token it is given is accepted by the
  authentication, as super admin, until it expires; and the tenant middleware refuses it, so that it
  opens the administration of tenants and no route of a tenant.\<close>

theorem bootstrapped_admin_admitted:
  assumes "bootstrap_main K environ path L D e email password db = (db', Running i)" and "wf_uuid (xeNewID e)"
    and "gateway_main K' environ' E = Running g" and "asAudience (gwAuth g) \<noteq> []"
    and "argon2_sized (auIdkey L)" and "jwt_lawful (auJwt L)"
    and "IssueSuperAdminToken (auJwt L) (gwAuth g) (xeNow e') (xeNewID e) = Inr tok" and "calm (xeUser e')"
    and "xeNow e' \<le> now" and "now < (xeNow e' + access_ttl) div sec * sec"
  shows "\<exists>resp ctx. SuperAdminLogin L (gwAuth g) e' email password db' = (db', Some (Inr resp)) \<and> lpAccessToken resp = tok
    \<and> NewAuth (auJwt L) (Some (gwAuth g)) now (''Bearer '' @ lpAccessToken resp) empty_ctx = Pass ctx
    \<and> axRole ctx = Some ''super_admin'' \<and> axUserID ctx = Some (xeNewID e) \<and> NewTenant env ts ctx = Reject 401 ErrUnauthorized"
proof -
  from bootstrap_Running[OF assms(1)] obtain hash where h: "HashPassword (auIdkey L) (xeSalt e) password (Some DefaultParams) = Some (Inr hash)"
    and n: "\<not> list_ex (\<lambda>r. auFold L (adEmail r) = auFold L email) (dbAdmins db)"
    and db': "db' = db\<lparr>dbAdmins := dbAdmins db @ [\<lparr> adID = xeNewID e, adEmail = email, adPasswordHash = hash \<rparr>]\<rparr>" by metis
  have v: "VerifyPassword (auIdkey L) password hash = Some None"
    using hash_verifies[OF assms(5) h] h by (auto simp: HashPassword_def Let_def split: sum.splits option.splits)
  have f: "List.find (\<lambda>r. auFold L (adEmail r) = auFold L email) (dbAdmins db') = Some \<lparr> adID = xeNewID e, adEmail = email, adPasswordHash = hash \<rparr>"
    unfolding db' using find_last[OF n] by simp
  obtain tok' where "SuperAdminLogin L (gwAuth g) e' email password db' = (db', Some (Inr \<lparr> lpAccessToken = tok, lpRefreshToken = tok', lpExpiresIn = 900 \<rparr>))"
    by (simp add: SuperAdminLogin_def stmt_calm[OF assms(8)] f v assms(7) IssueRefreshToken_def Let_def)
  moreover have k: "keystore_ok (asKeystore (gwAuth g))" using gateway_keys[OF assms(3)] .
  have "ParseAccessToken (auJwt L) (gwAuth g) now tok = Inr (registered (gwAuth g) (xeNow e') (user_claims (UUID_String (xeNewID e)) [] ''super_admin'' [''*'']))"
    using issued_token_lifetime[OF assms(6) k assms(4) assms(7)[unfolded IssueSuperAdminToken_def], of "[]" now] assms(9,10)
    by (simp add: rotate_keys_def)
  then have "NewAuth (auJwt L) (Some (gwAuth g)) now (''Bearer '' @ tok) empty_ctx =
      Pass (claims_ctx (registered (gwAuth g) (xeNow e') (user_claims (UUID_String (xeNewID e)) [] ''super_admin'' [''*''])) (xeNewID e) zero_uuid empty_ctx)"
    unfolding NewAuth_Pass using assms(2) bearer_prefix[of tok] by (simp add: registered_def user_claims_def parse_string)
  ultimately show ?thesis
    by (intro exI[of _ "\<lparr> lpAccessToken = tok, lpRefreshToken = tok', lpExpiresIn = 900 \<rparr>"]
        exI[of _ "claims_ctx (registered (gwAuth g) (xeNow e') (user_claims (UUID_String (xeNewID e)) [] ''super_admin'' [''*''])) (xeNewID e) zero_uuid empty_ctx"])
      (simp add: claims_ctx_def registered_def user_claims_def NewTenant_def empty_ctx_def)
qed

text \<open>A configuration, a database that answers, and a signing library for one token.\<close>

definition demo_config :: Config where
  "demo_config = \<lparr>
     cfDatabase = \<lparr> daDSN = ''postgres'', daMaxOpenConns = 10, daMaxIdleConns = 2, daConnMaxLifetime = 0, daConnMaxIdleTime = 0, daConnectTimeout = second,
       daQueryTimeout = 0 \<rparr>,
     cfRedis = \<lparr> reAddr = ''redis'', rePassword = [], reDB = 0, rePoolSize = 4, reMinIdleConns = 0, reDialTimeout = second, reReadTimeout = 0,
       reWriteTimeout = 0, rePoolTimeout = 0 \<rparr>,
     cfJWT = \<lparr> jcSecret = ''key'', jcIssuer = ''gw'', jcAudience = ''api'', jcAccessTTL = 0, jcRefreshTTL = 0,
       jcKeyRotation = \<lparr> kyEnabled = False, kyCurrentKID = [], kyKeys = Map.empty \<rparr> \<rparr>,
     cfRateLimit = \<lparr> rlTenantRequests = 0, rlTenantTokens = 0, rlTenantToolExecs = 0, rlUserRequests = 0, rlUserTokens = 0, rlUserToolExecs = 0,
       rlRoleRequests = 0, rlRoleTokens = 0, rlRoleToolExecs = 0, rlFailOpen = False \<rparr>,
     cfGuardrails = \<lparr> gtLocal = demo_guard_cfg, gtWordlistEnabled = False, gtWordlistFile = [], gtExternal = None, gtComposite = DefaultCompositeConfig \<rparr>,
     cfHITL = \<lparr> htDefaultTTL = second, htSSEHeartbeatInterval = 0, htCleanupInterval = 0 \<rparr>,
     cfOTel = \<lparr> otServiceName = [], otExporterType = [], otExporterEndpoint = [], otTracingEnabled = False, otSampleRate = 0,
       otMetricsEnabled = False, otMetricsEndpoint = [] \<rparr>,
     cfServer = \<lparr> svAddr = [], svEnv = [], svReadTimeout = 0, svWriteTimeout = 0, svIdleTimeout = 0, svShutdownTimeout = 0 \<rparr>,
     cfRouter = demo_router, cfPricing = DefaultPricingConfig,
     cfTool = \<lparr> tcfMaxIterations = 5, tcfDefaultTimeoutMs = 0, tcfDefaultMemoryPages = 0, tcfCacheTTL = 0, tcfCacheMaxEntries = 0, tcfTools = [] \<rparr> \<rparr>"

definition demo_koanf :: "unit koanf" where
  "demo_koanf = \<lparr> kfFile = (\<lambda>p. Inr ()), kfSet = (\<lambda>k v u. ()), kfFlags = (\<lambda>u. Inr ()), kfUnmarshal = (\<lambda>u. Inr demo_config) \<rparr>"

definition demo_driver :: pg_driver where
  "demo_driver = \<lparr> pdParses = (\<lambda>d. None), pdConnect = (\<lambda>p d. None), pdPing = (\<lambda>p d. None) \<rparr>"

definition demo_start :: start_env where
  "demo_start = \<lparr> seDriver = demo_driver, seRedisPing = (\<lambda>c d. None), seRandom = [], seGuardLib = plain_guard_lib, seClassLib = ascii_lib [] \<rparr>"

definition one_token :: "AuthService \<Rightarrow> Claims \<Rightarrow> jwt_lib" where
  "one_token s c = \<lparr>
     jlSign = (\<lambda>alg kid key c'. if alg = HS256 \<and> kid = ksCurrentKID (asKeystore s) \<and> key = ksSigningKey (asKeystore s) \<and> c' = c
       then Inr ''t'' else Inl (Errorf ''key is of invalid type'')),
     jlParse = (\<lambda>now iss aud kf tok. if tok = ''t'' \<and> kf HS256 (Some (ksCurrentKID (asKeystore s))) = Inr (ksSigningKey (asKeystore s))
         \<and> claims_ok now iss aud c
       then Inr c else Inl (Errorf ''token is malformed'')),
     jlAuthentic = (\<lambda>alg key tok. tok = ''t'') \<rparr>"

lemma one_token_lawful: "jwt_lawful (one_token s c)"
  by (auto simp: jwt_lawful_def one_token_def split: if_splits)

lemma demo_gateway_runs: "\<exists>g. gateway_main demo_koanf [] demo_start = Running g \<and> asAudience (gwAuth g) = ''api''"
proof -
  have "case gateway_main demo_koanf [] demo_start of Running g \<Rightarrow> asAudience (gwAuth g) = ''api'' | _ \<Rightarrow> False" by code_simp
  then show ?thesis by (auto split: start.splits)
qed

theorem bootstrapped_admin_admitted_witness:
  "\<exists>g (L :: auth_lib) tok ctx. gateway_main demo_koanf [] demo_start = Running g
     \<and> NewAuth (auJwt L) (Some (gwAuth g)) second (''Bearer '' @ tok) empty_ctx = Pass ctx \<and> axRole ctx = Some ''super_admin''"
proof -
  obtain g where g: "gateway_main demo_koanf [] demo_start = Running g" and a: "asAudience (gwAuth g) \<noteq> []"
    using demo_gateway_runs by auto
  let ?e = "(demo_auth_env 0)\<lparr>xeNewID := zero_uuid\<rparr>"
  let ?L = "demo_auth_lib\<lparr>auJwt := one_token (gwAuth g) (registered (gwAuth g) 0 (user_claims (UUID_String zero_uuid) [] ''super_admin'' [''*'']))\<rparr>"
  have "\<exists>db'. bootstrap_main demo_koanf [] [] ?L demo_driver ?e ''root'' ''password'' demo_auth_db = (db', Running (UUID_String zero_uuid))"
    by (simp add: bootstrap_main_def demo_koanf_def Load_def validateOldToolFuelEnvVars_def getenv_def demo_auth_lib_def demo_auth_env_def
        HashPassword_def demo_idkey_def initDB_def demo_driver_def stmt_def quiet_env_def SqlBootstrapSuperAdmin_def demo_auth_db_def scan_id_def
        UUID_String_nonempty Let_def)
  then obtain db' where b: "bootstrap_main demo_koanf [] [] ?L demo_driver ?e ''root'' ''password'' demo_auth_db = (db', Running (UUID_String zero_uuid))" by blast
  have w: "wf_uuid (xeNewID ?e)" by (simp add: wf_uuid_def zero_uuid_def)
  have sized: "argon2_sized (auIdkey ?L)" by (simp add: demo_auth_lib_def argon2_sized_def demo_idkey_def)
  have law: "jwt_lawful (auJwt ?L)" by (simp add: one_token_lawful)
  have tok: "IssueSuperAdminToken (auJwt ?L) (gwAuth g) (xeNow ?e) (xeNewID ?e) = Inr ''t''"
    by (simp add: IssueSuperAdminToken_def IssueAccessToken_def GetSigningKey_def one_token_def demo_auth_env_def)
  have c: "calm (xeUser ?e)" by (simp add: demo_auth_env_def calm_def quiet_env_def)
  have t: "xeNow ?e \<le> second" "second < (xeNow ?e + access_ttl) div sec * sec"
    by (simp_all add: demo_auth_env_def second_def access_ttl_def sec_def)
  from bootstrapped_admin_admitted[OF b w g a sized law tok c t, of quiet_env "[]"] g show ?thesis by blast
qed

end
