(* ===== verification/Health.thy ===== *)
theory Health
  imports Orchestrator Classifiers
begin

text \<open>
  Health of the gateway's services: the checks of the model providers that run every 30 seconds beside
  the requests (\<open>RunHealthChecks\<close> and \<open>StartPeriodicHealthChecks\<close> of
  \<open>src/internal/usecase/chat/router.go\<close> with the providers' own \<open>HealthCheck\<close>), the statistics that report
  their outcome, the health check of the chat use case and the one of the composite guardrail. The
  properties: the statistics report the last check of every provider exactly, and no check ever changes
  the answer to a request.
\<close>

subsection \<open>Statistics\<close>

record CircuitBreakerStats =
  bsState :: CircuitBreakerState
  bsFailureCount :: int
  bsSuccessCount :: int
  bsHalfOpenRequests :: int
  bsLastFailureTime :: time

definition Stats :: "CircuitBreaker \<Rightarrow> CircuitBreakerStats" where
  "Stats cb = \<lparr> bsState = cbState cb, bsFailureCount = cbFailureCount cb, bsSuccessCount = cbSuccessCount cb,
     bsHalfOpenRequests = cbHalfOpenRequests cb, bsLastFailureTime = cbLastFailureTime cb \<rparr>"

record ProviderStats =
  paName :: string
  paType :: string
  paPriority :: int
  paEnabled :: bool
  paHealthy :: bool
  paLastHealthCheck :: time
  paCircuitBreaker :: CircuitBreakerStats
  paModels :: "string list"

definition GetProviderStats :: "ProviderRegistry \<Rightarrow> (string \<rightharpoonup> ProviderStats)" where
  "GetProviderStats r = (\<lambda>name. map_option (\<lambda>p. \<lparr> paName = name, paType = pcType (rgConfig p),
     paPriority = pcPriority (rgConfig p), paEnabled = pcEnabled (rgConfig p), paHealthy = rgHealthStatus p,
     paLastHealthCheck = rgLastHealthCheck p, paCircuitBreaker = Stats (rgCircuitBreaker p),
     paModels = pcModels (rgConfig p) \<rparr>) (prProviders r name))"

subsection \<open>Checks of the providers\<close>

primrec provider_HealthCheck :: "http_lib \<Rightarrow> call_ctx \<Rightarrow> provider \<Rightarrow> go_error option" where
  "provider_HealthCheck H ctx (POpenAI c) = OpenAI_HealthCheck H ctx c"
| "provider_HealthCheck H ctx (PAnthropic c) = Anthropic_HealthCheck c"
| "provider_HealthCheck H ctx (POllama c) = Ollama_HealthCheck c"
| "provider_HealthCheck H ctx (PMock p) = Mock_HealthCheck p"

text \<open>When the check of a provider in the n-th round starts and ends. The context of a check ends with
  the time-out of the provider.\<close>

record round_env =
  reStart :: "nat \<Rightarrow> string \<Rightarrow> time"
  reEnd :: "nat \<Rightarrow> string \<Rightarrow> time"

definition check_ctx :: "round_env \<Rightarrow> nat \<Rightarrow> ProviderConfig \<Rightarrow> call_ctx" where
  "check_ctx env n config = \<lparr> ccNow = reStart env n (pcName config), ccEnd = reEnd env n (pcName config),
     ccDeadline = Some (reStart env n (pcName config) + pcTimeout config), ccCancel = None \<rparr>"

definition check_outcome :: "http_lib \<Rightarrow> round_env \<Rightarrow> nat \<Rightarrow> ProviderConfig \<Rightarrow> go_error option" where
  "check_outcome H env n config = (case create_provider config of
     Inl e \<Rightarrow> Some e
   | Inr q \<Rightarrow> provider_HealthCheck H (check_ctx env n config) q)"

text \<open>One tick of \<open>StartPeriodicHealthChecks\<close>. The registry holds the provider made from its entry's
  configuration.\<close>

definition health_round :: "http_lib \<Rightarrow> round_env \<Rightarrow> nat \<Rightarrow> ProviderRegistry \<Rightarrow> ProviderRegistry" where
  "health_round H env n r = RunHealthChecks (reEnd env n)
     (\<lambda>name. case prProviders r name of None \<Rightarrow> None | Some p \<Rightarrow> check_outcome H env n (rgConfig p)) r"

text \<open>The gateway at work: requests are answered while the ticker runs. A check stores its outcome under
  the lock of the registry and a request touches the breakers only, so a round counts as one step; \<open>n\<close>
  counts the rounds.\<close>

datatype traffic = is_Tick: Tick | Request attempt_env ModelRequest

fun monitored ::
  "prov_lib \<Rightarrow> round_env \<Rightarrow> FallbackChain \<Rightarrow> traffic list \<Rightarrow> nat \<Rightarrow> ProviderRegistry
    \<Rightarrow> (ProviderRegistry \<times> (FallbackResult \<times> go_error option) list) option"
where
  "monitored L env fc [] n r = Some (r, [])"
| "monitored L env fc (Tick # es) n r = monitored L env fc es (Suc n) (health_round (plHttp L) env n r)"
| "monitored L env fc (Request a req # es) n r =
     (case ExecuteWithFallback fc (provider_attempts L r a) req r of
        None \<Rightarrow> None
      | Some (r', answer) \<Rightarrow> map_option (apsnd ((#) answer)) (monitored L env fc es n r'))"

subsection \<open>Checks of the chat use case and of the guardrail\<close>

text \<open>\<open>ChatUsecase.HealthCheck\<close>: some provider is enabled and let through by its breaker.\<close>

definition Chat_HealthCheck :: "time \<Rightarrow> ProviderRegistry \<Rightarrow> (ProviderRegistry \<times> go_error option) option" where
  "Chat_HealthCheck now r = (case GetHealthyProviders now r of
     None \<Rightarrow> None
   | Some (r', providers) \<Rightarrow> Some (r', if providers = [] then Some ErrNoHealthyProvider else None))"

lemma Chat_HealthCheck_exact:
  assumes "registry_ok r"
  shows "\<exists>r'. Chat_HealthCheck now r = Some (r', if filter (passes now (prProviders r)) (prPriority r) = [] then Some ErrNoHealthyProvider else None)"
  by (simp add: Chat_HealthCheck_def GetHealthyProviders_eq[OF assms])

primrec classifier_HealthCheck :: "class_lib \<Rightarrow> ext_env \<Rightarrow> ext_classifier \<Rightarrow> ext_classifier \<times> go_error option" where
  "classifier_HealthCheck L env (XOpenAI c h) = apfst (XOpenAI c) (OpenAI_classifier_HealthCheck L env c h)"
| "classifier_HealthCheck L env (XAnthropic c h) = apfst (XAnthropic c) (Anthropic_classifier_HealthCheck L env c h)"
| "classifier_HealthCheck L env (XLlamaGuard c h) = apfst (XLlamaGuard c) (LlamaGuard_HealthCheck L env c h)"
| "classifier_HealthCheck L env (XLocal c) = (XLocal c, None)"

fun space_separated :: "string list \<Rightarrow> string" where
  "space_separated [] = []"
| "space_separated [s] = s"
| "space_separated (s # ss) = s @ '' '' @ space_separated ss"

text \<open>\<open>CompositeGuardrail.HealthCheck\<close>: the errors of both parts, printed as a list. The local guardrail
  is always ready.\<close>

definition Composite_HealthCheck :: "go_error option option \<Rightarrow> go_error option option \<Rightarrow> go_error option" where
  "Composite_HealthCheck loc ext =
     (let errs = (case loc of Some (Some e) \<Rightarrow> [Wrapf ''local'' e] | _ \<Rightarrow> [])
               @ (case ext of Some (Some e) \<Rightarrow> [Wrapf ''external'' e] | _ \<Rightarrow> [])
      in if errs = [] then None
         else Some (Errorf (''health check failed: ['' @ space_separated (map error_text errs) @ '']'')))"

definition guardrail_health :: "class_lib \<Rightarrow> ext_env \<Rightarrow> ExternalClassifierConfig option \<Rightarrow> go_error option" where
  "guardrail_health L env z =
     Composite_HealthCheck (Some None) (map_option (snd \<circ> classifier_HealthCheck L env) (externalClassifier L z))"

lemma guardrail_health_follows_classifier:
  "guardrail_health L env z = None \<longleftrightarrow>
     (case externalClassifier L z of None \<Rightarrow> True | Some c \<Rightarrow> snd (classifier_HealthCheck L env c) = None)"
  by (auto simp: guardrail_health_def Composite_HealthCheck_def Let_def split: option.splits)

subsection \<open>Health does not route\<close>

text \<open>A registry without what the checks have found.\<close>

definition wipe :: "RegisteredProvider \<Rightarrow> RegisteredProvider" where
  "wipe p = p\<lparr>rgHealthStatus := True, rgLastHealthCheck := 0\<rparr>"

definition wiped :: "(string \<rightharpoonup> RegisteredProvider) \<Rightarrow> (string \<rightharpoonup> RegisteredProvider)" where
  "wiped ps = (\<lambda>n. map_option wipe (ps n))"

definition unprobed :: "ProviderRegistry \<Rightarrow> ProviderRegistry" where
  "unprobed r = r\<lparr>prProviders := wiped (prProviders r)\<rparr>"

lemma wipe_sel [simp]: "rgConfig (wipe p) = rgConfig p" "rgCircuitBreaker (wipe p) = rgCircuitBreaker p"
  by (simp_all add: wipe_def)

lemma wiped_upd:
  "(wiped ps)(n \<mapsto> (wipe p)\<lparr>rgCircuitBreaker := cb\<rparr>) = wiped (ps(n \<mapsto> p\<lparr>rgCircuitBreaker := cb\<rparr>))"
  by (auto simp: wiped_def wipe_def)

lemma wiped_entry:
  "ps n = Some p \<Longrightarrow> wiped ps n = Some (wipe p)" "ps n = None \<Longrightarrow> wiped ps n = None"
  by (simp_all add: wiped_def)

lemma healthy_loop_wiped: "healthy_loop now ns (wiped ps) = map_option (apfst wiped) (healthy_loop now ns ps)"
proof (induction ns arbitrary: ps)
  case (Cons n ns)
  have "healthy_loop now ns ((wiped ps)(n \<mapsto> (wipe p)\<lparr>rgCircuitBreaker := cb\<rparr>))
      = map_option (apfst wiped) (healthy_loop now ns (ps(n \<mapsto> p\<lparr>rgCircuitBreaker := cb\<rparr>)))" for p cb
    by (simp only: wiped_upd Cons.IH)
  then show ?case using Cons.IH[of ps] by (cases "ps n") (auto simp: wiped_entry Let_def split: option.splits prod.splits)
qed simp

lemma GetHealthyProviders_unprobed:
  "GetHealthyProviders now (unprobed r) = map_option (apfst unprobed) (GetHealthyProviders now r)"
  by (auto simp: GetHealthyProviders_def unprobed_def healthy_loop_wiped split: option.splits)

lemma shouldRetry_wipe [simp]: "shouldRetry fc err retry (wipe p) = shouldRetry fc err retry p"
  "getMaxRetriesForProvider fc (wipe p) = getMaxRetriesForProvider fc p"
  by (simp_all add: shouldRetry_def getMaxRetriesForProvider_def)

lemma retry_loop_wipe [simp]: "retry_loop fc env req (wipe p) retries cb a e = retry_loop fc env req p retries cb a e"
  by (induction retries arbitrary: cb a e) (auto simp: Let_def split: prod.splits sum.splits option.splits)

lemma provider_loop_wiped:
  "provider_loop fc env req names (wiped ps) a e = map_option (apfst wiped) (provider_loop fc env req names ps a e)"
proof (induction names arbitrary: ps a e)
  case (Cons name names)
  have "provider_loop fc env req names ((wiped ps)(name \<mapsto> (wipe p)\<lparr>rgCircuitBreaker := cb\<rparr>)) m x
      = map_option (apfst wiped) (provider_loop fc env req names (ps(name \<mapsto> p\<lparr>rgCircuitBreaker := cb\<rparr>)) m x)" for p cb m x
    by (simp only: wiped_upd Cons.IH)
  then show ?case
    by (cases "ps name") (auto simp: wiped_entry wiped_upd Let_def split: prod.splits provider_end.splits)
qed simp

lemma registry_supports_unprobed [simp]: "registry_supports (unprobed r) m = registry_supports r m"
  by (rule ext) (auto simp: registry_supports_def unprobed_def wiped_def supportsModel_def split: option.splits)

lemma provider_attempts_unprobed [simp]: "provider_attempts L (unprobed r) env = provider_attempts L r env"
  unfolding provider_attempts_def
  by (rule arg_cong[where f = "\<lambda>f. env\<lparr>aeComplete := f\<rparr>"]) (auto simp: unprobed_def wiped_def fun_eq_iff cong: sum.case_cong split: option.splits)

text \<open>The fallback chain refines itself over registries without health.\<close>

lemma ExecuteWithFallback_unprobed:
  "ExecuteWithFallback fc env req (unprobed r) = map_option (apfst unprobed) (ExecuteWithFallback fc env req r)"
proof -
  have u: "prProviders (unprobed q) = wiped (prProviders q)" "(unprobed q)\<lparr>prProviders := wiped ps\<rparr> = unprobed (q\<lparr>prProviders := ps\<rparr>)"
    for q ps by (simp_all add: unprobed_def)
  show ?thesis
  proof (cases "GetHealthyProviders (aeStart env) r")
    case (Some x)
    then show ?thesis
      by (cases x) (auto simp: ExecuteWithFallback_def GetHealthyProviders_unprobed Let_def u(1) provider_loop_wiped u(2)
          split: option.splits prod.splits provider_end.splits)
  qed (simp add: ExecuteWithFallback_def GetHealthyProviders_unprobed)
qed

lemma health_round_unprobed [simp]: "unprobed (health_round H env n r) = unprobed r"
  by (rule ProviderRegistry.equality)
    (auto simp: unprobed_def health_round_def RunHealthChecks_def wiped_def checkProviderHealth_def wipe_def fun_eq_iff
      split: option.splits)

lemma ExecuteWithFallback_probes:
  assumes "unprobed r = unprobed r'"
  shows "map_option (apfst unprobed) (ExecuteWithFallback fc (provider_attempts L r a) req r)
    = map_option (apfst unprobed) (ExecuteWithFallback fc (provider_attempts L r' a) req r')"
  using assms provider_attempts_unprobed[of L r a] provider_attempts_unprobed[of L r' a]
  by (simp flip: ExecuteWithFallback_unprobed)

lemma monitored_answers:
  "unprobed r = unprobed r' \<Longrightarrow>
     map_option snd (monitored L env fc es n r) = map_option snd (monitored L env fc (filter (\<lambda>e. \<not> is_Tick e) es) m r')"
proof (induction es arbitrary: n m r r')
  case (Cons e es)
  show ?case
  proof (cases e)
    case Tick
    then show ?thesis using Cons.prems by (simp add: Cons.IH[of "health_round (plHttp L) env n r" r'])
  next
    case (Request a req)
    have eq: "map_option (apfst unprobed) (ExecuteWithFallback fc (provider_attempts L r a) req r)
        = map_option (apfst unprobed) (ExecuteWithFallback fc (provider_attempts L r' a) req r')"
      by (rule ExecuteWithFallback_probes[OF Cons.prems])
    show ?thesis
    proof (cases "ExecuteWithFallback fc (provider_attempts L r a) req r")
      case None
      then show ?thesis using eq Request by simp
    next
      case (Some x)
      obtain r1 y where x: "x = (r1, y)" by (cases x)
      then obtain r2 where r2: "ExecuteWithFallback fc (provider_attempts L r' a) req r' = Some (r2, y)" "unprobed r1 = unprobed r2"
        using eq[symmetric] Some by (auto simp: map_option_eq_Some)
      have "map_option snd (map_option (apsnd ((#) y)) z) = map_option ((#) y) (map_option snd z)"
        for z :: "(ProviderRegistry \<times> (FallbackResult \<times> go_error option) list) option"
        by (cases z) auto
      then show ?thesis using Some x r2 Request Cons.IH[OF r2(2), of n m] by simp
    qed
  qed
qed simp

text \<open>C38: The health checks leave the traffic alone. Whatever ticks of the ticker fall between the requests
  and whatever the services answer to the checks, every request gets the answer, from the same provider
  and after the same attempts, that it gets without any check. In particular a provider that failed its
  last check is still asked: what is called healthy when a provider is selected is its breaker.\<close>

theorem health_checks_do_not_route:
  "map_option snd (monitored L env fc es n r) = map_option snd (monitored L env fc (filter (\<lambda>e. \<not> is_Tick e) es) n r)"
  by (rule monitored_answers) simp

subsection \<open>What is reported\<close>

definition probes :: "(string \<rightharpoonup> RegisteredProvider) \<Rightarrow> (string \<rightharpoonup> ProviderConfig \<times> bool \<times> time)" where
  "probes ps = (\<lambda>n. map_option (\<lambda>p. (rgConfig p, rgHealthStatus p, rgLastHealthCheck p)) (ps n))"

lemma probes_upd: "ps n = Some p \<Longrightarrow> probes (ps(n \<mapsto> p\<lparr>rgCircuitBreaker := cb\<rparr>)) = probes ps"
  by (auto simp: probes_def)

lemma healthy_loop_probes: "healthy_loop now ns ps = Some (ps', hs) \<Longrightarrow> probes ps' = probes ps"
proof (induction ns arbitrary: ps hs)
  case (Cons n ns)
  obtain p where p: "ps n = Some p" using Cons.prems by (cases "ps n") auto
  obtain cb err where cb: "AllowRequest now (rgCircuitBreaker p) = (cb, err)" by (cases "AllowRequest now (rgCircuitBreaker p)")
  show ?case
  proof (cases "pcEnabled (rgConfig p)")
    case True
    then obtain hs' where "healthy_loop now ns (ps(n \<mapsto> p\<lparr>rgCircuitBreaker := cb\<rparr>)) = Some (ps', hs')"
      using Cons.prems p cb by (auto split: option.splits)
    from Cons.IH[OF this] show ?thesis by (simp only: probes_upd[of ps n p cb, OF p])
  qed (use Cons p in simp)
qed simp

lemma provider_loop_probes: "provider_loop fc env req names ps a e = Some (ps', m, x) \<Longrightarrow> probes ps' = probes ps"
proof (induction names arbitrary: ps a e)
  case (Cons name names)
  obtain p where p: "ps name = Some p" using Cons.prems by (cases "ps name") auto
  obtain cb k out where r: "retry_loop fc env req p [0..getMaxRetriesForProvider fc p] (rgCircuitBreaker p) a e = (cb, k, out)"
    by (metis prod_cases3)
  note u = probes_upd[of ps name p cb, OF p]
  show ?case
  proof (cases out)
    case (NextProvider err)
    then have "provider_loop fc env req names (ps(name \<mapsto> p\<lparr>rgCircuitBreaker := cb\<rparr>)) k err = Some (ps', m, x)"
      using Cons.prems p r by simp
    from Cons.IH[OF this] show ?thesis by (simp only: u)
  qed (use Cons.prems p r u in auto)
qed simp

lemma ExecuteWithFallback_keeps_probes:
  assumes "ExecuteWithFallback fc env req r = Some (r', y)"
  shows "probes (prProviders r') = probes (prProviders r)"
proof -
  obtain r1 hs where g: "GetHealthyProviders (aeStart env) r = Some (r1, hs)"
    using assms by (auto simp: ExecuteWithFallback_def split: option.splits)
  then have "probes (prProviders r1) = probes (prProviders r)"
    by (auto simp: GetHealthyProviders_def healthy_loop_probes split: option.splits)
  then show ?thesis using assms g
    by (auto simp: ExecuteWithFallback_def Let_def dest!: provider_loop_probes
        split: option.splits if_splits prod.splits provider_end.splits)
qed

lemma health_round_probes:
  "probes (prProviders (health_round H env n r)) name =
     map_option (\<lambda>(c, h, t). if pcEnabled c then (c, check_outcome H env n c = None, reEnd env n name) else (c, h, t))
       (probes (prProviders r) name)"
  by (auto simp: probes_def health_round_def RunHealthChecks_def checkProviderHealth_def split: option.splits)

text \<open>The entry of a provider after \<open>n\<close> rounds.\<close>

definition probed :: "http_lib \<Rightarrow> round_env \<Rightarrow> ProviderConfig list \<Rightarrow> nat \<Rightarrow> ProviderRegistry \<Rightarrow> bool" where
  "probed H env pcs n r = (\<forall>name c h t. probes (prProviders r) name = Some (c, h, t) \<longrightarrow>
     c \<in> set pcs \<and> pcName c = name \<and> pcEnabled c
     \<and> (case n of 0 \<Rightarrow> h \<and> t = 0 | Suc k \<Rightarrow> h = (check_outcome H env k c = None) \<and> t = reEnd env k name))"

lemma probed_round: "probed H env pcs n r \<Longrightarrow> probed H env pcs (Suc n) (health_round H env n r)"
  by (auto simp: probed_def health_round_probes)

lemma monitored_probed:
  "monitored L env fc es n r = Some (r', out) \<Longrightarrow> probed (plHttp L) env pcs n r
     \<Longrightarrow> probed (plHttp L) env pcs (n + length (filter is_Tick es)) r'"
proof (induction es arbitrary: n r out)
  case (Cons e es)
  show ?case
  proof (cases e)
    case Tick
    then show ?thesis using Cons.IH[of "Suc n"] Cons.prems probed_round by simp
  next
    case (Request a req)
    then obtain r1 y out' where e: "ExecuteWithFallback fc (provider_attempts L r a) req r = Some (r1, y)"
      and m: "monitored L env fc es n r1 = Some (r', out')"
      using Cons.prems(1) by (auto split: option.splits)
    have "probed (plHttp L) env pcs n r1"
      using Cons.prems(2) by (simp add: probed_def ExecuteWithFallback_keeps_probes[OF e])
    from Cons.IH[OF m this] Request show ?thesis by simp
  qed
qed simp

lemma Register_probes:
  "Register pc r = Some r' \<Longrightarrow> probes (prProviders r') = (probes (prProviders r))(pcName pc \<mapsto> (pc, True, 0))"
  by (auto simp: Register_def insertByPriority_def Let_def probes_def split: option.splits)

lemma build_loop_probed:
  "build_loop qs r = Some (Inr r') \<Longrightarrow> probed H env pcs 0 r \<Longrightarrow> set qs \<subseteq> set pcs \<Longrightarrow> probed H env pcs 0 r'"
proof (induction qs arbitrary: r)
  case (Cons q qs)
  show ?case
  proof (cases "pcEnabled q")
    case True
    then obtain r1 where r1: "Register q r = Some r1" "build_loop qs r1 = Some (Inr r')"
      using Cons.prems(1) by (auto split: sum.splits option.splits)
    have "probed H env pcs 0 r1"
      using Cons.prems(2,3) True by (auto simp: probed_def Register_probes[OF r1(1)])
    then show ?thesis using Cons.IH[OF r1(2)] Cons.prems(3) by simp
  qed (use Cons in simp)
qed simp

lemma built_probed:
  assumes "BuildRegistryFromConfig cfg = Some (Inr r)"
  shows "probed H env (rcProviders cfg) 0 r"
proof (rule build_loop_probed)
  show "build_loop (rcProviders cfg) NewProviderRegistry = Some (Inr r)"
    using assms by (auto simp: BuildRegistryFromConfig_def split: option.splits sum.splits if_splits)
  show "probed H env (rcProviders cfg) 0 NewProviderRegistry"
    by (simp add: probed_def probes_def NewProviderRegistry_def)
qed simp

text \<open>The service of a provider answers in the n-th round: \<open>GET /models\<close> of the service of OpenAI, asked with
  the configured key, comes back before the time-out with a status that tells of no refusal, limit or
  failure. The stubs never answer.\<close>

definition service_up :: "http_lib \<Rightarrow> round_env \<Rightarrow> nat \<Rightarrow> ProviderConfig \<Rightarrow> bool" where
  "service_up H env n pc =
     (if pcType pc = ''openai'' then (case newOpenAIProvider pc of POpenAI c \<Rightarrow>
          0 < pcTimeout pc \<and> hlURLOk H (clBaseURL c @ ''/models'')
          \<and> (case hlDo H (reStart env n (pcName pc)) \<lparr> hcMethod = ''GET'', hcURL = clBaseURL c @ ''/models'',
                hcHeaders = [(''Authorization'', ''Bearer '' @ pcAPIKey pc)], hcBody = [], hcTimeout = clTimeout c,
                hcDeadline = Some (reStart env n (pcName pc) + pcTimeout pc) \<rparr> of
               Inl _ \<Rightarrow> False | Inr a \<Rightarrow> haStatus a \<noteq> 401 \<and> haStatus a \<noteq> 429 \<and> haStatus a < 500)
        | _ \<Rightarrow> False)
      else pcType pc = ''mock'')"

lemma check_outcome_up:
  assumes "deadlines_kept H" and "pcEnabled pc"
  shows "check_outcome H env n pc = None \<longleftrightarrow> service_up H env n pc"
proof (cases "pcType pc = ''openai''")
  case True
  define c where "c = OpenAI_NewClient (pcAPIKey pc) (if pcBaseURL pc = [] then ''https://api.openai.com/v1'' else pcBaseURL pc)
       (if pcTimeout pc \<le> 0 then 30 * second else pcTimeout pc) (pcModels pc)"
  let ?now = "reStart env n (pcName pc)"
  let ?call = "\<lparr> hcMethod = ''GET'', hcURL = clBaseURL c @ ''/models'', hcHeaders = [(''Authorization'', ''Bearer '' @ pcAPIKey pc)],
    hcBody = [], hcTimeout = clTimeout c, hcDeadline = Some (?now + pcTimeout pc) \<rparr>"
  have k: "clApiKey c = pcAPIKey pc" by (simp add: c_def OpenAI_NewClient_def Let_def)
  have "check_outcome H env n pc = OpenAI_HealthCheck H (check_ctx env n pc) c"
    using True by (simp add: check_outcome_def create_provider_def newOpenAIProvider_def c_def)
  also have "\<dots> = (if \<not> hlURLOk H (clBaseURL c @ ''/models'') then Some ErrProviderUnavailable else case hlDo H ?now ?call of
      Inl _ \<Rightarrow> Some ErrProviderTimeout
    | Inr a \<Rightarrow> if haStatus a = 401 then Some ErrProviderAuthFailed else if haStatus a = 429 then Some ErrProviderRateLimited
        else if haStatus a \<ge> 500 then Some ErrProviderUnavailable else None)"
    by (simp add: OpenAI_HealthCheck_def check_ctx_def k)
  finally have o: "check_outcome H env n pc = \<dots>" .
  have t: "\<exists>e. hlDo H ?now ?call = Inl e" if "\<not> 0 < pcTimeout pc"
    using that assms(1)[unfolded deadlines_kept_def, rule_format, of ?call "?now + pcTimeout pc" ?now] by simp
  have "service_up H env n pc = (0 < pcTimeout pc \<and> hlURLOk H (clBaseURL c @ ''/models'')
      \<and> (case hlDo H ?now ?call of Inl _ \<Rightarrow> False | Inr a \<Rightarrow> haStatus a \<noteq> 401 \<and> haStatus a \<noteq> 429 \<and> haStatus a < 500))"
    using True by (simp add: service_up_def newOpenAIProvider_def flip: c_def)
  then show ?thesis unfolding o using t by (cases "0 < pcTimeout pc") (auto split: sum.splits)
next
  case False
  then show ?thesis using assms(2)
    by (auto simp: check_outcome_def service_up_def create_provider_def newAnthropicProvider_def newOllamaProvider_def
        newMockProvider_def Anthropic_HealthCheck_def Ollama_HealthCheck_def Mock_HealthCheck_def NewMockProvider_def
        Mock_SetFixedLatency_def Let_def)
qed

text \<open>C37: The statistics tell what the last check found. After any traffic with any ticks between its requests
  every provider of the statistics is an enabled one of the configuration, with its type, priority and
  models; before the first round it counts as healthy, and from then on exactly if its service answered
  in the last round, whose end is the time that is reported.\<close>

theorem health_reported:
  assumes "BuildRegistryFromConfig cfg = Some (Inr r)" and "deadlines_kept (plHttp L)"
    and "monitored L env fc es 0 r = Some (r', out)" and "GetProviderStats r' name = Some st"
  shows "\<exists>pc \<in> set (rcProviders cfg). pcName pc = name \<and> pcEnabled pc
    \<and> paName st = name \<and> paEnabled st \<and> paType st = pcType pc \<and> paPriority st = pcPriority pc \<and> paModels st = pcModels pc
    \<and> (case length (filter is_Tick es) of
         0 \<Rightarrow> paHealthy st
       | Suc n \<Rightarrow> paLastHealthCheck st = reEnd env n name \<and> paHealthy st = service_up (plHttp L) env n pc)"
proof -
  obtain p where p: "prProviders r' name = Some p" and st: "paHealthy st = rgHealthStatus p" "paLastHealthCheck st = rgLastHealthCheck p"
    "paName st = name" "paEnabled st = pcEnabled (rgConfig p)" "paType st = pcType (rgConfig p)"
    "paPriority st = pcPriority (rgConfig p)" "paModels st = pcModels (rgConfig p)"
    using assms(4) by (auto simp: GetProviderStats_def)
  have "probed (plHttp L) env (rcProviders cfg) (0 + length (filter is_Tick es)) r'"
    by (rule monitored_probed[OF assms(3) built_probed[OF assms(1)]])
  moreover have "probes (prProviders r') name = Some (rgConfig p, rgHealthStatus p, rgLastHealthCheck p)"
    by (simp add: probes_def p)
  ultimately have "rgConfig p \<in> set (rcProviders cfg)" "pcName (rgConfig p) = name" "pcEnabled (rgConfig p)"
    and h: "case length (filter is_Tick es) of 0 \<Rightarrow> rgHealthStatus p \<and> rgLastHealthCheck p = 0
      | Suc k \<Rightarrow> rgHealthStatus p = (check_outcome (plHttp L) env k (rgConfig p) = None) \<and> rgLastHealthCheck p = reEnd env k name"
    unfolding probed_def by fastforce+
  then show ?thesis using st check_outcome_up[OF assms(2), of "rgConfig p"]
    by (intro bexI[of _ "rgConfig p"]) (auto split: nat.splits)
qed

definition demo_rounds :: round_env where
  "demo_rounds = \<lparr> reStart = (\<lambda>n name. 30 * int n), reEnd = (\<lambda>n name. 30 * int n + 1) \<rparr>"

definition demo_traffic :: "traffic list" where
  "demo_traffic = [Tick, Request demo_attempts demo_model_request, Tick]"

text \<open>A service that answers with 503 is reported as down, and is asked all the same.\<close>

theorem health_reported_witness:
  "\<exists>r r' out st. BuildRegistryFromConfig demo_oai_router = Some (Inr r)
     \<and> monitored (demo_model_service 503) demo_rounds (NewFallbackChain demo_router) demo_traffic 0 r = Some (r', out)
     \<and> GetProviderStats r' ''a'' = Some st \<and> paType st = ''openai'' \<and> \<not> paHealthy st \<and> paLastHealthCheck st = 31"
proof -
  let ?m = "\<lambda>r. monitored (demo_model_service 503) demo_rounds (NewFallbackChain demo_router) demo_traffic 0 r"
  obtain r where r: "BuildRegistryFromConfig demo_oai_router = Some (Inr r)"
  proof -
    have "case BuildRegistryFromConfig demo_oai_router of Some (Inr r) \<Rightarrow> True | _ \<Rightarrow> False" by code_simp
    then show thesis using that by (auto split: option.splits sum.splits)
  qed
  have "(case BuildRegistryFromConfig demo_oai_router of Some (Inr r) \<Rightarrow>
      map_option (\<lambda>(r', out). map_option (\<lambda>st. (paType st, paHealthy st)) (GetProviderStats r' ''a'')) (?m r)
    | _ \<Rightarrow> None) = Some (Some (''openai'', False))" by code_simp
  then obtain r' out st where m: "?m r = Some (r', out)" and st: "GetProviderStats r' ''a'' = Some st"
    and h: "paType st = ''openai''" "\<not> paHealthy st"
    by (auto simp: r map_option_eq_Some)
  have "length (filter is_Tick demo_traffic) = Suc 1" by (simp add: demo_traffic_def)
  then have "paLastHealthCheck st = 31"
    using health_reported[OF r demo_model_service_deadlines m st] by (auto simp: demo_rounds_def)
  then show ?thesis using r m st h by blast
qed

end
