(* ===== verification/Spec2Isabelle.thy ===== *)
theory Spec2Isabelle
  imports DelegationMiddleware Orchestrator Review RateLimit ToolStore ToolRuntime ChatHandler AdminApi ReviewApi AuthApi AuditApi ToolApi Startup Health
begin

text \<open>
  Verification of the agent gateway: the plan and the parts modelled so far.
\<close>

end
